(* ===== verification/Prelude.thy ===== *)
theory Prelude
  imports Main "HOL-Library.Word" "HOL-Library.State_Monad"
begin

text \<open>
  What the component theories share. Native code in this repository is glue: it calls other
  libraries (the Java VM, the .NET engine, llama.cpp, ONNX Runtime) and acts on what they answer.
  Such a library is a parameter of the model, a function from the call made and the library's own
  state to an answer and a next state. Here are the world that carries the library's state with the
  log of the calls made so far, the operation \<open>perform\<close> that makes one call and records it, and the
  lemmas that compute runs of stateful programs and count events in their logs.
\<close>

unbundle bit_operations_syntax

named_theorems run_simps \<open>rewrites that execute stateful programs\<close>
named_theorems count_simps \<open>rewrites that count events in a log\<close>

section \<open>Pointers and C strings\<close>

text \<open>
  An object reference or address is a natural number and 0 is \<open>NULL\<close>. A \<open>const char*\<close> is \<open>None\<close>
  for \<open>NULL\<close>, and otherwise its address with the bytes before the terminating NUL.
\<close>

type_synonym ref = nat
type_synonym addr = nat
type_synonym char_ptr = "(addr \<times> string) option"

abbreviation (input) NULL :: nat where "NULL \<equiv> 0"

section \<open>The world of a program that calls an external library\<close>

record ('s, 'c, 'r) world =
  ext_state :: 's
  log :: "('c \<times> 'r) list"

type_synonym ('s, 'c, 'r) extern = "'c \<Rightarrow> 's \<Rightarrow> 'r \<times> 's"

definition perform :: "('s, 'c, 'r) extern \<Rightarrow> 'c \<Rightarrow> (('s, 'c, 'r, 'z) world_scheme, 'r) state" where
  "perform E c = State (\<lambda>w. case E c (ext_state w) of (r, e) \<Rightarrow>
     (r, w\<lparr>ext_state := e, log := log w @ [(c, r)]\<rparr>))"

definition performs :: "('s, 'c, 'r) extern \<Rightarrow> 'c \<Rightarrow> (('s, 'c, 'r, 'z) world_scheme, unit) state" where
  "performs E c = do { _ \<leftarrow> perform E c; State_Monad.return () }"

definition modify :: "('w \<Rightarrow> 'w) \<Rightarrow> ('w, unit) state" where
  "modify f = State (\<lambda>w. ((), f w))"

definition gets :: "('w \<Rightarrow> 'a) \<Rightarrow> ('w, 'a) state" where
  "gets f = State (\<lambda>w. (f w, w))"

definition when_m :: "bool \<Rightarrow> ('w, unit) state \<Rightarrow> ('w, unit) state" where
  "when_m b m = (if b then m else State_Monad.return ())"

definition exec :: "('w, 'a) state \<Rightarrow> 'w \<Rightarrow> 'w" where
  "exec m w = snd (run_state m w)"

definition result :: "('w, 'a) state \<Rightarrow> 'w \<Rightarrow> 'a" where
  "result m w = fst (run_state m w)"

lemma run_perform [run_simps]:
  "run_state (perform E c) w =
     (fst (E c (ext_state w)),
      w\<lparr>ext_state := snd (E c (ext_state w)), log := log w @ [(c, fst (E c (ext_state w)))]\<rparr>)"
  by (simp add: perform_def split_beta)

lemma run_performs [run_simps]:
  "run_state (performs E c) w =
     ((), w\<lparr>ext_state := snd (E c (ext_state w)), log := log w @ [(c, fst (E c (ext_state w)))]\<rparr>)"
  by (simp add: performs_def run_perform)

lemma run_modify [run_simps]: "run_state (modify f) w = ((), f w)"
  by (simp add: modify_def)

lemma run_gets [run_simps]: "run_state (gets f) w = (f w, w)"
  by (simp add: gets_def)

lemma run_when [run_simps]: "run_state (when_m b m) w = (if b then run_state m w else ((), w))"
  by (simp add: when_m_def)

lemma run_bind [run_simps]:
  "run_state (State_Monad.bind m f) w =
     run_state (f (fst (run_state m w))) (snd (run_state m w))"
  by (simp add: split_beta)

lemma exec_bind [run_simps]: "exec (State_Monad.bind m f) w = exec (f (result m w)) (exec m w)"
  by (simp add: exec_def result_def split_beta)

lemma result_bind [run_simps]: "result (State_Monad.bind m f) w = result (f (result m w)) (exec m w)"
  by (simp add: exec_def result_def split_beta)

lemma exec_return [run_simps]: "exec (State_Monad.return x) w = w"
  by (simp add: exec_def)

lemma result_return [run_simps]: "result (State_Monad.return x) w = x"
  by (simp add: result_def)

lemma exec_perform [run_simps]:
  "exec (perform E c) w =
     w\<lparr>ext_state := snd (E c (ext_state w)), log := log w @ [(c, fst (E c (ext_state w)))]\<rparr>"
  by (simp add: exec_def run_perform)

lemma result_perform [run_simps]: "result (perform E c) w = fst (E c (ext_state w))"
  by (simp add: result_def run_perform)

lemma exec_performs [run_simps]: "exec (performs E c) w = exec (perform E c) w"
  by (simp add: exec_def run_perform run_performs)

lemma exec_modify [run_simps]: "exec (modify f) w = f w"
  by (simp add: exec_def run_modify)

lemma exec_gets [run_simps]: "exec (gets f) w = w" "result (gets f) w = f w"
  by (simp_all add: exec_def result_def run_gets)

lemma exec_when [run_simps]: "exec (when_m b m) w = (if b then exec m w else w)"
  by (simp add: exec_def run_when)

lemma exec_if [run_simps]:
  "exec (if b then m else n) w = (if b then exec m w else exec n w)"
  "result (if b then m else n) w = (if b then result m w else result n w)"
  by simp_all

section \<open>Counting events in a log\<close>

text \<open>\<open>events P l\<close> is the number of entries of the log \<open>l\<close> that satisfy \<open>P\<close>.\<close>

definition events :: "('c \<Rightarrow> 'r \<Rightarrow> bool) \<Rightarrow> ('c \<times> 'r) list \<Rightarrow> nat" where
  "events P l = length (filter (\<lambda>(c, r). P c r) l)"

lemma events_Nil [count_simps, simp]: "events P [] = 0"
  by (simp add: events_def)

lemma events_Cons [count_simps, simp]:
  "events P ((c, r) # l) = (if P c r then Suc (events P l) else events P l)"
  by (simp add: events_def)

lemma events_append [count_simps, simp]: "events P (l @ k) = events P l + events P k"
  by (simp add: events_def)

text \<open>The calls made by a run: what it appended to the log.\<close>

definition emitted :: "(('s, 'c, 'r, 'z) world_scheme, 'a) state \<Rightarrow> ('s, 'c, 'r, 'z) world_scheme
    \<Rightarrow> ('c \<times> 'r) list" where
  "emitted m w = drop (length (log w)) (log (exec m w))"

section \<open>Machine words as numbers\<close>

lemma unat_and_mask: "unat (w AND mask n :: 'a::len word) = unat w mod 2 ^ n"
proof -
  have "unat (take_bit n w) = take_bit n (unat w)" by (rule unsigned_take_bit_eq)
  then show ?thesis by (simp only: take_bit_eq_mask [symmetric] take_bit_nat_def)
qed

lemma unat_ucast: "unat (ucast (w :: 'a::len word) :: 'b::len word) = unat w mod 2 ^ LENGTH('b)"
  by (simp only: unsigned_ucast_eq take_bit_nat_def)

lemma unat_push_bit: "unat (push_bit n (w :: 'a::len word)) = unat w * 2 ^ n mod 2 ^ LENGTH('a)"
  by (simp only: unsigned_push_bit_eq take_bit_nat_def push_bit_nat_def)

lemma unat_drop_bit: "unat (drop_bit n (w :: 'a::len word)) = unat w div 2 ^ n"
  by (simp only: unat_drop_bit_eq drop_bit_nat_def)

lemma bit_odd_unat: "bit (w :: 'a::len word) n = odd (unat w div 2 ^ n)"
proof -
  have "bit (unat w) n = bit w n" by (simp add: bit_simps)
  then show ?thesis by (simp only: bit_iff_odd [of "unat w"])
qed

lemma top_bit_unat:
  assumes "LENGTH('a) = Suc n" shows "bit (w :: 'a::len word) n = (unat w \<ge> 2 ^ n)"
proof -
  have "unat w < 2 * 2 ^ n" using unsigned_less [of w, where ?'a = nat] assms by simp
  then have "unat w div 2 ^ n < 2" by (simp add: less_mult_imp_div_less)
  then have "unat w div 2 ^ n = 0 \<or> unat w div 2 ^ n = 1" by linarith
  moreover have "unat w div 2 ^ n = 0 \<longleftrightarrow> unat w < 2 ^ n" by (simp only: div_eq_0_iff) simp
  ultimately show ?thesis by (auto simp: bit_odd_unat)
qed

lemma xor_and_not: "(v :: 'a::len word) XOR (v AND NOT (mask n)) = v AND mask n"
  by (rule bit_word_eqI) (auto simp: bit_simps)

lemma unat_or_disjoint: "a AND b = 0 \<Longrightarrow> unat (a :: 'a::len word) + unat b < 2 ^ LENGTH('a) \<Longrightarrow>
    unat (a OR b) = unat a + unat b"
  by (simp add: disjunctive_add_eq_or [symmetric] unat_word_ariths)

lemma and_high: "unat (a :: 'a::len word) < 2 ^ n \<Longrightarrow> a AND NOT (mask n) = 0"
proof -
  assume "unat a < 2 ^ n"
  then have "unat (a AND mask n) = unat a" by (simp add: unat_and_mask)
  then have "a AND mask n = a" by (simp add: word_unat_eq_iff)
  then have "a AND NOT (mask n) = (a AND mask n) AND NOT (mask n)" by simp
  also have "\<dots> = 0" by (rule bit_word_eqI) (auto simp: bit_simps)
  finally show ?thesis .
qed

lemma and_push_bit_1: "(v :: 'a::len word) AND push_bit n 1 = (if bit v n then push_bit n 1 else 0)"
  by (rule bit_word_eqI) (auto simp: bit_simps)

lemma and_field: "(w :: 'a::len word) AND push_bit n (mask k) = push_bit n (take_bit k (drop_bit n w))"
  by (rule bit_word_eqI) (auto simp: bit_simps)

end
