(* ===== verification/Dni_Abi.thy ===== *)
theory Dni_Abi
  imports Prelude
begin

text \<open>
  The C ABI of the NativeAOT library (\<^verbatim>\<open>src/core/DotnetNativeInterop.NativeBridge/abi/dni.h\<close>) and
  the gate probes (\<^verbatim>\<open>dni_gate_probe.h\<close>): the status codes, the two callback types, and one
  constructor per exported function with its parameters. The library behind the ABI answers a call
  with an integer (a status, a port or a session id) or with a heap string.
\<close>

section \<open>Status codes\<close>

definition DNI_OK :: int where "DNI_OK = 0"
definition DNI_NOT_INITIALIZED :: int where "DNI_NOT_INITIALIZED = -1"
definition DNI_INVALID_ARGUMENT :: int where "DNI_INVALID_ARGUMENT = -2"
definition DNI_UNKNOWN_SESSION :: int where "DNI_UNKNOWN_SESSION = -3"
definition DNI_ALREADY_RUNNING :: int where "DNI_ALREADY_RUNNING = -4"
definition DNI_INTERNAL :: int where "DNI_INTERNAL = -5"

lemmas dni_status_defs = DNI_OK_def DNI_NOT_INITIALIZED_def DNI_INVALID_ARGUMENT_def
  DNI_UNKNOWN_SESSION_def DNI_ALREADY_RUNNING_def DNI_INTERNAL_def

section \<open>Callbacks\<close>

text \<open>
  A callback is passed as a function pointer; the JNI shim passes one of its two functions, so the
  model names them. A delivery is the argument list of one invocation, without the user data.
\<close>

datatype dni_callback = ffi_token_callback_ptr | ffi_trace_callback_ptr

record token_cb_args =
  tok_index :: int
  tok_text :: char_ptr
  tok_is_final :: int

record trace_cb_args = token_cb_args +
  tr_managed_thread_id :: int
  tr_elapsed_us :: int

section \<open>Exports\<close>

datatype dni_call =
    dni_initialize
  | dni_shutdown
  | dni_session_start char_ptr int "32 word" dni_callback addr
  | dni_session_cancel int
  | dni_session_free int
  | dni_features_json
  | dni_feature_run char_ptr
  | dni_string_free addr
  | dni_http_start
  | dni_http_stop
  | dni_broker_start char_ptr
  | dni_broker_stop
  | dni_sqlite_features
  | dni_sqlite_run char_ptr
  | dni_engine_stats
  | dni_search char_ptr char_ptr
  | dni_set_assets_dir char_ptr
  | dni_rag_session_start char_ptr int "32 word" dni_callback addr
  | dni_sqlite_rag char_ptr
  | dni_ffi_echo char_ptr int
  | dni_ffi_throw
  | dni_ffi_stream_start char_ptr int dni_callback addr
  | dni_trace_drain
  | dni_log_drain
  | dni_pb_start int
  | dni_pb_stop
  | dni_agent_session_start char_ptr dni_callback addr
  | dni_sqlite_probe char_ptr
  | dni_llama_probe char_ptr

text \<open>The exports whose result is a heap string that the caller releases with \<open>dni_string_free\<close>.\<close>

fun returns_string :: "dni_call \<Rightarrow> bool" where
  "returns_string dni_features_json = True"
| "returns_string (dni_feature_run _) = True"
| "returns_string dni_sqlite_features = True"
| "returns_string (dni_sqlite_run _) = True"
| "returns_string dni_engine_stats = True"
| "returns_string (dni_search _ _) = True"
| "returns_string (dni_sqlite_rag _) = True"
| "returns_string (dni_ffi_echo _ _) = True"
| "returns_string dni_ffi_throw = True"
| "returns_string dni_trace_drain = True"
| "returns_string dni_log_drain = True"
| "returns_string (dni_sqlite_probe _) = True"
| "returns_string (dni_llama_probe _) = True"
| "returns_string _ = False"

end
