(* ===== verification/Inference_Token.thy ===== *)
theory Inference_Token
  imports Main
begin

text \<open>
  The tokens of an inference, \<^verbatim>\<open>src/core/DotnetNativeInterop.Engine/InferenceToken.cs\<close> and \<^verbatim>\<open>InferenceOrchestrator.cs\<close>:
  \<open>RunAsync\<close> numbers the fragments of the model from 0 and appends an empty final marker with the next number.
\<close>

record InferenceToken =
  Index :: int
  Text :: string
  IsFinal :: bool

definition Final :: "int \<Rightarrow> InferenceToken" where
  "Final i = \<lparr>Index = i, Text = '''', IsFinal = True\<rparr>"

fun run_tokens :: "int \<Rightarrow> string list \<Rightarrow> InferenceToken list" where
  "run_tokens i [] = [Final i]"
| "run_tokens i (f # fs) = \<lparr>Index = i, Text = f, IsFinal = False\<rparr> # run_tokens (i + 1) fs"

definition RunAsync :: "string list \<Rightarrow> InferenceToken list" where
  "RunAsync fragments = run_tokens 0 fragments"

lemma run_tokens_split:
  "\<exists>ts. run_tokens i fs = ts @ [Final (i + int (length fs))] \<and> (\<forall>t \<in> set ts. \<not> IsFinal t) \<and>
     length ts = length fs"
proof (induction fs arbitrary: i)
  case (Cons f fs)
  from Cons [of "i + 1"] obtain ts where "run_tokens (i + 1) fs = ts @ [Final (i + 1 + int (length fs))]"
    "\<forall>t \<in> set ts. \<not> IsFinal t" "length ts = length fs" by blast
  then show ?case
    by (intro exI [of _ "\<lparr>Index = i, Text = f, IsFinal = False\<rparr> # ts"]) (simp add: algebra_simps)
qed simp

end
