(* ===== verification/Inference_Session.thy ===== *)
theory Inference_Session
  imports Inference_Token "HOL-Library.Sublist"
begin

text \<open>
  A running inference, \<^verbatim>\<open>src/core/DotnetNativeInterop.Engine/InferenceSession.cs\<close>: the pump task moves the tokens of
  \<open>RunAsync\<close> into a bounded channel, the drain task of the export (\<^verbatim>\<open>Exports.Ffi.cs\<close>) takes them out and calls back,
  and any thread may cancel or dispose the session. The tasks interleave, so the session is a state machine with one
  rule per await of the code. The theorems: under every interleaving no token is lost, duplicated or reordered and the
  channel never holds more than its capacity; every run is finite and a session at rest has ended its drain; a session
  that was not cancelled delivers everything; disposal stops the pump but not the drain.
\<close>

section \<open>State\<close>

text \<open>What the model does: the fragments it yields, and then its stream completes or throws.\<close>

datatype model_end = Completes | Throws string

record model_run =
  fragments :: "string list"
  ending :: model_end

definition orchestrated :: "model_run \<Rightarrow> InferenceToken list" where
  "orchestrated m = (case ending m of Completes \<Rightarrow> RunAsync (fragments m) | Throws e \<Rightarrow> butlast (RunAsync (fragments m)))"

text \<open>The pump waits for the model, is about to write a token, waits for room for it, or has returned. The channel is
  open or completed, with the exception of the model if there was one.\<close>

datatype pump_state = Pulling | Writing InferenceToken | Pending InferenceToken | Stopped
datatype channel_state = Open | Completed "string option"
datatype drain_state = Reading | Ended | Aborted string
datatype disposal_state = Live | Disposing | Disposed

record session =
  capacity :: nat
  todo :: "InferenceToken list"
  at_end :: model_end
  pump :: pump_state
  queue :: "InferenceToken list"
  channel :: channel_state
  cancelled :: bool
  disposal :: disposal_state
  drain :: drain_state
  received :: "InferenceToken list"

definition Start :: "model_run \<Rightarrow> nat \<Rightarrow> session" where
  "Start m cap = \<lparr>capacity = cap, todo = orchestrated m, at_end = ending m, pump = Pulling, queue = [], channel = Open,
     cancelled = False, disposal = Live, drain = Reading, received = []\<rparr>"

section \<open>Steps\<close>

text \<open>\<open>writer.TryComplete\<close> at the end of the pump: after the stream, after an \<open>OperationCanceledException\<close> (no
  exception for the reader) or after any other exception.\<close>

definition complete :: "string option \<Rightarrow> session \<Rightarrow> session" where
  "complete ex s = s\<lparr>pump := Stopped, channel := Completed ex\<rparr>"

definition enqueue :: "InferenceToken \<Rightarrow> session \<Rightarrow> session" where
  "enqueue t s = s\<lparr>pump := Pulling, queue := queue s @ [t]\<rparr>"

text \<open>\<open>PumpAsync\<close>. \<open>MoveNextAsync\<close> yields a token, ends, throws, or observes the cancellation; \<open>WriteAsync\<close> refuses when the
  token is already cancelled, writes when there is room, and otherwise waits until the drain makes room or the
  cancellation wakes it up.\<close>

inductive pump_step :: "session \<Rightarrow> session \<Rightarrow> bool" where
  pull: "pump s = Pulling \<Longrightarrow> todo s = t # ts \<Longrightarrow> pump_step s (s\<lparr>todo := ts, pump := Writing t\<rparr>)"
| finish: "pump s = Pulling \<Longrightarrow> todo s = [] \<Longrightarrow> at_end s = Completes \<Longrightarrow> pump_step s (complete None s)"
| fault: "pump s = Pulling \<Longrightarrow> todo s = [] \<Longrightarrow> at_end s = Throws e \<Longrightarrow> pump_step s (complete (Some e) s)"
| pull_cancelled: "pump s = Pulling \<Longrightarrow> cancelled s \<Longrightarrow> pump_step s (complete None s)"
| put: "pump s = Writing t \<Longrightarrow> \<not> cancelled s \<Longrightarrow> length (queue s) < capacity s \<Longrightarrow> pump_step s (enqueue t s)"
| block: "pump s = Writing t \<Longrightarrow> \<not> cancelled s \<Longrightarrow> \<not> length (queue s) < capacity s \<Longrightarrow> pump_step s (s\<lparr>pump := Pending t\<rparr>)"
| put_cancelled: "pump s = Writing t \<Longrightarrow> cancelled s \<Longrightarrow> pump_step s (complete None s)"
| resume: "pump s = Pending t \<Longrightarrow> length (queue s) < capacity s \<Longrightarrow> pump_step s (enqueue t s)"
| pending_cancelled: "pump s = Pending t \<Longrightarrow> cancelled s \<Longrightarrow> pump_step s (complete None s)"

text \<open>\<open>DrainAsync\<close>: \<open>ReadAllAsync\<close> gives what the channel holds, then ends or throws with the channel's completion.\<close>

inductive drain_step :: "session \<Rightarrow> session \<Rightarrow> bool" where
  read: "drain s = Reading \<Longrightarrow> queue s = t # q \<Longrightarrow> drain_step s (s\<lparr>queue := q, received := received s @ [t]\<rparr>)"
| read_end: "drain s = Reading \<Longrightarrow> queue s = [] \<Longrightarrow> channel s = Completed None \<Longrightarrow> drain_step s (s\<lparr>drain := Ended\<rparr>)"
| read_fault: "drain s = Reading \<Longrightarrow> queue s = [] \<Longrightarrow> channel s = Completed (Some e) \<Longrightarrow> drain_step s (s\<lparr>drain := Aborted e\<rparr>)"

text \<open>\<open>Cancel\<close> (on a session that is already cancelled or disposed it changes nothing) and the two halves of
  \<open>DisposeAsync\<close> around its wait for the pump.\<close>

inductive client_step :: "session \<Rightarrow> session \<Rightarrow> bool" where
  cancel: "\<not> cancelled s \<Longrightarrow> disposal s \<noteq> Disposed \<Longrightarrow> client_step s (s\<lparr>cancelled := True\<rparr>)"
| dispose: "disposal s = Live \<Longrightarrow> client_step s (s\<lparr>cancelled := True, disposal := Disposing\<rparr>)"
| disposed: "disposal s = Disposing \<Longrightarrow> pump s = Stopped \<Longrightarrow> client_step s (s\<lparr>disposal := Disposed\<rparr>)"

definition session_step :: "session \<Rightarrow> session \<Rightarrow> bool" where
  "session_step s s' \<longleftrightarrow> pump_step s s' \<or> drain_step s s' \<or> client_step s s'"

text \<open>Runs, with their length.\<close>

inductive run :: "session \<Rightarrow> nat \<Rightarrow> session \<Rightarrow> bool" where
  run_refl: "run s 0 s"
| run_step: "run s n s' \<Longrightarrow> session_step s' s'' \<Longrightarrow> run s (Suc n) s''"

definition reachable :: "model_run \<Rightarrow> nat \<Rightarrow> session \<Rightarrow> bool" where
  "reachable m cap s \<longleftrightarrow> (\<exists>n. run (Start m cap) n s)"

inductive_cases pump_stepE: "pump_step s s'"
inductive_cases drain_stepE: "drain_step s s'"
inductive_cases client_stepE: "client_step s s'"

lemmas step_elims = pump_stepE drain_stepE client_stepE
lemmas step_defs = complete_def enqueue_def

text \<open>A session is at rest when neither of its tasks can take a step.\<close>

definition at_rest :: "session \<Rightarrow> bool" where
  "at_rest s \<longleftrightarrow> \<not> (\<exists>s'. pump_step s s') \<and> \<not> (\<exists>s'. drain_step s s')"

section \<open>The stream\<close>

text \<open>The token between the model and the channel.\<close>

definition in_flight :: "session \<Rightarrow> InferenceToken list" where
  "in_flight s = (case pump s of Writing t \<Rightarrow> [t] | Pending t \<Rightarrow> [t] | _ \<Rightarrow> [])"

definition session_inv :: "model_run \<Rightarrow> nat \<Rightarrow> session \<Rightarrow> bool" where
  "session_inv m cap s \<longleftrightarrow> capacity s = cap \<and> ending m = at_end s \<and> length (queue s) \<le> cap \<and>
     (channel s = Open \<longleftrightarrow> pump s \<noteq> Stopped) \<and>
     (disposal s \<noteq> Live \<longrightarrow> cancelled s) \<and> (disposal s = Disposed \<longrightarrow> pump s = Stopped) \<and>
     (pump s \<noteq> Stopped \<longrightarrow> received s @ queue s @ in_flight s @ todo s = orchestrated m) \<and>
     (pump s = Stopped \<longrightarrow> prefix (received s @ queue s) (orchestrated m) \<and>
        (\<not> cancelled s \<longrightarrow> received s @ queue s = orchestrated m \<and>
           channel s = Completed (case at_end s of Completes \<Rightarrow> None | Throws e \<Rightarrow> Some e))) \<and>
     (case drain s of Reading \<Rightarrow> True | Ended \<Rightarrow> queue s = [] \<and> channel s = Completed None
      | Aborted e \<Rightarrow> queue s = [] \<and> channel s = Completed (Some e))"

lemma inv_Start: "session_inv m cap (Start m cap)"
  by (simp add: session_inv_def Start_def in_flight_def)

lemma eq_prefix: "xs @ ys @ zs = us \<Longrightarrow> prefix (xs @ ys) us" "xs @ ys = us \<Longrightarrow> prefix (xs @ ys) us"
  by (auto simp: prefix_def)

lemma inv_pump: "pump_step s s' \<Longrightarrow> session_inv m cap s \<Longrightarrow> session_inv m cap s'"
  by (erule pump_stepE) (auto simp: session_inv_def step_defs in_flight_def eq_prefix split: drain_state.splits)

lemma inv_drain: "drain_step s s' \<Longrightarrow> session_inv m cap s \<Longrightarrow> session_inv m cap s'"
  by (erule drain_stepE) (auto simp: session_inv_def in_flight_def split: drain_state.splits pump_state.splits)

lemma inv_client: "client_step s s' \<Longrightarrow> session_inv m cap s \<Longrightarrow> session_inv m cap s'"
  by (erule client_stepE) (auto simp: session_inv_def in_flight_def split: drain_state.splits pump_state.splits)

lemma inv_run: "run s n s' \<Longrightarrow> session_inv m cap s \<Longrightarrow> session_inv m cap s'"
  by (induction rule: run.induct) (auto simp: session_step_def dest: inv_pump inv_drain inv_client)

lemma inv_reachable: "reachable m cap s \<Longrightarrow> session_inv m cap s"
  using inv_run inv_Start by (auto simp: reachable_def)

section \<open>Every run is finite\<close>

definition pump_weight :: "pump_state \<Rightarrow> nat" where
  "pump_weight p = (case p of Pulling \<Rightarrow> 1 | Writing t \<Rightarrow> 4 | Pending t \<Rightarrow> 3 | Stopped \<Rightarrow> 0)"

definition weight :: "session \<Rightarrow> nat" where
  "weight s = 5 * length (todo s) + pump_weight (pump s) + length (queue s) + of_bool (drain s = Reading) +
     of_bool (\<not> cancelled s) + (case disposal s of Live \<Rightarrow> 2 | Disposing \<Rightarrow> 1 | Disposed \<Rightarrow> 0)"

lemma weight_step: "session_step s s' \<Longrightarrow> weight s' < weight s"
  unfolding session_step_def
  by (elim disjE step_elims) (auto simp: weight_def pump_weight_def step_defs)

lemma weight_run: "run s n s' \<Longrightarrow> n + weight s' \<le> weight s"
proof (induction rule: run.induct)
  case (run_step s n s' s'')
  then show ?case using weight_step [of s' s''] by simp
qed simp

lemma length_orchestrated: "length (orchestrated m) \<le> Suc (length (fragments m))"
proof -
  have "length (RunAsync (fragments m)) = Suc (length (fragments m))"
    using run_tokens_split [of 0 "fragments m"] by (auto simp: RunAsync_def)
  then show ?thesis by (simp add: orchestrated_def split: model_end.splits)
qed

lemma rest_stopped:
  assumes "session_inv m cap s" "0 < cap" "at_rest s"
  shows "pump s = Stopped" "drain s \<noteq> Reading"
proof -
  have r: "\<not> drain_step s s'" "\<not> pump_step s s'" for s' using assms(3) by (auto simp: at_rest_def)
  have q: "queue s = []"
  proof (cases "drain s")
    case Reading
    then show ?thesis using r(1) drain_step.read by (cases "queue s") blast+
  qed (use assms(1) in \<open>auto simp: session_inv_def\<close>)
  show p: "pump s = Stopped"
  proof (cases "pump s")
    case Pulling
    then show ?thesis
      using r(2) pump_step.pull pump_step.finish pump_step.fault by (cases "todo s"; cases "at_end s") blast+
  next
    case (Writing t)
    then show ?thesis using r(2) pump_step.put pump_step.block pump_step.put_cancelled by blast
  next
    case (Pending t)
    have "length (queue s) < capacity s" using q assms(1,2) by (simp add: session_inv_def)
    with Pending show ?thesis using r(2) pump_step.resume by blast
  qed
  then have "channel s \<noteq> Open" using assms(1) by (simp add: session_inv_def)
  then obtain ex where c: "channel s = Completed ex" by (cases "channel s") auto
  show "drain s \<noteq> Reading"
    using q c r(1) drain_step.read_end drain_step.read_fault by (cases ex) blast+
qed

text \<open>C4. Whatever the interleaving, a session takes a number of steps that is bounded by the fragments of its model, and as
  long as one of its tasks can step it can be brought to rest, with its pump returned and its drain ended.\<close>

theorem session_terminates:
  assumes "run (Start m cap) n s" "0 < cap"
  shows "n \<le> 5 * length (fragments m) + 10 \<and>
    (\<exists>k s'. run s k s' \<and> at_rest s' \<and> pump s' = Stopped \<and> drain s' \<noteq> Reading)"
proof -
  have w: "n + weight s \<le> weight (Start m cap)" using assms(1) by (rule weight_run)
  have "weight (Start m cap) \<le> 5 * length (fragments m) + 10"
    using length_orchestrated [of m] by (simp add: weight_def Start_def pump_weight_def)
  then have n: "n \<le> 5 * length (fragments m) + 10" using w by simp
  have "\<exists>k s'. run s k s' \<and> at_rest s'" for s
  proof (induction "weight s" arbitrary: s rule: less_induct)
    case less
    show ?case
    proof (cases "at_rest s")
      case True
      then show ?thesis using run_refl by blast
    next
      case False
      then obtain t where t: "session_step s t" by (auto simp: at_rest_def session_step_def)
      then obtain k s' where k: "run t k s'" "at_rest s'" using less weight_step by blast
      have "run s (Suc j) u" if "run t j u" for j u
        using that t by (induction rule: run.induct) (auto intro: run.intros)
      with k show ?thesis by blast
    qed
  qed
  then obtain k s' where k: "run s k s'" "at_rest s'" by blast
  have "session_inv m cap s'" using inv_run [OF k(1) inv_run [OF assms(1) inv_Start]] .
  with n k show ?thesis using rest_stopped assms(2) by blast
qed

text \<open>C5. Under every interleaving, with cancellation and disposal at any moment, what the callback received followed by what
  the channel holds is a prefix of the numbered tokens: none lost between two others, none twice, none out of order;
  and the channel never holds more than its capacity.\<close>

theorem session_stream:
  assumes "reachable m cap s"
  shows "prefix (received s @ queue s) (orchestrated m) \<and> length (queue s) \<le> cap"
proof -
  have i: "session_inv m cap s" using assms by (rule inv_reachable)
  show ?thesis
  proof (cases "pump s = Stopped")
    case False
    then have "received s @ queue s @ (in_flight s @ todo s) = orchestrated m" using i by (simp add: session_inv_def)
    from eq_prefix(1) [OF this] i show ?thesis by (simp add: session_inv_def)
  qed (use i in \<open>simp add: session_inv_def\<close>)
qed

lemma rest_delivered:
  assumes "reachable m cap s" "0 < cap" "at_rest s" "\<not> cancelled s"
  shows "received s = orchestrated m" "drain s = (case ending m of Completes \<Rightarrow> Ended | Throws e \<Rightarrow> Aborted e)"
proof -
  have i: "session_inv m cap s" using assms(1) by (rule inv_reachable)
  note r = rest_stopped [OF i assms(2,3)]
  show "received s = orchestrated m" "drain s = (case ending m of Completes \<Rightarrow> Ended | Throws e \<Rightarrow> Aborted e)"
    using i r assms(4) by (cases "drain s"; cases "at_end s"; auto simp: session_inv_def)+
qed

text \<open>A session at rest that was never cancelled has delivered every token of the stream, and its drain ended as the model
  did.\<close>

theorem session_delivers:
  assumes "reachable m cap s" "0 < cap" "at_rest s" "\<not> cancelled s"
  shows "received s = orchestrated m \<and> drain s = (case ending m of Completes \<Rightarrow> Ended | Throws e \<Rightarrow> Aborted e)"
  using rest_delivered [OF assms] by simp

section \<open>Disposal\<close>

text \<open>Once a session is disposed its pump has returned, and nothing is added to the stream any more.\<close>

lemma disposed_run:
  assumes "run s n s'" "session_inv m cap s" "disposal s = Disposed"
  shows "disposal s' = Disposed \<and> received s' @ queue s' = received s @ queue s"
  using assms
proof (induction rule: run.induct)
  case (run_step s n s' s'')
  then have "session_inv m cap s'" using inv_run by blast
  moreover have "disposal s' = Disposed" "received s' @ queue s' = received s @ queue s" using run_step by auto
  ultimately have "pump s' = Stopped" by (simp add: session_inv_def)
  with run_step(2) \<open>disposal s' = Disposed\<close> \<open>received s' @ queue s' = received s @ queue s\<close> show ?case
    unfolding session_step_def by (elim disjE step_elims) auto
qed simp

text \<open>\<open>DisposeAsync\<close> returns: a session being disposed whose pump cannot step can finish its disposal; and after that the
  stream does not grow.\<close>

theorem dispose_stops_stream:
  assumes "reachable m cap s" "0 < cap" "disposal s \<noteq> Live"
  shows "((\<exists>s'. pump_step s s') \<or> pump s = Stopped \<and> (\<exists>s'. disposal s' = Disposed \<and> (s' = s \<or> client_step s s'))) \<and>
    (\<forall>n s'. disposal s = Disposed \<and> run s n s' \<longrightarrow> received s' @ queue s' = received s @ queue s)"
proof (intro conjI)
  have i: "session_inv m cap s" using assms(1) by (rule inv_reachable)
  then have c: "cancelled s" using assms(3) by (simp add: session_inv_def)
  show "(\<exists>s'. pump_step s s') \<or> pump s = Stopped \<and> (\<exists>s'. disposal s' = Disposed \<and> (s' = s \<or> client_step s s'))"
  proof (cases "pump s")
    case Stopped
    then show ?thesis using assms(3) client_step.disposed [of s] by (cases "disposal s") force+
  qed (use c pump_step.intros in blast)+
  show "\<forall>n s'. disposal s = Disposed \<and> run s n s' \<longrightarrow> received s' @ queue s' = received s @ queue s"
    using disposed_run i by blast
qed

text \<open>A run that fills the channel and disposes the session before the drain reads.\<close>

lemma disposed_with_token:
  assumes "ending m = Completes" "0 < cap"
  shows "\<exists>s t. reachable m cap s \<and> disposal s = Disposed \<and> drain s = Reading \<and> queue s = [t]"
proof -
  let ?s0 = "Start m cap"
  obtain t ts where o: "orchestrated m = t # ts"
    using assms(1) by (cases "fragments m") (auto simp: orchestrated_def RunAsync_def)
  let ?s1 = "?s0\<lparr>todo := ts, pump := Writing t\<rparr>"
  let ?s2 = "enqueue t ?s1"
  let ?s3 = "?s2\<lparr>cancelled := True, disposal := Disposing\<rparr>"
  let ?s4 = "complete None ?s3"
  let ?s5 = "?s4\<lparr>disposal := Disposed\<rparr>"
  have "pump_step ?s0 ?s1" by (rule pump_step.pull) (simp_all add: Start_def o)
  moreover have "pump_step ?s1 ?s2" by (rule pump_step.put) (use assms(2) in \<open>simp_all add: Start_def\<close>)
  moreover have "client_step ?s2 ?s3" by (rule client_step.dispose) (simp add: Start_def enqueue_def)
  moreover have "pump_step ?s3 ?s4" by (rule pump_step.pull_cancelled) (simp_all add: Start_def enqueue_def)
  moreover have "client_step ?s4 ?s5" by (rule client_step.disposed) (simp_all add: Start_def step_defs)
  ultimately have "run ?s0 (Suc (Suc (Suc (Suc (Suc 0))))) ?s5"
    by (blast intro: run_refl run_step [unfolded session_step_def])
  then have "reachable m cap ?s5" unfolding reachable_def by blast
  moreover have "disposal ?s5 = Disposed \<and> drain ?s5 = Reading \<and> queue ?s5 = [t]" by (simp add: Start_def step_defs)
  ultimately show ?thesis by blast
qed

text \<open>C8. Disposal does not wait for the drain: for every model whose stream completes there is a run in which a token is
  handed to the callback after the session has been disposed, that is after \<open>dni_session_free\<close> returned.\<close>

theorem callback_after_free:
  assumes "ending m = Completes" "0 < cap"
  shows "\<exists>s s' t. reachable m cap s \<and> disposal s = Disposed \<and> drain_step s s' \<and> received s' = received s @ [t]"
proof -
  obtain s t where s: "reachable m cap s" "disposal s = Disposed" "drain s = Reading" "queue s = [t]"
    using disposed_with_token [OF assms] by blast
  have "drain_step s (s\<lparr>queue := [], received := received s @ [t]\<rparr>)"
    using s(3,4) by (rule drain_step.read)
  moreover have "received (s\<lparr>queue := [], received := received s @ [t]\<rparr>) = received s @ [t]" by simp
  ultimately show ?thesis using s(1,2) by blast
qed

section \<open>Witnesses\<close>

definition demo_model :: model_run where
  "demo_model = \<lparr>fragments = [''a''], ending = Completes\<rparr>"

definition demo_rest :: session where
  "demo_rest = (Start demo_model 64)\<lparr>todo := [], pump := Stopped, queue := [], channel := Completed None, drain := Ended,
     received := RunAsync [''a'']\<rparr>"

text \<open>The run without cancellation, step by step.\<close>

lemma demo_run: "run (Start demo_model 64) 8 demo_rest"
proof -
  let ?a = "\<lparr>Index = 0, Text = ''a'', IsFinal = False\<rparr>" and ?f = "Final 1"
  let ?s0 = "Start demo_model 64"
  have o: "orchestrated demo_model = [?a, ?f]" by (simp add: orchestrated_def demo_model_def RunAsync_def)
  let ?s1 = "?s0\<lparr>todo := [?f], pump := Writing ?a\<rparr>"
  let ?s2 = "enqueue ?a ?s1"
  let ?s3 = "?s2\<lparr>todo := [], pump := Writing ?f\<rparr>"
  let ?s4 = "enqueue ?f ?s3"
  let ?s5 = "complete None ?s4"
  let ?s6 = "?s5\<lparr>queue := [?f], received := received ?s5 @ [?a]\<rparr>"
  let ?s7 = "?s6\<lparr>queue := [], received := received ?s6 @ [?f]\<rparr>"
  let ?s8 = "?s7\<lparr>drain := Ended\<rparr>"
  have "pump_step ?s0 ?s1" by (rule pump_step.pull) (simp_all add: Start_def o)
  moreover have "pump_step ?s1 ?s2" by (rule pump_step.put) (simp_all add: Start_def)
  moreover have "pump_step ?s2 ?s3" by (rule pump_step.pull) (simp_all add: Start_def enqueue_def)
  moreover have "pump_step ?s3 ?s4" by (rule pump_step.put) (simp_all add: Start_def enqueue_def)
  moreover have "pump_step ?s4 ?s5" by (rule pump_step.finish) (simp_all add: Start_def enqueue_def demo_model_def)
  moreover have "drain_step ?s5 ?s6" by (rule drain_step.read) (simp_all add: Start_def step_defs)
  moreover have "drain_step ?s6 ?s7" by (rule drain_step.read) (simp_all add: Start_def step_defs)
  moreover have "drain_step ?s7 ?s8" by (rule drain_step.read_end) (simp_all add: Start_def step_defs)
  ultimately have "run ?s0 (Suc (Suc (Suc (Suc (Suc (Suc (Suc (Suc 0)))))))) ?s8"
    by (blast intro: run_refl run_step [unfolded session_step_def])
  moreover have "?s8 = demo_rest"
    by (simp add: demo_rest_def Start_def step_defs RunAsync_def)
  ultimately show ?thesis by (simp add: eval_nat_numeral)
qed

lemma demo_reachable: "reachable demo_model 64 demo_rest"
  using demo_run unfolding reachable_def by blast

lemma demo_at_rest: "at_rest demo_rest"
  by (auto simp: at_rest_def demo_rest_def Start_def elim!: step_elims)

theorem session_terminates_witness: "(8::nat) \<le> 5 * length (fragments demo_model) + 10"
  using session_terminates [OF demo_run] by simp

theorem session_stream_witness: "prefix (RunAsync [''a'']) (orchestrated demo_model)"
  using session_stream [OF demo_reachable] by (simp add: demo_rest_def Start_def)

theorem session_delivers_witness: "RunAsync [''a''] = orchestrated demo_model \<and> Ended = drain demo_rest"
  using session_delivers [OF demo_reachable _ demo_at_rest] by (simp add: demo_rest_def Start_def demo_model_def)

theorem callback_after_free_witness: "\<exists>s s' t. reachable demo_model 64 s \<and> disposal s = Disposed \<and> drain_step s s' \<and>
    received s' = received s @ [t]"
  using callback_after_free [of demo_model 64] by (simp add: demo_model_def)

theorem dispose_stops_stream_witness: "\<exists>s. reachable demo_model 64 s \<and> disposal s = Disposed \<and> pump s = Stopped"
proof -
  obtain s where s: "reachable demo_model 64 s" "disposal s = Disposed"
    using disposed_with_token [of demo_model 64] by (auto simp: demo_model_def)
  have "\<not> pump_step s s'" for s'
    using inv_reachable [OF s(1)] s(2) by (auto simp: session_inv_def elim!: pump_stepE)
  then show ?thesis using dispose_stops_stream [OF s(1)] s by auto
qed

end
