(* ===== verification/Session_Exports.thy ===== *)
theory Session_Exports
  imports Dni_Abi Inference_Session
begin

text \<open>
  The session exports and the lifecycle of the engine: \<^verbatim>\<open>SessionRegistry.cs\<close>, \<^verbatim>\<open>EngineHost.cs\<close>, \<^verbatim>\<open>Ffi/Lifecycle.cs\<close>,
  \<^verbatim>\<open>Ffi/FfiState.cs\<close>, \<^verbatim>\<open>Ffi/Exports.Ffi.cs\<close> and \<^verbatim>\<open>Ffi/Exports.Boundary.cs\<close> under
  \<^verbatim>\<open>src/core/DotnetNativeInterop.NativeBridge\<close>. The engine's state is the registry of sessions, the set of ids the exports
  gave out and the cached orchestrators; the sessions themselves run as in \<open>Inference_Session\<close>. The theorems: an
  invariant of every sequence of exports and session steps, what each export returns, that a free and a shutdown always
  return, and that shutdown leaves no session and frees the llama.cpp model once.
\<close>

section \<open>State\<close>

datatype rag_model = Extractive | Llama addr

record engine =
  next_id :: "64 word"
  sessions :: "int \<rightharpoonup> session"
  allocated :: "int set"
  orchestrator :: bool
  rag :: "rag_model option"
  rag_disposable :: "addr option"
  models_freed :: "addr list"
  detached :: "session list"

text \<open>\<open>detached\<close> holds the sessions that were removed from the registry: their drain task still refers to them. What
  \<open>BuildRagModel\<close> finds: the GGUF file, the handle \<open>LlamaLanguageModel\<close> gets (\<open>None\<close>: the constructor throws) and whether
  the search index can be built.\<close>

record rag_assets =
  gguf :: bool
  llama_handle :: "addr option"
  search_built :: bool

definition engine0 :: engine where
  "engine0 = \<lparr>next_id = 0, sessions = Map.empty, allocated = {}, orchestrator = False, rag = None, rag_disposable = None,
     models_freed = [], detached = []\<rparr>"

definition Ok :: int where "Ok = 0"
definition NotInitialized :: int where "NotInitialized = - 1"
definition InvalidArgument :: int where "InvalidArgument = - 2"
definition UnknownSession :: int where "UnknownSession = - 3"
definition AlreadyRunning :: int where "AlreadyRunning = - 4"
definition Internal :: int where "Internal = - 5"

lemmas status_defs = Ok_def NotInitialized_def InvalidArgument_def UnknownSession_def AlreadyRunning_def Internal_def

section \<open>EngineHost\<close>

definition IsInitialized :: "engine \<Rightarrow> bool" where
  "IsInitialized e \<longleftrightarrow> orchestrator e \<and> rag e \<noteq> None"

definition BuildRagModel :: "rag_assets \<Rightarrow> engine \<Rightarrow> rag_model \<times> engine" where
  "BuildRagModel a e =
     (if gguf a then (case llama_handle a of
        Some h \<Rightarrow> (if search_built a then Llama h else Extractive, e\<lparr>rag_disposable := Some h\<rparr>)
      | None \<Rightarrow> (Extractive, e))
      else (Extractive, e))"

definition Initialize :: "rag_assets \<Rightarrow> engine \<Rightarrow> engine" where
  "Initialize a e = (if IsInitialized e then e else
     let e = e\<lparr>orchestrator := True\<rparr> in
     case rag e of Some m \<Rightarrow> e | None \<Rightarrow> (case BuildRagModel a e of (m, e) \<Rightarrow> e\<lparr>rag := Some m\<rparr>))"

definition Reset :: "engine \<Rightarrow> engine" where
  "Reset e = (let e = (case rag_disposable e of None \<Rightarrow> e | Some h \<Rightarrow> e\<lparr>models_freed := models_freed e @ [h]\<rparr>)
     in e\<lparr>rag_disposable := None, orchestrator := False, rag := None\<rparr>)"

section \<open>Registry\<close>

definition Add :: "session \<Rightarrow> engine \<Rightarrow> int \<times> engine" where
  "Add s e = (let n = next_id e + 1; i = sint n in (i, e\<lparr>next_id := n, sessions := (sessions e)(i \<mapsto> s)\<rparr>))"

text \<open>\<open>DisposeAsync\<close> cancels and then waits for the pump: it returns in some state the session can reach in which it is
  disposed.\<close>

definition disposing :: "session \<Rightarrow> session" where
  "disposing s = s\<lparr>cancelled := True, disposal := Disposing\<rparr>"

definition DisposeAsync :: "session \<Rightarrow> session \<Rightarrow> bool" where
  "DisposeAsync s s' \<longleftrightarrow> (\<exists>n. run (disposing s) n s') \<and> disposal s' = Disposed"

inductive RemoveAsync :: "int \<Rightarrow> engine \<Rightarrow> bool \<Rightarrow> engine \<Rightarrow> bool" where
  unknown: "sessions e i = None \<Longrightarrow> RemoveAsync i e False e"
| removed: "sessions e i = Some s \<Longrightarrow> DisposeAsync s s' \<Longrightarrow>
    RemoveAsync i e True (e\<lparr>sessions := (sessions e)(i := None), detached := s' # detached e\<rparr>)"

section \<open>Exports\<close>

text \<open>\<open>temperature < 0f\<close> on the bits of a float: negative, not a zero, not a NaN.\<close>

definition negative_temperature :: "32 word \<Rightarrow> bool" where
  "negative_temperature t \<longleftrightarrow> 0x80000000 < t \<and> t \<le> 0xFF800000"

text \<open>The bodies of the start exports share this shape: guards, a session on the orchestrator (\<open>m\<close> is what its model will
  do), registration, and a drain task.\<close>

definition start_export :: "bool \<Rightarrow> model_run \<Rightarrow> engine \<Rightarrow> int \<times> engine" where
  "start_export bad m e =
     (if \<not> IsInitialized e then (NotInitialized, e)
      else if bad then (InvalidArgument, e)
      else case Add (Start m 64) e of (i, e) \<Rightarrow> (i, e\<lparr>allocated := insert i (allocated e)\<rparr>))"

definition SessionStart :: "model_run \<Rightarrow> char_ptr \<Rightarrow> int \<Rightarrow> 32 word \<Rightarrow> addr \<Rightarrow> engine \<Rightarrow> int \<times> engine" where
  "SessionStart m prompt maxTokens temperature callback e =
     start_export (prompt = None \<or> callback = NULL \<or> maxTokens \<le> 0 \<or> negative_temperature temperature) m e"

definition RagSessionStart :: "model_run \<Rightarrow> char_ptr \<Rightarrow> int \<Rightarrow> 32 word \<Rightarrow> addr \<Rightarrow> engine \<Rightarrow> int \<times> engine" where
  "RagSessionStart m query maxTokens temperature callback e =
     start_export (query = None \<or> callback = NULL \<or> maxTokens \<le> 0 \<or> negative_temperature temperature) m e"

definition AgentSessionStart :: "model_run \<Rightarrow> char_ptr \<Rightarrow> addr \<Rightarrow> engine \<Rightarrow> int \<times> engine" where
  "AgentSessionStart m query callback e = start_export (query = None \<or> callback = NULL) m e"

definition StreamStart :: "model_run \<Rightarrow> char_ptr \<Rightarrow> int \<Rightarrow> addr \<Rightarrow> engine \<Rightarrow> int \<times> engine" where
  "StreamStart m prompt maxTokens callback e =
     start_export (prompt = None \<or> callback = NULL \<or> maxTokens \<le> 0) m e"

definition Cancel :: "session \<Rightarrow> session" where
  "Cancel s = (if disposal s = Disposed then s else s\<lparr>cancelled := True\<rparr>)"

definition SessionCancel :: "int \<Rightarrow> engine \<Rightarrow> int \<times> engine" where
  "SessionCancel i e = (case sessions e i of None \<Rightarrow> (UnknownSession, e)
     | Some s \<Rightarrow> (Ok, e\<lparr>sessions := (sessions e)(i \<mapsto> Cancel s)\<rparr>))"

inductive SessionFree :: "int \<Rightarrow> engine \<Rightarrow> int \<Rightarrow> engine \<Rightarrow> bool" where
  "RemoveAsync i (e\<lparr>allocated := allocated e - {i}\<rparr>) b e' \<Longrightarrow> SessionFree i e (if b then Ok else UnknownSession) e'"

text \<open>\<open>Shutdown\<close> removes the ids in the order the dictionary enumerates them, forgets them and resets the host.\<close>

inductive remove_all :: "int list \<Rightarrow> engine \<Rightarrow> engine \<Rightarrow> bool" where
  none: "remove_all [] e e"
| more: "RemoveAsync i e b e' \<Longrightarrow> remove_all is e' e'' \<Longrightarrow> remove_all (i # is) e e''"

inductive Shutdown :: "engine \<Rightarrow> engine \<Rightarrow> bool" where
  "set ids = allocated e \<Longrightarrow> remove_all ids e e' \<Longrightarrow> Shutdown e (Reset (e'\<lparr>allocated := {}\<rparr>))"

inductive_cases RemoveAsyncE: "RemoveAsync i e b e'"
inductive_cases SessionFreeE: "SessionFree i e r e'"
inductive_cases remove_all_NilE: "remove_all [] e e'"
inductive_cases remove_all_ConsE: "remove_all (i # is) e e'"
inductive_cases ShutdownE: "Shutdown e e'"

section \<open>Everything the engine may do\<close>

inductive engine_step :: "engine \<Rightarrow> engine \<Rightarrow> bool" where
  initialize: "engine_step e (Initialize a e)"
| cancel: "engine_step e (snd (SessionCancel i e))"
| free: "SessionFree i e r e' \<Longrightarrow> engine_step e e'"
| shutdown: "Shutdown e e' \<Longrightarrow> engine_step e e'"
| pump: "sessions e i = Some s \<Longrightarrow> pump_step s s' \<Longrightarrow> engine_step e (e\<lparr>sessions := (sessions e)(i \<mapsto> s')\<rparr>)"
| drain: "sessions e i = Some s \<Longrightarrow> drain_step s s' \<Longrightarrow> engine_step e (e\<lparr>sessions := (sessions e)(i \<mapsto> s')\<rparr>)"
| late_drain: "detached e = us @ s # vs \<Longrightarrow> drain_step s s' \<Longrightarrow> engine_step e (e\<lparr>detached := us @ s' # vs\<rparr>)"

text \<open>The states the engine can be in after \<open>n\<close> successful starts.\<close>

inductive engine_reach :: "nat \<Rightarrow> engine \<Rightarrow> bool" where
  boot: "engine_reach 0 engine0"
| go: "engine_reach n e \<Longrightarrow> engine_step e e' \<Longrightarrow> engine_reach n e'"
| refused: "engine_reach n e \<Longrightarrow> \<not> IsInitialized e \<or> bad \<Longrightarrow> engine_reach n (snd (start_export bad m e))"
| started: "engine_reach n e \<Longrightarrow> IsInitialized e \<Longrightarrow> engine_reach (Suc n) (snd (start_export False m e))"

inductive_cases engine_stepE: "engine_step e e'"

section \<open>The invariant\<close>

text \<open>The registry holds exactly the ids the exports gave out, all positive; every session in it is live and every session
  removed from it is disposed, and each satisfies the invariant of sessions for the model it was started with.\<close>

definition live_session :: "session \<Rightarrow> bool" where
  "live_session s \<longleftrightarrow> disposal s = Live \<and> (\<exists>m. session_inv m 64 s)"

definition gone_session :: "session \<Rightarrow> bool" where
  "gone_session s \<longleftrightarrow> disposal s = Disposed \<and> (\<exists>m. session_inv m 64 s)"

definition engine_inv :: "nat \<Rightarrow> engine \<Rightarrow> bool" where
  "engine_inv n e \<longleftrightarrow> next_id e = of_nat n \<and> dom (sessions e) = allocated e \<and> finite (allocated e) \<and>
     (\<forall>i \<in> allocated e. 0 < i \<and> i \<le> int n) \<and>
     (\<forall>i s. sessions e i = Some s \<longrightarrow> live_session s) \<and> (\<forall>s \<in> set (detached e). gone_session s)"

lemma live_Start: "live_session (Start m 64)"
  using inv_Start [of m 64] by (auto simp: live_session_def Start_def)

lemma live_Cancel: "live_session s \<Longrightarrow> live_session (Cancel s)"
proof -
  assume l: "live_session s"
  then obtain m where m: "session_inv m 64 s" by (auto simp: live_session_def)
  have "cancelled s \<Longrightarrow> s\<lparr>cancelled := True\<rparr> = s" by simp
  then have "Cancel s = s \<or> client_step s (Cancel s)" by (auto simp: Cancel_def intro: client_step.cancel)
  then have "session_inv m 64 (Cancel s)" using m inv_client by metis
  then show ?thesis using l by (auto simp: live_session_def Cancel_def)
qed

lemma live_steps:
  "live_session s \<Longrightarrow> pump_step s s' \<Longrightarrow> live_session s'" "live_session s \<Longrightarrow> drain_step s s' \<Longrightarrow> live_session s'"
  by (auto simp: live_session_def dest: inv_pump inv_drain) (auto simp: step_defs elim!: pump_stepE drain_stepE)

lemma gone_drain: "gone_session s \<Longrightarrow> drain_step s s' \<Longrightarrow> gone_session s'"
  by (auto simp: gone_session_def dest: inv_drain) (auto elim!: drain_stepE)

lemma disposing_inv: "live_session s \<Longrightarrow> \<exists>m. session_inv m 64 (disposing s)"
  using inv_client client_step.dispose unfolding live_session_def disposing_def by metis

lemma gone_DisposeAsync: "live_session s \<Longrightarrow> DisposeAsync s s' \<Longrightarrow> gone_session s'"
  using disposing_inv inv_run unfolding DisposeAsync_def gone_session_def by metis

text \<open>Disposal returns: the pump of a cancelled session stops in its next step.\<close>

lemma DisposeAsync_returns: "\<exists>s'. DisposeAsync s s'"
proof -
  let ?s = "disposing s" and ?t = "complete None (disposing s)"
  have fin: "\<exists>s'. DisposeAsync s s'" if "run ?s n t" "disposal t = Disposing" "pump t = Stopped" for n t
    using run_step [OF that(1), of "t\<lparr>disposal := Disposed\<rparr>"] client_step.disposed [OF that(2,3)]
    by (force simp: DisposeAsync_def session_step_def)
  show ?thesis
  proof (cases "pump ?s = Stopped")
    case True
    then show ?thesis using fin [OF run_refl] by (simp add: disposing_def)
  next
    case False
    then have "pump_step ?s ?t"
      by (cases "pump ?s") (auto intro: pump_step.pull_cancelled pump_step.put_cancelled pump_step.pending_cancelled simp: disposing_def)
    then have "run ?s (Suc 0) ?t" using run_step [OF run_refl] by (simp add: session_step_def)
    then show ?thesis by (rule fin) (simp_all add: disposing_def complete_def)
  qed
qed

lemma RemoveAsync_returns: "\<exists>e'. RemoveAsync i e (sessions e i \<noteq> None) e'"
proof (cases "sessions e i")
  case None
  then show ?thesis using RemoveAsync.unknown [of e i] by auto
next
  case (Some s)
  obtain s' where "DisposeAsync s s'" using DisposeAsync_returns by blast
  with Some show ?thesis using RemoveAsync.removed [of e i s s'] by auto
qed

definition sessions_ok :: "engine \<Rightarrow> bool" where
  "sessions_ok e \<longleftrightarrow> (\<forall>i s. sessions e i = Some s \<longrightarrow> live_session s) \<and> (\<forall>s \<in> set (detached e). gone_session s)"

lemma RemoveAsync_effect:
  assumes "RemoveAsync i e b e'" "sessions_ok e"
  shows "b \<longleftrightarrow> sessions e i \<noteq> None" "sessions e' = (sessions e)(i := None)" "allocated e' = allocated e"
    "next_id e' = next_id e" "sessions_ok e'" "rag_disposable e' = rag_disposable e" "models_freed e' = models_freed e"
    "set (detached e) \<subseteq> set (detached e')"
  using assms
  by (auto simp: sessions_ok_def fun_upd_idem elim!: RemoveAsyncE split: if_splits) (meson gone_DisposeAsync)

lemma remove_all_effect:
  assumes "remove_all is e e'" "sessions_ok e"
  shows "sessions e' = (\<lambda>i. if i \<in> set is then None else sessions e i) \<and> allocated e' = allocated e \<and>
    next_id e' = next_id e \<and> sessions_ok e' \<and> rag_disposable e' = rag_disposable e \<and> models_freed e' = models_freed e"
  using assms
proof (induction rule: remove_all.induct)
  case (more i e b e' is' e'')
  note r = RemoveAsync_effect [OF more.hyps(1) more.prems]
  from more.IH [OF r(5)] show ?case using r by (auto simp: fun_eq_iff)
qed simp

lemma remove_all_returns: "\<exists>e'. remove_all is e e'"
proof (induction "is" arbitrary: e)
  case (Cons i "is")
  then show ?case using RemoveAsync_returns remove_all.more by metis
qed (use remove_all.none in blast)

lemma inv_ok: "engine_inv n e \<Longrightarrow> sessions_ok e"
  by (simp add: engine_inv_def sessions_ok_def)

lemma SessionFree_effect:
  assumes "SessionFree i e r e'" "sessions_ok e"
  shows "r = (if sessions e i \<noteq> None then Ok else UnknownSession)" "sessions e' = (sessions e)(i := None)"
    "allocated e' = allocated e - {i}" "next_id e' = next_id e" "sessions_ok e'"
proof -
  let ?e = "e\<lparr>allocated := allocated e - {i}\<rparr>"
  obtain b where b: "RemoveAsync i ?e b e'" "r = (if b then Ok else UnknownSession)"
    using assms(1) by (auto elim: SessionFreeE)
  have "sessions_ok ?e" using assms(2) by (simp add: sessions_ok_def)
  note x = RemoveAsync_effect [OF b(1) this]
  show "r = (if sessions e i \<noteq> None then Ok else UnknownSession)" "sessions e' = (sessions e)(i := None)"
    "allocated e' = allocated e - {i}" "next_id e' = next_id e" "sessions_ok e'"
    using x(1-5) b(2) by simp_all
qed

lemma Shutdown_effect:
  assumes "Shutdown e e'" "sessions_ok e"
  shows "sessions e' = (\<lambda>i. if i \<in> allocated e then None else sessions e i)" "allocated e' = {}" "next_id e' = next_id e"
    "sessions_ok e'" "\<not> IsInitialized e'" "rag_disposable e' = None"
    "models_freed e' = models_freed e @ (case rag_disposable e of None \<Rightarrow> [] | Some h \<Rightarrow> [h])"
proof -
  obtain ids d where s: "set ids = allocated e" "remove_all ids e d" "e' = Reset (d\<lparr>allocated := {}\<rparr>)"
    using assms(1) by (auto elim: ShutdownE)
  note r = remove_all_effect [OF s(2) assms(2)]
  show "sessions e' = (\<lambda>i. if i \<in> allocated e then None else sessions e i)" "allocated e' = {}" "next_id e' = next_id e"
    "sessions_ok e'" "\<not> IsInitialized e'" "rag_disposable e' = None"
    "models_freed e' = models_freed e @ (case rag_disposable e of None \<Rightarrow> [] | Some h \<Rightarrow> [h])"
    using r s(1,3) by (simp_all add: Reset_def IsInitialized_def sessions_ok_def split: option.splits)
qed

lemma Initialize_fields:
  "sessions (Initialize a e) = sessions e" "allocated (Initialize a e) = allocated e" "next_id (Initialize a e) = next_id e"
  "detached (Initialize a e) = detached e" "IsInitialized (Initialize a e)"
  by (auto simp: Initialize_def BuildRagModel_def Let_def IsInitialized_def split: option.splits)

lemma step_inv: "engine_step e e' \<Longrightarrow> engine_inv n e \<Longrightarrow> engine_inv n e'"
proof (erule engine_stepE)
  fix i r
  assume i: "engine_inv n e" and f: "SessionFree i e r e'"
  note x = SessionFree_effect [OF f inv_ok [OF i]]
  show "engine_inv n e'" using i x by (auto simp: engine_inv_def sessions_ok_def)
next
  assume i: "engine_inv n e" and f: "Shutdown e e'"
  note x = Shutdown_effect [OF f inv_ok [OF i]]
  have "sessions e' = Map.empty" using x(1) i by (auto simp: engine_inv_def fun_eq_iff dom_def)
  then show "engine_inv n e'" using i x by (auto simp: engine_inv_def sessions_ok_def)
next
  fix us s vs s'
  assume "engine_inv n e" "e' = e\<lparr>detached := us @ s' # vs\<rparr>" "detached e = us @ s # vs" "drain_step s s'"
  then show "engine_inv n e'" by (auto simp: engine_inv_def intro: gone_drain)
next
  fix i s s'
  assume i: "engine_inv n e" "e' = e\<lparr>sessions := (sessions e)(i \<mapsto> s')\<rparr>" "sessions e i = Some s" and p: "pump_step s s'"
  then have "live_session s'" using live_steps(1) [OF _ p] by (auto simp: engine_inv_def)
  with i show "engine_inv n e'" by (auto simp: engine_inv_def split: if_splits)
next
  fix i s s'
  assume i: "engine_inv n e" "e' = e\<lparr>sessions := (sessions e)(i \<mapsto> s')\<rparr>" "sessions e i = Some s" and p: "drain_step s s'"
  then have "live_session s'" using live_steps(2) [OF _ p] by (auto simp: engine_inv_def)
  with i show "engine_inv n e'" by (auto simp: engine_inv_def split: if_splits)
qed (auto simp: engine_inv_def Initialize_fields SessionCancel_def live_Cancel split: option.splits if_splits)

lemma sint_of_nat: "n < 2 ^ 63 \<Longrightarrow> sint (of_nat n :: 64 word) = int n"
  by (simp add: signed_of_nat signed_take_bit_int_eq_self)

lemma started_inv:
  assumes "engine_inv n e" "IsInitialized e" "Suc n < 2 ^ 63"
  shows "fst (start_export False m e) = int (Suc n)" "engine_inv (Suc n) (snd (start_export False m e))"
proof -
  have i: "sint (next_id e + 1) = int (Suc n)"
    using assms(1,3) sint_of_nat [of "Suc n"] by (simp add: engine_inv_def add.commute)
  then show "fst (start_export False m e) = int (Suc n)"
    using assms(2) by (simp add: start_export_def Add_def Let_def)
  show "engine_inv (Suc n) (snd (start_export False m e))"
    using assms(1,2) i live_Start [of m]
    by (auto simp: start_export_def Add_def Let_def engine_inv_def add.commute split: if_splits)
qed

lemma inv_engine_reach: "engine_reach n e \<Longrightarrow> n < 2 ^ 63 \<Longrightarrow> engine_inv n e"
proof (induction rule: engine_reach.induct)
  case boot
  show ?case by (simp add: engine_inv_def engine0_def)
next
  case (refused n e bad m)
  then show ?case by (auto simp: start_export_def)
qed (auto intro: step_inv started_inv(2))

section \<open>What the exports promise\<close>

lemma inv_dom: "engine_inv n e \<Longrightarrow> sessions e i = None \<longleftrightarrow> i \<notin> allocated e"
  by (metis domIff engine_inv_def)

lemma status_codes:
  "Ok = DNI_OK" "NotInitialized = DNI_NOT_INITIALIZED" "InvalidArgument = DNI_INVALID_ARGUMENT"
  "UnknownSession = DNI_UNKNOWN_SESSION" "AlreadyRunning = DNI_ALREADY_RUNNING" "Internal = DNI_INTERNAL"
  by (simp_all add: status_defs dni_status_defs)

text \<open>C6. In every state the engine can reach by its exports and the steps of its sessions, the registry and the set of
  allocated ids agree, every id is positive, the registered sessions are live and their streams are intact, and the
  sessions removed have stopped their pumps.\<close>

theorem registry_invariant:
  assumes "engine_reach n e" "n < 2 ^ 63"
  shows "dom (sessions e) = allocated e \<and> (\<forall>i \<in> allocated e. 0 < i) \<and>
    (\<forall>i s. sessions e i = Some s \<longrightarrow> disposal s = Live \<and> length (queue s) \<le> 64) \<and>
    (\<forall>s \<in> set (detached e). pump s = Stopped)"
  using inv_engine_reach [OF assms]
  by (auto simp: engine_inv_def live_session_def gone_session_def session_inv_def)

text \<open>\<open>dni_session_start\<close>: the error codes of the ABI, in the order of the checks and without any effect, and otherwise a
  fresh positive id under which a new session runs.\<close>

theorem session_start_contract:
  assumes "engine_reach n e" "Suc n < 2 ^ 63"
    and "bad \<longleftrightarrow> prompt = None \<or> callback = NULL \<or> maxTokens \<le> 0 \<or> negative_temperature temperature"
  shows "case SessionStart m prompt maxTokens temperature callback e of (r, e') \<Rightarrow>
    if \<not> IsInitialized e then r = DNI_NOT_INITIALIZED \<and> e' = e
    else if bad then r = DNI_INVALID_ARGUMENT \<and> e' = e
    else 0 < r \<and> sessions e r = None \<and> sessions e' = (sessions e)(r \<mapsto> Start m 64) \<and> allocated e' = insert r (allocated e)"
proof (cases "IsInitialized e \<and> \<not> bad")
  case True
  have i: "engine_inv n e" using inv_engine_reach assms(1,2) by simp
  note r = started_inv(1) [OF i _ assms(2), of m]
  have "int (Suc n) \<notin> allocated e" using i by (auto simp: engine_inv_def)
  then have "sessions e (int (Suc n)) = None" using inv_dom [OF i] by simp
  then show ?thesis using True r assms(3)
    by (auto simp: SessionStart_def start_export_def Add_def Let_def)
qed (use assms(3) in \<open>auto simp: SessionStart_def start_export_def status_codes\<close>)

text \<open>\<open>dni_session_free\<close> always returns; it removes exactly its session, and from then on the id is unknown to \<open>free\<close> and
  to \<open>cancel\<close>.\<close>

theorem session_free_contract:
  assumes "engine_reach n e" "n < 2 ^ 63"
  shows "(\<exists>r e'. SessionFree i e r e') \<and>
    (\<forall>r e'. SessionFree i e r e' \<longrightarrow>
       r = (if i \<in> allocated e then DNI_OK else DNI_UNKNOWN_SESSION) \<and> sessions e' = (sessions e)(i := None) \<and>
       fst (SessionCancel i e') = DNI_UNKNOWN_SESSION \<and>
       (\<forall>r' e''. SessionFree i e' r' e'' \<longrightarrow> r' = DNI_UNKNOWN_SESSION))"
proof (intro conjI allI impI)
  have i: "engine_inv n e" using inv_engine_reach assms by simp
  show "\<exists>r e'. SessionFree i e r e'"
    using RemoveAsync_returns SessionFree.intros by blast
  fix r e' assume f: "SessionFree i e r e'"
  note x = SessionFree_effect [OF f inv_ok [OF i]]
  show "r = (if i \<in> allocated e then DNI_OK else DNI_UNKNOWN_SESSION)"
    using x(1) inv_dom [OF i] by (auto simp: status_codes)
  show "sessions e' = (sessions e)(i := None)" by (rule x(2))
  show "fst (SessionCancel i e') = DNI_UNKNOWN_SESSION" using x(2) by (simp add: SessionCancel_def status_codes)
  show "r' = DNI_UNKNOWN_SESSION" if "SessionFree i e' r' e''" for r' e''
    using SessionFree_effect(1) [OF that x(5)] x(2) by (simp add: status_codes)
qed

text \<open>C7. \<open>dni_shutdown\<close> always returns. It leaves no session and no orchestrator, so that every start is refused until the
  engine is initialised again; the pump of every session has returned; and the handle of the llama.cpp model, if the
  host held one, was freed once and forgotten.\<close>

theorem shutdown_contract:
  assumes "engine_reach n e" "n < 2 ^ 63"
  shows "(\<exists>e'. Shutdown e e') \<and>
    (\<forall>e'. Shutdown e e' \<longrightarrow> sessions e' = Map.empty \<and> allocated e' = {} \<and>
       fst (start_export bad m e') = DNI_NOT_INITIALIZED \<and>
       (\<forall>s \<in> set (detached e'). pump s = Stopped) \<and> rag_disposable e' = None \<and>
       models_freed e' = models_freed e @ (case rag_disposable e of None \<Rightarrow> [] | Some h \<Rightarrow> [h]))"
proof (intro conjI allI impI)
  have i: "engine_inv n e" using inv_engine_reach assms by simp
  have "finite (allocated e)" using i by (simp add: engine_inv_def)
  then obtain ids where "set ids = allocated e" using finite_list by blast
  moreover obtain d where "remove_all ids e d" using remove_all_returns by blast
  ultimately show "\<exists>e'. Shutdown e e'" using Shutdown.intros by blast
  fix e' assume "Shutdown e e'"
  note x = Shutdown_effect [OF this inv_ok [OF i]]
  show "sessions e' = Map.empty" using x(1) inv_dom [OF i] by (auto simp: fun_eq_iff)
  show "allocated e' = {}" "rag_disposable e' = None"
    "models_freed e' = models_freed e @ (case rag_disposable e of None \<Rightarrow> [] | Some h \<Rightarrow> [h])" by (fact x)+
  show "fst (start_export bad m e') = DNI_NOT_INITIALIZED" using x(5) by (simp add: start_export_def status_codes)
  show "\<forall>s \<in> set (detached e'). pump s = Stopped"
    using x(4) unfolding sessions_ok_def gone_session_def session_inv_def by blast
qed

section \<open>Witnesses\<close>

definition demo_engine :: engine where
  "demo_engine = Initialize \<lparr>gguf = True, llama_handle = Some 7, search_built = True\<rparr> engine0"

definition demo_engine1 :: engine where
  "demo_engine1 = snd (start_export False demo_model demo_engine)"

lemma demo_engine_reached: "engine_reach 0 demo_engine" "engine_reach 1 demo_engine1"
proof -
  show 0: "engine_reach 0 demo_engine" unfolding demo_engine_def by (intro go [OF boot] initialize)
  show "engine_reach 1 demo_engine1" unfolding demo_engine1_def
    using started [OF 0] by (simp add: demo_engine_def Initialize_fields)
qed

lemma demo_engine1_fields: "allocated demo_engine1 = {1}" "rag_disposable demo_engine1 = Some 7" "models_freed demo_engine1 = []"
  by (simp_all add: demo_engine1_def demo_engine_def start_export_def Initialize_fields Add_def)
    (simp_all add: Initialize_def engine0_def IsInitialized_def BuildRagModel_def)

theorem registry_invariant_witness: "dom (sessions demo_engine1) = {1}"
  using registry_invariant [OF demo_engine_reached(2)] demo_engine1_fields by simp

theorem session_start_contract_witness:
  "0 < fst (SessionStart demo_model (Some (1, ''hi'')) 16 0 5 demo_engine)"
  using session_start_contract [OF demo_engine_reached(1) _ refl, where m = demo_model and prompt = "Some (1, ''hi'')" and maxTokens = 16
      and temperature = 0 and callback = 5]
  by (simp add: negative_temperature_def demo_engine_def Initialize_fields split: prod.splits)

theorem session_free_contract_witness: "\<exists>e'. SessionFree 1 demo_engine1 DNI_OK e'"
  using session_free_contract [OF demo_engine_reached(2), of 1] demo_engine1_fields by fastforce

theorem shutdown_contract_witness: "\<exists>e'. Shutdown demo_engine1 e' \<and> sessions e' = Map.empty \<and> models_freed e' = [7]"
  using shutdown_contract [OF demo_engine_reached(2)] demo_engine1_fields by fastforce

end
