(* ===== verification/Sqlite_Broker.thy ===== *)
theory Sqlite_Broker
  imports Session_Exports
begin

text \<open>
  The SQLite transport, \<^verbatim>\<open>src/core/DotnetNativeInterop.NativeBridge/Sqlite\<close> (\<open>BrokerSchema.cs\<close>, \<open>SqliteBroker.cs\<close>,
  \<open>Exports.Sqlite.cs\<close>): a client inserts rows into \<open>requests\<close>, the poll loop of the broker takes the oldest pending row,
  runs the orchestrator on it and appends its tokens to \<open>response_tokens\<close>. The database is the two tables with their
  keys; the loop is a state machine with one rule per statement or await, where every statement may raise; the exports
  start and stop loops. The theorems: the transcript of every request is a prefix of its token stream and complete when
  the request is done; requests run at most once and in the order of their ids; a loop that is left alone serves every
  pending request; what a fault and a cancellation leave behind; and that overlapping stop and start break the claim.
\<close>

section \<open>Tables\<close>

text \<open>A request, as the client has it and as the broker reads it from its row; the grammar of the engine's own record stays
  unset on this transport.\<close>

record InferRequest =
  Prompt :: string
  MaxTokens :: int
  Temperature :: "32 word"

record request_row =
  req_id :: int
  prompt :: string
  max_tokens :: int
  temperature :: "32 word"
  status :: string
  req_created :: string

record token_row =
  request_id :: int
  idx :: int
  row_text :: string
  is_final :: int
  row_created :: string

text \<open>\<open>requests_seq\<close> is the counter SQLite keeps for an \<open>AUTOINCREMENT\<close> key.\<close>

record broker_db =
  requests :: "request_row list"
  response_tokens :: "token_row list"
  requests_seq :: int

definition broker_db0 :: broker_db where
  "broker_db0 = \<lparr>requests = [], response_tokens = [], requests_seq = 0\<rparr>"

text \<open>The insert of the client: the key is one more than every key there ever was, and the insert fails once the
  largest 64 bit key is taken.\<close>

definition insert_request :: "InferRequest \<Rightarrow> string \<Rightarrow> broker_db \<Rightarrow> (int \<times> broker_db) option" where
  "insert_request q now d = (let i = requests_seq d + 1 in
     if i < 2 ^ 63 then Some (i, d\<lparr>requests := requests d @ [\<lparr>req_id = i, prompt = Prompt q, max_tokens = MaxTokens q,
       temperature = Temperature q, status = ''pending'', req_created = now\<rparr>], requests_seq := i\<rparr>)
     else None)"

definition request_of :: "request_row \<Rightarrow> InferRequest" where
  "request_of r = \<lparr>Prompt = prompt r, MaxTokens = max_tokens r, Temperature = temperature r\<rparr>"

definition select_pending :: "broker_db \<Rightarrow> request_row option" where
  "select_pending d = (case sort_key req_id (filter (\<lambda>r. status r = ''pending'') (requests d)) of
     [] \<Rightarrow> None | r # rs \<Rightarrow> Some r)"

definition MarkStatus :: "int \<Rightarrow> string \<Rightarrow> broker_db \<Rightarrow> broker_db" where
  "MarkStatus i st d = d\<lparr>requests := map (\<lambda>r. if req_id r = i then r\<lparr>status := st\<rparr> else r) (requests d)\<rparr>"

definition InsertToken :: "int \<Rightarrow> InferenceToken \<Rightarrow> string \<Rightarrow> broker_db \<Rightarrow> broker_db option" where
  "InsertToken i t now d =
     (if \<exists>r \<in> set (response_tokens d). request_id r = i \<and> idx r = Index t then None
      else Some (d\<lparr>response_tokens := response_tokens d @
        [\<lparr>request_id = i, idx = Index t, row_text = Text t, is_final = (if IsFinal t then 1 else 0), row_created = now\<rparr>]\<rparr>))"

section \<open>The poll loop\<close>

text \<open>Where the loop is: at its head, before the query, with a row read, in the stream of the orchestrator, before
  marking the row done or error, in the delay, or returned: regularly, by a cancellation or by another exception.\<close>

datatype loop_end = Ran_out | Canceled | Faulted

datatype loop_pc = Polling | Selecting | Claimed int InferRequest | Streaming int "InferenceToken list" model_end
  | Finishing int | Failing int | Delaying | Returned loop_end

record loop =
  pc :: loop_pc
  stopping :: bool
  conn_open :: bool

datatype span_event = Request_recorded int | Execute_span int | Process_span int

record broker_world =
  db :: broker_db
  loops :: "loop list"
  the_broker :: "nat option"
  spans :: "span_event list"

definition world0 :: broker_world where
  "world0 = \<lparr>db = broker_db0, loops = [], the_broker = None, spans = []\<rparr>"

text \<open>\<open>PollLoopAsync\<close> and \<open>ProcessNextPendingAsync\<close>. The model's answer to the request with id \<open>i\<close> is \<open>M i\<close>. A statement
  may raise; in the stream and when the row is marked done that leads to the general handler, elsewhere out of the loop.\<close>

inductive loop_step :: "(int \<Rightarrow> InferRequest \<Rightarrow> model_run) \<Rightarrow> bool \<Rightarrow> loop_pc \<Rightarrow> broker_db \<Rightarrow>
    loop_pc \<Rightarrow> broker_db \<Rightarrow> span_event list \<Rightarrow> bool"
  for M :: "int \<Rightarrow> InferRequest \<Rightarrow> model_run" where
  poll: "loop_step M False Polling d Selecting d []"
| poll_stop: "loop_step M True Polling d (Returned Ran_out) d []"
| idle: "select_pending d = None \<Longrightarrow> loop_step M c Selecting d Delaying d []"
| claim: "select_pending d = Some r \<Longrightarrow> loop_step M c Selecting d (Claimed (req_id r) (request_of r)) d []"
| select_cancel: "loop_step M True Selecting d (Returned Canceled) d []"
| select_fault: "loop_step M c Selecting d (Returned Faulted) d []"
| start_row: "loop_step M c (Claimed i q) d (Streaming i (orchestrated (M i q)) (ending (M i q)))
    (MarkStatus i ''running'' d) [Request_recorded i]"
| start_fault: "loop_step M c (Claimed i q) d (Returned Faulted) d []"
| token: "InsertToken i t now d = Some d' \<Longrightarrow> loop_step M c (Streaming i (t # ts) e) d (Streaming i ts e) d' []"
| token_fault: "loop_step M c (Streaming i (t # ts) e) d (Failing i) d [Execute_span i]"
| stream_cancel: "loop_step M True (Streaming i ts e) d (Returned Canceled) d [Execute_span i, Process_span i]"
| stream_end: "loop_step M c (Streaming i [] Completes) d (Finishing i) d []"
| stream_throw: "loop_step M c (Streaming i [] (Throws x)) d (Failing i) d [Execute_span i]"
| finish: "loop_step M c (Finishing i) d Delaying (MarkStatus i ''done'' d) [Execute_span i, Process_span i]"
| finish_fault: "loop_step M c (Finishing i) d (Failing i) d [Execute_span i]"
| fail: "loop_step M c (Failing i) d Delaying (MarkStatus i ''error'' d) [Process_span i]"
| fail_fault: "loop_step M c (Failing i) d (Returned Faulted) d [Process_span i]"
| delay: "loop_step M c Delaying d Polling d []"
| delay_cancel: "loop_step M True Delaying d (Returned Canceled) d []"

inductive_cases loop_stepE: "loop_step M c p d p' d' ev"

section \<open>Exports\<close>

text \<open>\<open>SqliteBroker.Start\<close>, \<open>Stop\<close> and \<open>Dispose\<close>. \<open>Stop\<close> waits for the loop and rethrows its exception unless it is a
  cancellation; \<open>Dispose\<close> swallows it.\<close>

definition new_loop :: loop where
  "new_loop = \<lparr>pc = Polling, stopping = False, conn_open = True\<rparr>"

definition broker_Dispose :: "loop \<Rightarrow> loop" where
  "broker_Dispose l = l\<lparr>stopping := True, conn_open := False\<rparr>"

text \<open>The outcome of \<open>dni_broker_stop\<close> once the loop has returned.\<close>

definition stop_returns :: "loop \<Rightarrow> (int \<times> loop) option" where
  "stop_returns l = (case pc l of Returned Faulted \<Rightarrow> Some (Internal, l)
     | Returned _ \<Rightarrow> Some (Ok, broker_Dispose l) | _ \<Rightarrow> None)"

definition update_loop :: "nat \<Rightarrow> (loop \<Rightarrow> loop) \<Rightarrow> broker_world \<Rightarrow> broker_world" where
  "update_loop k f w = w\<lparr>loops := (loops w)[k := f (loops w ! k)]\<rparr>"

text \<open>\<open>dni_broker_start\<close>: \<open>blank\<close> says that the path is empty, \<open>opens\<close> that the database opens and the schema is
  created. The loop is only started when it does.\<close>

definition broker_start :: "bool \<Rightarrow> bool \<Rightarrow> broker_world \<Rightarrow> int \<times> broker_world" where
  "broker_start blank opens w =
     (if blank then (InvalidArgument, w)
      else if the_broker w \<noteq> None then (AlreadyRunning, w)
      else if \<not> opens then (Internal, w)
      else (Ok, w\<lparr>loops := loops w @ [new_loop], the_broker := Some (length (loops w))\<rparr>))"

text \<open>\<open>dni_broker_stop\<close> up to its wait: the broker is forgotten under the lock and cancelled outside of it.\<close>

definition broker_stop :: "broker_world \<Rightarrow> broker_world" where
  "broker_stop w = (case the_broker w of None \<Rightarrow> w
     | Some k \<Rightarrow> (update_loop k (\<lambda>l. l\<lparr>stopping := True\<rparr>) w)\<lparr>the_broker := None\<rparr>)"

definition at_end_of_loop :: "loop \<Rightarrow> bool" where
  "at_end_of_loop l \<longleftrightarrow> (case pc l of Returned _ \<Rightarrow> True | _ \<Rightarrow> False)"

text \<open>Everything that may happen. With \<open>overlap\<close> a start may come while the loop of a stopped broker is still running:
  the export holds its lock only until it has forgotten the broker.\<close>

inductive broker_step :: "(int \<Rightarrow> InferRequest \<Rightarrow> model_run) \<Rightarrow> bool \<Rightarrow> broker_world \<Rightarrow> broker_world \<Rightarrow> bool"
  for M overlap where
  request: "insert_request q now (db w) = Some (i, d) \<Longrightarrow> broker_step M overlap w (w\<lparr>db := d\<rparr>)"
| loop: "k < length (loops w) \<Longrightarrow> loop_step M (stopping (loops w ! k)) (pc (loops w ! k)) (db w) p d ev \<Longrightarrow>
    broker_step M overlap w (update_loop k (\<lambda>l. l\<lparr>pc := p\<rparr>) (w\<lparr>db := d, spans := spans w @ ev\<rparr>))"
| start: "overlap \<or> list_all at_end_of_loop (loops w) \<Longrightarrow> broker_step M overlap w (snd (broker_start blank opens w))"
| stop: "broker_step M overlap w (broker_stop w)"
| stopped: "k < length (loops w) \<Longrightarrow> stopping (loops w ! k) \<Longrightarrow> stop_returns (loops w ! k) = Some (code, l) \<Longrightarrow>
    broker_step M overlap w (update_loop k (\<lambda>_. l) w)"

inductive_cases broker_stepE: "broker_step M overlap w w'"

inductive broker_reach :: "(int \<Rightarrow> InferRequest \<Rightarrow> model_run) \<Rightarrow> bool \<Rightarrow> broker_world \<Rightarrow> bool"
  for M overlap where
  initial: "broker_reach M overlap world0"
| further: "broker_reach M overlap w \<Longrightarrow> broker_step M overlap w w' \<Longrightarrow> broker_reach M overlap w'"

section \<open>The transcript\<close>

text \<open>The tokens the database holds for a request, as its client reads them.\<close>

definition token_of :: "token_row \<Rightarrow> InferenceToken" where
  "token_of r = \<lparr>Index = idx r, Text = row_text r, IsFinal = is_final r \<noteq> 0\<rparr>"

definition tokens_of :: "broker_db \<Rightarrow> int \<Rightarrow> InferenceToken list" where
  "tokens_of d i = map token_of (filter (\<lambda>r. request_id r = i) (response_tokens d))"

definition reply :: "(int \<Rightarrow> InferRequest \<Rightarrow> model_run) \<Rightarrow> request_row \<Rightarrow> model_run" where
  "reply M r = M (req_id r) (request_of r)"

definition pending :: "request_row \<Rightarrow> bool" where
  "pending r \<longleftrightarrow> status r = ''pending''"

definition row_ok :: "(int \<Rightarrow> InferRequest \<Rightarrow> model_run) \<Rightarrow> broker_db \<Rightarrow> request_row \<Rightarrow> bool" where
  "row_ok M d r \<longleftrightarrow> status r \<in> {''pending'', ''running'', ''done'', ''error''} \<and>
     prefix (tokens_of d (req_id r)) (orchestrated (reply M r)) \<and>
     (pending r \<longrightarrow> tokens_of d (req_id r) = []) \<and>
     (status r = ''done'' \<longrightarrow> tokens_of d (req_id r) = orchestrated (reply M r) \<and> ending (reply M r) = Completes)"

definition db_ok :: "(int \<Rightarrow> InferRequest \<Rightarrow> model_run) \<Rightarrow> broker_db \<Rightarrow> bool" where
  "db_ok M d \<longleftrightarrow> distinct (map req_id (requests d)) \<and> 0 \<le> requests_seq d \<and>
     (\<forall>r \<in> set (requests d). 0 < req_id r \<and> req_id r \<le> requests_seq d \<and> row_ok M d r) \<and>
     request_id ` set (response_tokens d) \<subseteq> req_id ` set (requests d) \<and>
     (\<forall>r \<in> set (requests d). \<forall>r' \<in> set (requests d). pending r \<longrightarrow> \<not> pending r' \<longrightarrow> req_id r' < req_id r)"

definition working :: "(int \<Rightarrow> InferRequest \<Rightarrow> model_run) \<Rightarrow> broker_db \<Rightarrow> int \<Rightarrow> InferenceToken list \<Rightarrow> model_end \<Rightarrow> bool" where
  "working M d i ts e \<longleftrightarrow> (\<exists>r \<in> set (requests d). req_id r = i \<and> status r = ''running'' \<and>
     tokens_of d i @ ts = orchestrated (reply M r) \<and> e = ending (reply M r))"

definition pc_ok :: "(int \<Rightarrow> InferRequest \<Rightarrow> model_run) \<Rightarrow> broker_db \<Rightarrow> loop_pc \<Rightarrow> bool" where
  "pc_ok M d p \<longleftrightarrow> (case p of
     Claimed i q \<Rightarrow> \<exists>r \<in> set (requests d). req_id r = i \<and> request_of r = q \<and> pending r \<and>
       (\<forall>r' \<in> set (requests d). pending r' \<longrightarrow> i \<le> req_id r')
   | Streaming i ts e \<Rightarrow> working M d i ts e
   | Finishing i \<Rightarrow> working M d i [] Completes
   | Failing i \<Rightarrow> \<exists>r \<in> set (requests d). req_id r = i \<and> status r = ''running''
   | _ \<Rightarrow> True)"

lemma db_okD:
  assumes "db_ok M d" "r \<in> set (requests d)"
  shows "0 < req_id r" "req_id r \<le> requests_seq d" "row_ok M d r"
  using assms by (auto simp: db_ok_def)

lemma same_row: "db_ok M d \<Longrightarrow> r \<in> set (requests d) \<Longrightarrow> r' \<in> set (requests d) \<Longrightarrow> req_id r = req_id r' \<Longrightarrow> r = r'"
  by (auto simp: db_ok_def distinct_map inj_on_def)

lemma tokens_of_MarkStatus [simp]: "tokens_of (MarkStatus i st d) j = tokens_of d j"
  by (simp add: tokens_of_def MarkStatus_def)

lemma reply_status [simp]: "reply M (r\<lparr>status := st\<rparr>) = reply M r"
  by (simp add: reply_def request_of_def)

text \<open>A status is changed for one row only.\<close>

lemma requests_MarkStatus:
  "requests (MarkStatus i st d) = map (\<lambda>r. if req_id r = i then r\<lparr>status := st\<rparr> else r) (requests d)"
  by (simp add: MarkStatus_def)

lemma MarkStatus_rows:
  "r \<in> set (requests (MarkStatus i st d)) \<longleftrightarrow>
     (\<exists>r' \<in> set (requests d). r = (if req_id r' = i then r'\<lparr>status := st\<rparr> else r'))"
  unfolding requests_MarkStatus by (simp only: set_map image_iff)

lemma MarkStatus_row:
  "r \<in> set (requests d) \<Longrightarrow> r\<lparr>status := st\<rparr> \<in> set (requests (MarkStatus (req_id r) st d))"
  "r \<in> set (requests d) \<Longrightarrow> req_id r \<noteq> i \<Longrightarrow> r \<in> set (requests (MarkStatus i st d))"
  unfolding MarkStatus_rows by (rule bexI [of _ r]; simp)+

lemma MarkStatus_ids [simp]: "map req_id (requests (MarkStatus i st d)) = map req_id (requests d)"
  by (simp add: MarkStatus_def comp_def if_distrib cong: if_cong)

lemma MarkStatus_ok:
  assumes "db_ok M d" "r \<in> set (requests d)" "row_ok M d (r\<lparr>status := st\<rparr>)" "st \<noteq> ''pending''"
    "pending r \<longrightarrow> (\<forall>r' \<in> set (requests d). pending r' \<longrightarrow> req_id r \<le> req_id r')"
  shows "db_ok M (MarkStatus (req_id r) st d)"
proof -
  let ?d = "MarkStatus (req_id r) st d"
  have rows: "q \<in> set (requests ?d) \<longleftrightarrow> q = r\<lparr>status := st\<rparr> \<or> q \<in> set (requests d) \<and> req_id q \<noteq> req_id r" for q
    using assms(2) by (auto simp: MarkStatus_rows split: if_splits dest: same_row [OF assms(1) _ assms(2)])
  have ok: "row_ok M ?d q = row_ok M d q" for q by (simp add: row_ok_def)
  have ids: "req_id ` set (requests ?d) = req_id ` set (requests d)"
    by (metis MarkStatus_ids list.set_map)
  have late: "req_id r < req_id q" if "q \<in> set (requests d)" "req_id q \<noteq> req_id r" "pending q" for q
    using that assms(1,2,5) by (cases "pending r") (force simp: db_ok_def)+
  have new: "\<not> pending (r\<lparr>status := st\<rparr>)" using assms(4) by (simp add: pending_def)
  show ?thesis unfolding db_ok_def
  proof (intro conjI ballI impI)
    fix q q' assume "q \<in> set (requests ?d)" "q' \<in> set (requests ?d)" "pending q" "\<not> pending q'"
    then show "req_id q' < req_id q" using new late assms(1) by (auto simp: rows db_ok_def)
  next
    have "response_tokens ?d = response_tokens d" by (simp add: MarkStatus_def)
    then show "request_id ` set (response_tokens ?d) \<subseteq> req_id ` set (requests ?d)"
      using assms(1) unfolding ids by (simp add: db_ok_def)
  next
    show "distinct (map req_id (requests ?d))" "0 \<le> requests_seq ?d"
      using assms(1) unfolding MarkStatus_ids by (simp_all add: db_ok_def MarkStatus_def)
  next
    fix q assume "q \<in> set (requests ?d)"
    then show "0 < req_id q" "req_id q \<le> requests_seq ?d" "row_ok M ?d q"
      using assms(2,3) db_okD [OF assms(1)] by (auto simp: ok rows) (auto simp: MarkStatus_def)
  qed
qed

text \<open>The index of a token is its position, so the insert never violates the key.\<close>

lemma run_tokens_Index: "k < length (run_tokens i fs) \<Longrightarrow> Index (run_tokens i fs ! k) = i + int k"
  by (induction fs arbitrary: i k) (auto simp: Final_def nth_Cons split: nat.split)

lemma orchestrated_Index: "k < length (orchestrated m) \<Longrightarrow> Index (orchestrated m ! k) = int k"
  using run_tokens_Index [of k 0] by (auto simp: orchestrated_def RunAsync_def nth_butlast split: model_end.splits)

lemma tokens_Index:
  assumes "prefix (tokens_of d i) (orchestrated m)"
  shows "map Index (tokens_of d i) = map int [0..<length (tokens_of d i)]"
proof (rule nth_equalityI)
  fix k assume "k < length (map Index (tokens_of d i))"
  then show "map Index (tokens_of d i) ! k = map int [0..<length (tokens_of d i)] ! k"
    using assms orchestrated_Index [of k m] by (auto simp: prefix_def nth_append)
qed simp

lemma InsertToken_defined:
  assumes "tokens_of d i @ t # ts = orchestrated m"
  shows "\<exists>d'. InsertToken i t now d = Some d'" "Index t = int (length (tokens_of d i))"
proof -
  have p: "prefix (tokens_of d i) (orchestrated m)" by (rule prefixI [OF assms [symmetric]])
  show t: "Index t = int (length (tokens_of d i))"
    using orchestrated_Index [of "length (tokens_of d i)" m] by (simp flip: assms)
  have "idx r \<in> set (map Index (tokens_of d i))" if "r \<in> set (response_tokens d)" "request_id r = i" for r
    using that by (force simp: tokens_of_def token_of_def)
  then have "idx r < Index t" if "r \<in> set (response_tokens d)" "request_id r = i" for r
    using that unfolding tokens_Index [OF p] t by force
  then show "\<exists>d'. InsertToken i t now d = Some d'" by (force simp: InsertToken_def)
qed

lemma InsertToken_tokens:
  assumes "InsertToken i t now d = Some d'"
  shows "tokens_of d' j = tokens_of d j @ (if j = i then [t] else [])" "requests d' = requests d"
    "requests_seq d' = requests_seq d"
    "request_id ` set (response_tokens d') = insert i (request_id ` set (response_tokens d))"
  using assms by (auto simp: InsertToken_def tokens_of_def token_of_def split: if_splits)

lemma InsertToken_ok:
  assumes "db_ok M d" "working M d i (t # ts) e" "InsertToken i t now d = Some d'"
  shows "db_ok M d'" "working M d' i ts e"
proof -
  note [simp] = InsertToken_tokens [OF assms(3)]
  from assms(2) obtain r where r: "r \<in> set (requests d)" "req_id r = i" "status r = ''running''"
    "tokens_of d i @ t # ts = orchestrated (reply M r)" "e = ending (reply M r)"
    by (auto simp: working_def)
  then show "working M d' i ts e" by (auto simp: working_def)
  have "row_ok M d' q" if q: "q \<in> set (requests d)" for q
  proof (cases "req_id q = i")
    case True
    then have "q = r" using same_row [OF assms(1) q r(1)] r(2) by simp
    moreover have "prefix (tokens_of d i @ [t]) (orchestrated (reply M r))"
      using prefixI [of "orchestrated (reply M r)" "tokens_of d i @ [t]" ts] r(4) by simp
    ultimately show ?thesis using r(2,3) by (simp add: row_ok_def pending_def)
  next
    case False
    then show ?thesis using db_okD(3) [OF assms(1) q] by (simp add: row_ok_def)
  qed
  moreover have "i \<in> req_id ` set (requests d)" using r(1,2) by blast
  ultimately show "db_ok M d'" using assms(1) by (simp add: db_ok_def)
qed

text \<open>The query gives the oldest pending row.\<close>

lemma select_pending_Some:
  assumes "select_pending d = Some r"
  shows "r \<in> set (requests d)" "pending r" "\<forall>r' \<in> set (requests d). pending r' \<longrightarrow> req_id r \<le> req_id r'"
proof -
  let ?rows = "filter (\<lambda>r. status r = ''pending'') (requests d)"
  from assms obtain rs where rs: "sort_key req_id ?rows = r # rs"
    by (auto simp: select_pending_def split: list.splits)
  have set: "set (r # rs) = set ?rows" unfolding rs [symmetric] by simp
  then show "r \<in> set (requests d)" "pending r" by (auto simp: pending_def)
  have "sorted (map req_id (r # rs))" unfolding rs [symmetric] by simp
  then have "\<forall>r' \<in> set (r # rs). req_id r \<le> req_id r'" by simp
  then show "\<forall>r' \<in> set (requests d). pending r' \<longrightarrow> req_id r \<le> req_id r'" unfolding set by (simp add: pending_def)
qed

lemma select_pending_None: "select_pending d = None \<longleftrightarrow> (\<forall>r \<in> set (requests d). \<not> pending r)"
proof -
  have "select_pending d = None \<longleftrightarrow> sort_key req_id (filter (\<lambda>r. status r = ''pending'') (requests d)) = []"
    by (simp add: select_pending_def split: list.split)
  also have "\<dots> \<longleftrightarrow> filter (\<lambda>r. status r = ''pending'') (requests d) = []" by (simp flip: length_0_conv)
  finally show ?thesis by (simp add: filter_empty_conv pending_def)
qed

text \<open>The insert of a client disturbs no transcript and no loop.\<close>

lemma insert_request_ok:
  assumes "db_ok M d" "insert_request q now d = Some (i, d')"
  shows "db_ok M d'" "pc_ok M d p \<Longrightarrow> pc_ok M d' p" "tokens_of d' j = tokens_of d j" "tokens_of d i = []"
    "\<exists>r. requests d' = requests d @ [r] \<and> req_id r = i \<and> request_of r = q \<and> pending r"
proof -
  define r where "r = \<lparr>req_id = i, prompt = Prompt q, max_tokens = MaxTokens q, temperature = Temperature q,
    status = ''pending'', req_created = now\<rparr>"
  have d': "i = requests_seq d + 1" "d' = d\<lparr>requests := requests d @ [r], requests_seq := i\<rparr>"
    using assms(2) by (auto simp: insert_request_def Let_def r_def split: if_splits)
  have rows: "requests d' = requests d @ [r]" by (simp add: d'(2))
  have fresh: "req_id x < i" if "x \<in> set (requests d)" for x
    using db_okD(2) [OF assms(1) that] d'(1) by simp
  then have "i \<notin> request_id ` set (response_tokens d)" using assms(1) by (force simp: db_ok_def)
  then show no: "tokens_of d i = []" by (auto simp: tokens_of_def filter_empty_conv)
  show tok: "tokens_of d' j = tokens_of d j" for j by (simp add: d' tokens_of_def)
  have r: "pending r" "req_id r = i" "request_of r = q" by (simp_all add: r_def pending_def request_of_def)
  then show "\<exists>r. requests d' = requests d @ [r] \<and> req_id r = i \<and> request_of r = q \<and> pending r"
    using d'(2) by simp
  have "row_ok M d' x = row_ok M d x" for x by (simp add: row_ok_def tok)
  moreover have "row_ok M d r" using no r by (simp add: row_ok_def pending_def)
  moreover have "i \<notin> req_id ` set (requests d)" using fresh by force
  ultimately show "db_ok M d'"
    using assms(1) r(1,2) d' fresh by (auto simp: db_ok_def)
  have w: "working M d' j ts e" if "working M d j ts e" for j ts e
    using that by (auto simp: working_def tok rows)
  have "i' \<le> i" if "x \<in> set (requests d)" "req_id x = i'" for x i' using fresh [OF that(1)] that(2) by simp
  then show "pc_ok M d p \<Longrightarrow> pc_ok M d' p"
    using w r by (cases p) (auto simp: pc_ok_def rows)
qed

text \<open>A step of the loop keeps both; it runs at most one row, the oldest pending one.\<close>

definition runs :: "span_event list \<Rightarrow> int list" where
  "runs es = concat (map (\<lambda>e. case e of Request_recorded i \<Rightarrow> [i] | _ \<Rightarrow> []) es)"

definition begun :: "broker_db \<Rightarrow> int set" where
  "begun d = req_id ` {r \<in> set (requests d). \<not> pending r}"

lemma runs_append [simp]: "runs (es @ es') = runs es @ runs es'"
  by (simp add: runs_def)

lemma begun_MarkStatus:
  assumes "r \<in> set (requests d)" "st \<noteq> ''pending''"
  shows "begun (MarkStatus (req_id r) st d) = insert (req_id r) (begun d)"
proof -
  have begun: "j \<in> begun e \<longleftrightarrow> (\<exists>q \<in> set (requests e). req_id q = j \<and> \<not> pending q)" for j e
    by (auto simp: begun_def)
  have mark: "j \<in> begun (MarkStatus (req_id r) st d) \<longleftrightarrow>
      (\<exists>q \<in> set (requests d). req_id q = j \<and> (req_id q = req_id r \<or> \<not> pending q))" for j
    unfolding begun requests_MarkStatus set_map bex_simps
    by (intro bex_cong refl) (use assms(2) in \<open>simp add: pending_def\<close>)
  show ?thesis
  proof (rule set_eqI)
    show "j \<in> begun (MarkStatus (req_id r) st d) \<longleftrightarrow> j \<in> insert (req_id r) (begun d)" for j
      unfolding mark insert_iff begun [of j d] using assms(1) by blast
  qed
qed

lemma working_running: "working M d i ts e \<Longrightarrow> \<exists>r \<in> set (requests d). req_id r = i \<and> status r = ''running''"
  by (auto simp: working_def)

text \<open>Marking a running row keeps the database in order.\<close>

lemma mark_running_row:
  assumes "db_ok M d" "r \<in> set (requests d)" "status r = ''running''"
    "st = ''error'' \<or> st = ''done'' \<and> working M d (req_id r) [] Completes"
  shows "db_ok M (MarkStatus (req_id r) st d)" "begun (MarkStatus (req_id r) st d) = begun d"
proof -
  have np: "\<not> pending r" using assms(3) by (simp add: pending_def)
  have "tokens_of d (req_id r) = orchestrated (reply M r) \<and> ending (reply M r) = Completes" if "st = ''done''"
    using assms(4) that by (auto simp: working_def dest: same_row [OF assms(1) _ assms(2)])
  then have "row_ok M d (r\<lparr>status := st\<rparr>)"
    using db_okD(3) [OF assms(1,2)] assms(4) by (auto simp: row_ok_def pending_def)
  then show "db_ok M (MarkStatus (req_id r) st d)"
    by (rule MarkStatus_ok [OF assms(1,2)]) (use assms(4) np in auto)
  show "begun (MarkStatus (req_id r) st d) = begun d"
    using begun_MarkStatus [OF assms(2), of st] assms(2,4) np by (auto simp: begun_def)
qed

lemma start_row_ok:
  assumes "db_ok M d" "pc_ok M d (Claimed i q)"
  defines "d' \<equiv> MarkStatus i ''running'' d"
  shows "db_ok M d'" "working M d' i (orchestrated (M i q)) (ending (M i q))" "begun d' = insert i (begun d)"
    "\<forall>j \<in> begun d. j < i"
proof -
  from assms(2) obtain r where r: "r \<in> set (requests d)" "req_id r = i" "request_of r = q" "pending r"
    "\<forall>r' \<in> set (requests d). pending r' \<longrightarrow> i \<le> req_id r'" by (auto simp: pc_ok_def)
  have e: "tokens_of d i = []" using db_okD(3) [OF assms(1) r(1)] r(2,4) by (simp add: row_ok_def)
  have "row_ok M d (r\<lparr>status := ''running''\<rparr>)" using e r(2) by (simp add: row_ok_def pending_def)
  from MarkStatus_ok [OF assms(1) r(1) this] r(2,5) show "db_ok M d'" by (simp add: d'_def)
  have "r\<lparr>status := ''running''\<rparr> \<in> set (requests d')"
    using MarkStatus_row(1) [OF r(1)] r(2) by (simp add: d'_def)
  moreover have "reply M r = M i q" using r(2,3) by (simp add: reply_def)
  ultimately show "working M d' i (orchestrated (M i q)) (ending (M i q))"
    using r(2) e unfolding working_def by (intro bexI [of _ "r\<lparr>status := ''running''\<rparr>"]) (simp_all add: d'_def)
  show "begun d' = insert i (begun d)" using begun_MarkStatus [OF r(1)] r(2) by (simp add: d'_def)
  show "\<forall>j \<in> begun d. j < i" using assms(1) r(1,2,4) by (auto simp: db_ok_def begun_def)
qed

lemma loop_step_ok:
  assumes "loop_step M c p d p' d' ev" "db_ok M d" "pc_ok M d p"
  shows "db_ok M d' \<and> pc_ok M d' p' \<and>
    (runs ev = [] \<and> begun d' = begun d \<or> (\<exists>i. runs ev = [i] \<and> begun d' = insert i (begun d) \<and> (\<forall>j \<in> begun d. j < i)))"
  using assms
proof (cases rule: loop_step.cases)
  case (claim r)
  then show ?thesis using assms(2) select_pending_Some [of d r] by (auto simp: pc_ok_def runs_def)
next
  case (start_row i q)
  then show ?thesis using start_row_ok [OF assms(2), of i q] assms(3) by (simp add: pc_ok_def runs_def)
next
  case (token i t now ts e)
  then have "working M d i (t # ts) e" using assms(3) by (simp add: pc_ok_def)
  moreover have ins: "InsertToken i t now d = Some d'" using token by simp
  ultimately show ?thesis using InsertToken_ok [OF assms(2), of i t ts e now d'] InsertToken_tokens(2) [OF ins] token
    by (simp add: pc_ok_def runs_def begun_def)
next
  case (token_fault i t ts e)
  then show ?thesis using assms(2,3) working_running by (auto simp: pc_ok_def runs_def)
next
  case (stream_throw i x)
  then show ?thesis using assms(2,3) working_running by (auto simp: pc_ok_def runs_def)
next
  case (finish_fault i)
  then show ?thesis using assms(2,3) working_running by (auto simp: pc_ok_def runs_def)
next
  case (finish i)
  then have w: "working M d i [] Completes" using assms(3) by (simp add: pc_ok_def)
  then obtain r where "r \<in> set (requests d)" "req_id r = i" "status r = ''running''" using working_running by blast
  with mark_running_row [OF assms(2), of r "''done''"] w finish show ?thesis by (simp add: pc_ok_def runs_def)
next
  case (fail i)
  then obtain r where "r \<in> set (requests d)" "req_id r = i" "status r = ''running''"
    using assms(3) by (auto simp: pc_ok_def)
  with mark_running_row [OF assms(2), of r "''error''"] fail show ?thesis by (simp add: pc_ok_def runs_def)
qed (use assms(2,3) in \<open>simp_all add: pc_ok_def runs_def\<close>)

text \<open>The invariant of a broker whose starts do not overlap: at most one loop is active.\<close>

definition one_active :: "loop list \<Rightarrow> bool" where
  "one_active ls \<longleftrightarrow> (\<forall>j < length ls. \<forall>k < length ls. \<not> at_end_of_loop (ls ! j) \<longrightarrow> \<not> at_end_of_loop (ls ! k) \<longrightarrow> j = k)"

definition broker_field_ok :: "broker_world \<Rightarrow> bool" where
  "broker_field_ok w \<longleftrightarrow> (case the_broker w of None \<Rightarrow> True
     | Some k \<Rightarrow> k < length (loops w) \<and> \<not> stopping (loops w ! k) \<and> conn_open (loops w ! k))"

definition world_ok :: "(int \<Rightarrow> InferRequest \<Rightarrow> model_run) \<Rightarrow> broker_world \<Rightarrow> bool" where
  "world_ok M w \<longleftrightarrow> db_ok M (db w) \<and> (\<forall>l \<in> set (loops w). pc_ok M (db w) (pc l)) \<and> one_active (loops w) \<and>
     sorted_wrt (<) (runs (spans w)) \<and> set (runs (spans w)) = begun (db w) \<and> broker_field_ok w"

lemma world_ok0: "world_ok M world0"
  by (simp add: world_ok_def world0_def broker_db0_def db_ok_def one_active_def broker_field_ok_def runs_def begun_def)

lemma ended_pc_ok: "at_end_of_loop l \<Longrightarrow> pc_ok M d (pc l)"
  by (cases "pc l") (simp_all add: at_end_of_loop_def pc_ok_def)

lemma at_end_of_loop_cong: "pc l = pc l' \<Longrightarrow> at_end_of_loop l = at_end_of_loop l'"
  by (simp add: at_end_of_loop_def)

lemma one_active_update:
  assumes "one_active ls" "k < length ls" "\<not> at_end_of_loop (ls ! k) \<or> at_end_of_loop l"
  shows "one_active (ls[k := l])"
  using assms by (auto simp: one_active_def nth_list_update)

lemma loop_step_active: "loop_step M c p d p' d' ev \<Longrightarrow> pc l = p \<Longrightarrow> \<not> at_end_of_loop l"
  by (auto simp: at_end_of_loop_def elim: loop_stepE)

lemma stop_returns_ended: "stop_returns l = Some (code, l') \<Longrightarrow> at_end_of_loop l \<and> pc l' = pc l \<and> (conn_open l \<or> \<not> conn_open l')"
  by (auto simp: stop_returns_def at_end_of_loop_def broker_Dispose_def split: loop_pc.splits loop_end.splits)

lemma world_ok_loop:
  assumes "world_ok M w" "k < length (loops w)"
    "loop_step M (stopping (loops w ! k)) (pc (loops w ! k)) (db w) p d ev"
  shows "world_ok M (update_loop k (\<lambda>l. l\<lparr>pc := p\<rparr>) (w\<lparr>db := d, spans := spans w @ ev\<rparr>))"
proof -
  let ?l = "loops w ! k" and ?ls = "(loops w)[k := (loops w ! k)\<lparr>pc := p\<rparr>]"
  have a: "\<not> at_end_of_loop ?l" using loop_step_active [OF assms(3)] by simp
  have d: "db_ok M (db w)" "pc_ok M (db w) (pc ?l)" using assms(1,2) by (auto simp: world_ok_def)
  note ok = loop_step_ok [OF assms(3) d]
  have "pc_ok M d (pc l)" if "l \<in> set ?ls" for l
  proof -
    from that obtain j where j: "j < length (loops w)" "l = ?ls ! j" by (auto simp: in_set_conv_nth)
    show ?thesis
    proof (cases "j = k")
      case False
      then have "at_end_of_loop (loops w ! j)" using a assms(1,2) j(1) by (auto simp: world_ok_def one_active_def)
      then show ?thesis using ended_pc_ok j False by (simp add: nth_list_update)
    qed (use ok j in simp)
  qed
  moreover have "one_active ?ls" using one_active_update [of "loops w" k] assms(1,2) a by (simp add: world_ok_def)
  moreover have "broker_field_ok (update_loop k (\<lambda>l. l\<lparr>pc := p\<rparr>) (w\<lparr>db := d, spans := spans w @ ev\<rparr>))"
    using assms(1,2) by (auto simp: world_ok_def broker_field_ok_def update_loop_def nth_list_update split: option.splits)
  ultimately show ?thesis
    using ok assms(1) by (auto simp: world_ok_def update_loop_def sorted_wrt_append)
qed

lemma world_ok_same_pc:
  assumes "world_ok M w" "k < length (loops w)" "pc l = pc (loops w ! k)" "broker_field_ok (w\<lparr>loops := (loops w)[k := l], the_broker := b\<rparr>)"
  shows "world_ok M (w\<lparr>loops := (loops w)[k := l], the_broker := b\<rparr>)"
proof -
  have "at_end_of_loop l = at_end_of_loop (loops w ! k)" using assms(3) by (rule at_end_of_loop_cong)
  then have "one_active ((loops w)[k := l])" using one_active_update [of "loops w" k l] assms(1,2) by (auto simp: world_ok_def)
  moreover have "\<forall>x \<in> set ((loops w)[k := l]). pc_ok M (db w) (pc x)"
    using assms(1-3) set_update_subset_insert [of "loops w" k l] by (auto simp: world_ok_def)
  ultimately show ?thesis using assms(1,4) by (simp add: world_ok_def)
qed

lemma world_ok_start:
  assumes "world_ok M w" "list_all at_end_of_loop (loops w)"
  shows "world_ok M (snd (broker_start blank opens w))"
proof -
  have "one_active (loops w @ [new_loop])" using assms(2) by (auto simp: one_active_def list_all_length nth_append)
  moreover have "pc_ok M d (pc new_loop)" for d by (simp add: pc_ok_def new_loop_def)
  ultimately show ?thesis using assms(1) by (auto simp: broker_start_def world_ok_def broker_field_ok_def new_loop_def)
qed

lemma world_ok_stop:
  assumes "world_ok M w"
  shows "world_ok M (broker_stop w)"
proof (cases "the_broker w")
  case (Some k)
  then have "k < length (loops w)" using assms by (simp add: world_ok_def broker_field_ok_def)
  then show ?thesis using world_ok_same_pc [OF assms, of k "(loops w ! k)\<lparr>stopping := True\<rparr>" None] Some
    by (simp add: broker_stop_def update_loop_def broker_field_ok_def)
qed (simp add: broker_stop_def assms)

lemma world_ok_stopped:
  assumes "world_ok M w" "k < length (loops w)" "stopping (loops w ! k)" "stop_returns (loops w ! k) = Some (code, l)"
  shows "world_ok M (update_loop k (\<lambda>_. l) w)"
proof -
  have "the_broker w \<noteq> Some k" using assms(1,3) by (auto simp: world_ok_def broker_field_ok_def)
  then have "broker_field_ok (w\<lparr>loops := (loops w)[k := l], the_broker := the_broker w\<rparr>)"
    using assms(1,2) by (auto simp: world_ok_def broker_field_ok_def nth_list_update split: option.splits)
  from world_ok_same_pc [OF assms(1,2) _ this] stop_returns_ended [OF assms(4)] show ?thesis
    by (simp add: update_loop_def)
qed

lemma world_ok_step: "broker_step M False w w' \<Longrightarrow> world_ok M w \<Longrightarrow> world_ok M w'"
proof (induction rule: broker_step.induct)
  case (request q now w i d)
  note i = insert_request_ok [OF _ request(1), of M]
  have d: "db_ok M (db w)" using request(2) by (simp add: world_ok_def)
  obtain r where "requests d = requests (db w) @ [r]" "pending r" using i(5) [OF d] by blast
  then have "begun d = begun (db w)" by (auto simp: begun_def)
  then show ?case using request(2) i(1,2) [OF d] by (auto simp: world_ok_def broker_field_ok_def split: option.splits)
next
  case (loop k w p d ev)
  then show ?case by (rule world_ok_loop [rotated])
next
  case (start w blank opens)
  then show ?case using world_ok_start by simp
next
  case (stop w)
  then show ?case by (rule world_ok_stop)
next
  case (stopped k w code l)
  then show ?case using world_ok_stopped by blast
qed

lemma world_ok_reach: "broker_reach M False w \<Longrightarrow> world_ok M w"
  by (induction rule: broker_reach.induct) (auto intro: world_ok0 world_ok_step)


section \<open>A loop that is left alone\<close>

text \<open>The step the loop takes when nobody cancels and no statement raises.\<close>

fun calm :: "(int \<Rightarrow> InferRequest \<Rightarrow> model_run) \<Rightarrow> string \<Rightarrow> loop_pc \<times> broker_db \<Rightarrow> loop_pc \<times> broker_db" where
  "calm M now (Polling, d) = (Selecting, d)"
| "calm M now (Selecting, d) = (case select_pending d of None \<Rightarrow> (Delaying, d)
     | Some r \<Rightarrow> (Claimed (req_id r) (request_of r), d))"
| "calm M now (Claimed i q, d) = (Streaming i (orchestrated (M i q)) (ending (M i q)), MarkStatus i ''running'' d)"
| "calm M now (Streaming i (t # ts) e, d) = (case InsertToken i t now d of Some d' \<Rightarrow> (Streaming i ts e, d')
     | None \<Rightarrow> (Failing i, d))"
| "calm M now (Streaming i [] Completes, d) = (Finishing i, d)"
| "calm M now (Streaming i [] (Throws x), d) = (Failing i, d)"
| "calm M now (Finishing i, d) = (Delaying, MarkStatus i ''done'' d)"
| "calm M now (Failing i, d) = (Delaying, MarkStatus i ''error'' d)"
| "calm M now (Delaying, d) = (Polling, d)"
| "calm M now (Returned e, d) = (Returned e, d)"

fun calm_events :: "loop_pc \<Rightarrow> broker_db \<Rightarrow> string \<Rightarrow> span_event list" where
  "calm_events (Claimed i q) d now = [Request_recorded i]"
| "calm_events (Streaming i (t # ts) e) d now = (if InsertToken i t now d = None then [Execute_span i] else [])"
| "calm_events (Streaming i [] (Throws x)) d now = [Execute_span i]"
| "calm_events (Finishing i) d now = [Execute_span i, Process_span i]"
| "calm_events (Failing i) d now = [Process_span i]"
| "calm_events p d now = []"

lemma calm_is_step:
  "calm M now (p, d) = (p', d') \<Longrightarrow> (case p of Returned e \<Rightarrow> False | _ \<Rightarrow> True) \<Longrightarrow>
   loop_step M False p d p' d' (calm_events p d now)"
  by (induction M now "(p, d)" rule: calm.induct) (auto intro: loop_step.intros split: option.splits)

definition calm_world :: "(int \<Rightarrow> InferRequest \<Rightarrow> model_run) \<Rightarrow> string \<Rightarrow> nat \<Rightarrow> broker_world \<Rightarrow> broker_world" where
  "calm_world M now k w = (let l = loops w ! k; (p, d) = calm M now (pc l, db w) in
     update_loop k (\<lambda>l. l\<lparr>pc := p\<rparr>) (w\<lparr>db := d, spans := spans w @ calm_events (pc l) (db w) now\<rparr>))"

text \<open>What a request looks like when it has been served.\<close>

definition settled :: "(int \<Rightarrow> InferRequest \<Rightarrow> model_run) \<Rightarrow> broker_db \<Rightarrow> request_row \<Rightarrow> bool" where
  "settled M d r \<longleftrightarrow> tokens_of d (req_id r) = orchestrated (reply M r) \<and>
     status r = (case ending (reply M r) of Completes \<Rightarrow> ''done'' | Throws x \<Rightarrow> ''error'')"

text \<open>A row that was pending is followed through the run: it is still pending, it is settled, or the loop is at work on
  it.\<close>

definition at_work :: "(int \<Rightarrow> InferRequest \<Rightarrow> model_run) \<Rightarrow> loop_pc \<Rightarrow> broker_db \<Rightarrow> request_row \<Rightarrow> bool" where
  "at_work M p d r \<longleftrightarrow> status r = ''running'' \<and> (case p of
     Streaming i ts e \<Rightarrow> i = req_id r
   | Finishing i \<Rightarrow> i = req_id r
   | Failing i \<Rightarrow> i = req_id r \<and> tokens_of d i = orchestrated (reply M r) \<and> ending (reply M r) \<noteq> Completes
   | _ \<Rightarrow> False)"

definition followed :: "(int \<Rightarrow> InferRequest \<Rightarrow> model_run) \<Rightarrow> loop_pc \<Rightarrow> broker_db \<Rightarrow> int \<Rightarrow> InferRequest \<Rightarrow> bool" where
  "followed M p d i q \<longleftrightarrow> (\<exists>r \<in> set (requests d). req_id r = i \<and> request_of r = q \<and>
     (pending r \<or> settled M d r \<or> at_work M p d r))"

lemma request_of_status [simp]: "request_of (r\<lparr>status := st\<rparr>) = request_of r"
  by (simp add: request_of_def)

text \<open>Marking a row: the others are followed as before.\<close>

lemma followed_MarkStatus:
  assumes "db_ok M d" "r \<in> set (requests d)" "followed M p d i q"
    "settled M d (r\<lparr>status := st\<rparr>) \<or> at_work M p' d (r\<lparr>status := st\<rparr>) \<or> req_id r \<noteq> i"
    "\<And>x. req_id x \<noteq> req_id r \<Longrightarrow> \<not> at_work M p d x"
  shows "followed M p' (MarkStatus (req_id r) st d) i q"
proof -
  from assms(3) obtain x where x: "x \<in> set (requests d)" "req_id x = i" "request_of x = q"
    "pending x \<or> settled M d x \<or> at_work M p d x" by (auto simp: followed_def)
  have cong: "settled M (MarkStatus (req_id r) st d) y = settled M d y"
    "at_work M p' (MarkStatus (req_id r) st d) y = at_work M p' d y" for y
    by (simp_all add: settled_def at_work_def cong: loop_pc.case_cong)
  show ?thesis
  proof (cases "req_id r = i")
    case True
    then have "x = r" using same_row [OF assms(1) x(1) assms(2)] x(2) by simp
    then have "r\<lparr>status := st\<rparr> \<in> set (requests (MarkStatus (req_id r) st d))"
      using MarkStatus_row(1) [OF assms(2)] by simp
    then show ?thesis unfolding followed_def cong
      using assms(4) x(2,3) \<open>x = r\<close> True by (intro bexI [of _ "r\<lparr>status := st\<rparr>"]) auto
  next
    case False
    then have "x \<in> set (requests (MarkStatus (req_id r) st d))"
      using MarkStatus_row(2) [OF x(1)] x(2) by simp
    then show ?thesis unfolding followed_def cong using x assms(5) [of x] False by (intro bexI [of _ x]) auto
  qed
qed

lemma followed_same:
  "followed M p d i q \<Longrightarrow> (\<And>r. at_work M p d r \<Longrightarrow> at_work M p' d r) \<Longrightarrow> followed M p' d i q"
  by (auto simp: followed_def)

lemma followed_calm:
  assumes "db_ok M d" "pc_ok M d p" "followed M p d i q"
  shows "followed M (fst (calm M now (p, d))) (snd (calm M now (p, d))) i q"
proof (cases p)
  case (Claimed j q')
  then obtain r where r: "r \<in> set (requests d)" "req_id r = j" "request_of r = q'" using assms(2) by (auto simp: pc_ok_def)
  have "followed M (Streaming j (orchestrated (M j q')) (ending (M j q'))) (MarkStatus (req_id r) ''running'' d) i q"
    by (rule followed_MarkStatus [OF assms(1) r(1) assms(3)]) (simp_all add: at_work_def Claimed r(2))
  then show ?thesis using Claimed r(2) by simp
next
  case (Streaming j ts e)
  then have w: "working M d j ts e" using assms(2) by (simp add: pc_ok_def)
  then obtain r where r: "r \<in> set (requests d)" "req_id r = j" "status r = ''running''"
    "tokens_of d j @ ts = orchestrated (reply M r)" "e = ending (reply M r)" by (auto simp: working_def)
  show ?thesis
  proof (cases ts)
    case Nil
    have "x = r" if "at_work M p d x" "x \<in> set (requests d)" for x
      using that same_row [OF assms(1) _ r(1)] r(2) Streaming by (simp add: at_work_def)
    moreover obtain p' where "calm M now (p, d) = (p', d)" "at_work M p' d r"
      using r(2-4) r(5) [symmetric] Nil Streaming by (cases e) (auto simp: at_work_def)
    ultimately show ?thesis using assms(3) by (auto simp: followed_def)
  next
    case (Cons t us)
    obtain d' where d': "InsertToken j t now d = Some d'" using InsertToken_defined r(4) Cons by metis
    have "settled M d' x = settled M d x" if "x \<in> set (requests d)" for x
    proof (cases "req_id x = j")
      case True
      then have "x = r" using same_row [OF assms(1) that r(1)] r(2) by simp
      then show ?thesis using r(3) by (simp add: settled_def split: model_end.split)
    qed (simp add: settled_def InsertToken_tokens(1) [OF d'])
    then show ?thesis using assms(3) Cons Streaming d'
      by (auto simp: followed_def at_work_def InsertToken_tokens(2) [OF d'])
  qed
next
  case (Finishing j)
  then obtain r where r: "r \<in> set (requests d)" "req_id r = j" "tokens_of d j = orchestrated (reply M r)"
    "Completes = ending (reply M r)" using assms(2) by (auto simp: pc_ok_def working_def)
  have "followed M Delaying (MarkStatus (req_id r) ''done'' d) i q"
    by (rule followed_MarkStatus [OF assms(1) r(1) assms(3)])
      (use r in \<open>auto simp: settled_def at_work_def Finishing split: model_end.split\<close>)
  then show ?thesis using Finishing r(2) by simp
next
  case (Failing j)
  then obtain r where r: "r \<in> set (requests d)" "req_id r = j" "status r = ''running''"
    using assms(2) by (auto simp: pc_ok_def)
  have "settled M d (r\<lparr>status := ''error''\<rparr>) \<or> j \<noteq> i"
  proof (cases "j = i")
    case True
    from assms(3) obtain x where x: "x \<in> set (requests d)" "req_id x = i" "pending x \<or> settled M d x \<or> at_work M p d x"
      by (auto simp: followed_def)
    then have "x = r" using same_row [OF assms(1) x(1) r(1)] r(2) True by simp
    then have "at_work M p d r" using x(3) r(3) by (auto simp: pending_def settled_def split: model_end.splits)
    then show ?thesis using Failing r(2) by (auto simp: settled_def at_work_def split: model_end.split)
  qed simp
  then have "followed M Delaying (MarkStatus (req_id r) ''error'' d) i q"
    by (intro followed_MarkStatus [OF assms(1) r(1) assms(3)]) (use r(2) in \<open>auto simp: at_work_def Failing\<close>)
  then show ?thesis using Failing r(2) by simp
qed (use assms(3) in \<open>auto intro: followed_same simp: at_work_def split: option.split\<close>)

text \<open>Every step brings the loop closer to its head with nothing pending.\<close>

definition pendings :: "broker_db \<Rightarrow> nat" where
  "pendings d = length (filter pending (requests d))"

fun distance :: "nat \<Rightarrow> loop_pc \<Rightarrow> nat" where
  "distance n (Streaming i ts e) = 10 + length ts"
| "distance n (Finishing i) = 6"
| "distance n (Failing i) = 6"
| "distance n Delaying = 4"
| "distance n Polling = 3"
| "distance n Selecting = (if n = 0 then 5 else 2)"
| "distance n _ = 1"

lemma filter_map_le: "(\<And>x. x \<in> set xs \<Longrightarrow> P (f x) \<Longrightarrow> P x) \<Longrightarrow> length (filter P (map f xs)) \<le> length (filter P xs)"
  by (induction xs) (auto simp: le_SucI)

lemma filter_map_less:
  "(\<And>x. x \<in> set xs \<Longrightarrow> P (f x) \<Longrightarrow> P x) \<Longrightarrow> y \<in> set xs \<Longrightarrow> P y \<Longrightarrow> \<not> P (f y) \<Longrightarrow>
   length (filter P (map f xs)) < length (filter P xs)"
proof (induction xs)
  case (Cons x xs)
  then show ?case using filter_map_le [of xs P f] by (cases "x = y") (auto simp: less_Suc_eq_le)
qed simp

lemma pendings_MarkStatus:
  assumes "st \<noteq> ''pending''"
  shows "pendings (MarkStatus i st d) \<le> pendings d"
    "r \<in> set (requests d) \<Longrightarrow> req_id r = i \<Longrightarrow> pending r \<Longrightarrow> pendings (MarkStatus i st d) < pendings d"
  unfolding pendings_def requests_MarkStatus
   apply (rule filter_map_le, use assms in \<open>simp add: pending_def split: if_splits\<close>)
  by (rule filter_map_less [of _ _ _ r]) (use assms in \<open>simp_all add: pending_def split: if_splits\<close>)

lemma pendings_0: "pendings d = 0 \<longleftrightarrow> select_pending d = None"
  by (simp add: pendings_def select_pending_None filter_empty_conv)

lemma calm_decreases:
  assumes "db_ok M d" "pc_ok M d p" "calm M now (p, d) = (p', d')"
    "\<not> (p = Polling \<and> pendings d = 0)" "\<And>e. p \<noteq> Returned e"
  shows "pendings d' < pendings d \<or> pendings d' \<le> pendings d \<and> distance (pendings d') p' < distance (pendings d) p"
proof (cases p)
  case Selecting
  then show ?thesis using assms(3) pendings_0 [of d] by (auto split: option.splits)
next
  case (Claimed i q)
  then obtain r where "r \<in> set (requests d)" "req_id r = i" "pending r" using assms(2) by (auto simp: pc_ok_def)
  then show ?thesis using pendings_MarkStatus(2) [of "''running''" r d i] assms(3) Claimed by auto
next
  case (Streaming i ts e)
  then obtain r where "tokens_of d i @ ts = orchestrated (reply M r)" using assms(2) by (auto simp: pc_ok_def working_def)
  then have "\<exists>d'. InsertToken i t now d = Some d'" if "ts = t # us" for t us using InsertToken_defined that by blast
  moreover have "pendings d' = pendings d" if "InsertToken i t now d = Some d'" for t
    using InsertToken_tokens(2) [OF that] by (simp add: pendings_def)
  ultimately show ?thesis using assms(3) Streaming by (cases ts; cases e) auto
next
  case (Finishing i)
  then show ?thesis using pendings_MarkStatus(1) [of "''done''" i d] assms(3) by auto
next
  case (Failing i)
  then show ?thesis using pendings_MarkStatus(1) [of "''error''" i d] assms(3) by auto
qed (use assms in auto)

lemma calm_keeps:
  assumes "db_ok M d" "pc_ok M d p" "calm M now (p, d) = (p', d')" "\<And>e. p \<noteq> Returned e"
  shows "db_ok M d'" "pc_ok M d' p'" "\<And>e. p' \<noteq> Returned e"
proof -
  have "loop_step M False p d p' d' (calm_events p d now)"
    by (rule calm_is_step [OF assms(3)]) (use assms(4) in \<open>simp split: loop_pc.split\<close>)
  from loop_step_ok [OF this assms(1,2)] show "db_ok M d'" "pc_ok M d' p'" by auto
  show "p' \<noteq> Returned e" for e
    using assms(3,4) by (induction M now "(p, d)" rule: calm.induct) (auto split: option.splits)
qed

lemma calm_serves:
  assumes "db_ok M d" "pc_ok M d p" "\<And>e. p \<noteq> Returned e"
  shows "\<exists>n d'. (calm M now ^^ n) (p, d) = (Polling, d') \<and> pendings d' = 0 \<and> db_ok M d' \<and>
    (\<forall>i q. followed M p d i q \<longrightarrow> followed M Polling d' i q)"
proof -
  have "wf (measures [\<lambda>(p, d). pendings d, \<lambda>(p, d). distance (pendings d) p])" by (rule wf_measures)
  then show ?thesis using assms
  proof (induction "(p, d)" arbitrary: p d)
    case less
    show ?case
    proof (cases "p = Polling \<and> pendings d = 0")
      case True
      then show ?thesis using less.prems(1) by (intro exI [of _ 0] exI [of _ d]) simp
    next
      case False
      obtain p' d' where c: "calm M now (p, d) = (p', d')" by fastforce
      note k = calm_keeps [OF less.prems(1,2) c less.prems(3)]
      have "((p', d'), p, d) \<in> measures [\<lambda>(p, d). pendings d, \<lambda>(p, d). distance (pendings d) p]"
        using calm_decreases [OF less.prems(1,2) c False less.prems(3)] by auto
      from less.hyps [OF this k] obtain n d'' where n: "(calm M now ^^ n) (p', d') = (Polling, d'')" "pendings d'' = 0"
        "db_ok M d''" "\<forall>i q. followed M p' d' i q \<longrightarrow> followed M Polling d'' i q" by blast
      have "followed M p' d' i q" if "followed M p d i q" for i q
        using followed_calm [OF less.prems(1,2) that, of now] c by simp
      then show ?thesis using n c by (intro exI [of _ "Suc n"] exI [of _ d'']) (simp add: funpow_swap1 del: funpow.simps(2) add: funpow_Suc_right)
    qed
  qed
qed

lemma calm_world_step:
  assumes "k < length (loops w)" "\<not> stopping (loops w ! k)" "\<And>e. pc (loops w ! k) \<noteq> Returned e"
  shows "broker_step M ov w (calm_world M now k w)"
    "loops (calm_world M now k w) = (loops w)[k := (loops w ! k)\<lparr>pc := fst (calm M now (pc (loops w ! k), db w))\<rparr>]"
    "db (calm_world M now k w) = snd (calm M now (pc (loops w ! k), db w))"
proof -
  obtain p d where c: "calm M now (pc (loops w ! k), db w) = (p, d)" by fastforce
  then have "loop_step M (stopping (loops w ! k)) (pc (loops w ! k)) (db w) p d (calm_events (pc (loops w ! k)) (db w) now)"
    using calm_is_step [OF c] assms(2,3) by (simp split: loop_pc.split)
  from broker_step.loop [OF assms(1) this]
  show "broker_step M ov w (calm_world M now k w)" by (simp add: calm_world_def c Let_def)
  show "loops (calm_world M now k w) = (loops w)[k := (loops w ! k)\<lparr>pc := fst (calm M now (pc (loops w ! k), db w))\<rparr>]"
    "db (calm_world M now k w) = snd (calm M now (pc (loops w ! k), db w))"
    by (simp_all add: calm_world_def c update_loop_def Let_def)
qed

lemma calm_world_iterates:
  fixes now :: string
  assumes "broker_reach M False w" "k < length (loops w)" "\<not> stopping (loops w ! k)" "\<And>e. pc (loops w ! k) \<noteq> Returned e"
  defines "v n \<equiv> (calm_world M now k ^^ n) w"
  shows "broker_reach M False (v n) \<and> (broker_step M False)\<^sup>*\<^sup>* w (v n) \<and> k < length (loops (v n)) \<and> \<not> stopping (loops (v n) ! k) \<and>
    (\<forall>e. pc (loops (v n) ! k) \<noteq> Returned e) \<and>
    (pc (loops (v n) ! k), db (v n)) = (calm M now ^^ n) (pc (loops w ! k), db w)"
proof (induction n)
  case (Suc n)
  let ?u = "v n"
  have u: "v (Suc n) = calm_world M now k ?u" by (simp add: v_def)
  note r = calm_world_step [where k = k and w = ?u and M = M and now = now]
  have "db_ok M (db ?u)" "pc_ok M (db ?u) (pc (loops ?u ! k))"
    using world_ok_reach [of M ?u] Suc by (auto simp: world_ok_def)
  then have "fst (calm M now (pc (loops ?u ! k), db ?u)) \<noteq> Returned e" for e
    using calm_keeps(3) [of M "db ?u"] Suc by (metis prod.collapse)
  then show ?case unfolding u using r Suc further [of M False ?u] rtranclp.rtrancl_into_rtrancl [of "broker_step M False" w ?u]
    by auto
qed (use assms in \<open>simp add: v_def\<close>)

text \<open>A broker that is left alone serves its queue. From every state a broker can be in, with its loop running and not
  cancelled, the loop reaches its head, after finitely many steps in which nobody cancels and no statement raises, with
  nothing pending: every request that was pending has its complete token stream stored and is marked done, or error when
  its model threw.\<close>

lemma broker_serves:
  assumes "broker_reach M False w" "k < length (loops w)" "\<not> stopping (loops w ! k)" "\<not> at_end_of_loop (loops w ! k)"
  shows "\<exists>n. let w' = (calm_world M now k ^^ n) w in
    (broker_step M False)\<^sup>*\<^sup>* w w' \<and> pc (loops w' ! k) = Polling \<and> select_pending (db w') = None \<and>
    (\<forall>r \<in> set (requests (db w)). status r = ''pending'' \<longrightarrow> (\<exists>r' \<in> set (requests (db w')).
       req_id r' = req_id r \<and> request_of r' = request_of r \<and>
       tokens_of (db w') (req_id r) = orchestrated (reply M r) \<and>
       status r' = (case ending (reply M r) of Completes \<Rightarrow> ''done'' | Throws x \<Rightarrow> ''error'')))"
proof -
  let ?l = "loops w ! k"
  have nr: "pc ?l \<noteq> Returned e" for e using assms(4) by (auto simp: at_end_of_loop_def)
  have ok: "db_ok M (db w)" "pc_ok M (db w) (pc ?l)"
    using world_ok_reach [OF assms(1)] assms(2) by (auto simp: world_ok_def)
  obtain n d' where n: "(calm M now ^^ n) (pc ?l, db w) = (Polling, d')" "pendings d' = 0" "db_ok M d'"
    "\<forall>i q. followed M (pc ?l) (db w) i q \<longrightarrow> followed M Polling d' i q"
    using calm_serves [OF ok nr] by blast
  have it: "(broker_step M False)\<^sup>*\<^sup>* w ((calm_world M now k ^^ n) w)" "pc (loops ((calm_world M now k ^^ n) w) ! k) = Polling"
    "db ((calm_world M now k ^^ n) w) = d'"
    using calm_world_iterates [OF assms(1-3) nr, where now = now and n = n] n(1) by auto
  have none: "\<forall>r \<in> set (requests d'). \<not> pending r" using n(2) by (simp add: pendings_0 select_pending_None)
  have "\<exists>r' \<in> set (requests d'). req_id r' = req_id r \<and> request_of r' = request_of r \<and> settled M d' r'"
    if "r \<in> set (requests (db w))" "pending r" for r
  proof -
    have "followed M (pc ?l) (db w) (req_id r) (request_of r)" using that by (auto simp: followed_def)
    then have "followed M Polling d' (req_id r) (request_of r)" using n(4) by blast
    then show ?thesis using none by (auto simp: followed_def at_work_def)
  qed
  then have "\<forall>r \<in> set (requests (db w)). status r = ''pending'' \<longrightarrow> (\<exists>r' \<in> set (requests d').
       req_id r' = req_id r \<and> request_of r' = request_of r \<and>
       tokens_of d' (req_id r) = orchestrated (reply M r) \<and>
       status r' = (case ending (reply M r) of Completes \<Rightarrow> ''done'' | Throws x \<Rightarrow> ''error''))"
    by (force simp: settled_def pending_def reply_def)
  moreover have "select_pending d' = None" using n(2) by (simp add: pendings_0)
  ultimately show ?thesis using it by (intro exI [of _ n]) (simp add: Let_def)
qed

section \<open>What cancellation and faults leave behind\<close>

text \<open>The request a loop has its hands on.\<close>

fun about :: "loop_pc \<Rightarrow> int option" where
  "about (Claimed i q) = Some i"
| "about (Streaming i ts e) = Some i"
| "about (Finishing i) = Some i"
| "about (Failing i) = Some i"
| "about _ = None"

definition abandoned :: "broker_world \<Rightarrow> request_row \<Rightarrow> bool" where
  "abandoned w r \<longleftrightarrow> r \<in> set (requests (db w)) \<and> status r = ''running'' \<and> (\<forall>l \<in> set (loops w). about (pc l) \<noteq> Some (req_id r))"

lemma about_ended: "at_end_of_loop l \<Longrightarrow> about (pc l) = None"
  by (cases "pc l") (simp_all add: at_end_of_loop_def)

lemma abandoned_loop:
  assumes "loop_step M c p d p' d' ev" "db_ok M d" "r \<in> set (requests d)" "status r = ''running''" "about p \<noteq> Some (req_id r)"
  shows "r \<in> set (requests d') \<and> about p' \<noteq> Some (req_id r) \<and> tokens_of d' (req_id r) = tokens_of d (req_id r)"
  using assms
proof (cases rule: loop_step.cases)
  case (claim r')
  then have r': "r' \<in> set (requests d)" "pending r'" using select_pending_Some by simp_all
  then have "req_id r' \<noteq> req_id r" using same_row [OF assms(2) r'(1) assms(3)] assms(4) by (auto simp: pending_def)
  then show ?thesis using claim assms(3) by simp
next
  case (token i t now ts e)
  then show ?thesis using assms(3,5) InsertToken_tokens [of i t now d d'] by simp
qed (use assms(3,5) MarkStatus_row(2) in auto)

lemma abandoned_step:
  assumes "broker_step M False w w'" "world_ok M w" "abandoned w r"
  shows "abandoned w' r \<and> tokens_of (db w') (req_id r) = tokens_of (db w) (req_id r)"
  using assms
proof (cases rule: broker_step.cases)
  case (request q now i d)
  then show ?thesis
    using assms(2,3) insert_request_ok(3,5) [of M "db w" q now i d] by (auto simp: world_ok_def abandoned_def)
next
  case (loop k p d ev)
  then have "loops w ! k \<in> set (loops w)" by simp
  with abandoned_loop [OF loop(3), of r] assms(2,3) loop(1) show ?thesis
    by (auto simp: world_ok_def abandoned_def update_loop_def dest: set_update_subset_insert [THEN subsetD])
next
  case (start blank opens)
  then show ?thesis using assms(3) by (auto simp: broker_start_def abandoned_def new_loop_def)
next
  case stop
  have "about (pc l) \<noteq> Some (req_id r)" if "k < length (loops w)"
    "l \<in> set ((loops w)[k := (loops w ! k)\<lparr>stopping := True\<rparr>])" for k l
    using that assms(3) by (auto simp: abandoned_def dest!: set_update_subset_insert [THEN subsetD])
  then show ?thesis using stop assms(2,3)
    by (auto simp: broker_stop_def abandoned_def update_loop_def world_ok_def broker_field_ok_def split: option.splits)
next
  case (stopped k code l)
  then show ?thesis using assms(3) stop_returns_ended [OF stopped(4)]
    by (auto simp: abandoned_def update_loop_def dest!: set_update_subset_insert [THEN subsetD])
qed

text \<open>C23. An interrupted request is lost. Once the loop that was running a request has returned, by a cancellation or
  because a statement raised, no sequence of inserts, starts and stops, with or without faults, changes the row or its
  transcript again: it stays marked running and nobody resumes it.\<close>

theorem interrupted_stays_running:
  assumes "broker_reach M False w" "list_all at_end_of_loop (loops w)"
    "r \<in> set (requests (db w))" "status r = ''running''" "(broker_step M False)\<^sup>*\<^sup>* w w'"
  shows "r \<in> set (requests (db w')) \<and> tokens_of (db w') (req_id r) = tokens_of (db w) (req_id r)"
proof -
  have a: "abandoned w r" using assms(2-4) by (simp add: abandoned_def list_all_iff about_ended)
  from assms(5) have "world_ok M w' \<and> abandoned w' r \<and> tokens_of (db w') (req_id r) = tokens_of (db w) (req_id r)"
  proof (induction rule: rtranclp_induct)
    case base
    then show ?case using a world_ok_reach [OF assms(1)] by simp
  next
    case (step y z)
    then show ?case using world_ok_step [of M y z] abandoned_step [of M y z r] by simp
  qed
  then show ?thesis by (simp add: abandoned_def)
qed

text \<open>A statement that raises outside the handler ends the loop for good: while the broker is registered a start
  answers \<open>AlreadyRunning\<close> and no request is taken up, and the stop that follows answers \<open>Internal\<close> and leaves the
  connection open.\<close>

theorem faulted_loop_leaks:
  assumes "broker_reach M False w" "the_broker w = Some k" "pc (loops w ! k) = Returned Faulted"
  shows "(\<forall>c p d ev. \<not> loop_step M c (pc (loops w ! k)) (db w) p d ev) \<and>
    broker_start False opens w = (AlreadyRunning, w) \<and>
    (\<exists>l. stop_returns (loops (broker_stop w) ! k) = Some (Internal, l) \<and> conn_open l)"
proof -
  have f: "k < length (loops w)" "conn_open (loops w ! k)"
    using world_ok_reach [OF assms(1)] assms(2) by (auto simp: world_ok_def broker_field_ok_def)
  have "\<not> loop_step M c (pc (loops w ! k)) (db w) p d ev" for c p d ev
    using assms(3) by (auto elim: loop_stepE)
  then show ?thesis using f assms(2,3)
    by (auto simp: broker_start_def broker_stop_def update_loop_def stop_returns_def)
qed

section \<open>Overlapping stop and start\<close>

text \<open>One request in an otherwise empty database, and the loop that read it.\<close>

definition demo_request :: InferRequest where
  "demo_request = \<lparr>Prompt = ''p'', MaxTokens = 8, Temperature = 0\<rparr>"

definition one_request :: broker_world where
  "one_request = world0\<lparr>db := \<lparr>requests = [\<lparr>req_id = 1, prompt = ''p'', max_tokens = 8, temperature = 0,
     status = ''pending'', req_created = ''t''\<rparr>], response_tokens = [], requests_seq = 1\<rparr>\<rparr>"

lemma one_request_reach: "broker_reach M ov one_request"
proof -
  have "insert_request demo_request ''t'' (db world0) = Some (1, db one_request)"
    by (simp add: insert_request_def demo_request_def world0_def broker_db0_def one_request_def)
  from further [OF initial broker_step.request [OF this]] show ?thesis by (simp add: one_request_def world0_def)
qed

text \<open>A row is claimed by the loop that was started on it.\<close>

definition claimed_row :: "bool \<Rightarrow> loop" where
  "claimed_row c = \<lparr>pc = Claimed 1 demo_request, stopping = c, conn_open = True\<rparr>"

lemma start_claims:
  assumes "broker_reach M ov w" "db w = db one_request" "the_broker w = None" "ov \<or> list_all at_end_of_loop (loops w)"
  shows "broker_reach M ov (w\<lparr>loops := loops w @ [claimed_row False], the_broker := Some (length (loops w))\<rparr>)"
proof -
  let ?k = "length (loops w)"
  let ?w1 = "w\<lparr>loops := loops w @ [new_loop], the_broker := Some ?k\<rparr>"
  let ?w2 = "update_loop ?k (\<lambda>l. l\<lparr>pc := Selecting\<rparr>) ?w1"
  have "snd (broker_start False True w) = ?w1" using assms(3) by (simp add: broker_start_def)
  with further [OF assms(1) broker_step.start [OF assms(4)]] have "broker_reach M ov ?w1" by metis
  moreover have "broker_step M ov ?w1 ?w2"
    using broker_step.loop [of ?k ?w1 M Selecting "db w" "[]" ov] loop_step.poll [of M "db w"] by (simp add: new_loop_def)
  ultimately have "broker_reach M ov ?w2" by (rule further)
  moreover have "loop_step M False Selecting (db w) (Claimed 1 demo_request) (db w) []"
    using loop_step.claim [of "db w" "hd (requests (db w))" M False]
    by (simp add: assms(2) one_request_def world0_def select_pending_def request_of_def demo_request_def)
  then have "broker_step M ov ?w2 (update_loop ?k (\<lambda>l. l\<lparr>pc := Claimed 1 demo_request\<rparr>) ?w2)"
    using broker_step.loop [of ?k ?w2 M "Claimed 1 demo_request" "db w" "[]" ov] by (simp add: update_loop_def new_loop_def)
  ultimately have "broker_reach M ov (update_loop ?k (\<lambda>l. l\<lparr>pc := Claimed 1 demo_request\<rparr>) ?w2)" by (rule further)
  then show ?thesis by (cases w) (simp add: update_loop_def new_loop_def claimed_row_def)
qed

lemma start_row_step:
  assumes "broker_reach M ov w" "k < length (loops w)" "pc (loops w ! k) = Claimed i q"
  shows "\<exists>w'. broker_reach M ov w' \<and> runs (spans w') = runs (spans w) @ [i] \<and> length (loops w') = length (loops w) \<and>
    (\<forall>j. j \<noteq> k \<longrightarrow> loops w' ! j = loops w ! j)"
proof -
  let ?p = "Streaming i (orchestrated (M i q)) (ending (M i q))" and ?d = "MarkStatus i ''running'' (db w)"
  have "loop_step M (stopping (loops w ! k)) (pc (loops w ! k)) (db w) ?p ?d [Request_recorded i]"
    unfolding assms(3) by (rule loop_step.start_row)
  from further [OF assms(1) broker_step.loop [OF assms(2) this]]
  show ?thesis
    by (intro exI [of _ "update_loop k (\<lambda>l. l\<lparr>pc := ?p\<rparr>) (w\<lparr>db := ?d, spans := spans w @ [Request_recorded i]\<rparr>)"] conjI)
      (auto simp: update_loop_def runs_def)
qed

text \<open>The claim is not atomic: a start while the loop of a stopped broker is still running gives two loops that may both
  take the same row. Whatever the model, there is such a run in which a request is run twice.\<close>

theorem overlap_runs_twice:
  "\<exists>w. broker_reach M True w \<and> \<not> distinct (runs (spans w))"
proof -
  let ?w1 = "one_request\<lparr>loops := [claimed_row False], the_broker := Some 0\<rparr>"
  let ?w2 = "one_request\<lparr>loops := [claimed_row True], the_broker := None\<rparr>"
  let ?w3 = "?w2\<lparr>loops := loops ?w2 @ [claimed_row False], the_broker := Some (length (loops ?w2))\<rparr>"
  have o: "the_broker one_request = None" "loops one_request = []" "spans one_request = []"
    by (simp_all add: one_request_def world0_def)
  have "broker_reach M True ?w1" using start_claims [OF one_request_reach] o by simp
  from further [OF this broker_step.stop] have "broker_reach M True ?w2"
    by (simp add: broker_stop_def update_loop_def claimed_row_def)
  then have w3: "broker_reach M True ?w3" by (rule start_claims) simp_all
  obtain w4 where w4: "broker_reach M True w4" "runs (spans w4) = runs (spans ?w3) @ [1]" "length (loops w4) = length (loops ?w3)"
    "\<forall>j. j \<noteq> 0 \<longrightarrow> loops w4 ! j = loops ?w3 ! j"
    using start_row_step [OF w3, of 0 1 demo_request] by (auto simp: claimed_row_def)
  have "pc (loops w4 ! 1) = Claimed 1 demo_request" "1 < length (loops w4)"
    using w4(3,4) by (simp_all add: claimed_row_def)
  from start_row_step [OF w4(1) this(2,1)] obtain w5 where "broker_reach M True w5" "runs (spans w5) = runs (spans w4) @ [1]"
    by blast
  then show ?thesis using w4(2) by (intro exI [of _ w5]) simp
qed

section \<open>Witnesses\<close>

definition demo_reply :: "int \<Rightarrow> InferRequest \<Rightarrow> model_run" where
  "demo_reply i q = \<lparr>fragments = [Prompt q], ending = Completes\<rparr>"

definition with_loop :: "loop_pc \<Rightarrow> broker_world" where
  "with_loop p = one_request\<lparr>loops := [\<lparr>pc = p, stopping = False, conn_open = True\<rparr>], the_broker := Some 0\<rparr>"

lemma with_loop_reach: "broker_reach M ov (with_loop Polling)" "broker_reach M ov (with_loop (Returned Faulted))"
proof -
  have "snd (broker_start False True one_request) = with_loop Polling"
    by (simp add: broker_start_def one_request_def world0_def with_loop_def new_loop_def)
  with further [OF one_request_reach broker_step.start [of ov one_request M False True]]
  show w: "broker_reach M ov (with_loop Polling)" by (simp add: one_request_def world0_def)
  have "broker_step M ov (with_loop Polling) (with_loop Selecting)"
    using broker_step.loop [of 0 "with_loop Polling" M Selecting "db one_request" "[]" ov] loop_step.poll [of M]
    by (simp add: with_loop_def update_loop_def one_request_def world0_def)
  from further [OF w this] have w2: "broker_reach M ov (with_loop Selecting)" .
  have "broker_step M ov (with_loop Selecting) (with_loop (Returned Faulted))"
    using broker_step.loop [of 0 "with_loop Selecting" M "Returned Faulted" "db one_request" "[]" ov]
      loop_step.select_fault [of M False]
    by (simp add: with_loop_def update_loop_def one_request_def world0_def)
  from further [OF w2 this] show "broker_reach M ov (with_loop (Returned Faulted))" .
qed

text \<open>A request that was cancelled in its stream.\<close>

definition cancelled_world :: broker_world where
  "cancelled_world = one_request\<lparr>db := MarkStatus 1 ''running'' (db one_request),
     loops := [\<lparr>pc = Returned Canceled, stopping = True, conn_open = True\<rparr>],
     spans := [Request_recorded 1, Execute_span 1, Process_span 1]\<rparr>"

lemma cancelled_reach: "broker_reach M ov cancelled_world"
proof -
  let ?w1 = "one_request\<lparr>loops := [claimed_row False], the_broker := Some 0\<rparr>"
  let ?p = "Streaming 1 (orchestrated (M 1 demo_request)) (ending (M 1 demo_request))"
  let ?d = "MarkStatus 1 ''running'' (db one_request)"
  let ?l = "\<lambda>c p. \<lparr>pc = p, stopping = c, conn_open = True\<rparr>"
  let ?w2 = "one_request\<lparr>db := ?d, loops := [?l False ?p], the_broker := Some 0, spans := [Request_recorded 1]\<rparr>"
  let ?w3 = "?w2\<lparr>loops := [?l True ?p], the_broker := None\<rparr>"
  have o: "the_broker one_request = None" "loops one_request = []" "spans one_request = []"
    by (simp_all add: one_request_def world0_def)
  have w1: "broker_reach M ov ?w1" using start_claims [OF one_request_reach] o by simp
  have "broker_step M ov ?w1 ?w2"
    using broker_step.loop [of 0 ?w1 M ?p ?d "[Request_recorded 1]" ov] loop_step.start_row [of M False 1 demo_request]
    by (simp add: claimed_row_def update_loop_def one_request_def world0_def)
  from further [OF further [OF w1 this] broker_step.stop] have w3: "broker_reach M ov ?w3"
    by (simp add: broker_stop_def update_loop_def one_request_def world0_def)
  have "broker_step M ov ?w3 cancelled_world"
    using broker_step.loop [of 0 ?w3 M "Returned Canceled" ?d "[Execute_span 1, Process_span 1]" ov]
      loop_step.stream_cancel [of M 1]
    by (simp add: update_loop_def cancelled_world_def one_request_def world0_def)
  from further [OF w3 this] show ?thesis .
qed


theorem faulted_loop_leaks_witness:
  "broker_start False True (with_loop (Returned Faulted)) = (AlreadyRunning, with_loop (Returned Faulted))"
  using faulted_loop_leaks [OF with_loop_reach(2) [of demo_reply], of 0] by (simp add: with_loop_def)

theorem interrupted_stays_running_witness:
  "\<exists>r. r \<in> set (requests (db (snd (broker_start False True cancelled_world)))) \<and> req_id r = 1 \<and> status r = ''running''"
proof -
  let ?r = "hd (requests (db cancelled_world))" and ?w = "snd (broker_start False True cancelled_world)"
  have r: "?r \<in> set (requests (db cancelled_world))" "req_id ?r = 1" "status ?r = ''running''"
    "list_all at_end_of_loop (loops cancelled_world)"
    by (simp_all add: cancelled_world_def one_request_def MarkStatus_def at_end_of_loop_def)
  have "(broker_step demo_reply False)\<^sup>*\<^sup>* cancelled_world ?w"
    using broker_step.start [of False cancelled_world demo_reply False True] r(4) by auto
  from interrupted_stays_running [OF cancelled_reach r(4,1,3) this] r(2,3) show ?thesis by blast
qed

end
