(* ===== verification/Sqlite_Client.thy ===== *)
theory Sqlite_Client
  imports Sqlite_Broker
begin

text \<open>
  The Android client of the SQLite transport, \<^verbatim>\<open>SqliteClient.kt\<close> and the queries of \<^verbatim>\<open>BrokerDatabase.kt\<close> under
  \<^verbatim>\<open>src/android/app/src/main/kotlin/io/dotnetnativeinterop\<close>: \<open>stream\<close> inserts a request and runs three coroutines, an
  observer of the token rows, an observer of the status and the loop that emits what they put into a channel. It is
  composed with the broker of \<open>Sqlite_Broker\<close>: both work on the same database and interleave freely. When Room emits a
  new result of a query is its own matter, so an observer may see any later state of the tables. The theorems: under every
  interleaving the client emits a prefix of the token stream of its request, it ends cleanly exactly with the complete
  stream and with an error only when the broker marked the row; and once a request is done its client can always end.
\<close>

section \<open>Queries\<close>

definition observeTokensAfter :: "int \<Rightarrow> int \<Rightarrow> broker_db \<Rightarrow> token_row list" where
  "observeTokensAfter i after d = sort_key idx (filter (\<lambda>r. request_id r = i \<and> after < idx r) (response_tokens d))"

definition observeStatus :: "int \<Rightarrow> broker_db \<Rightarrow> string option" where
  "observeStatus i d = map_option status (find (\<lambda>r. req_id r = i) (requests d))"

section \<open>The client\<close>

text \<open>The token observer waits for Room, forwards the rows of an emission, is suspended in \<open>send\<close> because the channel is full,
  is about to close the channel, or has ended because the channel was closed before it.\<close>

datatype observer_state = Watching | Forwarding "token_row list" | Suspended token_row "token_row list" | Ending | Gone
datatype stream_end = Clean | Broker_error

record sqlite_client =
  of_request :: int
  lastSeenIdx :: int
  observer :: observer_state
  chan :: "InferenceToken list"
  chan_closed :: "stream_end option"
  emitted_tokens :: "InferenceToken list"
  ended :: "stream_end option"

definition client0 :: "int \<Rightarrow> sqlite_client" where
  "client0 i = \<lparr>of_request = i, lastSeenIdx = - 1, observer = Watching, chan = [], chan_closed = None, emitted_tokens = [], ended = None\<rparr>"

definition chan_capacity :: nat where "chan_capacity = 64"

definition close_chan :: "stream_end \<Rightarrow> sqlite_client \<Rightarrow> sqlite_client" where
  "close_chan e c = (case chan_closed c of None \<Rightarrow> c\<lparr>chan_closed := Some e\<rparr> | Some _ \<Rightarrow> c)"

inductive token_observer :: "broker_db \<Rightarrow> sqlite_client \<Rightarrow> sqlite_client \<Rightarrow> bool" where
  emission: "observer c = Watching \<Longrightarrow>
    token_observer d c (c\<lparr>observer := Forwarding (observeTokensAfter (of_request c) (- 1) d)\<rparr>)"
| seen: "observer c = Forwarding (r # rs) \<Longrightarrow> \<not> lastSeenIdx c < idx r \<Longrightarrow> token_observer d c (c\<lparr>observer := Forwarding rs\<rparr>)"
| send: "observer c = Forwarding (r # rs) \<Longrightarrow> lastSeenIdx c < idx r \<Longrightarrow> chan_closed c = None \<Longrightarrow>
    length (chan c) < chan_capacity \<Longrightarrow>
    token_observer d c (c\<lparr>lastSeenIdx := idx r, chan := chan c @ [token_of r],
      observer := (if is_final r \<noteq> 0 then Ending else Forwarding rs)\<rparr>)"
| suspend: "observer c = Forwarding (r # rs) \<Longrightarrow> lastSeenIdx c < idx r \<Longrightarrow> chan_closed c = None \<Longrightarrow>
    \<not> length (chan c) < chan_capacity \<Longrightarrow> token_observer d c (c\<lparr>lastSeenIdx := idx r, observer := Suspended r rs\<rparr>)"
| resume: "observer c = Suspended r rs \<Longrightarrow> length (chan c) < chan_capacity \<Longrightarrow>
    token_observer d c (c\<lparr>chan := chan c @ [token_of r], observer := (if is_final r \<noteq> 0 then Ending else Forwarding rs)\<rparr>)"
| send_closed: "observer c = Forwarding (r # rs) \<Longrightarrow> lastSeenIdx c < idx r \<Longrightarrow> chan_closed c \<noteq> None \<Longrightarrow>
    token_observer d c (c\<lparr>lastSeenIdx := idx r, observer := Gone\<rparr>)"
| all_seen: "observer c = Forwarding [] \<Longrightarrow> token_observer d c (c\<lparr>observer := Watching\<rparr>)"
| close: "observer c = Ending \<Longrightarrow> token_observer d c (close_chan Clean (c\<lparr>observer := Watching\<rparr>))"

definition status_observer :: "broker_db \<Rightarrow> sqlite_client \<Rightarrow> sqlite_client" where
  "status_observer d c = (let st = observeStatus (of_request c) d in
     if st = Some ''error'' then close_chan Broker_error c
     else if st = Some ''canceled'' then close_chan Clean c else c)"

text \<open>A sender that is suspended when the channel is closed comes before the end: the loop receives its token first.\<close>

definition suspended :: "sqlite_client \<Rightarrow> bool" where
  "suspended c \<longleftrightarrow> (case observer c of Suspended r rs \<Rightarrow> True | _ \<Rightarrow> False)"

inductive emit_loop :: "sqlite_client \<Rightarrow> sqlite_client \<Rightarrow> bool" where
  emit: "chan c = t # q \<Longrightarrow> emit_loop c (c\<lparr>chan := q, emitted_tokens := emitted_tokens c @ [t]\<rparr>)"
| finish: "chan c = [] \<Longrightarrow> \<not> suspended c \<Longrightarrow> chan_closed c = Some e \<Longrightarrow> emit_loop c (c\<lparr>ended := Some e\<rparr>)"

text \<open>When the loop has left, it cancels the observers.\<close>

definition client_moves :: "broker_db \<Rightarrow> sqlite_client \<Rightarrow> sqlite_client \<Rightarrow> bool" where
  "client_moves d c c' \<longleftrightarrow> ended c = None \<and> (token_observer d c c' \<or> c' = status_observer d c \<or> emit_loop c c')"

inductive_cases token_observerE: "token_observer d c c'"
inductive_cases emit_loopE: "emit_loop c c'"

text \<open>\<open>stream\<close>: the client of request \<open>q\<close>, whose row got the id \<open>i\<close>, beside the broker.\<close>

inductive stream_reach :: "(int \<Rightarrow> InferRequest \<Rightarrow> model_run) \<Rightarrow> int \<Rightarrow> InferRequest \<Rightarrow> broker_world \<Rightarrow> sqlite_client \<Rightarrow> bool"
  for M i q where
  inserted: "broker_reach M False w \<Longrightarrow> insert_request q now (db w) = Some (i, d) \<Longrightarrow> stream_reach M i q (w\<lparr>db := d\<rparr>) (client0 i)"
| broker: "stream_reach M i q w c \<Longrightarrow> broker_step M False w w' \<Longrightarrow> stream_reach M i q w' c"
| client: "stream_reach M i q w c \<Longrightarrow> client_moves (db w) c c' \<Longrightarrow> stream_reach M i q w c'"

section \<open>What the broker keeps\<close>

text \<open>A step of the broker keeps the row up to its status, a row marked error as it is, and only appends tokens.\<close>

definition extends :: "int \<Rightarrow> broker_db \<Rightarrow> broker_db \<Rightarrow> bool" where
  "extends i d d' \<longleftrightarrow> prefix (tokens_of d i) (tokens_of d' i) \<and>
     (\<forall>r \<in> set (requests d). req_id r = i \<longrightarrow> (\<exists>r' \<in> set (requests d'). req_id r' = i \<and> request_of r' = request_of r \<and>
        (status r = ''error'' \<longrightarrow> r' = r)))"

lemma extends_refl: "extends i d d"
  by (auto simp: extends_def)

lemma extends_MarkStatus:
  assumes "db_ok M d" "r \<in> set (requests d)" "status r \<noteq> ''error''"
  shows "extends i d (MarkStatus (req_id r) st d)"
  unfolding extends_def
proof (intro conjI ballI impI)
  fix x assume x: "x \<in> set (requests d)" "req_id x = i"
  show "\<exists>r' \<in> set (requests (MarkStatus (req_id r) st d)). req_id r' = i \<and> request_of r' = request_of x \<and>
      (status x = ''error'' \<longrightarrow> r' = x)"
  proof (cases "req_id r = i")
    case True
    then have "x = r" using same_row [OF assms(1) x(1) assms(2)] x(2) by simp
    then show ?thesis using MarkStatus_row(1) [OF assms(2), of st] assms(3) True
      by (intro bexI [of _ "r\<lparr>status := st\<rparr>"]) simp_all
  next
    case False
    then show ?thesis using MarkStatus_row(2) [OF x(1)] x(2) by (intro bexI [of _ x]) simp_all
  qed
qed simp

lemma loop_extends:
  assumes "loop_step M c p d p' d' ev" "db_ok M d" "pc_ok M d p"
  shows "extends i d d'"
  using assms
proof (cases rule: loop_step.cases)
  case (start_row j q)
  then obtain r where "r \<in> set (requests d)" "req_id r = j" "pending r" using assms(3) by (auto simp: pc_ok_def)
  then show ?thesis using extends_MarkStatus [OF assms(2), of r] start_row by (auto simp: pending_def)
next
  case (token j t now ts e)
  then show ?thesis using InsertToken_tokens [of j t now d d'] by (auto simp: extends_def)
next
  case (finish j)
  then obtain r where "r \<in> set (requests d)" "req_id r = j" "status r = ''running''"
    using assms(3) by (auto simp: pc_ok_def dest!: working_running)
  then show ?thesis using extends_MarkStatus [OF assms(2), of r] finish by auto
next
  case (fail j)
  then obtain r where "r \<in> set (requests d)" "req_id r = j" "status r = ''running''"
    using assms(3) by (auto simp: pc_ok_def)
  then show ?thesis using extends_MarkStatus [OF assms(2), of r] fail by auto
qed (simp_all add: extends_refl)

lemma broker_extends:
  assumes "broker_step M False w w'" "world_ok M w"
  shows "extends i (db w) (db w')"
  using assms
proof (cases rule: broker_step.cases)
  case (request q now j d)
  then show ?thesis using insert_request_ok(3,5) [of M "db w" q now j d] assms(2)
    by (force simp: world_ok_def extends_def)
next
  case (loop k p d ev)
  then show ?thesis using loop_extends [OF loop(3)] assms(2) by (simp add: world_ok_def update_loop_def)
qed (simp_all add: extends_refl broker_start_def broker_stop_def update_loop_def split: option.split)

section \<open>The stream\<close>

text \<open>What Room emits are the stored tokens in order.\<close>

lemma observed_tokens:
  assumes "prefix (tokens_of d i) (orchestrated m)"
  shows "map token_of (observeTokensAfter i (- 1) d) = tokens_of d i"
proof -
  let ?rows = "filter (\<lambda>r. request_id r = i) (response_tokens d)"
  have idx: "map idx ?rows = map int [0..<length (tokens_of d i)]"
    using tokens_Index [OF assms] by (simp add: tokens_of_def token_of_def comp_def)
  have "idx r \<in> set (map idx ?rows)" if "r \<in> set ?rows" for r using that by simp
  then have "- 1 < idx r" if "r \<in> set ?rows" for r using that unfolding idx by fastforce
  then have "filter (\<lambda>r. request_id r = i \<and> - 1 < idx r) (response_tokens d) = ?rows"
    by (intro filter_cong refl) auto
  moreover have "sorted (map idx ?rows)" unfolding idx by (simp add: sorted_map)
  ultimately show ?thesis by (simp add: observeTokensAfter_def tokens_of_def sort_key_id_if_sorted)
qed

text \<open>Only the last token of a stream that completes is final.\<close>

lemma final_is_last:
  assumes "prefix ts (orchestrated m)" "ts \<noteq> []" "IsFinal (last ts)"
  shows "ts = RunAsync (fragments m)" "ending m = Completes"
proof -
  obtain us f where us: "RunAsync (fragments m) = us @ [f]" "\<forall>t \<in> set us. \<not> IsFinal t"
    using run_tokens_split [of 0 "fragments m"] by (auto simp: RunAsync_def)
  have "last ts \<in> set ts" using assms(2) by simp
  then have n: "\<not> prefix ts us" using us(2) assms(3) set_mono_prefix by blast
  have p: "prefix ts (us @ [f])" using assms(1) us(1) n by (auto simp: orchestrated_def split: model_end.splits)
  then show "ts = RunAsync (fragments m)" using n us(1) by (auto simp: prefix_snoc)
  show "ending m = Completes" using n assms(1) us(1) by (auto simp: orchestrated_def split: model_end.splits)
qed

definition sent :: "sqlite_client \<Rightarrow> InferenceToken list" where
  "sent c = emitted_tokens c @ chan c"

text \<open>The rows an observer has still to forward continue what it has forwarded, or repeat some of it.\<close>

definition forwarding_ok :: "sqlite_client \<Rightarrow> InferenceToken list \<Rightarrow> bool" where
  "forwarding_ok c ts \<longleftrightarrow> (case observer c of
     Forwarding rs \<Rightarrow> \<exists>us. prefix (us @ map token_of rs) ts \<and> length us \<le> length (sent c)
   | Suspended r rs \<Rightarrow> prefix (sent c @ token_of r # map token_of rs) ts
   | Ending \<Rightarrow> sent c \<noteq> [] \<and> IsFinal (last (sent c))
   | Gone \<Rightarrow> chan_closed c = Some Broker_error
   | Watching \<Rightarrow> True)"

definition client_ok :: "(int \<Rightarrow> InferRequest \<Rightarrow> model_run) \<Rightarrow> int \<Rightarrow> InferRequest \<Rightarrow> broker_db \<Rightarrow> sqlite_client \<Rightarrow> bool" where
  "client_ok M i q d c \<longleftrightarrow> of_request c = i \<and> (\<exists>r \<in> set (requests d). req_id r = i \<and> request_of r = q \<and>
       (chan_closed c = Some Broker_error \<longrightarrow> status r = ''error'')) \<and>
     prefix (sent c) (tokens_of d i) \<and> forwarding_ok c (tokens_of d i) \<and>
     (observer c \<noteq> Gone \<longrightarrow> lastSeenIdx c = int (length (sent c)) - (if suspended c then 0 else 1)) \<and>
     (chan_closed c = Some Clean \<longrightarrow> sent c \<noteq> [] \<and> IsFinal (last (sent c))) \<and>
     (sent c \<noteq> [] \<and> IsFinal (last (sent c)) \<longrightarrow> observer c = Ending \<or> chan_closed c \<noteq> None) \<and>
     (\<forall>e. ended c = Some e \<longrightarrow> chan c = [] \<and> chan_closed c = Some e)"

lemma client_ok0:
  assumes "db_ok M d" "insert_request q now d = Some (i, d')"
  shows "client_ok M i q d' (client0 i)"
proof -
  obtain r where "requests d' = requests d @ [r]" "req_id r = i" "request_of r = q"
    using insert_request_ok(5) [OF assms] by blast
  then show ?thesis by (simp add: client_ok_def client0_def sent_def forwarding_ok_def suspended_def)
qed

lemma forwarding_ok_mono:
  assumes "prefix ts ts'" "forwarding_ok c ts"
  shows "forwarding_ok c ts'"
proof (cases "observer c")
  case (Forwarding rs)
  then obtain us where "prefix (us @ map token_of rs) ts" "length us \<le> length (sent c)"
    using assms(2) by (auto simp: forwarding_ok_def)
  then show ?thesis using Forwarding prefix_order.trans [OF _ assms(1)] by (auto simp: forwarding_ok_def)
next
  case (Suspended r rs)
  then show ?thesis using assms(2) prefix_order.trans [OF _ assms(1)] by (simp add: forwarding_ok_def)
qed (use assms(2) in \<open>simp_all add: forwarding_ok_def\<close>)

lemma client_ok_extends:
  assumes "extends i d d'" "client_ok M i q d c"
  shows "client_ok M i q d' c"
proof -
  have p: "prefix (tokens_of d i) (tokens_of d' i)" using assms(1) by (simp add: extends_def)
  obtain r where r: "r \<in> set (requests d)" "req_id r = i" "request_of r = q" "chan_closed c = Some Broker_error \<longrightarrow> status r = ''error''"
    using assms(2) by (auto simp: client_ok_def)
  then obtain r' where "r' \<in> set (requests d')" "req_id r' = i" "request_of r' = q" "status r = ''error'' \<longrightarrow> r' = r"
    using assms(1) unfolding extends_def by metis
  moreover have "forwarding_ok c (tokens_of d' i)" using forwarding_ok_mono [OF p] assms(2) by (simp add: client_ok_def)
  ultimately show ?thesis using assms(2) r(4) p prefix_order.trans unfolding client_ok_def by blast
qed

lemma Index_token_of [simp]: "Index (token_of r) = idx r" "IsFinal (token_of r) \<longleftrightarrow> is_final r \<noteq> 0"
  by (simp_all add: token_of_def)

text \<open>The next row: it was seen exactly if its position is among those sent.\<close>

lemma next_row:
  assumes "prefix (us @ token_of r # ts) (tokens_of d i)" "prefix (tokens_of d i) (orchestrated m)"
  shows "idx r = int (length us)"
proof -
  have "tokens_of d i ! length us = token_of r" "length us < length (tokens_of d i)"
    using assms(1) by (auto simp: prefix_def nth_append)
  then show ?thesis using arg_cong [OF tokens_Index [OF assms(2)], of "\<lambda>xs. xs ! length us"] by simp
qed

lemma prefix_next:
  assumes "prefix (us @ t # vs) ts" "prefix ss ts" "length us = length ss"
  shows "prefix (ss @ [t]) ts" "us = ss"
proof -
  from assms(1) obtain zs where zs: "ts = (us @ t # vs) @ zs" by (rule prefixE)
  from assms(2) obtain ys where "ts = ss @ ys" by (rule prefixE)
  then show u: "us = ss" using zs assms(3) by simp
  show "prefix (ss @ [t]) ts" using zs u by simp
qed

text \<open>Nothing follows a final token, so an observer that has more to send was not the one to close the channel.\<close>

lemma not_final_yet:
  assumes "prefix (ss @ [t]) (orchestrated m)"
  shows "\<not> (ss \<noteq> [] \<and> IsFinal (last ss))"
proof
  assume f: "ss \<noteq> [] \<and> IsFinal (last ss)"
  have "prefix ss (orchestrated m)" using assms by (rule append_prefixD)
  then have "ss = RunAsync (fragments m)" "ending m = Completes" using final_is_last f by auto
  then show False using assms by (simp add: orchestrated_def prefix_def)
qed

lemma client_ok_tokens:
  assumes "token_observer d c c'" "client_ok M i q d c" "ended c = None" "prefix (tokens_of d i) (orchestrated m)"
  shows "client_ok M i q d c'"
  using assms(1)
proof (cases rule: token_observer.cases)
  case emission
  have "prefix ([] @ map token_of (observeTokensAfter i (- 1) d)) (tokens_of d i)"
    by (simp add: observed_tokens [OF assms(4)])
  then show ?thesis using assms(2) emission
    by (auto simp: client_ok_def forwarding_ok_def sent_def suspended_def intro!: exI [of _ "[]"])
next
  case (seen r rs)
  obtain us where us: "prefix (us @ token_of r # map token_of rs) (tokens_of d i)" "length us \<le> length (sent c)"
    using assms(2) seen by (auto simp: client_ok_def forwarding_ok_def)
  have "length (us @ [token_of r]) \<le> length (sent c)"
    using next_row [OF us(1) assms(4)] seen assms(2) us(2) by (simp add: client_ok_def suspended_def)
  then show ?thesis using assms(2) seen us(1)
    by (auto simp: client_ok_def forwarding_ok_def sent_def suspended_def intro!: exI [of _ "us @ [token_of r]"])
next
  case (send r rs)
  obtain us where us: "prefix (us @ token_of r # map token_of rs) (tokens_of d i)" "length us \<le> length (sent c)"
    using assms(2) send by (auto simp: client_ok_def forwarding_ok_def)
  have idx: "idx r = int (length us)" by (rule next_row [OF us(1) assms(4)])
  then have l: "length us = length (sent c)" using send assms(2) us(2) by (simp add: client_ok_def suspended_def)
  have p: "prefix (sent c) (tokens_of d i)" using assms(2) by (simp add: client_ok_def)
  have s: "sent c' = sent c @ [token_of r]" using send by (simp add: sent_def)
  have "prefix (sent c') (tokens_of d i)" "us = sent c" using prefix_next [OF us(1) p l] s by simp_all
  moreover have "forwarding_ok c' (tokens_of d i)"
  proof (cases "is_final r \<noteq> 0")
    case False
    then show ?thesis using us(1) send s \<open>us = sent c\<close>
      by (auto simp: forwarding_ok_def intro!: exI [of _ "sent c @ [token_of r]"])
  qed (use send s in \<open>simp add: forwarding_ok_def\<close>)
  ultimately show ?thesis using assms(2,3) send s idx l by (auto simp: client_ok_def suspended_def)
next
  case (suspend r rs)
  obtain us where us: "prefix (us @ token_of r # map token_of rs) (tokens_of d i)" "length us \<le> length (sent c)"
    using assms(2) suspend by (auto simp: client_ok_def forwarding_ok_def)
  have idx: "idx r = int (length us)" by (rule next_row [OF us(1) assms(4)])
  then have l: "length us = length (sent c)" using suspend assms(2) us(2) by (simp add: client_ok_def suspended_def)
  have p: "prefix (sent c) (tokens_of d i)" using assms(2) by (simp add: client_ok_def)
  have "us = sent c" by (rule prefix_next(2) [OF us(1) p l])
  then show ?thesis using assms(2) suspend us(1) idx by (auto simp: client_ok_def forwarding_ok_def sent_def suspended_def)
next
  case (resume r rs)
  have p: "prefix (sent c @ token_of r # map token_of rs) (tokens_of d i)"
    using assms(2) resume by (simp add: client_ok_def forwarding_ok_def)
  have s: "sent c' = sent c @ [token_of r]" using resume by (simp add: sent_def)
  have ps: "prefix (sent c') (tokens_of d i)" using append_prefixD [of "sent c @ [token_of r]" "map token_of rs"] p s by simp
  then have "prefix (sent c @ [token_of r]) (orchestrated m)" using s assms(4) prefix_order.trans by metis
  then have "chan_closed c \<noteq> Some Clean" using not_final_yet assms(2) by (auto simp: client_ok_def)
  moreover have "forwarding_ok c' (tokens_of d i)"
    using p resume s by (auto simp: forwarding_ok_def intro!: exI [of _ "sent c @ [token_of r]"])
  ultimately show ?thesis using assms(2,3) resume s ps by (auto simp: client_ok_def suspended_def)
next
  case (send_closed r rs)
  obtain us where us: "prefix (us @ token_of r # map token_of rs) (tokens_of d i)" "length us \<le> length (sent c)"
    using assms(2) send_closed by (auto simp: client_ok_def forwarding_ok_def)
  have "idx r = int (length us)" by (rule next_row [OF us(1) assms(4)])
  then have l: "length us = length (sent c)" using send_closed assms(2) us(2) by (simp add: client_ok_def suspended_def)
  have p: "prefix (sent c) (tokens_of d i)" using assms(2) by (simp add: client_ok_def)
  have "prefix (sent c @ [token_of r]) (orchestrated m)"
    using prefix_next(1) [OF us(1) p l] assms(4) prefix_order.trans by blast
  then have "chan_closed c = Some Broker_error"
    using not_final_yet assms(2) send_closed by (cases "the (chan_closed c)") (auto simp: client_ok_def)
  then show ?thesis using assms(2) send_closed by (auto simp: client_ok_def forwarding_ok_def sent_def suspended_def)
next
  case all_seen
  then show ?thesis using assms(2) by (auto simp: client_ok_def forwarding_ok_def sent_def suspended_def)
next
  case close
  then show ?thesis using assms(2,3)
    by (auto simp: client_ok_def forwarding_ok_def sent_def close_chan_def suspended_def split: option.split)
qed

lemma client_ok_status:
  assumes "client_ok M i q d c" "ended c = None" "db_ok M d"
  shows "client_ok M i q d (status_observer d c)"
proof -
  obtain r where r: "r \<in> set (requests d)" "req_id r = i" using assms(1) by (auto simp: client_ok_def)
  obtain x where x: "find (\<lambda>r. req_id r = i) (requests d) = Some x"
    using r by (cases "find (\<lambda>r. req_id r = i) (requests d)") (auto simp: find_None_iff)
  then have "x \<in> set (requests d)" "req_id x = i" by (auto simp: find_Some_iff)
  then have "x = r" using same_row [OF assms(3) _ r(1)] r(2) by simp
  then have st: "observeStatus i d = Some (status r)" using x by (simp add: observeStatus_def)
  have nc: "status r \<noteq> ''canceled''" using db_okD(3) [OF assms(3) r(1)] by (auto simp: row_ok_def)
  have same: "y = r" if "y \<in> set (requests d)" "req_id y = i" for y using same_row [OF assms(3) that(1) r(1)] that(2) r(2) by simp
  show ?thesis
  proof (cases "status r = ''error''")
    case True
    have "status_observer d c = close_chan Broker_error c"
      using assms(1) st True by (simp add: status_observer_def client_ok_def)
    then show ?thesis using assms(1,2) True same
      by (auto simp: client_ok_def close_chan_def sent_def forwarding_ok_def suspended_def split: option.split observer_state.splits)
  next
    case False
    then have "status_observer d c = c" using assms(1) st nc by (simp add: status_observer_def client_ok_def)
    then show ?thesis using assms(1) by simp
  qed
qed

lemma client_ok_emit: "emit_loop c c' \<Longrightarrow> client_ok M i q d c \<Longrightarrow> ended c = None \<Longrightarrow> client_ok M i q d c'"
  by (elim emit_loopE) (auto simp: client_ok_def sent_def forwarding_ok_def suspended_def split: observer_state.splits)

lemma stream_ok: "stream_reach M i q w c \<Longrightarrow> world_ok M w \<and> client_ok M i q (db w) c"
proof (induction rule: stream_reach.induct)
  case (inserted w now d)
  have "broker_step M False w (w\<lparr>db := d\<rparr>)" using inserted(2) by (rule broker_step.request)
  moreover have w: "world_ok M w" by (rule world_ok_reach [OF inserted(1)])
  ultimately have "world_ok M (w\<lparr>db := d\<rparr>)" by (rule world_ok_step)
  moreover have "client_ok M i q d (client0 i)"
    by (rule client_ok0 [OF _ inserted(2)]) (use w in \<open>simp add: world_ok_def\<close>)
  ultimately show ?case by simp
next
  case (broker w c w')
  then show ?case using broker_extends [of M w w' i] client_ok_extends world_ok_step by blast
next
  case (client w c c')
  then have d: "db_ok M (db w)" and e: "ended c = None" and c: "client_ok M i q (db w) c"
    by (auto simp: world_ok_def client_moves_def)
  obtain r where "r \<in> set (requests (db w))" "req_id r = i" using c by (auto simp: client_ok_def)
  then have "prefix (tokens_of (db w) i) (orchestrated (reply M r))" using db_okD(3) [OF d] by (auto simp: row_ok_def)
  then show ?case using client client_ok_tokens [OF _ c e] client_ok_status [OF c e d] client_ok_emit [OF _ c e]
    by (auto simp: client_moves_def)
qed

text \<open>A client knows its row, and its row's tokens are a prefix of the stream of its request.\<close>

lemma stream_row:
  assumes "stream_reach M i q w c"
  shows "prefix (tokens_of (db w) i) (orchestrated (M i q))" "prefix (sent c) (orchestrated (M i q))"
    "\<exists>r \<in> set (requests (db w)). req_id r = i \<and> request_of r = q \<and> row_ok M (db w) r \<and>
       (chan_closed c = Some Broker_error \<longrightarrow> status r = ''error'')"
proof -
  have d: "db_ok M (db w)" and c: "client_ok M i q (db w) c" using stream_ok [OF assms] by (auto simp: world_ok_def)
  obtain r where r: "r \<in> set (requests (db w))" "req_id r = i" "request_of r = q"
    "chan_closed c = Some Broker_error \<longrightarrow> status r = ''error''" using c by (auto simp: client_ok_def)
  have ok: "row_ok M (db w) r" using db_okD(3) [OF d r(1)] .
  then show p: "prefix (tokens_of (db w) i) (orchestrated (M i q))" using r(2,3) by (simp add: row_ok_def reply_def)
  show "prefix (sent c) (orchestrated (M i q))" using c p prefix_order.trans by (auto simp: client_ok_def)
  show "\<exists>r \<in> set (requests (db w)). req_id r = i \<and> request_of r = q \<and> row_ok M (db w) r \<and>
       (chan_closed c = Some Broker_error \<longrightarrow> status r = ''error'')" using r ok by blast
qed

text \<open>C21. The stream of the client. Under every interleaving of the client's coroutines with the broker, its faults,
  stops and restarts included: what the client has emitted is a prefix of the token stream of its own request, in order
  and without repetition; it ends cleanly only with the complete stream, final marker included; and it ends with an
  error only when the broker marked the request so.\<close>

theorem client_stream:
  assumes "stream_reach M i q w c"
  shows "prefix (emitted_tokens c) (orchestrated (M i q)) \<and>
    (ended c = Some Clean \<longrightarrow> emitted_tokens c = RunAsync (fragments (M i q))) \<and>
    (ended c = Some Broker_error \<longrightarrow> (\<exists>r \<in> set (requests (db w)). req_id r = i \<and> status r = ''error''))"
proof -
  note row = stream_row [OF assms]
  have c: "client_ok M i q (db w) c" using stream_ok [OF assms] by simp
  have "prefix (emitted_tokens c) (sent c)" by (simp add: sent_def)
  then have "prefix (emitted_tokens c) (orchestrated (M i q))" using row(2) prefix_order.trans by blast
  moreover have "emitted_tokens c = RunAsync (fragments (M i q))" if "ended c = Some Clean"
    using c that final_is_last(1) [OF row(2)] by (auto simp: client_ok_def sent_def)
  moreover have "\<exists>r \<in> set (requests (db w)). req_id r = i \<and> status r = ''error''" if "ended c = Some Broker_error"
    using c that by (auto simp: client_ok_def)
  ultimately show ?thesis by blast
qed

section \<open>A request that is done reaches its client\<close>

abbreviation moves :: "broker_db \<Rightarrow> sqlite_client \<Rightarrow> sqlite_client \<Rightarrow> bool" where
  "moves d \<equiv> (client_moves d)\<^sup>*\<^sup>*"

lemma stream_moves: "moves (db w) c c' \<Longrightarrow> stream_reach M i q w c \<Longrightarrow> stream_reach M i q w c'"
  by (induction rule: rtranclp_induct) (auto intro: stream_reach.client)

text \<open>The loop of the client empties the channel.\<close>

lemma drain_channel:
  "ended c = None \<Longrightarrow> moves d c (c\<lparr>chan := [], emitted_tokens := emitted_tokens c @ chan c\<rparr>)"
proof (induction "chan c" arbitrary: c)
  case (Cons t q)
  let ?c = "c\<lparr>chan := q, emitted_tokens := emitted_tokens c @ [t]\<rparr>"
  have "client_moves d c ?c" using Cons(2,3) emit_loop.emit [of c t q] by (simp add: client_moves_def)
  moreover have "moves d ?c (?c\<lparr>chan := [], emitted_tokens := emitted_tokens ?c @ chan ?c\<rparr>)" using Cons(3) by (intro Cons(1)) simp_all
  moreover have "?c\<lparr>chan := [], emitted_tokens := emitted_tokens ?c @ chan ?c\<rparr> =
      c\<lparr>chan := [], emitted_tokens := emitted_tokens c @ chan c\<rparr>" using Cons(2) [symmetric] by simp
  ultimately show ?case by (metis converse_rtranclp_into_rtranclp)
next
  case Nil
  then have "c\<lparr>chan := [], emitted_tokens := emitted_tokens c @ chan c\<rparr> = c" by (cases c) simp
  then show ?case by simp
qed

lemma moves_token: "ended c = None \<Longrightarrow> token_observer d c c1 \<Longrightarrow> moves d c1 c' \<Longrightarrow> moves d c c'"
  by (rule converse_rtranclp_into_rtranclp) (simp_all add: client_moves_def)

lemma stream_token: "stream_reach M i q w c \<Longrightarrow> ended c = None \<Longrightarrow> token_observer (db w) c c' \<Longrightarrow> stream_reach M i q w c'"
  by (rule stream_reach.client [of M i q w c]) (simp_all add: client_moves_def)

lemma ends_after: "moves d c x \<Longrightarrow> \<exists>c' e. moves d x c' \<and> ended c' = Some e \<Longrightarrow> \<exists>c' e. moves d c c' \<and> ended c' = Some e"
  by (meson rtranclp_trans)

text \<open>The observer gets through the rows of an emission: it comes to the final row, or has sent them all.\<close>

lemma forward_rows:
  assumes "stream_reach M i q w c" "ended c = None" "chan_closed c = None" "observer c = Forwarding rs"
    "prefix (us @ map token_of rs) (tokens_of (db w) i)" "length us \<le> length (sent c)"
  shows "\<exists>c'. moves (db w) c c' \<and> ended c' = None \<and> chan_closed c' = None \<and>
    (observer c' = Ending \<or> observer c' = Watching \<and> length us + length rs \<le> length (sent c'))"
  using assms
proof (induction rs arbitrary: c us)
  case Nil
  let ?c = "c\<lparr>observer := Watching\<rparr>"
  have "moves (db w) c ?c" using token_observer.all_seen [OF Nil(4)] Nil(2) by (intro moves_token [of c "db w" ?c]) simp_all
  then show ?case using Nil by (intro exI [of _ ?c]) (simp add: sent_def)
next
  case (Cons r rs)
  have p: "prefix ((us @ [token_of r]) @ map token_of rs) (tokens_of (db w) i)" using Cons.prems(5) by simp
  have idx: "idx r = int (length us)"
    using next_row [OF _ stream_row(1) [OF Cons.prems(1)]] Cons.prems(5) by simp
  have "client_ok M i q (db w) c" using stream_ok [OF Cons.prems(1)] by simp
  then have l: "lastSeenIdx c = int (length (sent c)) - 1" using Cons.prems(4) by (simp add: client_ok_def suspended_def)
  show ?case
  proof (cases "lastSeenIdx c < idx r")
    case False
    let ?c = "c\<lparr>observer := Forwarding rs\<rparr>"
    have t: "token_observer (db w) c ?c" by (rule token_observer.seen [OF Cons.prems(4) False])
    have "length (us @ [token_of r]) \<le> length (sent ?c)" using False idx l by (simp add: sent_def)
    from Cons.IH [OF stream_token [OF Cons.prems(1,2) t] _ _ _ p this] Cons.prems(2,3) obtain c' where
      "moves (db w) ?c c'" "ended c' = None" "chan_closed c' = None"
      "observer c' = Ending \<or> observer c' = Watching \<and> length us + length (r # rs) \<le> length (sent c')" by auto
    then show ?thesis using moves_token [OF Cons.prems(2) t] by blast
  next
    case True
    let ?e = "c\<lparr>chan := [], emitted_tokens := emitted_tokens c @ chan c\<rparr>"
    let ?c = "?e\<lparr>lastSeenIdx := idx r, chan := chan ?e @ [token_of r],
      observer := (if is_final r \<noteq> 0 then Ending else Forwarding rs)\<rparr>"
    have e: "moves (db w) c ?e" by (rule drain_channel [OF Cons.prems(2)])
    have t: "token_observer (db w) ?e ?c"
      by (rule token_observer.send) (use Cons.prems True in \<open>simp_all add: chan_capacity_def\<close>)
    have ee: "ended ?e = None" using Cons.prems(2) by simp
    have to: "moves (db w) c c'" if "moves (db w) ?c c'" for c'
      using e moves_token [OF ee t that] by (rule rtranclp_trans)
    show ?thesis
    proof (cases "is_final r \<noteq> 0")
      case True
      then show ?thesis using to [of ?c] Cons.prems(2,3) by (intro exI [of _ ?c]) simp
    next
      case False
      have "length (us @ [token_of r]) \<le> length (sent ?c)" using Cons.prems(6) by (simp add: sent_def)
      from Cons.IH [OF stream_token [OF stream_moves [OF e Cons.prems(1)] ee t] _ _ _ p this] Cons.prems(2,3) False
      obtain c' where "moves (db w) ?c c'" "ended c' = None" "chan_closed c' = None"
        "observer c' = Ending \<or> observer c' = Watching \<and> length us + length (r # rs) \<le> length (sent c')" by auto
      then show ?thesis using to by blast
    qed
  qed
qed

text \<open>With the channel closed the client ends.\<close>

lemma closed_ends:
  assumes "ended c = None" "chan_closed c = Some e" "\<not> suspended c"
  shows "\<exists>c'. moves d c c' \<and> ended c' = Some e"
proof -
  let ?c = "c\<lparr>chan := [], emitted_tokens := emitted_tokens c @ chan c\<rparr>"
  have "client_moves d ?c (?c\<lparr>ended := Some e\<rparr>)"
    using emit_loop.finish [of ?c e] assms by (simp add: client_moves_def suspended_def)
  from rtranclp.rtrancl_into_rtrancl [OF drain_channel [OF assms(1)] this] show ?thesis
    by (intro exI [of _ "?c\<lparr>ended := Some e\<rparr>"]) simp
qed

text \<open>A suspended observer gets its token into the channel.\<close>

lemma resumes:
  assumes "ended c = None" "suspended c"
  shows "\<exists>c'. moves d c c' \<and> ended c' = None \<and> \<not> suspended c' \<and> chan_closed c' = chan_closed c \<and> observer c' \<noteq> Gone"
proof -
  obtain r rs where o: "observer c = Suspended r rs" using assms(2) by (auto simp: suspended_def split: observer_state.splits)
  let ?e = "c\<lparr>chan := [], emitted_tokens := emitted_tokens c @ chan c\<rparr>"
  let ?c = "?e\<lparr>chan := chan ?e @ [token_of r], observer := (if is_final r \<noteq> 0 then Ending else Forwarding rs)\<rparr>"
  have "token_observer d ?e ?c" by (rule token_observer.resume) (simp_all add: o chan_capacity_def)
  moreover have "ended ?e = None" using assms(1) by simp
  ultimately have "moves d ?e ?c" by (intro moves_token [of ?e d ?c]) simp_all
  with drain_channel [OF assms(1)] have "moves d c ?c" by (rule rtranclp_trans)
  then show ?thesis using assms(1) by (intro exI [of _ ?c]) (auto simp: suspended_def)
qed

lemma ending_ends:
  assumes "stream_reach M i q w c" "ended c = None" "observer c = Ending \<or> chan_closed c \<noteq> None"
  shows "\<exists>c' e. moves (db w) c c' \<and> ended c' = Some e"
proof (cases "chan_closed c")
  case None
  let ?c = "c\<lparr>observer := Watching, chan_closed := Some Clean\<rparr>"
  have t: "token_observer (db w) c ?c" using token_observer.close [of c "db w"] assms(3) None by (simp add: close_chan_def)
  have "moves (db w) c ?c" by (rule moves_token [OF assms(2) t]) simp
  then show ?thesis using closed_ends [of ?c Clean "db w"] assms(2)
    by (intro ends_after [of "db w" c ?c]) (auto simp: suspended_def)
next
  case (Some e)
  show ?thesis
  proof (cases "suspended c")
    case True
    then obtain c' where "moves (db w) c c'" "ended c' = None" "\<not> suspended c'" "chan_closed c' = Some e"
      using resumes [OF assms(2)] Some by metis
    then show ?thesis using ends_after closed_ends [of c' e] by blast
  qed (use closed_ends [OF assms(2) Some] in blast)
qed

lemma client_ends:
  assumes "stream_reach M i q w c" "ended c = None" "tokens_of (db w) i = RunAsync (fragments (M i q))"
  shows "\<exists>c' e. moves (db w) c c' \<and> ended c' = Some e"
proof -
  have watch: ?thesis if s: "stream_reach M i q w x" "moves (db w) c x" "ended x = None" "observer x = Watching" for x
  proof (cases "chan_closed x")
    case None
    let ?rows = "observeTokensAfter (of_request x) (- 1) (db w)"
    let ?x = "x\<lparr>observer := Forwarding ?rows\<rparr>"
    have t: "token_observer (db w) x ?x" by (rule token_observer.emission [OF s(4)])
    have "of_request x = i" using stream_ok [OF s(1)] by (simp add: client_ok_def)
    then have rows: "map token_of ?rows = tokens_of (db w) i" using observed_tokens [OF stream_row(1) [OF s(1)]] by simp
    have pre: "prefix ([] @ map token_of ?rows) (tokens_of (db w) i)" using rows by simp
    from forward_rows [OF stream_token [OF s(1,3) t] _ _ _ pre] s(3) None obtain c' where c':
      "moves (db w) ?x c'" "ended c' = None" "chan_closed c' = None"
      "observer c' = Ending \<or> observer c' = Watching \<and> length ?rows \<le> length (sent c')" by auto
    have m: "moves (db w) x c'" by (rule moves_token [OF s(3) t c'(1)])
    have r': "stream_reach M i q w c'" by (rule stream_moves [OF m s(1)])
    have "observer c' = Ending"
    proof (rule ccontr)
      assume n: "observer c' \<noteq> Ending"
      have ok: "client_ok M i q (db w) c'" using stream_ok [OF r'] by simp
      have "length (tokens_of (db w) i) \<le> length (sent c')" using c'(4) n arg_cong [OF rows, of length] by simp
      then have "sent c' = tokens_of (db w) i" using ok by (auto simp: client_ok_def prefix_def)
      moreover obtain us where "RunAsync (fragments (M i q)) = us @ [Final (0 + int (length (fragments (M i q))))]"
        using run_tokens_split [of 0 "fragments (M i q)"] by (auto simp: RunAsync_def)
      ultimately have "sent c' \<noteq> [] \<and> IsFinal (last (sent c'))" using assms(3) by (simp add: Final_def)
      then show False using ok n c'(3) by (auto simp: client_ok_def)
    qed
    then show ?thesis using ends_after [OF rtranclp_trans [OF s(2) m] ending_ends [OF r' c'(2)]] by simp
  next
    case (Some e)
    then show ?thesis using ends_after [OF s(2) ending_ends [OF s(1,3)]] by simp
  qed
  have going: ?thesis if s: "stream_reach M i q w x" "moves (db w) c x" "ended x = None" "chan_closed x = None" "\<not> suspended x" for x
  proof (cases "observer x")
    case (Forwarding rs)
    have "client_ok M i q (db w) x" using stream_ok [OF s(1)] by simp
    then obtain us where "prefix (us @ map token_of rs) (tokens_of (db w) i)" "length us \<le> length (sent x)"
      using Forwarding by (auto simp: client_ok_def forwarding_ok_def)
    from forward_rows [OF s(1,3,4) Forwarding this] obtain c' where c': "moves (db w) x c'" "ended c' = None"
      "observer c' = Ending \<or> observer c' = Watching" by blast
    have r': "stream_reach M i q w c'" by (rule stream_moves [OF c'(1) s(1)])
    have m: "moves (db w) c c'" using s(2) c'(1) by (rule rtranclp_trans)
    show ?thesis using c'(3) watch [OF r' m c'(2)] ends_after [OF m ending_ends [OF r' c'(2)]] by blast
  next
    case Gone
    then show ?thesis using stream_ok [OF s(1)] s(4) by (simp add: client_ok_def forwarding_ok_def)
  next
    case Watching
    then show ?thesis using watch [OF s(1,2,3)] by simp
  next
    case Ending
    then show ?thesis using ends_after [OF s(2) ending_ends [OF s(1,3)]] by simp
  qed (use s(5) in \<open>simp add: suspended_def\<close>)
  show ?thesis
  proof (cases "chan_closed c")
    case None
    show ?thesis
    proof (cases "suspended c")
      case True
      then obtain c' where c': "moves (db w) c c'" "ended c' = None" "\<not> suspended c'" "chan_closed c' = None"
        using resumes [OF assms(2)] None by metis
      show ?thesis by (rule going [OF stream_moves [OF c'(1) assms(1)] c'(1,2,4,3)])
    qed (use going [OF assms(1) _ assms(2) None] in simp)
  qed (use ending_ends [OF assms(1,2)] in simp)
qed

text \<open>A client whose request is done ends with its complete stream.\<close>

lemma done_client_ends:
  assumes "stream_reach M i q w c" "ended c = None" "\<exists>r \<in> set (requests (db w)). req_id r = i \<and> status r = ''done''"
  shows "\<exists>c'. moves (db w) c c' \<and> ended c' = Some Clean \<and> emitted_tokens c' = RunAsync (fragments (M i q))"
proof -
  have d: "db_ok M (db w)" using stream_ok [OF assms(1)] by (simp add: world_ok_def)
  obtain r where r: "r \<in> set (requests (db w))" "req_id r = i" "request_of r = q" "row_ok M (db w) r"
    using stream_row(3) [OF assms(1)] by blast
  have only: "x = r" if "x \<in> set (requests (db w))" "req_id x = i" for x
    using same_row [OF d that(1) r(1)] that(2) r(2) by simp
  then have st: "status r = ''done''" using assms(3) by blast
  then have "tokens_of (db w) i = RunAsync (fragments (M i q))"
    using r by (simp add: row_ok_def reply_def orchestrated_def)
  from client_ends [OF assms(1,2) this] obtain c' e where c': "moves (db w) c c'" "ended c' = Some e" by blast
  have r': "stream_reach M i q w c'" by (rule stream_moves [OF c'(1) assms(1)])
  have ok: "client_ok M i q (db w) c'" using stream_ok [OF r'] by simp
  then obtain x where "x \<in> set (requests (db w))" "req_id x = i" "chan_closed c' = Some Broker_error \<longrightarrow> status x = ''error''"
    by (auto simp: client_ok_def)
  then have "chan_closed c' \<noteq> Some Broker_error" using only st by fastforce
  moreover have "chan_closed c' = Some e" "chan c' = []" using ok c'(2) by (auto simp: client_ok_def)
  ultimately have e: "e = Clean" by (cases e) simp_all
  then have "emitted_tokens c' = RunAsync (fragments (M i q))"
    using ok c'(2) final_is_last(1) [OF stream_row(2) [OF r']] by (auto simp: client_ok_def sent_def)
  then show ?thesis using c' e by blast
qed

lemma stream_broker_reach: "stream_reach M i q w c \<Longrightarrow> broker_reach M False w"
  by (induction rule: stream_reach.induct) (auto intro: further broker_step.request)

lemma stream_broker_steps: "(broker_step M False)\<^sup>*\<^sup>* w w' \<Longrightarrow> stream_reach M i q w c \<Longrightarrow> stream_reach M i q w' c"
  by (induction rule: rtranclp_induct) (auto intro: stream_reach.broker)


section \<open>Witnesses\<close>

lemma demo_stream_inserted: "stream_reach M 1 demo_request one_request (client0 1)"
proof -
  have "insert_request demo_request ''t'' (db world0) = Some (1, db one_request)"
    by (simp add: insert_request_def demo_request_def world0_def broker_db0_def one_request_def)
  from inserted [OF broker_reach.initial this] show ?thesis by (simp add: one_request_def world0_def)
qed

lemma demo_stream: "stream_reach M 1 demo_request (with_loop Polling) (client0 1)"
proof -
  have "snd (broker_start False True one_request) = with_loop Polling"
    by (simp add: broker_start_def one_request_def world0_def with_loop_def new_loop_def)
  with broker [OF demo_stream_inserted broker_step.start [of False one_request M False True]] show ?thesis
    by (simp add: one_request_def world0_def)
qed

theorem client_stream_witness: "prefix (emitted_tokens (client0 1)) (orchestrated (demo_reply 1 demo_request))"
  using client_stream [OF demo_stream [of demo_reply]] by simp


end
