(* ===== verification/Pb_Channel.thy ===== *)
theory Pb_Channel
  imports "HOL-Library.Word"
begin

unbundle bit_operations_syntax

text \<open>
  The wire of the framed protobuf transport: \<^verbatim>\<open>Pb/FrameConnection.cs\<close> and \<^verbatim>\<open>Pb/AeadFrameCipher.cs\<close> of the engine
  (under \<^verbatim>\<open>src/core/DotnetNativeInterop.NativeBridge\<close>) and their Kotlin mirrors \<^verbatim>\<open>FrameChannel.kt\<close> and \<^verbatim>\<open>AeadFrameCipher.kt\<close>
  of the Android client. A frame is a 32-bit little-endian length and that many bytes, encrypted once a cipher is
  attached. TCP may deliver the bytes in pieces of any size, so the input of a connection is a list of chunks and reading
  is the loop of the code. AES-GCM is a parameter; \<open>aes_gcm\<close> is what its specification says of it. The theorems: whatever
  the fragmentation, frames arrive exactly and in order, in all four pairings of engine and client; an encrypted frame is
  accepted exactly if it is the peer's next one; the nonces of a direction never repeat; and on the same input the two
  readers differ only on a truncated frame.
\<close>

type_synonym bytes = "8 word list"

section \<open>Little-endian integers\<close>

primrec write_le :: "nat \<Rightarrow> 'a::len word \<Rightarrow> bytes" where
  "write_le 0 v = []"
| "write_le (Suc n) v = ucast v # write_le n (drop_bit 8 v)"

primrec read_le :: "bytes \<Rightarrow> 'a::len word" where
  "read_le [] = 0"
| "read_le (b # bs) = ucast b OR push_bit 8 (read_le bs)"

lemma length_write_le [simp]: "length (write_le n v) = n"
  by (induction n arbitrary: v) simp_all

lemma read_write_le: "read_le (write_le n v) = take_bit (8 * n) (v :: 'a::len word)"
proof (induction n arbitrary: v)
  case (Suc n)
  have "read_le (write_le (Suc n) v) = ucast (ucast v :: 8 word) OR push_bit 8 (take_bit (8 * n) (drop_bit 8 v))"
    by (simp add: Suc)
  also have "\<dots> = take_bit (8 * Suc n) v"
    by (rule bit_word_eqI) (auto simp: bit_simps)
  finally show ?case .
qed simp

section \<open>The cipher\<close>

record aead =
  Encrypt :: "bytes \<Rightarrow> bytes \<Rightarrow> bytes \<Rightarrow> bytes \<times> bytes"
  Decrypt :: "bytes \<Rightarrow> bytes \<Rightarrow> bytes \<Rightarrow> bytes \<Rightarrow> bytes option"

text \<open>NIST SP 800-38D: the ciphertext is as long as the plaintext, the tag has 16 bytes, and decryption returns a plaintext
  exactly if the tag is the one encryption gives for it.\<close>

definition TagBytes :: nat where
  "TagBytes = 16"

definition aes_gcm :: "aead \<Rightarrow> bool" where
  "aes_gcm A \<longleftrightarrow> (\<forall>k n p. length (fst (Encrypt A k n p)) = length p \<and> length (snd (Encrypt A k n p)) = TagBytes) \<and>
     (\<forall>k n c t p. Decrypt A k n c t = Some p \<longleftrightarrow> Encrypt A k n p = (c, t))"

record AeadFrameCipher =
  sendKey :: bytes
  recvKey :: bytes
  sendCounter :: "64 word"
  recvCounter :: "64 word"

definition new_cipher :: "bytes \<Rightarrow> bytes \<Rightarrow> AeadFrameCipher" where
  "new_cipher sk rk = \<lparr>sendKey = sk, recvKey = rk, sendCounter = 0, recvCounter = 0\<rparr>"

definition NonceFor :: "64 word \<Rightarrow> bytes" where
  "NonceFor counter = write_le 8 counter @ replicate 4 0"

definition EncryptOutbound :: "aead \<Rightarrow> bytes \<Rightarrow> AeadFrameCipher \<Rightarrow> bytes \<times> AeadFrameCipher" where
  "EncryptOutbound A plaintext c =
     (let (ct, tag) = Encrypt A (sendKey c) (NonceFor (sendCounter c)) plaintext
      in (ct @ tag, c\<lparr>sendCounter := sendCounter c + 1\<rparr>))"

text \<open>\<open>None\<close> is an \<open>AuthenticationTagMismatchException\<close>. The counter advances also when the tag does not match, but not when
  the frame is shorter than a tag.\<close>

definition DecryptInbound :: "aead \<Rightarrow> bytes \<Rightarrow> AeadFrameCipher \<Rightarrow> bytes option \<times> AeadFrameCipher" where
  "DecryptInbound A frame c =
     (if length frame < TagBytes then (None, c)
      else let cipherLen = length frame - TagBytes
           in (Decrypt A (recvKey c) (NonceFor (recvCounter c)) (take cipherLen frame) (drop cipherLen frame),
               c\<lparr>recvCounter := recvCounter c + 1\<rparr>))"

text \<open>The Kotlin cipher: \<open>doFinal\<close> appends the tag, and refuses a frame shorter than it after the counter has advanced.\<close>

definition encryptOutbound :: "aead \<Rightarrow> bytes \<Rightarrow> AeadFrameCipher \<Rightarrow> bytes \<times> AeadFrameCipher" where
  "encryptOutbound A plaintext c =
     (case Encrypt A (sendKey c) (NonceFor (sendCounter c)) plaintext of (ct, tag) \<Rightarrow> ct @ tag,
      c\<lparr>sendCounter := sendCounter c + 1\<rparr>)"

definition decryptInbound :: "aead \<Rightarrow> bytes \<Rightarrow> AeadFrameCipher \<Rightarrow> bytes option \<times> AeadFrameCipher" where
  "decryptInbound A frame c =
     (if length frame < TagBytes then None
      else Decrypt A (recvKey c) (NonceFor (recvCounter c)) (take (length frame - TagBytes) frame)
             (drop (length frame - TagBytes) frame),
      c\<lparr>recvCounter := recvCounter c + 1\<rparr>)"

section \<open>The stream\<close>

text \<open>\<open>Stream.ReadAsync\<close> into a buffer of \<open>k\<close> bytes returns what has arrived, up to \<open>k\<close> bytes, and nothing only at the end of
  the stream.\<close>

definition ReadAsync :: "nat \<Rightarrow> bytes list \<Rightarrow> bytes \<times> bytes list" where
  "ReadAsync k inp = (case inp of [] \<Rightarrow> ([], [])
     | c # cs \<Rightarrow> (take k c, if length c \<le> k then cs else drop k c # cs))"

function ReadExactAsync :: "nat \<Rightarrow> bytes list \<Rightarrow> bytes option \<times> bytes list" where
  "ReadExactAsync k inp =
     (if k = 0 then (Some [], inp)
      else let (bs, inp1) = ReadAsync k inp
           in if bs = [] then (None, inp1)
              else let (r, inp2) = ReadExactAsync (k - length bs) inp1 in (map_option ((@) bs) r, inp2))"
  by auto
termination by (relation "measure fst") auto

declare ReadExactAsync.simps [simp del]

definition arriving :: "bytes list \<Rightarrow> bool" where
  "arriving inp \<longleftrightarrow> [] \<notin> set inp"

lemma ReadAsync_concat:
  assumes "arriving inp" "k > 0" "concat inp \<noteq> []"
  shows "\<exists>bs inp1. ReadAsync k inp = (bs, inp1) \<and> bs \<noteq> [] \<and> length bs \<le> k \<and> concat inp = bs @ concat inp1 \<and> arriving inp1"
  using assms by (cases inp) (auto simp: ReadAsync_def arriving_def min_def)

text \<open>Reading is independent of the fragmentation: the loop returns the first \<open>k\<close> bytes if there are as many, and reaches
  the end otherwise.\<close>

lemma ReadExact_enough:
  assumes "arriving inp" "k \<le> length (concat inp)"
  shows "\<exists>inp'. ReadExactAsync k inp = (Some (take k (concat inp)), inp') \<and> concat inp' = drop k (concat inp) \<and> arriving inp'"
  using assms
proof (induction k arbitrary: inp rule: less_induct)
  case (less k)
  show ?case
  proof (cases "k = 0")
    case True
    then show ?thesis using less.prems by (simp add: ReadExactAsync.simps)
  next
    case False
    then obtain bs inp1 where r: "ReadAsync k inp = (bs, inp1)" "bs \<noteq> []" "length bs \<le> k" "concat inp = bs @ concat inp1"
      "arriving inp1"
      using ReadAsync_concat [OF less.prems(1), of k] less.prems(2) by fastforce
    have "k - length bs < k" "k - length bs \<le> length (concat inp1)" using r less.prems(2) False by (auto simp: r(4))
    from less.IH [OF this(1) r(5) this(2)] obtain inp' where
      "ReadExactAsync (k - length bs) inp1 = (Some (take (k - length bs) (concat inp1)), inp')"
      "concat inp' = drop (k - length bs) (concat inp1)" "arriving inp'" by blast
    with r False show ?thesis by (subst ReadExactAsync.simps) auto
  qed
qed

lemma ReadExact_short:
  assumes "arriving inp" "length (concat inp) < k"
  shows "fst (ReadExactAsync k inp) = None"
  using assms
proof (induction k arbitrary: inp rule: less_induct)
  case (less k)
  show ?case
  proof (cases "concat inp = []")
    case True
    then have "fst (ReadAsync k inp) = []" using less.prems(1) by (cases inp) (auto simp: ReadAsync_def arriving_def)
    then show ?thesis using less.prems(2) by (subst ReadExactAsync.simps) (auto split: prod.splits)
  next
    case False
    then obtain bs inp1 where r: "ReadAsync k inp = (bs, inp1)" "bs \<noteq> []" "length bs \<le> k" "concat inp = bs @ concat inp1"
      "arriving inp1"
      using ReadAsync_concat [OF less.prems(1), of k] less.prems(2) by fastforce
    then have "fst (ReadExactAsync (k - length bs) inp1) = None"
      using less.prems(2) by (intro less.IH) (auto simp: r(4))
    with r less.prems(2) show ?thesis by (subst ReadExactAsync.simps) (auto split: prod.splits)
  qed
qed

lemma ReadExact_None: "arriving inp \<Longrightarrow> fst (ReadExactAsync k inp) = None \<longleftrightarrow> length (concat inp) < k"
  using ReadExact_enough [of inp k] ReadExact_short [of inp k] by (cases "length (concat inp) < k") auto

text \<open>The loop of the Kotlin channel asks for a negative count at the end of the stream, and goes on after an empty read.\<close>

definition InputStream_read :: "nat \<Rightarrow> bytes list \<Rightarrow> bytes option \<times> bytes list" where
  "InputStream_read k inp = (case inp of [] \<Rightarrow> (None, [])
     | c # cs \<Rightarrow> (Some (take k c), if length c \<le> k then cs else drop k c # cs))"

function readExactly :: "nat \<Rightarrow> bytes list \<Rightarrow> bytes option \<times> bytes list" where
  "readExactly n inp =
     (if n = 0 then (Some [], inp)
      else case InputStream_read n inp of
        (None, inp1) \<Rightarrow> (None, inp1)
      | (Some bs, inp1) \<Rightarrow> let (r, inp2) = readExactly (n - length bs) inp1 in (map_option ((@) bs) r, inp2))"
  by auto
termination
  by (relation "measures [fst, \<lambda>(n, inp). length inp]")
    (auto simp: InputStream_read_def split: list.splits if_splits)

declare readExactly.simps [simp del]

lemma readExactly_eq: "arriving inp \<Longrightarrow> readExactly k inp = ReadExactAsync k inp"
proof (induction k inp rule: ReadExactAsync.induct)
  case (1 k inp)
  show ?case
  proof (cases "k = 0 \<or> inp = []")
    case True
    then show ?thesis
      by (auto simp: readExactly.simps ReadExactAsync.simps InputStream_read_def ReadAsync_def)
  next
    case False
    then obtain c cs where [simp]: "inp = c # cs" "c \<noteq> []" "k \<noteq> 0"
      using 1(2) by (cases inp) (auto simp: arriving_def)
    let ?i = "if length c \<le> k then cs else drop k c # cs"
    have "arriving ?i" using 1(2) by (simp add: arriving_def)
    then have "readExactly (k - length (take k c)) ?i = ReadExactAsync (k - length (take k c)) ?i"
      using 1(1) [of "(take k c, ?i)" "take k c" ?i] by (simp add: ReadAsync_def)
    then show ?thesis
      by (simp add: readExactly.simps [of k] ReadExactAsync.simps [of k] InputStream_read_def ReadAsync_def)
  qed
qed

section \<open>Frames\<close>

datatype frame_exn = InvalidData | TagMismatch | Truncated

definition MaxFrameBytes :: nat where
  "MaxFrameBytes = 16 * 1024 * 1024"

record connection =
  cipher :: "AeadFrameCipher option"
  inbound :: "bytes list"
  outbound :: bytes

definition UseCipher :: "AeadFrameCipher \<Rightarrow> connection \<Rightarrow> connection" where
  "UseCipher c conn = conn\<lparr>cipher := Some c\<rparr>"

definition ReadFrameAsync :: "aead \<Rightarrow> connection \<Rightarrow> (frame_exn + bytes option) \<times> connection" where
  "ReadFrameAsync A conn = (case ReadExactAsync 4 (inbound conn) of
     (None, inp) \<Rightarrow> (Inr None, conn\<lparr>inbound := inp\<rparr>)
   | (Some lengthPrefix, inp) \<Rightarrow>
      (let n = unat (read_le lengthPrefix :: 32 word)
       in if n = 0 \<or> n > MaxFrameBytes then (Inl InvalidData, conn\<lparr>inbound := inp\<rparr>)
          else (case ReadExactAsync n inp of
             (None, inp) \<Rightarrow> (Inr None, conn\<lparr>inbound := inp\<rparr>)
           | (Some payload, inp) \<Rightarrow>
              (case cipher conn of
                 None \<Rightarrow> (Inr (Some payload), conn\<lparr>inbound := inp\<rparr>)
               | Some c \<Rightarrow> (case DecryptInbound A payload c of
                    (None, c) \<Rightarrow> (Inl TagMismatch, conn\<lparr>inbound := inp, cipher := Some c\<rparr>)
                  | (Some p, c) \<Rightarrow> (Inr (Some p), conn\<lparr>inbound := inp, cipher := Some c\<rparr>))))))"

definition WriteFrameAsync :: "aead \<Rightarrow> bytes \<Rightarrow> connection \<Rightarrow> connection" where
  "WriteFrameAsync A plaintext conn =
     (let (payload, c) = (case cipher conn of None \<Rightarrow> (plaintext, None)
            | Some c \<Rightarrow> (case EncryptOutbound A plaintext c of (f, c) \<Rightarrow> (f, Some c)))
      in conn\<lparr>cipher := c, outbound := outbound conn @ write_le 4 (word_of_nat (length payload) :: 32 word) @ payload\<rparr>)"

text \<open>The Kotlin channel. A frame cut off by the end of the stream raises an \<open>EOFException\<close>.\<close>

definition readFrame :: "aead \<Rightarrow> connection \<Rightarrow> (frame_exn + bytes option) \<times> connection" where
  "readFrame A ch = (case readExactly 4 (inbound ch) of
     (None, inp) \<Rightarrow> (Inr None, ch\<lparr>inbound := inp\<rparr>)
   | (Some prefix, inp) \<Rightarrow>
      (let n = unat (read_le prefix :: 32 word)
       in if n = 0 \<or> n > MaxFrameBytes then (Inl InvalidData, ch\<lparr>inbound := inp\<rparr>)
          else (case readExactly n inp of
             (None, inp) \<Rightarrow> (Inl Truncated, ch\<lparr>inbound := inp\<rparr>)
           | (Some payload, inp) \<Rightarrow>
              (case cipher ch of
                 None \<Rightarrow> (Inr (Some payload), ch\<lparr>inbound := inp\<rparr>)
               | Some c \<Rightarrow> (case decryptInbound A payload c of
                    (None, c) \<Rightarrow> (Inl TagMismatch, ch\<lparr>inbound := inp, cipher := Some c\<rparr>)
                  | (Some p, c) \<Rightarrow> (Inr (Some p), ch\<lparr>inbound := inp, cipher := Some c\<rparr>))))))"

definition writeFrame :: "aead \<Rightarrow> bytes \<Rightarrow> connection \<Rightarrow> connection" where
  "writeFrame A plaintext ch =
     (let (payload, c) = (case cipher ch of None \<Rightarrow> (plaintext, None)
            | Some c \<Rightarrow> (case encryptOutbound A plaintext c of (f, c) \<Rightarrow> (f, Some c)))
      in ch\<lparr>cipher := c, outbound := outbound ch @ write_le 4 (word_of_nat (length payload) :: 32 word) @ payload\<rparr>)"

text \<open>Reading up to \<open>n\<close> frames.\<close>

primrec read_frames :: "('r \<Rightarrow> ('e + bytes option) \<times> 'r) \<Rightarrow> nat \<Rightarrow> 'r \<Rightarrow> bytes list \<times> 'r" where
  "read_frames rd 0 r = ([], r)"
| "read_frames rd (Suc n) r = (case rd r of
     (Inr (Some p), r1) \<Rightarrow> (case read_frames rd n r1 of (ps, r2) \<Rightarrow> (p # ps, r2))
   | (_, r1) \<Rightarrow> ([], r1))"

section \<open>A link\<close>

text \<open>What the sender of a frame and its receiver promise each other, and what follows for a sequence of frames.\<close>

locale frame_link =
  fixes wr :: "bytes \<Rightarrow> 'w \<Rightarrow> 'w" and sent :: "'w \<Rightarrow> bytes" and wire :: "'w \<Rightarrow> bytes \<Rightarrow> bytes"
    and rd :: "'r \<Rightarrow> ('e + bytes option) \<times> 'r" and waiting :: "'r \<Rightarrow> bytes"
    and paired :: "'w \<Rightarrow> 'r \<Rightarrow> bool" and fits :: "'w \<Rightarrow> bytes \<Rightarrow> bool"
  assumes sent_wr: "sent (wr p w) = sent w @ wire w p"
    and fits_wr: "fits (wr p w) q = fits w q"
    and arrives: "paired w r \<Longrightarrow> fits w p \<Longrightarrow> waiting r = wire w p @ rest \<Longrightarrow>
      \<exists>r'. rd r = (Inr (Some p), r') \<and> waiting r' = rest \<and> paired (wr p w) r'"
    and at_eof: "paired w r \<Longrightarrow> waiting r = [] \<Longrightarrow> fst (rd r) = Inr None"
begin

lemma sent_all: "\<exists>bs. sent (fold wr ps w) = sent w @ bs"
  by (induction ps arbitrary: w) (simp, metis append.assoc fold_simps(2) sent_wr)

lemma frames_arrive_before:
  assumes "paired w r" "\<forall>p \<in> set ps. fits w p" "sent (fold wr ps w) = sent w @ bs" "waiting r = bs @ rest"
  shows "\<exists>r'. read_frames rd (length ps) r = (ps, r') \<and> waiting r' = rest \<and> paired (fold wr ps w) r'"
  using assms
proof (induction ps arbitrary: w r bs)
  case (Cons p ps)
  obtain bs' where b: "sent (fold wr ps (wr p w)) = sent (wr p w) @ bs'" using sent_all by blast
  then have "bs = wire w p @ bs'" using Cons.prems(3) by (simp add: sent_wr)
  then obtain r1 where r: "rd r = (Inr (Some p), r1)" "waiting r1 = bs' @ rest" "paired (wr p w) r1"
    using arrives [of w r p "bs' @ rest"] Cons.prems by auto
  have "\<forall>q \<in> set ps. fits (wr p w) q" using Cons.prems(2) by (simp add: fits_wr)
  from Cons.IH [OF r(3) this b r(2)] r(1) show ?case by auto
qed simp

lemma frames_arrive:
  assumes "paired w r" "\<forall>p \<in> set ps. fits w p" "sent (fold wr ps w) = sent w @ waiting r"
  shows "\<exists>r'. read_frames rd (length ps) r = (ps, r') \<and> fst (rd r') = Inr None \<and> paired (fold wr ps w) r'"
  using frames_arrive_before [OF assms, of "[]"] at_eof by auto

end

section \<open>The four pairings\<close>

definition mirrored :: "AeadFrameCipher option \<Rightarrow> AeadFrameCipher option \<Rightarrow> bool" where
  "mirrored a b = (case (a, b) of (None, None) \<Rightarrow> True
     | (Some c, Some d) \<Rightarrow> sendKey c = recvKey d \<and> sendCounter c = recvCounter d
     | _ \<Rightarrow> False)"

definition linked :: "connection \<Rightarrow> connection \<Rightarrow> bool" where
  "linked w r \<longleftrightarrow> mirrored (cipher w) (cipher r) \<and> arriving (inbound r)"

text \<open>The length limits of the reader: on the plain channel an empty frame is refused.\<close>

definition sendable :: "connection \<Rightarrow> bytes \<Rightarrow> bool" where
  "sendable w p = (if cipher w = None then p \<noteq> [] \<and> length p \<le> MaxFrameBytes
     else length p + TagBytes \<le> MaxFrameBytes)"

definition payload_of :: "aead \<Rightarrow> connection \<Rightarrow> bytes \<Rightarrow> bytes" where
  "payload_of A w p = (case cipher w of None \<Rightarrow> p | Some c \<Rightarrow> fst (EncryptOutbound A p c))"

definition frame_of :: "bytes \<Rightarrow> bytes" where
  "frame_of payload = write_le 4 (word_of_nat (length payload) :: 32 word) @ payload"

lemma kotlin_encrypt: "encryptOutbound = EncryptOutbound"
  by (intro ext) (simp add: encryptOutbound_def EncryptOutbound_def split: prod.splits)

lemma kotlin_write: "writeFrame = WriteFrameAsync"
  unfolding writeFrame_def WriteFrameAsync_def kotlin_encrypt ..

lemma outbound_Write: "outbound (WriteFrameAsync A p w) = outbound w @ frame_of (payload_of A w p)"
  by (simp add: WriteFrameAsync_def payload_of_def frame_of_def split: option.splits prod.splits)

lemma sendable_Write: "sendable (WriteFrameAsync A p w) q = sendable w q"
  by (simp add: WriteFrameAsync_def sendable_def split: option.splits prod.splits)

lemma frame_read:
  assumes "arriving inp" "concat inp = frame_of pl @ rest" "length pl \<le> MaxFrameBytes"
  shows "\<exists>p i1 i2. ReadExactAsync 4 inp = (Some p, i1) \<and> unat (read_le p :: 32 word) = length pl \<and> arriving i1 \<and>
    ReadExactAsync (length pl) i1 = (Some pl, i2) \<and> concat i2 = rest \<and> arriving i2"
proof -
  let ?p = "write_le 4 (word_of_nat (length pl) :: 32 word)"
  obtain i1 where i1: "ReadExactAsync 4 inp = (Some ?p, i1)" "concat i1 = pl @ rest" "arriving i1"
    using ReadExact_enough [OF assms(1), of 4] assms(2) by (auto simp: frame_of_def)
  obtain i2 where "ReadExactAsync (length pl) i1 = (Some pl, i2)" "concat i2 = rest" "arriving i2"
    using ReadExact_enough [OF i1(3), of "length pl"] i1(2) by auto
  moreover have "unat (read_le ?p :: 32 word) = length pl"
    using assms(3) by (simp add: read_write_le unsigned_take_bit_eq unsigned_of_nat MaxFrameBytes_def take_bit_nat_eq_self)
  ultimately show ?thesis using i1 by blast
qed

lemma short_read:
  assumes "arriving inp" "concat inp = []"
  shows "\<exists>i. ReadExactAsync 4 inp = (None, i)"
  using ReadExact_short [OF assms(1), of 4] assms(2) by (cases "ReadExactAsync 4 inp") simp

lemma aes_gcm_lengths:
  assumes "aes_gcm A" "Encrypt A k n p = (c, t)"
  shows "length c = length p" "length t = TagBytes"
  using assms unfolding aes_gcm_def by (metis fst_conv snd_conv)+

lemma aes_gcm_Decrypt: "aes_gcm A \<Longrightarrow> Decrypt A k n c t = Some p \<longleftrightarrow> Encrypt A k n p = (c, t)"
  by (simp add: aes_gcm_def)

lemma length_EncryptOutbound: "aes_gcm A \<Longrightarrow> length (fst (EncryptOutbound A p c)) = length p + TagBytes"
  by (simp add: EncryptOutbound_def aes_gcm_lengths split: prod.splits)

lemma mirrored_decrypt:
  assumes "aes_gcm A" "sendKey c = recvKey d" "sendCounter c = recvCounter d"
  shows "DecryptInbound A (fst (EncryptOutbound A p c)) d = (Some p, d\<lparr>recvCounter := recvCounter d + 1\<rparr>)"
    "decryptInbound A (fst (EncryptOutbound A p c)) d = (Some p, d\<lparr>recvCounter := recvCounter d + 1\<rparr>)"
  using assms(2,3) by (auto simp: EncryptOutbound_def DecryptInbound_def decryptInbound_def Let_def
    aes_gcm_lengths [OF assms(1)] aes_gcm_Decrypt [OF assms(1)] split: prod.splits)

lemma payload_length:
  assumes "aes_gcm A" "sendable w p"
  shows "0 < length (payload_of A w p)" "length (payload_of A w p) \<le> MaxFrameBytes"
  using assms length_EncryptOutbound [OF assms(1), of p "the (cipher w)"]
  by (auto simp: payload_of_def sendable_def TagBytes_def split: option.splits if_splits)

lemma engine_arrives:
  assumes "aes_gcm A" "linked w r" "sendable w p" "concat (inbound r) = frame_of (payload_of A w p) @ rest"
  shows "\<exists>r'. ReadFrameAsync A r = (Inr (Some p), r') \<and> concat (inbound r') = rest \<and> linked (WriteFrameAsync A p w) r'"
proof -
  note len = payload_length [OF assms(1,3)]
  have a: "arriving (inbound r)" using assms(2) by (simp add: linked_def)
  from frame_read [OF a assms(4) len(2)] len obtain q i1 i2 where
    i: "ReadExactAsync 4 (inbound r) = (Some q, i1)" "unat (read_le q :: 32 word) = length (payload_of A w p)"
    "ReadExactAsync (length (payload_of A w p)) i1 = (Some (payload_of A w p), i2)" "concat i2 = rest" "arriving i2"
    by blast
  have m: "mirrored (cipher w) (cipher r)" using assms(2) by (simp add: linked_def)
  show ?thesis
  proof (cases "cipher w")
    case None
    with m have "cipher r = None" by (simp add: mirrored_def split: option.splits)
    with None i len show ?thesis
      by (auto simp: ReadFrameAsync_def WriteFrameAsync_def linked_def mirrored_def payload_of_def)
  next
    case (Some c)
    with m obtain d where d: "cipher r = Some d" "sendKey c = recvKey d" "sendCounter c = recvCounter d"
      by (auto simp: mirrored_def split: option.splits)
    have "DecryptInbound A (payload_of A w p) d = (Some p, d\<lparr>recvCounter := recvCounter d + 1\<rparr>)"
      using mirrored_decrypt(1) [OF assms(1) d(2,3)] by (simp add: payload_of_def Some)
    with Some d i len show ?thesis
      by (auto simp: ReadFrameAsync_def WriteFrameAsync_def linked_def mirrored_def EncryptOutbound_def split: prod.splits)
  qed
qed

text \<open>The frame the peer has begun but not sent to its end.\<close>

definition truncated :: "bytes \<Rightarrow> bool" where
  "truncated bs \<longleftrightarrow> 4 \<le> length bs \<and>
     (let n = unat (read_le (take 4 bs) :: 32 word) in n \<noteq> 0 \<and> n \<le> MaxFrameBytes \<and> length bs < 4 + n)"

lemma decrypts_agree: "fst (decryptInbound A pl d) = fst (DecryptInbound A pl d)"
  "fst (DecryptInbound A pl d) = Some p \<Longrightarrow> decryptInbound A pl d = DecryptInbound A pl d"
  by (auto simp: decryptInbound_def DecryptInbound_def Let_def split: if_splits)

lemma readers_compare:
  assumes "arriving (inbound r)"
  shows "fst (readFrame A r) = (if truncated (concat (inbound r)) then Inl Truncated else fst (ReadFrameAsync A r))" (is ?results)
    and "fst (ReadFrameAsync A r) = Inr (Some p) \<Longrightarrow> readFrame A r = ReadFrameAsync A r" (is "?ok \<Longrightarrow> _")
    and "truncated (concat (inbound r)) \<Longrightarrow> fst (ReadFrameAsync A r) = Inr None"
proof -
  let ?bs = "concat (inbound r)"
  have "?results \<and> (?ok \<longrightarrow> readFrame A r = ReadFrameAsync A r) \<and> (truncated ?bs \<longrightarrow> fst (ReadFrameAsync A r) = Inr None)"
  proof (cases "length ?bs < 4")
    case True
    then obtain i where "ReadExactAsync 4 (inbound r) = (None, i)"
      using ReadExact_short [OF assms, of 4] by (cases "ReadExactAsync 4 (inbound r)") auto
    with True show ?thesis
      by (simp add: readFrame_def ReadFrameAsync_def readExactly_eq assms truncated_def)
  next
    case False
    then obtain i1 where i1: "ReadExactAsync 4 (inbound r) = (Some (take 4 ?bs), i1)" "concat i1 = drop 4 ?bs" "arriving i1"
      using ReadExact_enough [OF assms, of 4] by auto
    let ?n = "unat (read_le (take 4 ?bs) :: 32 word)"
    have "fst (ReadExactAsync ?n i1) = None \<longleftrightarrow> length ?bs < 4 + ?n"
      using False by (auto simp: ReadExact_None [OF i1(3)] i1(2))
    then have t: "truncated ?bs \<longleftrightarrow> ?n \<noteq> 0 \<and> ?n \<le> MaxFrameBytes \<and> fst (ReadExactAsync ?n i1) = None"
      using False by (simp add: truncated_def Let_def)
    obtain pl i2 where i2: "ReadExactAsync ?n i1 = (pl, i2)" by (cases "ReadExactAsync ?n i1")
    note rd = readFrame_def ReadFrameAsync_def readExactly_eq [OF assms] readExactly_eq [OF i1(3)] i1(1) i2 t Let_def
    show ?thesis
    proof (cases "?n = 0 \<or> ?n > MaxFrameBytes \<or> pl = None \<or> cipher r = None")
      case True
      then show ?thesis by (cases pl; cases "cipher r") (auto simp: rd)
    next
      case False
      then obtain q d where "pl = Some q" "cipher r = Some d" "\<not> (?n = 0 \<or> ?n > MaxFrameBytes)" by auto
      then show ?thesis using decrypts_agree [of A q d]
        by (cases "DecryptInbound A q d"; cases "decryptInbound A q d"; cases "fst (DecryptInbound A q d)") (auto simp: rd)
    qed
  qed
  then show ?results "?ok \<Longrightarrow> readFrame A r = ReadFrameAsync A r" "truncated ?bs \<Longrightarrow> fst (ReadFrameAsync A r) = Inr None"
    by blast+
qed

lemma kotlin_arrives:
  assumes "aes_gcm A" "linked w r" "sendable w p" "concat (inbound r) = frame_of (payload_of A w p) @ rest"
  shows "\<exists>r'. readFrame A r = (Inr (Some p), r') \<and> concat (inbound r') = rest \<and> linked (WriteFrameAsync A p w) r'"
proof -
  obtain r' where r: "ReadFrameAsync A r = (Inr (Some p), r')" "concat (inbound r') = rest" "linked (WriteFrameAsync A p w) r'"
    using engine_arrives [OF assms] by blast
  have "readFrame A r = ReadFrameAsync A r"
    by (rule readers_compare(2) [of _ _ p]) (use assms(2) r(1) in \<open>simp_all add: linked_def\<close>)
  with r show ?thesis by simp
qed

lemma eof_reads:
  assumes "arriving (inbound r)" "concat (inbound r) = []"
  shows "fst (ReadFrameAsync A r) = Inr None" "fst (readFrame A r) = Inr None"
  using short_read [OF assms] by (auto simp: ReadFrameAsync_def readFrame_def readExactly_eq assms(1))

definition sent_frame :: "aead \<Rightarrow> connection \<Rightarrow> bytes \<Rightarrow> bytes" where
  "sent_frame A w p = frame_of (payload_of A w p)"

interpretation to_engine: frame_link "WriteFrameAsync A" outbound "sent_frame A" "ReadFrameAsync A"
    "\<lambda>r. concat (inbound r)" "\<lambda>w r. aes_gcm A \<and> linked w r" sendable for A
  using engine_arrives eof_reads(1)
  by unfold_locales (auto simp: outbound_Write sendable_Write sent_frame_def linked_def)

interpretation to_client: frame_link "WriteFrameAsync A" outbound "sent_frame A" "readFrame A"
    "\<lambda>r. concat (inbound r)" "\<lambda>w r. aes_gcm A \<and> linked w r" sendable for A
  using kotlin_arrives eof_reads(2)
  by unfold_locales (auto simp: outbound_Write sendable_Write sent_frame_def linked_def)

section \<open>Properties\<close>

text \<open>C25. Frames written by the engine or the Android client and read by either arrive exactly and in order, however the bytes
  are cut into chunks, encrypted or not, followed by the end of the stream.\<close>

theorem channel_delivers:
  assumes "aes_gcm A" "linked w r" "\<forall>p \<in> set ps. sendable w p" "wr \<in> {WriteFrameAsync A, writeFrame A}"
    "rd \<in> {ReadFrameAsync A, readFrame A}" "outbound (fold wr ps w) = outbound w @ concat (inbound r)"
  shows "\<exists>r'. read_frames rd (length ps) r = (ps, r') \<and> fst (rd r') = Inr None"
proof -
  have "wr = WriteFrameAsync A" using assms(4) by (auto simp: kotlin_write)
  then show ?thesis
    using to_engine.frames_arrive [of A w r ps] to_client.frames_arrive [of A w r ps] assms by auto
qed

lemma DecryptInbound_iff:
  assumes "aes_gcm A" "sendKey c = recvKey d" "sendCounter c = recvCounter d"
  shows "fst (DecryptInbound A pl d) = Some p \<longleftrightarrow> pl = fst (EncryptOutbound A p c)"
proof
  assume l: "fst (DecryptInbound A pl d) = Some p"
  then have "Encrypt A (recvKey d) (NonceFor (recvCounter d)) p = (take (length pl - TagBytes) pl, drop (length pl - TagBytes) pl)"
    by (simp add: DecryptInbound_def Let_def aes_gcm_Decrypt [OF assms(1)] split: if_splits)
  then show "pl = fst (EncryptOutbound A p c)" by (simp add: EncryptOutbound_def assms(2,3))
qed (simp add: mirrored_decrypt(1) [OF assms])

lemma encrypted_read:
  assumes "cipher r = Some d" "arriving (inbound r)" "concat (inbound r) = frame_of pl @ rest" "pl \<noteq> []"
    "length pl \<le> MaxFrameBytes" "rd \<in> {ReadFrameAsync A, readFrame A}"
  shows "fst (rd r) = (case fst (DecryptInbound A pl d) of None \<Rightarrow> Inl TagMismatch | Some p \<Rightarrow> Inr (Some p))"
proof -
  obtain q i1 i2 where "ReadExactAsync 4 (inbound r) = (Some q, i1)" "unat (read_le q :: 32 word) = length pl"
    "ReadExactAsync (length pl) i1 = (Some pl, i2)"
    using frame_read [OF assms(2,3,5)] by blast
  then have e: "fst (ReadFrameAsync A r) = (case fst (DecryptInbound A pl d) of None \<Rightarrow> Inl TagMismatch | Some p \<Rightarrow> Inr (Some p))"
    using assms(1,4,5) by (cases "DecryptInbound A pl d"; cases "fst (DecryptInbound A pl d)") (auto simp: ReadFrameAsync_def)
  then have "\<not> truncated (concat (inbound r))"
    using readers_compare(3) [OF assms(2), of A] by (auto split: option.splits)
  then show ?thesis using e readers_compare(1) [OF assms(2), of A] assms(6) by auto
qed


text \<open>The nonces under which a cipher encrypts a sequence of frames.\<close>

primrec nonces :: "aead \<Rightarrow> bytes list \<Rightarrow> AeadFrameCipher \<Rightarrow> bytes list" where
  "nonces A [] c = []"
| "nonces A (p # ps) c = NonceFor (sendCounter c) # nonces A ps (snd (EncryptOutbound A p c))"

lemma NonceFor_inj: "NonceFor a = NonceFor b \<longleftrightarrow> a = b"
proof
  assume "NonceFor a = NonceFor b"
  then have "write_le 8 a = write_le 8 b" by (simp add: NonceFor_def)
  then have "(read_le (write_le 8 a) :: 64 word) = read_le (write_le 8 b)" by simp
  moreover have "take_bit 64 x = x" for x :: "64 word" by (rule bit_word_eqI) (simp add: bit_simps)
  ultimately show "a = b" by (simp add: read_write_le)
qed simp

lemma nonces_eq: "nonces A ps c = map (\<lambda>i. NonceFor (sendCounter c + word_of_nat i)) [0..<length ps]"
proof (induction ps arbitrary: c)
  case (Cons p ps)
  have "sendCounter (snd (EncryptOutbound A p c)) = sendCounter c + 1"
    by (simp add: EncryptOutbound_def split: prod.splits)
  then show ?case by (simp add: Cons upt_conv_Cons map_Suc_upt [symmetric] algebra_simps del: upt_Suc map_Suc_upt)
qed simp

text \<open>C27. The frames of one direction are encrypted under pairwise different nonces exactly as long as there are
  at most \<open>2 ^ 64\<close> of them, at any starting point of the counter.\<close>

theorem nonces_distinct: "distinct (nonces A ps c) \<longleftrightarrow> length ps \<le> 2 ^ 64"
proof
  assume "length ps \<le> 2 ^ 64"
  then have "inj_on (\<lambda>i. word_of_nat i :: 64 word) {0..<length ps}"
    by (intro inj_onI) (simp add: word_of_nat_eq_iff take_bit_nat_eq_self)
  then show "distinct (nonces A ps c)"
    by (auto simp: nonces_eq distinct_map inj_on_def NonceFor_inj)
next
  assume d: "distinct (nonces A ps c)"
  have "set (nonces A ps c) \<subseteq> NonceFor ` (UNIV :: 64 word set)" by (auto simp: nonces_eq)
  then have "card (set (nonces A ps c)) \<le> card (UNIV :: 64 word set)"
    by (meson card_image_le card_mono finite finite_imageI order_trans)
  moreover have "length (nonces A ps c) = length ps" by (simp add: nonces_eq)
  ultimately show "length ps \<le> 2 ^ 64" using distinct_card [OF d] by (simp add: card_word)
qed

text \<open>On the same bytes the engine's reader and the Android client's give the same result, except for a frame cut off by the
  end of the stream: the client raises, the engine takes it for the end. After an accepted frame they are in the same state.\<close>

theorem readers_agree:
  assumes "arriving (inbound r)"
  shows "fst (readFrame A r) = (if truncated (concat (inbound r)) then Inl Truncated else fst (ReadFrameAsync A r)) \<and>
    (truncated (concat (inbound r)) \<longrightarrow> fst (ReadFrameAsync A r) = Inr None) \<and>
    (\<forall>p. fst (ReadFrameAsync A r) = Inr (Some p) \<longrightarrow> readFrame A r = ReadFrameAsync A r)"
  using readers_compare [OF assms, of A] by blast

section \<open>Witnesses\<close>

definition demo_aead :: aead where
  "demo_aead = \<lparr>Encrypt = \<lambda>k n p. (map NOT p, replicate TagBytes (hd (k @ n @ [0]))),
     Decrypt = \<lambda>k n c t. if t = replicate TagBytes (hd (k @ n @ [0])) then Some (map NOT c) else None\<rparr>"

lemma demo_aes_gcm: "aes_gcm demo_aead"
proof -
  have "map NOT p = c \<longleftrightarrow> map NOT c = p" for p c :: bytes by (auto simp: comp_def)
  then show ?thesis by (auto simp: aes_gcm_def demo_aead_def)
qed

definition demo_sender :: connection where
  "demo_sender = \<lparr>cipher = Some (new_cipher [1] [2]), inbound = [], outbound = []\<rparr>"

definition demo_receiver :: connection where
  "demo_receiver = \<lparr>cipher = Some (new_cipher [2] [1]),
     inbound = [[18, 0], [0, 0, 248, 247, 1, 1], replicate 14 1, [17, 0, 0, 0, 246], replicate 16 1], outbound = []\<rparr>"

lemma demo_linked: "linked demo_sender demo_receiver"
  by (simp add: linked_def mirrored_def arriving_def demo_sender_def demo_receiver_def new_cipher_def)

lemma demo_sent: "outbound (fold (WriteFrameAsync demo_aead) [[7, 8], [9]] demo_sender) =
    outbound demo_sender @ concat (inbound demo_receiver)"
  by code_simp

theorem channel_delivers_witness:
  "\<exists>r'. read_frames (readFrame demo_aead) 2 demo_receiver = ([[7, 8], [9]], r') \<and> fst (readFrame demo_aead r') = Inr None"
proof -
  have "\<forall>p \<in> set [[7, 8], [9]]. sendable demo_sender p"
    by (simp add: sendable_def demo_sender_def MaxFrameBytes_def TagBytes_def)
  from channel_delivers [OF demo_aes_gcm demo_linked this, of "WriteFrameAsync demo_aead" "readFrame demo_aead"] demo_sent
  show ?thesis by (simp add: eval_nat_numeral)
qed

theorem readers_agree_witness: "fst (readFrame demo_aead \<lparr>cipher = None, inbound = [[2, 0, 0, 0, 5]], outbound = []\<rparr>) = Inl Truncated"
  using readers_agree [of "\<lparr>cipher = None, inbound = [[2, 0, 0, 0, 5]], outbound = []\<rparr>" demo_aead]
  by (simp add: arriving_def truncated_def MaxFrameBytes_def)


end
