(* ===== verification/Pb_Server.thy ===== *)
theory Pb_Server
  imports Pb_Channel Session_Exports
begin

text \<open>
  The framed protobuf server, \<^verbatim>\<open>Pb/PbFrameServer.cs\<close> and \<^verbatim>\<open>Pb/PqSecureChannel.cs\<close>, and the feature catalog it serves
  (\<^verbatim>\<open>LanguageFeatures.cs\<close>): envelopes, the post-quantum handshake of both sides, the dispatch of requests and the loop of a
  connection, up to its close; the cancellation by \<open>Stop\<close> in the middle of a connection is left out. Parameters are the
  protobuf runtime with the generated classes, BouncyCastle behind \<open>IPqcProvider\<close>, HKDF and AES-GCM, the demos and the
  model behind the RAG orchestrator. The theorems: the handshake leaves the two sides with mirrored ciphers; a failed one
  ends in a typed error; the server answers every request, in order and with its id, over the encrypted channel as over
  the plain one; and the cases in which the connection is closed without an answer.
\<close>

section \<open>Messages\<close>

record FeatureDescriptor =
  desc_Id :: string
  desc_Title :: string
  desc_Version :: string
  desc_Code :: string
  desc_Expected :: string

record FeatureRun =
  run_Id :: string
  run_Result :: string
  run_ElapsedMs :: "64 word"
  run_Ok :: bool

record offer =
  KemPublicKey :: bytes
  SigPublicKey :: bytes
  Signature :: bytes
  KemAlgorithm :: string
  SigAlgorithm :: string
  CipherName :: string
  SessionId :: bytes

datatype body = NoBody
  | Features | Run string | Rag string | Ping | Bench string
  | FeaturesResponse "FeatureDescriptor list" | RunResponse FeatureRun | RagChunk int string bool
  | PingResponse string | ErrorFrame int string
  | HandshakeOffer offer | HandshakeReply bytes

record Envelope =
  RequestId :: string
  Body :: body

primrec BodyCase :: "body \<Rightarrow> string" where
  "BodyCase NoBody = ''None''"
| "BodyCase Features = ''Features''"
| "BodyCase (Run i) = ''Run''"
| "BodyCase (Rag q) = ''Rag''"
| "BodyCase Ping = ''Ping''"
| "BodyCase (Bench c) = ''Bench''"
| "BodyCase (FeaturesResponse ds) = ''FeaturesResponse''"
| "BodyCase (RunResponse r) = ''RunResponse''"
| "BodyCase (RagChunk i t f) = ''RagChunk''"
| "BodyCase (PingResponse r) = ''PingResponse''"
| "BodyCase (ErrorFrame c m) = ''Error''"
| "BodyCase (HandshakeOffer off) = ''HandshakeOffer''"
| "BodyCase (HandshakeReply ct) = ''HandshakeReply''"

text \<open>The generated protobuf code: serialising and parsing, where \<open>None\<close> is an \<open>InvalidProtocolBufferException\<close>.\<close>

record proto =
  ToByteArray :: "Envelope \<Rightarrow> bytes"
  ParseFrom :: "bytes \<Rightarrow> Envelope option"

text \<open>Parsing inverts serialising, for the envelopes in question.\<close>

definition proto_doc :: "proto \<Rightarrow> Envelope set \<Rightarrow> bool" where
  "proto_doc P E \<longleftrightarrow> (\<forall>e \<in> E. ParseFrom P (ToByteArray P e) = Some e)"

section \<open>The handshake\<close>

text \<open>The provider: verification and encapsulation on the client, the key pairs of the server on the other side. \<open>None\<close> is
  an exception of the library.\<close>

record crypto =
  gcm :: aead
  hkdf :: "bytes \<Rightarrow> nat \<Rightarrow> bytes \<Rightarrow> bytes \<Rightarrow> bytes"
  Verify :: "bytes \<Rightarrow> bytes \<Rightarrow> bytes \<Rightarrow> bool"
  Encapsulate :: "bytes \<Rightarrow> (bytes \<times> bytes) option"

record identity =
  KemKey :: bytes
  SigKey :: bytes
  Sign :: "bytes \<Rightarrow> bytes"
  Decapsulate :: "bytes \<Rightarrow> bytes option"

text \<open>FIPS 203 and 204: decapsulation returns the encapsulated secret, and a signature verifies under its key.\<close>

definition pqc_doc :: "crypto \<Rightarrow> identity \<Rightarrow> bool" where
  "pqc_doc K I \<longleftrightarrow> (\<forall>m. Verify K (SigKey I) m (Sign I m)) \<and>
     (\<exists>ct ss. Encapsulate K (KemKey I) = Some (ct, ss) \<and> Decapsulate I ct = Some ss)"

definition InfoClientToServer :: bytes where
  "InfoClientToServer = map of_char ''dni-pb c2s v1''"

definition InfoServerToClient :: bytes where
  "InfoServerToClient = map of_char ''dni-pb s2c v1''"

definition DeriveKeys :: "crypto \<Rightarrow> bytes \<Rightarrow> bytes \<Rightarrow> bytes \<Rightarrow> bytes \<times> bytes" where
  "DeriveKeys K sharedSecret ciphertext sessionId =
     (let salt = ciphertext @ sessionId
      in (hkdf K sharedSecret 32 salt InfoClientToServer, hkdf K sharedSecret 32 salt InfoServerToClient))"

datatype handshake_exn = PqcHandshake string | Unexpected

definition make_offer :: "identity \<Rightarrow> bytes \<Rightarrow> Envelope" where
  "make_offer I sessionId = \<lparr>RequestId = '''', Body = HandshakeOffer
     \<lparr>KemPublicKey = KemKey I, SigPublicKey = SigKey I, Signature = Sign I (KemKey I @ sessionId),
      KemAlgorithm = ''ML-KEM-768'', SigAlgorithm = ''ML-DSA-65'', CipherName = ''AES-256-GCM'', SessionId = sessionId\<rparr>\<rparr>"

definition ServerHandshakeAsync ::
    "crypto \<Rightarrow> proto \<Rightarrow> identity \<Rightarrow> bytes \<Rightarrow> connection \<Rightarrow> (handshake_exn + AeadFrameCipher) \<times> connection" where
  "ServerHandshakeAsync K P I sessionId conn =
     (case ReadFrameAsync (gcm K) (WriteFrameAsync (gcm K) (ToByteArray P (make_offer I sessionId)) conn) of
        (Inl e, conn) \<Rightarrow> (Inl Unexpected, conn)
      | (Inr None, conn) \<Rightarrow>
          (Inl (PqcHandshake ''client closed the connection before sending a handshake reply''), conn)
      | (Inr (Some replyBytes), conn) \<Rightarrow>
         (case ParseFrom P replyBytes of
            None \<Rightarrow> (Inl Unexpected, conn)
          | Some reply \<Rightarrow>
             (case Body reply of
                HandshakeReply ciphertext \<Rightarrow>
                 (case Decapsulate I ciphertext of
                    None \<Rightarrow> (Inl Unexpected, conn)
                  | Some sharedSecret \<Rightarrow>
                     (let (c2s, s2c) = DeriveKeys K sharedSecret ciphertext sessionId
                      in (Inr (new_cipher s2c c2s), conn)))
              | b \<Rightarrow> (Inl (PqcHandshake (''expected a handshake reply but received '' @ BodyCase b)), conn))))"

definition ClientHandshakeAsync ::
    "crypto \<Rightarrow> proto \<Rightarrow> connection \<Rightarrow> (handshake_exn + AeadFrameCipher \<times> bytes) \<times> connection" where
  "ClientHandshakeAsync K P conn =
     (case ReadFrameAsync (gcm K) conn of
        (Inl e, conn) \<Rightarrow> (Inl Unexpected, conn)
      | (Inr None, conn) \<Rightarrow>
          (Inl (PqcHandshake ''server closed the connection before sending a handshake offer''), conn)
      | (Inr (Some offerBytes), conn) \<Rightarrow>
         (case ParseFrom P offerBytes of
            None \<Rightarrow> (Inl Unexpected, conn)
          | Some offerEnvelope \<Rightarrow>
             (case Body offerEnvelope of
                HandshakeOffer off \<Rightarrow>
                  if \<not> Verify K (SigPublicKey off) (KemPublicKey off @ SessionId off) (Signature off)
                  then (Inl (PqcHandshake ''server handshake signature failed ML-DSA verification''), conn)
                  else (case Encapsulate K (KemPublicKey off) of
                     None \<Rightarrow> (Inl Unexpected, conn)
                   | Some (ciphertext, sharedSecret) \<Rightarrow>
                      (let reply = \<lparr>RequestId = '''', Body = HandshakeReply ciphertext\<rparr>;
                           (c2s, s2c) = DeriveKeys K sharedSecret ciphertext (SessionId off)
                       in (Inr (new_cipher c2s s2c, SessionId off), WriteFrameAsync (gcm K) (ToByteArray P reply) conn)))
              | b \<Rightarrow> (Inl (PqcHandshake (''expected a handshake offer but received '' @ BodyCase b)), conn))))"

section \<open>The catalog\<close>

text \<open>A feature's demo: what its \<open>n\<close>th execution returns or throws. Execution 0 is the one that fills the descriptors.\<close>

record LanguageFeature =
  feat_Id :: string
  feat_Title :: string
  feat_Version :: string
  feat_Code :: string
  Execute :: "nat \<Rightarrow> string + string"

definition Safe :: "string + string \<Rightarrow> string" where
  "Safe r = (case r of Inl message \<Rightarrow> message | Inr output \<Rightarrow> output)"

definition Descriptors :: "LanguageFeature list \<Rightarrow> FeatureDescriptor list" where
  "Descriptors fs = map (\<lambda>f. \<lparr>desc_Id = feat_Id f, desc_Title = feat_Title f, desc_Version = feat_Version f,
     desc_Code = feat_Code f, desc_Expected = Safe (Execute f 0)\<rparr>) fs"

text \<open>The commands of \<^verbatim>\<open>ShowcaseCommand.cs\<close> are a parameter: which ids they are, and what they return.\<close>

record catalog =
  Demos :: "LanguageFeature list"
  IsCommand :: "string \<Rightarrow> bool"
  RunCommand :: "string \<Rightarrow> FeatureRun"
  Elapsed :: "64 word"

definition catalog_Run :: "catalog \<Rightarrow> nat \<Rightarrow> string \<Rightarrow> FeatureRun" where
  "catalog_Run C n i =
     (if IsCommand C i then RunCommand C i
      else case find (\<lambda>f. feat_Id f = i) (Demos C) of
        None \<Rightarrow> \<lparr>run_Id = i, run_Result = ''Unknown feature id: '' @ i, run_ElapsedMs = 0, run_Ok = False\<rparr>
      | Some f \<Rightarrow>
         (let expected = desc_Expected (hd (filter (\<lambda>d. desc_Id d = i) (Descriptors (Demos C))))
          in case Execute f n of
               Inr output \<Rightarrow> \<lparr>run_Id = i, run_Result = output, run_ElapsedMs = Elapsed C, run_Ok = (output = expected)\<rparr>
             | Inl message \<Rightarrow> \<lparr>run_Id = i, run_Result = message, run_ElapsedMs = Elapsed C, run_Ok = False\<rparr>))"

section \<open>Requests\<close>

definition ErrorUnknownRequest :: int where "ErrorUnknownRequest = 1"
definition ErrorHandshakeFailed :: int where "ErrorHandshakeFailed = 2"
definition ErrorTamper :: int where "ErrorTamper = 3"
definition ErrorInternal :: int where "ErrorInternal = 4"

definition ErrorEnvelope :: "string \<Rightarrow> int \<Rightarrow> string \<Rightarrow> Envelope" where
  "ErrorEnvelope requestId code message = \<lparr>RequestId = requestId, Body = ErrorFrame code message\<rparr>"

definition WriteEnvelopeAsync :: "crypto \<Rightarrow> proto \<Rightarrow> Envelope \<Rightarrow> connection \<Rightarrow> connection" where
  "WriteEnvelopeAsync K P e conn = WriteFrameAsync (gcm K) (ToByteArray P e) conn"

definition RunToEnvelope :: "catalog \<Rightarrow> nat \<Rightarrow> string \<Rightarrow> string \<Rightarrow> Envelope" where
  "RunToEnvelope C n requestId i = \<lparr>RequestId = requestId, Body = RunResponse (catalog_Run C n i)\<rparr>"

text \<open>The chunks of a RAG answer are the tokens the session delivers (\<open>Inference_Session\<close>); a session whose model throws ends
  the loop with that exception. The result says whether the dispatch returned.\<close>

definition rag_chunk :: "string \<Rightarrow> InferenceToken \<Rightarrow> Envelope" where
  "rag_chunk requestId t = \<lparr>RequestId = requestId, Body = RagChunk (Index t) (Text t) (IsFinal t)\<rparr>"

definition StreamRagAsync :: "crypto \<Rightarrow> proto \<Rightarrow> model_run \<Rightarrow> string \<Rightarrow> connection \<Rightarrow> bool \<times> connection" where
  "StreamRagAsync K P m requestId conn =
     (ending m = Completes, fold (\<lambda>t. WriteEnvelopeAsync K P (rag_chunk requestId t)) (orchestrated m) conn)"

definition DispatchAsync ::
    "crypto \<Rightarrow> proto \<Rightarrow> catalog \<Rightarrow> (string \<Rightarrow> model_run) \<Rightarrow> nat \<Rightarrow> Envelope \<Rightarrow> connection \<Rightarrow> bool \<times> connection" where
  "DispatchAsync K P C answer_of n request conn =
     (let requestId = RequestId request; reply = (\<lambda>e. (True, WriteEnvelopeAsync K P e conn))
      in case Body request of
           Features \<Rightarrow> reply \<lparr>RequestId = requestId, Body = FeaturesResponse (Descriptors (Demos C))\<rparr>
         | Run i \<Rightarrow> reply (RunToEnvelope C n requestId i)
         | Bench command \<Rightarrow> reply (RunToEnvelope C n requestId command)
         | Ping \<Rightarrow> reply \<lparr>RequestId = requestId, Body = PingResponse (run_Result (catalog_Run C n ''ping''))\<rparr>
         | Rag query \<Rightarrow> StreamRagAsync K P (answer_of query) requestId conn
         | b \<Rightarrow> reply (ErrorEnvelope requestId ErrorUnknownRequest (''Unsupported request: '' @ BodyCase b @ ''.'')))"

section \<open>A connection\<close>

definition TrySendErrorAsync :: "crypto \<Rightarrow> proto \<Rightarrow> int \<Rightarrow> string \<Rightarrow> connection \<Rightarrow> connection" where
  "TrySendErrorAsync K P code message conn = WriteEnvelopeAsync K P (ErrorEnvelope '''' code message) conn"

definition TryHandshakeAsync ::
    "crypto \<Rightarrow> proto \<Rightarrow> identity option \<Rightarrow> bytes \<Rightarrow> connection \<Rightarrow> bool \<times> connection" where
  "TryHandshakeAsync K P I sessionId conn = (case I of
     None \<Rightarrow> (False, TrySendErrorAsync K P ErrorHandshakeFailed ''server PQ identity unavailable'' conn)
   | Some I \<Rightarrow> (case ServerHandshakeAsync K P I sessionId conn of
       (Inr c, conn) \<Rightarrow> (True, UseCipher c conn)
     | (Inl (PqcHandshake message), conn) \<Rightarrow> (False, TrySendErrorAsync K P ErrorHandshakeFailed message conn)
     | (Inl Unexpected, conn) \<Rightarrow> (False, TrySendErrorAsync K P ErrorHandshakeFailed ''handshake failed'' conn)))"

text \<open>How the server leaves a connection: at the end of the input, after a typed error, or by the outer handler that closes
  the socket without a word.\<close>

datatype closing = Eof | Rejected int | Silent

lemma ReadExact_consumes:
  "ReadExactAsync k inp = (Some bs, inp') \<Longrightarrow> length bs = k \<and> concat inp = bs @ concat inp'"
proof (induction k inp arbitrary: bs inp' rule: ReadExactAsync.induct)
  case (1 k inp)
  show ?case
  proof (cases "k = 0 \<or> fst (ReadAsync k inp) = []")
    case True
    then show ?thesis using 1(2) by (auto simp: ReadExactAsync.simps [of k] split: prod.splits if_splits)
  next
    case False
    obtain b i where r: "ReadAsync k inp = (b, i)" by (cases "ReadAsync k inp")
    obtain q i2 where q: "ReadExactAsync (k - length b) i = (q, i2)" by (cases "ReadExactAsync (k - length b) i")
    have b: "length b \<le> k" "concat inp = b @ concat i" using r by (auto simp: ReadAsync_def split: list.splits if_splits)
    have "(map_option ((@) b) q, i2) = (Some bs, inp')"
      using 1(2) [unfolded ReadExactAsync.simps [of k inp]] False r q by simp
    then obtain q' where q': "q = Some q'" "bs = b @ q'" "i2 = inp'" by auto
    have "length q' = k - length b \<and> concat i = q' @ concat inp'"
      using 1(1) [OF _ r [symmetric] refl] False r q q' by simp
    then show ?thesis using b q' by simp
  qed
qed

lemma ReadFrame_shrinks:
  "ReadFrameAsync A conn = (Inr (Some p), conn') \<Longrightarrow> length (concat (inbound conn')) < length (concat (inbound conn))"
  by (auto simp: ReadFrameAsync_def Let_def dest!: ReadExact_consumes split: option.splits prod.splits if_splits)

lemma inbound_Write [simp]: "inbound (WriteFrameAsync A p conn) = inbound conn"
  by (simp add: WriteFrameAsync_def split: option.splits prod.splits)

lemma inbound_WriteEnvelope [simp]: "inbound (WriteEnvelopeAsync K P e conn) = inbound conn"
  by (simp add: WriteEnvelopeAsync_def)

lemma inbound_chunks [simp]: "inbound (fold (\<lambda>t. WriteEnvelopeAsync K P (f t)) ts conn) = inbound conn"
  by (induction ts arbitrary: conn) simp_all

lemma inbound_Dispatch: "inbound (snd (DispatchAsync K P C answer_of n req conn)) = inbound conn"
  by (simp add: DispatchAsync_def StreamRagAsync_def Let_def split: body.splits)

lemma serve_decreases:
  assumes "(Inr (Some p), conn1) = ReadFrameAsync A conn" "(b, conn2) = DispatchAsync K P C answer_of n req conn1"
  shows "length (concat (inbound conn2)) < length (concat (inbound conn))"
  using ReadFrame_shrinks [OF assms(1) [symmetric]] inbound_Dispatch [of K P C answer_of n req conn1] assms(2) [symmetric] by simp

text \<open>The loop of \<open>HandleClientAsync\<close>, with the requests served so far.\<close>

function serve ::
    "crypto \<Rightarrow> proto \<Rightarrow> catalog \<Rightarrow> (string \<Rightarrow> model_run) \<Rightarrow> nat \<Rightarrow> connection \<Rightarrow> closing \<times> connection" where
  "serve K P C answer_of n conn = (case ReadFrameAsync (gcm K) conn of
     (Inl TagMismatch, conn1) \<Rightarrow>
        (Rejected ErrorTamper, TrySendErrorAsync K P ErrorTamper ''frame authentication failed'' conn1)
   | (Inl e, conn1) \<Rightarrow> (Silent, conn1)
   | (Inr None, conn1) \<Rightarrow> (Eof, conn1)
   | (Inr (Some frame), conn1) \<Rightarrow> (case ParseFrom P frame of
        None \<Rightarrow> (Rejected ErrorInternal, TrySendErrorAsync K P ErrorInternal ''malformed request frame'' conn1)
      | Some request \<Rightarrow> (case DispatchAsync K P C answer_of (Suc n) request conn1 of
           (True, conn2) \<Rightarrow> serve K P C answer_of (Suc n) conn2
         | (False, conn2) \<Rightarrow> (Silent, conn2))))"
  by auto
termination
  by (relation "measure (\<lambda>(K, P, C, answer_of, n, conn). length (concat (inbound conn)))") (auto intro: serve_decreases)

declare serve.simps [simp del]

definition HandleClientAsync ::
    "crypto \<Rightarrow> proto \<Rightarrow> catalog \<Rightarrow> (string \<Rightarrow> model_run) \<Rightarrow> bool \<Rightarrow> identity option \<Rightarrow> bytes \<Rightarrow> connection \<Rightarrow> closing \<times> connection" where
  "HandleClientAsync K P C answer_of requirePq I sessionId conn =
     (if requirePq then (case TryHandshakeAsync K P I sessionId conn of
          (True, conn) \<Rightarrow> serve K P C answer_of 0 conn
        | (False, conn) \<Rightarrow> (Rejected ErrorHandshakeFailed, conn))
      else serve K P C answer_of 0 conn)"

section \<open>The answers\<close>

text \<open>What the server answers to a request, and to a sequence of them: the reference for the loop.\<close>

definition responses :: "catalog \<Rightarrow> (string \<Rightarrow> model_run) \<Rightarrow> nat \<Rightarrow> Envelope \<Rightarrow> Envelope list" where
  "responses C answer_of n request =
     (let answer = (\<lambda>b. [\<lparr>RequestId = RequestId request, Body = b\<rparr>])
      in case Body request of
           Features \<Rightarrow> answer (FeaturesResponse (Descriptors (Demos C)))
         | Run i \<Rightarrow> answer (RunResponse (catalog_Run C n i))
         | Bench i \<Rightarrow> answer (RunResponse (catalog_Run C n i))
         | Ping \<Rightarrow> answer (PingResponse (run_Result (catalog_Run C n ''ping'')))
         | Rag query \<Rightarrow> map (rag_chunk (RequestId request)) (orchestrated (answer_of query))
         | b \<Rightarrow> answer (ErrorFrame ErrorUnknownRequest (''Unsupported request: '' @ BodyCase b @ ''.'')))"

primrec replies :: "catalog \<Rightarrow> (string \<Rightarrow> model_run) \<Rightarrow> nat \<Rightarrow> Envelope list \<Rightarrow> Envelope list" where
  "replies C answer_of n [] = []"
| "replies C answer_of n (e # es) = responses C answer_of (Suc n) e @ replies C answer_of (Suc n) es"

definition returns :: "(string \<Rightarrow> model_run) \<Rightarrow> Envelope \<Rightarrow> bool" where
  "returns answer_of request = (case Body request of Rag query \<Rightarrow> ending (answer_of query) = Completes | _ \<Rightarrow> True)"

lemma Dispatch_eq:
  "DispatchAsync K P C answer_of n request conn = (returns answer_of request, fold (WriteEnvelopeAsync K P) (responses C answer_of n request) conn)"
  by (simp add: DispatchAsync_def responses_def returns_def StreamRagAsync_def RunToEnvelope_def ErrorEnvelope_def Let_def
    fold_map comp_def split: body.splits)

text \<open>What the peer of a connection sees of it.\<close>

definition same_sender :: "connection \<Rightarrow> connection \<Rightarrow> bool" where
  "same_sender a b \<longleftrightarrow> outbound a = outbound b \<and>
     map_option (\<lambda>c. (sendKey c, sendCounter c)) (cipher a) = map_option (\<lambda>c. (sendKey c, sendCounter c)) (cipher b)"

lemma same_sender_Write: "same_sender a b \<Longrightarrow> same_sender (WriteFrameAsync A p a) (WriteFrameAsync A p b)"
  by (cases "cipher a"; cases "cipher b")
    (auto simp: same_sender_def WriteFrameAsync_def EncryptOutbound_def split: prod.splits)

lemma same_sender_writes:
  "same_sender a b \<Longrightarrow> same_sender (fold (WriteEnvelopeAsync K P) es a) (fold (WriteEnvelopeAsync K P) es b)"
  by (induction es arbitrary: a b) (simp_all add: WriteEnvelopeAsync_def same_sender_Write)

lemma same_sender_Read: "ReadFrameAsync A r = (x, r') \<Longrightarrow> same_sender r' r"
  by (auto simp: ReadFrameAsync_def same_sender_def DecryptInbound_def Let_def split: option.splits prod.splits if_splits)

lemma linked_Write: "linked w (WriteFrameAsync A p r) = linked w r"
  by (auto simp: linked_def mirrored_def WriteFrameAsync_def EncryptOutbound_def split: option.splits prod.splits)

lemma linked_writes: "linked w (fold (WriteEnvelopeAsync K P) es r) = linked w r"
  by (induction es arbitrary: r) (simp_all add: WriteEnvelopeAsync_def linked_Write)

lemma inbound_writes: "inbound (fold (WriteEnvelopeAsync K P) es conn) = inbound conn"
  by (induction es arbitrary: conn) simp_all

lemma fold_WriteEnvelope:
  "fold (WriteEnvelopeAsync K P) es w = fold (WriteFrameAsync (gcm K)) (map (ToByteArray P) es) w"
  by (induction es arbitrary: w) (simp_all add: WriteEnvelopeAsync_def)

lemma outbound_WriteEnvelope:
  "outbound (WriteEnvelopeAsync K P e w) = outbound w @ frame_of (payload_of (gcm K) w (ToByteArray P e))"
  by (simp add: WriteEnvelopeAsync_def outbound_Write)

lemma serve_requests:
  assumes "aes_gcm (gcm K)" "proto_doc P (set es)" "linked w s" "\<forall>e \<in> set es. sendable w (ToByteArray P e) \<and> returns answer_of e"
    "outbound (fold (WriteEnvelopeAsync K P) es w) = outbound w @ concat (inbound s)"
  shows "\<exists>s'. serve K P C answer_of n s = (Eof, s') \<and> same_sender s' (fold (WriteEnvelopeAsync K P) (replies C answer_of n es) s)"
  using assms(2-)
proof (induction es arbitrary: w s n)
  case Nil
  then have "fst (ReadFrameAsync (gcm K) s) = Inr None" using eof_reads(1) by (simp add: linked_def)
  then obtain s1 where "ReadFrameAsync (gcm K) s = (Inr None, s1)" by (cases "ReadFrameAsync (gcm K) s") simp
  then show ?case using same_sender_Read by (subst serve.simps) simp
next
  case (Cons e es)
  let ?w1 = "WriteEnvelopeAsync K P e w"
  obtain bs where bs: "outbound (fold (WriteEnvelopeAsync K P) es ?w1) = outbound ?w1 @ bs"
    using to_engine.sent_all [of "gcm K" "map (ToByteArray P) es" ?w1] by (auto simp: fold_WriteEnvelope)
  have "concat (inbound s) = frame_of (payload_of (gcm K) w (ToByteArray P e)) @ bs"
    using Cons.prems(4) bs by (simp add: outbound_WriteEnvelope)
  then obtain s1 where s1: "ReadFrameAsync (gcm K) s = (Inr (Some (ToByteArray P e)), s1)" "concat (inbound s1) = bs" "linked ?w1 s1"
    using engine_arrives [OF assms(1) Cons.prems(2)] Cons.prems(3) by (auto simp: WriteEnvelopeAsync_def)
  have pd: "proto_doc P (set es)" using Cons.prems(1) by (simp add: proto_doc_def)
  let ?s2 = "fold (WriteEnvelopeAsync K P) (responses C answer_of (Suc n) e) s1"
  have "linked ?w1 ?s2" "outbound (fold (WriteEnvelopeAsync K P) es ?w1) = outbound ?w1 @ concat (inbound ?s2)"
    "\<forall>e' \<in> set es. sendable ?w1 (ToByteArray P e') \<and> returns answer_of e'"
    using s1 bs Cons.prems(3) by (simp_all add: linked_writes inbound_writes) (simp add: WriteEnvelopeAsync_def sendable_Write)
  from Cons.IH [OF pd this(1,3,2), of "Suc n"] obtain s' where
    s': "serve K P C answer_of (Suc n) ?s2 = (Eof, s')" "same_sender s' (fold (WriteEnvelopeAsync K P) (replies C answer_of (Suc n) es) ?s2)"
    by blast
  have "same_sender s1 s" using s1(1) by (rule same_sender_Read)
  then have "same_sender s' (fold (WriteEnvelopeAsync K P) (replies C answer_of n (e # es)) s)"
    using s'(2) same_sender_writes [of s1 s K P "replies C answer_of n (e # es)"] by (simp add: same_sender_def)
  moreover have "serve K P C answer_of n s = (Eof, s')"
    using s1(1) s'(1) Cons.prems(1,3) by (subst serve.simps) (simp add: proto_doc_def Dispatch_eq)
  ultimately show ?case by blast
qed

text \<open>The handshake frames are in the clear.\<close>

lemma plain_Write:
  "cipher conn = None \<Longrightarrow> WriteFrameAsync A p conn = conn\<lparr>outbound := outbound conn @ frame_of p\<rparr>"
  by (simp add: WriteFrameAsync_def frame_of_def)

lemma plain_Read_cipher: "ReadFrameAsync A conn = (x, conn') \<Longrightarrow> cipher conn = None \<Longrightarrow> cipher conn' = None \<and> outbound conn' = outbound conn"
  by (auto simp: ReadFrameAsync_def Let_def split: option.splits prod.splits if_splits)

lemma plain_Read:
  assumes "cipher conn = None" "arriving (inbound conn)" "concat (inbound conn) = frame_of p @ rest" "p \<noteq> []" "length p \<le> MaxFrameBytes"
  shows "\<exists>i. ReadFrameAsync A conn = (Inr (Some p), conn\<lparr>inbound := i\<rparr>) \<and> concat i = rest \<and> arriving i"
  using frame_read [OF assms(2,3,5)] assms(1,4,5) by (auto simp: ReadFrameAsync_def)

definition reply_envelope :: "bytes \<Rightarrow> Envelope" where
  "reply_envelope ct = \<lparr>RequestId = '''', Body = HandshakeReply ct\<rparr>"

definition transmissible :: "proto \<Rightarrow> Envelope \<Rightarrow> bool" where
  "transmissible P e \<longleftrightarrow> ToByteArray P e \<noteq> [] \<and> length (ToByteArray P e) \<le> MaxFrameBytes"

lemma client_handshake:
  assumes "proto_doc P {make_offer I sid}" "pqc_doc K I" "cipher c = None" "arriving (inbound c)" "transmissible P (make_offer I sid)"
    "concat (inbound c) = frame_of (ToByteArray P (make_offer I sid)) @ x"
  shows "\<exists>ct ss i. Encapsulate K (KemKey I) = Some (ct, ss) \<and> Decapsulate I ct = Some ss \<and> concat i = x \<and> arriving i \<and>
    ClientHandshakeAsync K P c = (Inr (new_cipher (fst (DeriveKeys K ss ct sid)) (snd (DeriveKeys K ss ct sid)), sid),
      c\<lparr>inbound := i, outbound := outbound c @ frame_of (ToByteArray P (reply_envelope ct))\<rparr>)"
proof -
  obtain i where i: "ReadFrameAsync (gcm K) c = (Inr (Some (ToByteArray P (make_offer I sid))), c\<lparr>inbound := i\<rparr>)"
    "concat i = x" "arriving i"
    using plain_Read [OF assms(3,4,6)] assms(5) by (auto simp: transmissible_def)
  obtain ct ss where k: "Encapsulate K (KemKey I) = Some (ct, ss)" "Decapsulate I ct = Some ss"
    "\<And>m. Verify K (SigKey I) m (Sign I m)"
    using assms(2) by (auto simp: pqc_doc_def)
  have "ParseFrom P (ToByteArray P (make_offer I sid)) = Some (make_offer I sid)" using assms(1) by (simp add: proto_doc_def)
  then show ?thesis using i k assms(3)
    by (intro exI [of _ ct] exI [of _ ss] exI [of _ i])
      (simp add: ClientHandshakeAsync_def make_offer_def plain_Write reply_envelope_def split_def Let_def)
qed

lemma server_handshake:
  assumes "proto_doc P {reply_envelope ct}" "cipher s = None" "arriving (inbound s)" "transmissible P (reply_envelope ct)" "Decapsulate I ct = Some ss"
    "concat (inbound s) = frame_of (ToByteArray P (reply_envelope ct)) @ y"
  shows "\<exists>i. concat i = y \<and> arriving i \<and> ServerHandshakeAsync K P I sid s =
    (Inr (new_cipher (snd (DeriveKeys K ss ct sid)) (fst (DeriveKeys K ss ct sid))),
     s\<lparr>inbound := i, outbound := outbound s @ frame_of (ToByteArray P (make_offer I sid))\<rparr>)"
proof -
  let ?s = "s\<lparr>outbound := outbound s @ frame_of (ToByteArray P (make_offer I sid))\<rparr>"
  obtain i where "ReadFrameAsync (gcm K) ?s = (Inr (Some (ToByteArray P (reply_envelope ct))), ?s\<lparr>inbound := i\<rparr>)"
    "concat i = y" "arriving i"
    using plain_Read [of ?s "ToByteArray P (reply_envelope ct)" y "gcm K"] assms(2,3,4,6) by (auto simp: transmissible_def)
  moreover have "ParseFrom P (ToByteArray P (reply_envelope ct)) = Some (reply_envelope ct)" using assms(1) by (simp add: proto_doc_def)
  ultimately show ?thesis using assms(2,5)
    by (intro exI [of _ i]) (simp add: ServerHandshakeAsync_def plain_Write reply_envelope_def split_def Let_def)
qed

lemma Write_extends: "\<exists>z. outbound (TrySendErrorAsync K P code msg conn) = outbound conn @ z"
  by (simp add: TrySendErrorAsync_def WriteEnvelopeAsync_def outbound_Write)

lemma ServerHandshake_sends:
  assumes "cipher s = None" "ServerHandshakeAsync K P I sid s = (x, s')"
  shows "cipher s' = None \<and> outbound s' = outbound s @ frame_of (ToByteArray P (make_offer I sid))"
proof -
  let ?s = "s\<lparr>outbound := outbound s @ frame_of (ToByteArray P (make_offer I sid))\<rparr>"
  obtain r s2 where r: "ReadFrameAsync (gcm K) ?s = (r, s2)" by (cases "ReadFrameAsync (gcm K) ?s")
  have "s' = s2" using assms r
    by (auto simp: ServerHandshakeAsync_def plain_Write split_def Let_def split: sum.splits option.splits body.splits)
  then show ?thesis using plain_Read_cipher [OF r] assms(1) by simp
qed

lemma TryHandshake_sends:
  assumes "cipher s = None"
  shows "\<exists>z. outbound (snd (TryHandshakeAsync K P (Some I) sid s)) = outbound s @ frame_of (ToByteArray P (make_offer I sid)) @ z"
proof -
  obtain x s' where x: "ServerHandshakeAsync K P I sid s = (x, s')" by (cases "ServerHandshakeAsync K P I sid s")
  note o = ServerHandshake_sends [OF assms x]
  show ?thesis using x o Write_extends [of K P _ _ s']
    by (auto simp: TryHandshakeAsync_def UseCipher_def split: sum.splits handshake_exn.splits)
qed

lemma Dispatch_extends: "\<exists>z. outbound (snd (DispatchAsync K P C answer_of n req conn)) = outbound conn @ z"
  using to_engine.sent_all [of "gcm K" "map (ToByteArray P) (responses C answer_of n req)" conn] by (simp add: Dispatch_eq fold_WriteEnvelope)

lemma Read_outbound: "outbound (snd (ReadFrameAsync A conn)) = outbound conn"
  using same_sender_Read [of A conn] by (cases "ReadFrameAsync A conn") (auto simp: same_sender_def)

lemma serve_extends: "\<exists>z. outbound (snd (serve K P C answer_of n conn)) = outbound conn @ z"
proof (induction K P C answer_of n conn rule: serve.induct)
  case (1 K P C answer_of n conn)
  obtain r conn1 where r: "ReadFrameAsync (gcm K) conn = (r, conn1)" by (cases "ReadFrameAsync (gcm K) conn")
  then have o: "outbound conn1 = outbound conn" using Read_outbound [of "gcm K" conn] by simp
  show ?case
  proof (cases "\<exists>frame request. r = Inr (Some frame) \<and> ParseFrom P frame = Some request")
    case True
    then obtain frame request where f: "r = Inr (Some frame)" "ParseFrom P frame = Some request" by blast
    obtain b conn2 where d: "DispatchAsync K P C answer_of (Suc n) request conn1 = (b, conn2)"
      by (cases "DispatchAsync K P C answer_of (Suc n) request conn1")
    have "\<exists>z. outbound conn2 = outbound conn1 @ z" using Dispatch_extends [of K P C answer_of "Suc n" request conn1] d by simp
    moreover have "\<exists>z. outbound (snd (serve K P C answer_of (Suc n) conn2)) = outbound conn2 @ z" if b
      using 1 [OF r [symmetric] f(1) refl f(2) d [symmetric]] that by simp
    ultimately show ?thesis using r f d o by (subst serve.simps) (cases b; auto)
  next
    case False
    then show ?thesis using r o Write_extends [of K P _ _ conn1]
      by (subst serve.simps) (auto split: sum.splits frame_exn.splits option.splits)
  qed
qed

lemma handshake_links:
  assumes "pqc_doc K I" "Encapsulate K (KemKey I) = Some (ct, ss)" "proto_doc P {make_offer I sid, reply_envelope ct}"
    "transmissible P (make_offer I sid)" "transmissible P (reply_envelope ct)"
    "cipher s = None" "cipher c = None" "arriving (inbound s)" "arriving (inbound c)"
    "TryHandshakeAsync K P (Some I) sid s = (ok, s1)" "ClientHandshakeAsync K P c = (rc, c1)"
    "outbound s @ concat (inbound c) = outbound s1 @ x" "outbound c @ concat (inbound s) = outbound c1 @ y"
  shows "\<exists>k. ok \<and> rc = Inr (k, sid) \<and> linked s1 (UseCipher k c1) \<and> linked (UseCipher k c1) s1 \<and> cipher s1 \<noteq> None \<and>
    concat (inbound s1) = y \<and> concat (inbound c1) = x"
proof -
  have p: "proto_doc P {make_offer I sid}" "proto_doc P {reply_envelope ct}" using assms(3) by (simp_all add: proto_doc_def)
  obtain z where z: "outbound s1 = outbound s @ frame_of (ToByteArray P (make_offer I sid)) @ z"
    using TryHandshake_sends [OF assms(6), of K P I sid] assms(10) by auto
  then have "concat (inbound c) = frame_of (ToByteArray P (make_offer I sid)) @ z @ x" using assms(12) by simp
  then obtain i where k: "Decapsulate I ct = Some ss" "concat i = z @ x" "arriving i"
    "rc = Inr (new_cipher (fst (DeriveKeys K ss ct sid)) (snd (DeriveKeys K ss ct sid)), sid)"
    "c1 = c\<lparr>inbound := i, outbound := outbound c @ frame_of (ToByteArray P (reply_envelope ct))\<rparr>"
    using client_handshake [OF p(1) assms(1,7,9,4), of "z @ x"] assms(2,11) by auto
  have "concat (inbound s) = frame_of (ToByteArray P (reply_envelope ct)) @ y" using assms(13) k(5) by simp
  then obtain j where j: "concat j = y" "arriving j" "ServerHandshakeAsync K P I sid s =
    (Inr (new_cipher (snd (DeriveKeys K ss ct sid)) (fst (DeriveKeys K ss ct sid))),
     s\<lparr>inbound := j, outbound := outbound s @ frame_of (ToByteArray P (make_offer I sid))\<rparr>)"
    using server_handshake [OF p(2) assms(6,8,5) k(1)] by blast
  then have "ok" "s1 = s\<lparr>inbound := j, outbound := outbound s @ frame_of (ToByteArray P (make_offer I sid)),
      cipher := Some (new_cipher (snd (DeriveKeys K ss ct sid)) (fst (DeriveKeys K ss ct sid)))\<rparr>"
    using assms(10) by (auto simp: TryHandshakeAsync_def UseCipher_def)
  with z k j show ?thesis by (auto simp: linked_def mirrored_def UseCipher_def new_cipher_def)
qed

section \<open>Properties\<close>

text \<open>When each side reads what the other writes, the handshake succeeds on both and leaves them with mirrored ciphers: each
  sends under the key the other receives with, at the same position; nothing of what follows the handshake is consumed,
  and the client knows the session id of this handshake.\<close>

theorem handshake_agrees:
  assumes "pqc_doc K I" "Encapsulate K (KemKey I) = Some (ct, ss)" "proto_doc P {make_offer I sid, reply_envelope ct}"
    "transmissible P (make_offer I sid)" "transmissible P (reply_envelope ct)"
    "cipher s = None" "cipher c = None" "arriving (inbound s)" "arriving (inbound c)"
    "TryHandshakeAsync K P (Some I) sid s = (ok, s1)" "ClientHandshakeAsync K P c = (rc, c1)"
    "outbound s @ concat (inbound c) = outbound s1 @ x" "outbound c @ concat (inbound s) = outbound c1 @ y"
  shows "\<exists>k. ok \<and> rc = Inr (k, sid) \<and> linked s1 (UseCipher k c1) \<and> linked (UseCipher k c1) s1 \<and>
    concat (inbound s1) = y \<and> concat (inbound c1) = x"
  using handshake_links [OF assms] by blast

text \<open>A handshake that fails always ends with a typed error: after the offer, if one was made, the server sends an error
  frame with the code of a failed handshake, in the clear.\<close>

theorem handshake_failure_typed:
  assumes "cipher s = None" "TryHandshakeAsync K P I sid s = (False, s1)"
  shows "\<exists>msg. outbound s1 = outbound s @ (case I of None \<Rightarrow> [] | Some i \<Rightarrow> frame_of (ToByteArray P (make_offer i sid))) @
    frame_of (ToByteArray P (ErrorEnvelope '''' ErrorHandshakeFailed msg))"
proof (cases I)
  case None
  with assms show ?thesis
    by (auto simp: TryHandshakeAsync_def TrySendErrorAsync_def WriteEnvelopeAsync_def plain_Write)
next
  case (Some i)
  obtain x s' where x: "ServerHandshakeAsync K P i sid s = (x, s')" by (cases "ServerHandshakeAsync K P i sid s")
  note o = ServerHandshake_sends [OF assms(1) x]
  show ?thesis using x o assms(2) Some
    by (auto simp: TryHandshakeAsync_def TrySendErrorAsync_def WriteEnvelopeAsync_def plain_Write
      split: sum.splits handshake_exn.splits)
qed


text \<open>A request whose envelope has neither id nor body is serialised to no bytes (proto3 omits default values); the server
  takes its frame for a framing error and closes the connection without an answer.\<close>

theorem empty_request_closes:
  assumes "cipher w = None" "cipher s = None" "arriving (inbound s)" "ToByteArray P \<lparr>RequestId = '''', Body = NoBody\<rparr> = []"
    "outbound (WriteEnvelopeAsync K P \<lparr>RequestId = '''', Body = NoBody\<rparr> w) = outbound w @ concat (inbound s)"
  shows "fst (serve K P C answer_of n s) = Silent \<and> outbound (snd (serve K P C answer_of n s)) = outbound s"
proof -
  have "concat (inbound s) = [0, 0, 0, 0]"
    using assms(1,4,5) by (simp add: WriteEnvelopeAsync_def plain_Write frame_of_def eval_nat_numeral)
  then obtain i where "ReadExactAsync 4 (inbound s) = (Some [0, 0, 0, 0], i)" using ReadExact_enough [OF assms(3), of 4] by auto
  then have "ReadFrameAsync (gcm K) s = (Inl InvalidData, s\<lparr>inbound := i\<rparr>)" by (simp add: ReadFrameAsync_def)
  then show ?thesis by (subst (1 2) serve.simps) simp
qed

text \<open>A RAG request whose model throws in the middle of its stream gets the chunks up to the exception, no final chunk and
  no error frame: the connection is closed.\<close>

theorem failed_stream_closes:
  assumes "aes_gcm (gcm K)" "linked w s" "Body e = Rag query" "ending (answer_of query) = Throws message"
    "ParseFrom P (ToByteArray P e) = Some e" "sendable w (ToByteArray P e)"
    "outbound (WriteEnvelopeAsync K P e w) = outbound w @ concat (inbound s)"
  shows "fst (serve K P C answer_of n s) = Silent \<and> outbound (snd (serve K P C answer_of n s)) =
    outbound (fold (\<lambda>t. WriteEnvelopeAsync K P (rag_chunk (RequestId e) t)) (orchestrated (answer_of query)) s) \<and>
    (\<forall>t \<in> set (orchestrated (answer_of query)). \<not> IsFinal t)"
proof -
  have "concat (inbound s) = frame_of (payload_of (gcm K) w (ToByteArray P e)) @ []"
    using assms(7) by (simp add: outbound_WriteEnvelope)
  then obtain s1 where s1: "ReadFrameAsync (gcm K) s = (Inr (Some (ToByteArray P e)), s1)"
    using engine_arrives [OF assms(1,2,6)] by blast
  let ?es = "map (rag_chunk (RequestId e)) (orchestrated (answer_of query))"
  have "serve K P C answer_of n s = (Silent, fold (WriteEnvelopeAsync K P) ?es s1)"
    using s1 assms(3,4,5) by (subst serve.simps) (simp add: Dispatch_eq returns_def responses_def)
  moreover have "same_sender (fold (WriteEnvelopeAsync K P) ?es s1) (fold (WriteEnvelopeAsync K P) ?es s)"
    using same_sender_writes [OF same_sender_Read [OF s1]] .
  moreover have "\<forall>t \<in> set (orchestrated (answer_of query)). \<not> IsFinal t"
    using run_tokens_split [of 0 "fragments (answer_of query)"] assms(4) by (auto simp: orchestrated_def RunAsync_def)
  ultimately show ?thesis by (simp add: same_sender_def fold_map comp_def)
qed

section \<open>The server\<close>

text \<open>\<open>Start\<close> and \<open>Stop\<close> with the listener's port, the posture of the server and its key pairs. \<open>I\<close> and \<open>bound\<close> are what key
  generation and the socket give, \<open>None\<close> for an exception, which the export turns into \<open>Internal\<close>.\<close>

record pb_server =
  listener :: "int option"
  requirePq :: bool
  pqcIdentity :: "identity option"

definition pb_server0 :: pb_server where
  "pb_server0 = \<lparr>listener = None, requirePq = False, pqcIdentity = None\<rparr>"

definition PbStart ::
    "rag_assets \<Rightarrow> identity option \<Rightarrow> int option \<Rightarrow> 32 word \<Rightarrow> pb_server \<times> engine \<Rightarrow> int \<times> pb_server \<times> engine" where
  "PbStart a I bound flags st = (case st of (srv, e) \<Rightarrow>
     (let pq = flags AND 1 \<noteq> 0 in
      case listener srv of
        Some port \<Rightarrow> (if pq \<noteq> requirePq srv then InvalidArgument else port, srv, e)
      | None \<Rightarrow>
         (let e = Initialize a e; srv = srv\<lparr>requirePq := pq\<rparr>
          in if pq \<and> I = None then (Internal, srv, e)
             else let srv = (if pq then srv\<lparr>pqcIdentity := I\<rparr> else srv)
                  in case bound of None \<Rightarrow> (Internal, srv, e)
                     | Some port \<Rightarrow> (port, srv\<lparr>listener := Some port\<rparr>, e))))"

definition PbStop :: "pb_server \<times> engine \<Rightarrow> pb_server \<times> engine" where
  "PbStop st = (case st of (srv, e) \<Rightarrow> (srv\<lparr>listener := None, pqcIdentity := None\<rparr>, e))"

inductive pb_reach :: "pb_server \<times> engine \<Rightarrow> bool" where
  init: "pb_reach (pb_server0, e)"
| started: "pb_reach st \<Longrightarrow> PbStart a I bound flags st = (r, st') \<Longrightarrow> pb_reach st'"
| stopped: "pb_reach st \<Longrightarrow> pb_reach (PbStop st)"

text \<open>A running server that requires the handshake has its key pairs. Starting a running server again returns its port if
  the posture is the same, refuses otherwise and changes nothing in either case.\<close>

theorem pb_start_contract:
  assumes "pb_reach (srv, e)" "listener srv = Some port"
  shows "(requirePq srv \<longrightarrow> pqcIdentity srv \<noteq> None) \<and>
    PbStart a I bound flags (srv, e) = (if (flags AND 1 \<noteq> 0) = requirePq srv then port else InvalidArgument, srv, e)"
proof -
  have "listener (fst st) \<noteq> None \<longrightarrow> requirePq (fst st) \<longrightarrow> pqcIdentity (fst st) \<noteq> None" if "pb_reach st" for st
    using that
    by (induction rule: pb_reach.induct)
      (auto simp: pb_server0_def PbStart_def PbStop_def Let_def split: option.splits if_splits prod.splits)
  from this [OF assms(1)] assms(2) show ?thesis by (auto simp: PbStart_def)
qed

section \<open>Witnesses\<close>

definition demo_crypto :: crypto where
  "demo_crypto = \<lparr>gcm = demo_aead, hkdf = (\<lambda>ss n salt info. [hd (ss @ [0]), hd (drop 7 info @ [0])]),
     Verify = (\<lambda>pk m sig. sig = m), Encapsulate = (\<lambda>pk. Some ([5], [6]))\<rparr>"

definition demo_identity :: identity where
  "demo_identity = \<lparr>KemKey = [1], SigKey = [2], Sign = (\<lambda>m. m), Decapsulate = (\<lambda>ct. if ct = [5] then Some [6] else None)\<rparr>"

definition demo_catalog :: catalog where
  "demo_catalog = \<lparr>Demos = [\<lparr>feat_Id = ''ping'', feat_Title = ''p'', feat_Version = ''1'', feat_Code = ''c'', Execute = (\<lambda>n. Inr ''pong'')\<rparr>],
     IsCommand = (\<lambda>i. False), RunCommand = (\<lambda>i. \<lparr>run_Id = i, run_Result = '''', run_ElapsedMs = 0, run_Ok = True\<rparr>), Elapsed = 0\<rparr>"

definition demo_ping :: Envelope where
  "demo_ping = \<lparr>RequestId = ''7'', Body = Ping\<rparr>"

definition demo_proto :: proto where
  "demo_proto = \<lparr>
     ToByteArray = (\<lambda>e. case Body e of HandshakeOffer off \<Rightarrow> [1] | HandshakeReply ct \<Rightarrow> [2] | Ping \<Rightarrow> [3] | NoBody \<Rightarrow> [] | _ \<Rightarrow> [4, 4]),
     ParseFrom = (\<lambda>bs. if bs = [1] then Some (make_offer demo_identity [9]) else if bs = [2] then Some (reply_envelope [5])
       else if bs = [3] then Some demo_ping else None)\<rparr>"

definition demo_rag :: "string \<Rightarrow> model_run" where
  "demo_rag query = \<lparr>fragments = [''a''], ending = Throws ''x''\<rparr>"

lemmas demo_pb = demo_crypto_def demo_identity_def demo_proto_def demo_ping_def

lemma demo_docs: "pqc_doc demo_crypto demo_identity" "Encapsulate demo_crypto (KemKey demo_identity) = Some ([5], [6])"
  "proto_doc demo_proto ({make_offer demo_identity [9], reply_envelope [5]} \<union> set [demo_ping])"
  "transmissible demo_proto (make_offer demo_identity [9])" "transmissible demo_proto (reply_envelope [5])"
  by (simp_all add: pqc_doc_def proto_doc_def transmissible_def demo_pb make_offer_def reply_envelope_def MaxFrameBytes_def)

lemma demo_keys: "DeriveKeys demo_crypto [6] [5] [9] = ([6, 99], [6, 115])"
  by code_simp

text \<open>The client's bytes: the reply to the offer and an encrypted ping; the server's: the offer and the encrypted answer.\<close>

definition demo_client :: connection where
  "demo_client = \<lparr>cipher = None, inbound = [frame_of [1], frame_of (fst (EncryptOutbound demo_aead [4, 4] (new_cipher [6, 115] [6, 99])))],
     outbound = []\<rparr>"

definition demo_server :: connection where
  "demo_server = \<lparr>cipher = None, inbound = [frame_of [2], frame_of (fst (EncryptOutbound demo_aead [3] (new_cipher [6, 99] [6, 115])))],
     outbound = []\<rparr>"

lemma frame_of_Nil: "frame_of p \<noteq> []"
  by (simp add: frame_of_def eval_nat_numeral)

lemma demo_plain: "cipher demo_server = None" "cipher demo_client = None" "outbound demo_server = []" "outbound demo_client = []"
  "arriving (inbound demo_server)" "arriving (inbound demo_client)"
  using frame_of_Nil [symmetric] by (auto simp: arriving_def demo_client_def demo_server_def)

lemma demo_bytes: "ToByteArray demo_proto (make_offer demo_identity [9]) = [1]" "ToByteArray demo_proto (reply_envelope [5]) = [2]"
  "ToByteArray demo_proto demo_ping = [3]"
  by (simp_all add: demo_pb make_offer_def reply_envelope_def)

lemma demo_client_done:
  "\<exists>i. ClientHandshakeAsync demo_crypto demo_proto demo_client =
     (Inr (new_cipher [6, 99] [6, 115], [9]), demo_client\<lparr>inbound := i, outbound := frame_of [2]\<rparr>)"
proof -
  have "proto_doc demo_proto {make_offer demo_identity [9]}" using demo_docs(3) by (simp add: proto_doc_def)
  from client_handshake [OF this demo_docs(1) demo_plain(2,6) demo_docs(4)] show ?thesis
    using demo_docs(2) by (auto simp: demo_bytes demo_keys demo_plain(4) demo_client_def)
qed

lemma demo_server_done:
  "\<exists>i. TryHandshakeAsync demo_crypto demo_proto (Some demo_identity) [9] demo_server =
     (True, demo_server\<lparr>cipher := Some (new_cipher [6, 115] [6, 99]), inbound := i, outbound := frame_of [1]\<rparr>) \<and>
     arriving i \<and> concat i = frame_of (fst (EncryptOutbound demo_aead [3] (new_cipher [6, 99] [6, 115])))"
proof -
  have "proto_doc demo_proto {reply_envelope [5]}" "Decapsulate demo_identity [5] = Some [6]"
    using demo_docs(3) by (simp_all add: proto_doc_def demo_identity_def)
  from server_handshake [OF this(1) demo_plain(1,5) demo_docs(5) this(2), of _ demo_crypto "[9]"] show ?thesis
    by (auto simp: demo_bytes demo_keys demo_plain TryHandshakeAsync_def UseCipher_def demo_server_def)
qed

theorem handshake_agrees_witness:
  "\<exists>s c. TryHandshakeAsync demo_crypto demo_proto (Some demo_identity) [9] demo_server = (True, s) \<and>
     fst (ClientHandshakeAsync demo_crypto demo_proto demo_client) = Inr (c, [9]) \<and>
     linked s (UseCipher c (snd (ClientHandshakeAsync demo_crypto demo_proto demo_client)))"
proof -
  obtain i where i: "ClientHandshakeAsync demo_crypto demo_proto demo_client =
     (Inr (new_cipher [6, 99] [6, 115], [9]), demo_client\<lparr>inbound := i, outbound := frame_of [2]\<rparr>)" using demo_client_done by blast
  obtain j where j: "TryHandshakeAsync demo_crypto demo_proto (Some demo_identity) [9] demo_server =
     (True, demo_server\<lparr>cipher := Some (new_cipher [6, 115] [6, 99]), inbound := j, outbound := frame_of [1]\<rparr>)"
    using demo_server_done by blast
  have "proto_doc demo_proto {make_offer demo_identity [9], reply_envelope [5]}" using demo_docs(3) by (simp add: proto_doc_def)
  from handshake_agrees [OF demo_docs(1,2) this demo_docs(4,5) demo_plain(1,2,5,6) j i, of
      "frame_of (fst (EncryptOutbound demo_aead [4, 4] (new_cipher [6, 115] [6, 99])))"
      "frame_of (fst (EncryptOutbound demo_aead [3] (new_cipher [6, 99] [6, 115])))"]
  show ?thesis using i j by (auto simp: demo_client_def demo_server_def)
qed

theorem handshake_failure_typed_witness:
  "\<exists>msg. outbound (snd (TryHandshakeAsync demo_crypto demo_proto None [9] demo_server)) =
    frame_of (ToByteArray demo_proto (ErrorEnvelope '''' ErrorHandshakeFailed msg))"
  using handshake_failure_typed [OF demo_plain(1), of demo_crypto demo_proto None "[9]"]
  by (auto simp: TryHandshakeAsync_def demo_plain(3))

theorem empty_request_closes_witness:
  "fst (serve demo_crypto demo_proto demo_catalog demo_rag 0 \<lparr>cipher = None, inbound = [[0, 0], [0, 0]], outbound = []\<rparr>) = Silent"
  using empty_request_closes [of "\<lparr>cipher = None, inbound = [], outbound = []\<rparr>" "\<lparr>cipher = None, inbound = [[0, 0], [0, 0]], outbound = []\<rparr>"
      demo_proto demo_crypto demo_catalog demo_rag 0]
  by (simp add: arriving_def demo_proto_def WriteEnvelopeAsync_def plain_Write frame_of_def eval_nat_numeral)

lemma demo_frame: "frame_of [7] = [1, 0, 0, 0, 7]"
  by code_simp

theorem failed_stream_closes_witness:
  "fst (serve (demo_crypto) \<lparr>ToByteArray = (\<lambda>e. [7]), ParseFrom = (\<lambda>b. Some \<lparr>RequestId = ''1'', Body = Rag ''q''\<rparr>)\<rparr> demo_catalog demo_rag 0
     \<lparr>cipher = None, inbound = [[1, 0, 0, 0, 7]], outbound = []\<rparr>) = Silent"
  using failed_stream_closes [of demo_crypto "\<lparr>cipher = None, inbound = [], outbound = []\<rparr>"
      "\<lparr>cipher = None, inbound = [[1, 0, 0, 0, 7]], outbound = []\<rparr>" "\<lparr>RequestId = ''1'', Body = Rag ''q''\<rparr>" "''q''" demo_rag "''x''"
      "\<lparr>ToByteArray = (\<lambda>e. [7]), ParseFrom = (\<lambda>b. Some \<lparr>RequestId = ''1'', Body = Rag ''q''\<rparr>)\<rparr>" demo_catalog 0] demo_aes_gcm demo_frame
  by (simp add: demo_crypto_def arriving_def linked_def mirrored_def sendable_def MaxFrameBytes_def demo_rag_def
    WriteEnvelopeAsync_def plain_Write)

theorem pb_start_contract_witness:
  "\<exists>srv. pb_reach (srv, Initialize \<lparr>gguf = False, llama_handle = None, search_built = False\<rparr> engine0) \<and> listener srv = Some 5000 \<and>
     fst (PbStart \<lparr>gguf = False, llama_handle = None, search_built = False\<rparr> None None 1
       (srv, Initialize \<lparr>gguf = False, llama_handle = None, search_built = False\<rparr> engine0)) = InvalidArgument"
proof -
  let ?a = "\<lparr>gguf = False, llama_handle = None, search_built = False\<rparr>"
  let ?srv = "\<lparr>listener = Some 5000, requirePq = False, pqcIdentity = None\<rparr>"
  have "PbStart ?a None (Some 5000) 0 (pb_server0, engine0) = (5000, ?srv, Initialize ?a engine0)"
    by (simp add: PbStart_def pb_server0_def)
  from pb_reach.started [OF pb_reach.init this] have r: "pb_reach (?srv, Initialize ?a engine0)" .
  show ?thesis using pb_start_contract [OF r, of 5000 ?a None None 1] r by (intro exI [of _ ?srv]) simp
qed

lemma demo_replies: "\<exists>r. replies demo_catalog demo_rag 0 [demo_ping] = [r] \<and> ToByteArray demo_proto r = [4, 4]"
  by (simp add: responses_def demo_ping_def demo_proto_def)

lemma demo_served:
  assumes "arriving i" "concat i = frame_of (fst (EncryptOutbound demo_aead [3] (new_cipher [6, 99] [6, 115])))"
  shows "\<exists>s'. serve demo_crypto demo_proto demo_catalog demo_rag 0
      (demo_server\<lparr>cipher := Some (new_cipher [6, 115] [6, 99]), inbound := i, outbound := frame_of [1]\<rparr>) = (Eof, s') \<and>
    outbound s' = frame_of [1] @ frame_of (fst (EncryptOutbound demo_aead [4, 4] (new_cipher [6, 115] [6, 99])))"
proof -
  let ?s = "demo_server\<lparr>cipher := Some (new_cipher [6, 115] [6, 99]), inbound := i, outbound := frame_of [1]\<rparr>"
  let ?w = "\<lparr>cipher = Some (new_cipher [6, 99] [6, 115]), inbound = [], outbound = []\<rparr>"
  obtain r where r: "replies demo_catalog demo_rag 0 [demo_ping] = [r]" "ToByteArray demo_proto r = [4, 4]" using demo_replies by blast
  have g: "gcm demo_crypto = demo_aead" by (simp add: demo_crypto_def)
  have "proto_doc demo_proto (set [demo_ping])" using demo_docs(3) by (simp add: proto_doc_def)
  moreover have "linked ?w ?s" using assms(1) by (simp add: linked_def mirrored_def new_cipher_def)
  moreover have "\<forall>e \<in> set [demo_ping]. sendable ?w (ToByteArray demo_proto e) \<and> returns demo_rag e"
    by (simp add: sendable_def returns_def demo_bytes demo_ping_def MaxFrameBytes_def TagBytes_def)
      (simp add: demo_proto_def)
  moreover have "outbound (fold (WriteEnvelopeAsync demo_crypto demo_proto) [demo_ping] ?w) = outbound ?w @ concat (inbound ?s)"
    by (simp add: outbound_WriteEnvelope payload_of_def demo_bytes g assms(2))
  ultimately obtain s' where "serve demo_crypto demo_proto demo_catalog demo_rag 0 ?s = (Eof, s')"
    "same_sender s' (fold (WriteEnvelopeAsync demo_crypto demo_proto) [r] ?s)"
    using serve_requests [of demo_crypto demo_proto "[demo_ping]" ?w ?s demo_rag demo_catalog 0] demo_aes_gcm r(1) by (auto simp: g)
  then show ?thesis by (simp add: same_sender_def outbound_WriteEnvelope payload_of_def r(2) g)
qed


end
