(* ===== verification/Sqlite_Store.thy ===== *)
theory Sqlite_Store
  imports Pb_Server
begin

text \<open>
  The encrypted stores of the SQLite transport, \<^verbatim>\<open>src/core/DotnetNativeInterop.NativeBridge/Sqlite/FeatureSqlite.cs\<close> and
  \<^verbatim>\<open>RagSqlite.cs\<close>: the feature catalog, its runs and the grounded answers are written to a table and read back before
  they are returned. All three tables are written by an insert that updates on a conflict of the key; the contract of
  that statement is a locale, interpreted for each of them. The theorems: the exports return what the catalog and the
  model gave, whatever the database held before; on an empty database the catalog is that of the protobuf server, and on
  an older one the features that were removed are still listed.
\<close>

section \<open>Insert or update\<close>

definition upsert :: "('r \<Rightarrow> 'k) \<Rightarrow> 'r \<Rightarrow> 'r list \<Rightarrow> 'r list" where
  "upsert key r rows = (if \<exists>x \<in> set rows. key x = key r then map (\<lambda>x. if key x = key r then r else x) rows else rows @ [r])"

text \<open>The contract: a key reads as what was written last.\<close>

locale upsert_table =
  fixes key :: "'r \<Rightarrow> 'k" and put :: "'r \<Rightarrow> 't \<Rightarrow> 't" and get :: "'k \<Rightarrow> 't \<Rightarrow> 'r option"
  assumes get_put: "get k (put r t) = (if k = key r then Some r else get k t)"
begin

lemma get_puts_other: "k \<notin> key ` set rs \<Longrightarrow> get k (fold put rs t) = get k t"
  by (induction rs arbitrary: t) (auto simp: get_put)

lemma get_puts: "distinct (map key rs) \<Longrightarrow> r \<in> set rs \<Longrightarrow> get (key r) (fold put rs t) = Some r"
proof (induction rs arbitrary: t)
  case (Cons x rs)
  then show ?case
  proof (cases "r = x")
    case True
    then show ?thesis using Cons.prems get_puts_other [of "key x" rs] by (simp add: get_put)
  qed simp
qed simp

end

lemma find_upsert: "find (\<lambda>x. key x = k) (upsert key r rows) = (if k = key r then Some r else find (\<lambda>x. key x = k) rows)"
proof -
  have "find (\<lambda>x. key x = k) (map (\<lambda>x. if key x = key r then r else x) rows) =
      (if k = key r then (if \<exists>x \<in> set rows. key x = k then Some r else None) else find (\<lambda>x. key x = k) rows)"
    by (induction rows) auto
  moreover have "find (\<lambda>x. key x = k) rows = None" if "\<not> (\<exists>x \<in> set rows. key x = k)" using that by (simp add: find_None_iff)
  moreover have "find P (xs @ [y]) = (case find P xs of None \<Rightarrow> if P y then Some y else None | Some z \<Rightarrow> Some z)" for P y and xs :: "'a list"
    by (induction xs) auto
  ultimately show ?thesis by (auto simp: upsert_def split: option.split)
qed

section \<open>The feature store\<close>

record run_row =
  rr_id :: string
  rr_result :: string
  rr_elapsed_ms :: "64 word"
  rr_ok :: int
  rr_created :: string

record feature_store =
  features :: "FeatureDescriptor list"
  feature_runs :: "run_row list"
  store_open :: bool

text \<open>Whether opening the database, a write and a read succeed.\<close>

record sql_luck =
  opens :: bool
  writes :: bool
  reads :: bool

definition Seed :: "catalog \<Rightarrow> FeatureDescriptor list \<Rightarrow> FeatureDescriptor list" where
  "Seed C rows = fold (upsert desc_Id) (Descriptors (Demos C)) rows"

definition EnsureConnection :: "sql_luck \<Rightarrow> catalog \<Rightarrow> feature_store \<Rightarrow> feature_store option" where
  "EnsureConnection L C s = (if store_open s then Some s
     else if opens L then Some (s\<lparr>features := Seed C (features s), store_open := True\<rparr>) else None)"

definition ReadDescriptors :: "feature_store \<Rightarrow> FeatureDescriptor list" where
  "ReadDescriptors s = features s"

definition run_to_row :: "FeatureRun \<Rightarrow> string \<Rightarrow> run_row" where
  "run_to_row fr now = \<lparr>rr_id = run_Id fr, rr_result = run_Result fr, rr_elapsed_ms = run_ElapsedMs fr,
     rr_ok = (if run_Ok fr then 1 else 0), rr_created = now\<rparr>"

definition row_to_run :: "run_row \<Rightarrow> FeatureRun" where
  "row_to_run r = \<lparr>run_Id = rr_id r, run_Result = rr_result r, run_ElapsedMs = rr_elapsed_ms r, run_Ok = rr_ok r \<noteq> 0\<rparr>"

definition WriteRun :: "FeatureRun \<Rightarrow> string \<Rightarrow> feature_store \<Rightarrow> feature_store" where
  "WriteRun fr now s = s\<lparr>feature_runs := upsert rr_id (run_to_row fr now) (feature_runs s)\<rparr>"

definition ReadRun :: "string \<Rightarrow> feature_store \<Rightarrow> FeatureRun option" where
  "ReadRun i s = map_option row_to_run (find (\<lambda>r. rr_id r = i) (feature_runs s))"

text \<open>The exports; \<open>None\<close> stands for the null string they return on any exception.\<close>

definition sqlite_Features :: "sql_luck \<Rightarrow> catalog \<Rightarrow> feature_store \<Rightarrow> FeatureDescriptor list option \<times> feature_store" where
  "sqlite_Features L C s = (case EnsureConnection L C s of None \<Rightarrow> (None, s)
     | Some s \<Rightarrow> (if reads L then Some (ReadDescriptors s) else None, s))"

definition sqlite_Run :: "sql_luck \<Rightarrow> catalog \<Rightarrow> nat \<Rightarrow> string \<Rightarrow> string \<Rightarrow> feature_store \<Rightarrow> FeatureRun option \<times> feature_store" where
  "sqlite_Run L C n now i s = (case EnsureConnection L C s of None \<Rightarrow> (None, s)
     | Some s \<Rightarrow> (let fr = catalog_Run C n i in
         if \<not> writes L then (None, s)
         else let s = WriteRun fr now s in
           if \<not> reads L then (None, s)
           else (Some (case ReadRun i s of Some stored \<Rightarrow> stored | None \<Rightarrow> fr), s)))"

section \<open>The answer store\<close>

record answer_row =
  ans_query :: string
  ans_answer :: string
  ans_created :: string

record rag_store =
  rag_answers :: "answer_row list"
  rag_open :: bool

text \<open>\<open>GenerateFull\<close> appends the tokens but the final one; the exception of the model ends it.\<close>

definition GenerateFull :: "model_run \<Rightarrow> string + string" where
  "GenerateFull m = (case ending m of Throws e \<Rightarrow> Inl e
     | Completes \<Rightarrow> Inr (concat (map Text (filter (\<lambda>t. \<not> IsFinal t) (orchestrated m)))))"

definition WriteAnswer :: "string \<Rightarrow> string \<Rightarrow> string \<Rightarrow> rag_store \<Rightarrow> rag_store" where
  "WriteAnswer q a now s = s\<lparr>rag_answers := upsert ans_query \<lparr>ans_query = q, ans_answer = a, ans_created = now\<rparr> (rag_answers s)\<rparr>"

definition ReadAnswer :: "string \<Rightarrow> rag_store \<Rightarrow> string option" where
  "ReadAnswer q s = map_option ans_answer (find (\<lambda>r. ans_query r = q) (rag_answers s))"

definition sqlite_Rag :: "sql_luck \<Rightarrow> model_run \<Rightarrow> string \<Rightarrow> string \<Rightarrow> rag_store \<Rightarrow> string option \<times> rag_store" where
  "sqlite_Rag L m now q s =
     (if \<not> rag_open s \<and> \<not> opens L then (None, s)
      else let s = s\<lparr>rag_open := True\<rparr> in
        case GenerateFull m of Inl e \<Rightarrow> (None, s)
        | Inr answer \<Rightarrow>
           if \<not> writes L then (None, s)
           else let s = WriteAnswer q answer now s in
             if \<not> reads L then (None, s)
             else (Some (case ReadAnswer q s of Some stored \<Rightarrow> stored | None \<Rightarrow> answer), s))"

interpretation feature_table: upsert_table desc_Id "upsert desc_Id" "\<lambda>k. find (\<lambda>x. desc_Id x = k)"
  by unfold_locales (rule find_upsert)

interpretation run_table: upsert_table run_Id "\<lambda>fr. WriteRun fr now" ReadRun for now
  by unfold_locales (simp add: ReadRun_def WriteRun_def find_upsert run_to_row_def row_to_run_def)

interpretation answer_table: upsert_table fst "\<lambda>(q, a). WriteAnswer q a now" "\<lambda>q s. map_option (Pair q) (ReadAnswer q s)" for now
  by unfold_locales (auto simp: ReadAnswer_def WriteAnswer_def find_upsert)

section \<open>Round trips\<close>

lemma catalog_Run_Id:
  assumes "\<And>i. IsCommand C i \<Longrightarrow> run_Id (RunCommand C i) = i"
  shows "run_Id (catalog_Run C n i) = i"
  using assms by (auto simp: catalog_Run_def Let_def split: option.split sum.split)

text \<open>A run through the encrypted store. When the statements succeed, the export returns exactly the run of the
  catalog, the one the protobuf server puts into its reply, whatever the database held before; the run is what a later
  read finds, and the runs of other ids are untouched.\<close>

theorem sqlite_run_exact:
  assumes "\<And>i. IsCommand C i \<Longrightarrow> run_Id (RunCommand C i) = i" "store_open s \<or> opens L" "writes L" "reads L"
  shows "fst (sqlite_Run L C n now i s) = Some (catalog_Run C n i) \<and>
    RunToEnvelope C n requestId i = \<lparr>RequestId = requestId, Body = RunResponse (the (fst (sqlite_Run L C n now i s)))\<rparr> \<and>
    (\<forall>j. ReadRun j (snd (sqlite_Run L C n now i s)) = (if j = i then Some (catalog_Run C n i) else ReadRun j s))"
proof -
  obtain s' where s': "EnsureConnection L C s = Some s'" "feature_runs s' = feature_runs s"
    using assms(2) by (cases "store_open s") (auto simp: EnsureConnection_def)
  have "ReadRun j s' = ReadRun j s" for j using s'(2) by (simp add: ReadRun_def)
  then show ?thesis using assms(3,4) s'(1) catalog_Run_Id [OF assms(1), of n i]
    by (simp add: sqlite_Run_def Let_def run_table.get_put RunToEnvelope_def)
qed

text \<open>Seeding keeps the rows whose id the catalog does not have, and brings every other up to date.\<close>

lemma set_upsert: "set (upsert key r rows) = insert r {x \<in> set rows. key x \<noteq> key r}"
  by (auto simp: upsert_def)

lemma distinct_upsert: "distinct (map key rows) \<Longrightarrow> distinct (map key (upsert key r rows))"
proof -
  assume d: "distinct (map key rows)"
  have "map (key \<circ> (\<lambda>x. if key x = key r then r else x)) rows = map key rows" by simp
  then show ?thesis using d by (auto simp: upsert_def simp del: map_eq_conv)
qed

lemma fold_upsert:
  "distinct (map key rows) \<Longrightarrow> distinct (map key rs) \<Longrightarrow>
   distinct (map key (fold (upsert key) rs rows)) \<and>
   set (fold (upsert key) rs rows) = set rs \<union> {x \<in> set rows. key x \<notin> key ` set rs}"
proof (induction rs arbitrary: rows)
  case (Cons r rs)
  have "set (fold (upsert key) rs (upsert key r rows)) = set rs \<union> {x \<in> set (upsert key r rows). key x \<notin> key ` set rs}"
    "distinct (map key (fold (upsert key) rs (upsert key r rows)))"
    using Cons.IH [OF distinct_upsert [OF Cons.prems(1)]] Cons.prems(2) by simp_all
  then show ?case using Cons.prems by (auto simp: set_upsert)
qed simp

lemma fold_upsert_fresh:
  "distinct (map key (rows @ rs)) \<Longrightarrow> fold (upsert key) rs rows = rows @ rs"
proof (induction rs arbitrary: rows)
  case (Cons r rs)
  then have "key r \<notin> key ` set rows" by auto
  then have "\<not> (\<exists>x \<in> set rows. key x = key r)" by (metis imageI)
  then have "upsert key r rows = rows @ [r]" by (simp add: upsert_def)
  then show ?case using Cons by simp
qed simp

text \<open>The catalog through the encrypted store. On an empty database the export returns exactly the descriptors of the
  catalog. On one that an earlier version of the program wrote it returns those of the catalog and in addition every
  old row whose id is no longer in it.\<close>

theorem sqlite_features_rows:
  assumes "distinct (map feat_Id (Demos C))" "distinct (map desc_Id (features s))" "\<not> store_open s" "opens L" "reads L"
  shows "\<exists>rows. fst (sqlite_Features L C s) = Some rows \<and> distinct (map desc_Id rows) \<and>
    set rows = set (Descriptors (Demos C)) \<union> {x \<in> set (features s). desc_Id x \<notin> feat_Id ` set (Demos C)} \<and>
    (features s = [] \<longrightarrow> rows = Descriptors (Demos C))"
proof -
  have ids: "map desc_Id (Descriptors (Demos C)) = map feat_Id (Demos C)" by (simp add: Descriptors_def)
  then have d: "distinct (map desc_Id (Descriptors (Demos C)))" using assms(1) by simp
  have "desc_Id ` set (Descriptors (Demos C)) = feat_Id ` set (Demos C)" using ids by (metis list.set_map)
  moreover have "Seed C [] = Descriptors (Demos C)" using fold_upsert_fresh [of desc_Id "[]"] d by (simp add: Seed_def)
  moreover have "fst (sqlite_Features L C s) = Some (Seed C (features s))"
    using assms(3-5) by (simp add: sqlite_Features_def EnsureConnection_def ReadDescriptors_def)
  ultimately show ?thesis using fold_upsert [OF assms(2) d] by (auto simp: Seed_def)
qed

text \<open>The answer of the model is returned and stored.\<close>

lemma run_tokens_texts: "concat (map Text (filter (\<lambda>t. \<not> IsFinal t) (run_tokens i fs))) = concat fs"
  by (induction fs arbitrary: i) (simp_all add: Final_def)

theorem sqlite_rag_exact:
  assumes "rag_open s \<or> opens L" "writes L" "reads L"
  shows "sqlite_Rag L m now q s = (case ending m of Throws e \<Rightarrow> (None, s\<lparr>rag_open := True\<rparr>)
    | Completes \<Rightarrow> (Some (concat (fragments m)), WriteAnswer q (concat (fragments m)) now (s\<lparr>rag_open := True\<rparr>)))"
proof -
  have "ReadAnswer q (WriteAnswer q a now s) = Some a" for a s
    using answer_table.get_put [where k = q and r = "(q, a)" and t = s] by auto
  then show ?thesis using assms run_tokens_texts [of 0 "fragments m"]
    by (auto simp: sqlite_Rag_def GenerateFull_def orchestrated_def RunAsync_def Let_def split: model_end.split)
qed

section \<open>Witnesses\<close>

definition demo_catalog :: catalog where
  "demo_catalog = \<lparr>Demos = [\<lparr>feat_Id = ''a'', feat_Title = ''t'', feat_Version = ''v'', feat_Code = ''c'', Execute = (\<lambda>_. Inr ''x'')\<rparr>],
     IsCommand = (\<lambda>_. False), RunCommand = (\<lambda>i. \<lparr>run_Id = i, run_Result = ''r'', run_ElapsedMs = 0, run_Ok = True\<rparr>), Elapsed = 1\<rparr>"

definition old_store :: feature_store where
  "old_store = \<lparr>features = [\<lparr>desc_Id = ''gone'', desc_Title = ''t'', desc_Version = ''v'', desc_Code = ''c'', desc_Expected = ''x''\<rparr>],
     feature_runs = [], store_open = False\<rparr>"

definition all_well :: sql_luck where
  "all_well = \<lparr>opens = True, writes = True, reads = True\<rparr>"

theorem sqlite_run_exact_witness:
  "fst (sqlite_Run all_well demo_catalog 1 ''now'' ''a'' old_store) =
     Some \<lparr>run_Id = ''a'', run_Result = ''x'', run_ElapsedMs = 1, run_Ok = True\<rparr>"
  using sqlite_run_exact [of demo_catalog old_store all_well 1 "''now''" "''a''" "''r''"]
  by (simp add: demo_catalog_def all_well_def catalog_Run_def Descriptors_def Safe_def)

theorem sqlite_features_rows_witness:
  "\<exists>rows. fst (sqlite_Features all_well demo_catalog old_store) = Some rows \<and> ''gone'' \<in> desc_Id ` set rows"
proof -
  let ?x = "hd (features old_store)"
  have h: "distinct (map feat_Id (Demos demo_catalog))" "distinct (map desc_Id (features old_store))"
    "\<not> store_open old_store" "opens all_well" "reads all_well"
    by (simp_all add: demo_catalog_def old_store_def all_well_def)
  obtain rows where r: "fst (sqlite_Features all_well demo_catalog old_store) = Some rows"
    "set rows = set (Descriptors (Demos demo_catalog)) \<union>
      {x \<in> set (features old_store). desc_Id x \<notin> feat_Id ` set (Demos demo_catalog)}"
    using sqlite_features_rows [OF h] by blast
  have "?x \<in> set rows" unfolding r(2) by (simp add: old_store_def demo_catalog_def)
  moreover have "desc_Id ?x = ''gone''" by (simp add: old_store_def)
  ultimately show ?thesis using r(1) by force
qed

theorem sqlite_rag_exact_witness:
  "fst (sqlite_Rag all_well demo_model ''now'' ''q'' \<lparr>rag_answers = [], rag_open = False\<rparr>) = Some ''a''"
  using sqlite_rag_exact [of "\<lparr>rag_answers = [], rag_open = False\<rparr>" all_well demo_model "''now''" "''q''"]
  by (simp add: all_well_def demo_model_def)

end
