(* ===== verification/Jni_Bridge.thy ===== *)
theory Jni_Bridge
  imports Dni_Abi
begin

text \<open>
  The Android JNI shim, \<^verbatim>\<open>src/android/app/src/main/cpp/jni_bridge.c\<close>, function by function in the
  order of the file: thread attachment with its thread-local destructor, the streaming callbacks and
  the heap cell they own, the string helpers, every native method, the \<open>RegisterNatives\<close> table and
  \<open>JNI_OnLoad\<close>. The Java VM, the dni library, \<open>malloc\<close>'s choice of address and the Android log are
  the external library; the shim's own globals and the cells it allocates are its state.
\<close>

section \<open>What the shim calls\<close>

datatype jvalue = JInt int | JLong int | JFloat "32 word" | JBool bool | JRef ref

datatype native_fn =
    fn_j_initialize | fn_j_shutdown | fn_j_session_start | fn_j_rag_session_start
  | fn_j_agent_session_start | fn_j_session_cancel | fn_j_session_free | fn_j_http_start
  | fn_j_http_stop | fn_j_pb_start | fn_j_pb_stop | fn_j_trace_drain | fn_j_log_drain
  | fn_j_broker_start | fn_j_broker_stop | fn_j_features_json | fn_j_feature_run
  | fn_j_sqlite_features | fn_j_sqlite_run | fn_j_engine_stats | fn_j_search
  | fn_j_set_assets_dir | fn_j_sqlite_rag | fn_j_sqlite_probe | fn_j_llama_probe
  | fn_j_ffi_echo | fn_j_ffi_throw | fn_j_ffi_stream_start

record JNINativeMethod =
  nm_name :: string
  nm_signature :: string
  nm_fnPtr :: native_fn

text \<open>
  One constructor per function of the JNI invocation interface, of \<open>JNIEnv\<close>, of libc and of the
  Android log that the file calls, and \<open>Dni\<close> for the ABI. The calls that depend on the calling
  thread carry its number.
\<close>

datatype jni_call =
    GetEnv nat
  | AttachCurrentThread nat string
  | DetachCurrentThread nat
  | NewStringUTF string
  | GetStringUTFChars ref
  | ReleaseStringUTFChars ref char_ptr
  | GetObjectClass ref
  | GetMethodID ref string string
  | CallVoidMethod ref ref "jvalue list"
  | NewGlobalRef ref
  | DeleteGlobalRef ref
  | DeleteLocalRef ref
  | ExceptionCheck
  | ExceptionDescribe
  | ExceptionClear
  | FindClass string
  | RegisterNatives ref "JNINativeMethod list"
  | Malloc
  | Free addr
  | LogE string
  | LogD nat
  | Dni dni_call

text \<open>An answer: the reference or address, the integer and the C string the call yields.\<close>

record jni_reply =
  r_ref :: ref
  r_int :: int
  r_str :: char_ptr

definition JNI_OK :: int where "JNI_OK = 0"
definition JNI_ERR :: int where "JNI_ERR = -1"
definition JNI_EDETACHED :: int where "JNI_EDETACHED = -2"
definition JNI_VERSION_1_6 :: int where "JNI_VERSION_1_6 = 65542"

lemmas jni_const_defs = JNI_OK_def JNI_ERR_def JNI_EDETACHED_def JNI_VERSION_1_6_def

section \<open>The shim's state\<close>

record CallbackState =
  listener_ref :: ref
  on_token :: ref

record TraceCallbackState =
  trace_listener_ref :: ref
  on_trace :: ref

datatype c_cell = Uninit | TokenCell CallbackState | TraceCell TraceCallbackState

record 's shim = "('s, jni_call, jni_reply) world" +
  g_jvm :: ref
  tls_key_created :: bool
  tls_value :: "nat \<Rightarrow> ref"
  cur_thread :: nat
  heap :: "addr \<rightharpoonup> c_cell"
  ub :: bool

type_synonym ('s, 'a) jni = "('s shim, 'a) state"
type_synonym 's jvm = "('s, jni_call, jni_reply) extern"

text \<open>
  \<open>ub\<close> records an access to memory that is not a live cell of the expected type (C's undefined
  behaviour): reading through a dangling pointer, or freeing one.
\<close>

definition load_token :: "addr \<Rightarrow> ('s, CallbackState) jni" where
  "load_token a = do {
     c \<leftarrow> gets (\<lambda>w. heap w a);
     (case c of
        Some (TokenCell st) \<Rightarrow> State_Monad.return st
      | _ \<Rightarrow> do { modify (\<lambda>w. w\<lparr>ub := True\<rparr>);
                 State_Monad.return \<lparr>listener_ref = NULL, on_token = NULL\<rparr> }) }"

definition load_trace :: "addr \<Rightarrow> ('s, TraceCallbackState) jni" where
  "load_trace a = do {
     c \<leftarrow> gets (\<lambda>w. heap w a);
     (case c of
        Some (TraceCell st) \<Rightarrow> State_Monad.return st
      | _ \<Rightarrow> do { modify (\<lambda>w. w\<lparr>ub := True\<rparr>);
                 State_Monad.return \<lparr>trace_listener_ref = NULL, on_trace = NULL\<rparr> }) }"

definition store_cell :: "addr \<Rightarrow> c_cell \<Rightarrow> ('s, unit) jni" where
  "store_cell a c = modify (\<lambda>w. if heap w a = None then w\<lparr>ub := True\<rparr> else w\<lparr>heap := (heap w)(a \<mapsto> c)\<rparr>)"

definition c_malloc :: "'s jvm \<Rightarrow> ('s, addr) jni" where
  "c_malloc E = do {
     r \<leftarrow> perform E Malloc;
     when_m (r_ref r \<noteq> NULL) (modify (\<lambda>w. w\<lparr>heap := (heap w)(r_ref r \<mapsto> Uninit)\<rparr>));
     State_Monad.return (r_ref r) }"

definition c_free :: "'s jvm \<Rightarrow> addr \<Rightarrow> ('s, unit) jni" where
  "c_free E a = do {
     performs E (Free a);
     when_m (a \<noteq> NULL)
       (modify (\<lambda>w. if heap w a = None then w\<lparr>ub := True\<rparr> else w\<lparr>heap := (heap w)(a := None)\<rparr>)) }"

section \<open>Threads\<close>

definition tls_destructor :: "'s jvm \<Rightarrow> ref \<Rightarrow> ('s, unit) jni" where
  "tls_destructor E attached = do {
     vm \<leftarrow> gets g_jvm;
     t \<leftarrow> gets cur_thread;
     when_m (attached \<noteq> NULL \<and> vm \<noteq> NULL) (performs E (DetachCurrentThread t)) }"

definition create_tls_key :: "('s, unit) jni" where
  "create_tls_key = modify (\<lambda>w. w\<lparr>tls_key_created := True\<rparr>)"

text \<open>\<open>pthread_once\<close>, \<open>pthread_setspecific\<close> and what pthreads does when a thread exits.\<close>

definition pthread_once_tls :: "('s, unit) jni" where
  "pthread_once_tls = do { c \<leftarrow> gets tls_key_created; when_m (\<not> c) create_tls_key }"

definition pthread_setspecific :: "ref \<Rightarrow> ('s, unit) jni" where
  "pthread_setspecific v = modify (\<lambda>w. w\<lparr>tls_value := (tls_value w)(cur_thread w := v)\<rparr>)"

definition pthread_thread_exit :: "'s jvm \<Rightarrow> ('s, unit) jni" where
  "pthread_thread_exit E = do {
     c \<leftarrow> gets tls_key_created;
     v \<leftarrow> gets (\<lambda>w. tls_value w (cur_thread w));
     when_m (c \<and> v \<noteq> NULL) (do { pthread_setspecific NULL; tls_destructor E v }) }"

definition attach_current_thread :: "'s jvm \<Rightarrow> ('s, ref) jni" where
  "attach_current_thread E = do {
     vm \<leftarrow> gets g_jvm;
     t \<leftarrow> gets cur_thread;
     if vm = NULL then State_Monad.return NULL else do {
     pthread_once_tls;
     res \<leftarrow> perform E (GetEnv t);
     if r_int res = JNI_OK then State_Monad.return (r_ref res)
     else if r_int res = JNI_EDETACHED then do {
       att \<leftarrow> perform E (AttachCurrentThread t ''dotnet-worker'');
       if r_int att \<noteq> JNI_OK then do { performs E (LogE ''attach failed''); State_Monad.return NULL }
       else do { pthread_setspecific 1; State_Monad.return (r_ref att) } }
     else do { performs E (LogE ''GetEnv unexpected''); State_Monad.return NULL } } }"

section \<open>The streaming token callback\<close>

definition c_text :: "char_ptr \<Rightarrow> string" where
  "c_text text = (case text of None \<Rightarrow> '''' | Some (_, b) \<Rightarrow> b)"

definition clear_exception :: "'s jvm \<Rightarrow> ('s, unit) jni" where
  "clear_exception E = do {
     x \<leftarrow> perform E ExceptionCheck;
     when_m (r_int x \<noteq> 0) (do { performs E ExceptionDescribe; performs E ExceptionClear }) }"

definition ffi_token_callback :: "'s jvm \<Rightarrow> addr \<Rightarrow> token_cb_args \<Rightarrow> ('s, unit) jni" where
  "ffi_token_callback E user_data a =
     (if user_data = NULL then State_Monad.return () else do {
      env \<leftarrow> attach_current_thread E;
      if env = NULL then State_Monad.return () else do {
      jtext \<leftarrow> perform E (NewStringUTF (c_text (tok_text a)));
      if r_ref jtext = NULL then State_Monad.return () else do {
      st \<leftarrow> load_token user_data;
      performs E (CallVoidMethod (listener_ref st) (on_token st)
        [JInt (tok_index a), JRef (r_ref jtext), JBool (tok_is_final a \<noteq> 0)]);
      performs E (DeleteLocalRef (r_ref jtext));
      clear_exception E;
      when_m (tok_is_final a \<noteq> 0) (do {
        st' \<leftarrow> load_token user_data;
        performs E (DeleteGlobalRef (listener_ref st'));
        c_free E user_data }) } } })"

section \<open>Helpers\<close>

definition take_native_string :: "'s jvm \<Rightarrow> char_ptr \<Rightarrow> ('s, ref) jni" where
  "take_native_string E s = (case s of
     None \<Rightarrow> State_Monad.return NULL
   | Some (a, b) \<Rightarrow> do {
       js \<leftarrow> perform E (NewStringUTF b);
       performs E (Dni (dni_string_free a));
       State_Monad.return (r_ref js) })"

definition start_streaming :: "'s jvm \<Rightarrow> ref \<Rightarrow> int \<Rightarrow> 32 word \<Rightarrow> ref \<Rightarrow> bool \<Rightarrow> ('s, int) jni" where
  "start_streaming E text max_tokens temp listener is_rag =
     (if text = NULL \<or> listener = NULL then State_Monad.return DNI_INVALID_ARGUMENT else do {
      lc \<leftarrow> perform E (GetObjectClass listener);
      mid \<leftarrow> perform E (GetMethodID (r_ref lc) ''onToken'' ''(ILjava/lang/String;Z)V'');
      performs E (DeleteLocalRef (r_ref lc));
      if r_ref mid = NULL then do {
        performs E (LogE ''onToken not found''); State_Monad.return DNI_INVALID_ARGUMENT }
      else do {
      st \<leftarrow> c_malloc E;
      if st = NULL then State_Monad.return DNI_INTERNAL else do {
      g \<leftarrow> perform E (NewGlobalRef listener);
      store_cell st (TokenCell \<lparr>listener_ref = r_ref g, on_token = r_ref mid\<rparr>);
      c_txt \<leftarrow> perform E (GetStringUTFChars text);
      if r_str c_txt = None then do {
        performs E (DeleteGlobalRef (r_ref g)); c_free E st; State_Monad.return DNI_INTERNAL }
      else do {
      sid \<leftarrow> perform E (Dni (if is_rag
               then dni_rag_session_start (r_str c_txt) max_tokens temp ffi_token_callback_ptr st
               else dni_session_start (r_str c_txt) max_tokens temp ffi_token_callback_ptr st));
      performs E (ReleaseStringUTFChars text (r_str c_txt));
      when_m (r_int sid \<le> 0) (do { performs E (DeleteGlobalRef (r_ref g)); c_free E st });
      State_Monad.return (r_int sid) } } } })"

section \<open>Native methods\<close>

text \<open>An ABI call that returns an integer, one that returns a string, one that returns nothing.\<close>

definition dni_int :: "'s jvm \<Rightarrow> dni_call \<Rightarrow> ('s, int) jni" where
  "dni_int E c = do { r \<leftarrow> perform E (Dni c); State_Monad.return (r_int r) }"

definition dni_str :: "'s jvm \<Rightarrow> dni_call \<Rightarrow> ('s, char_ptr) jni" where
  "dni_str E c = do { r \<leftarrow> perform E (Dni c); State_Monad.return (r_str r) }"

definition get_chars :: "'s jvm \<Rightarrow> ref \<Rightarrow> ('s, char_ptr) jni" where
  "get_chars E s = do { r \<leftarrow> perform E (GetStringUTFChars s); State_Monad.return (r_str r) }"

definition j_initialize :: "'s jvm \<Rightarrow> ('s, int) jni" where
  "j_initialize E = dni_int E dni_initialize"

definition j_shutdown :: "'s jvm \<Rightarrow> ('s, unit) jni" where
  "j_shutdown E = performs E (Dni dni_shutdown)"

definition j_session_start :: "'s jvm \<Rightarrow> ref \<Rightarrow> int \<Rightarrow> 32 word \<Rightarrow> ref \<Rightarrow> ('s, int) jni" where
  "j_session_start E p mt t l = start_streaming E p mt t l False"

definition j_rag_session_start :: "'s jvm \<Rightarrow> ref \<Rightarrow> int \<Rightarrow> 32 word \<Rightarrow> ref \<Rightarrow> ('s, int) jni" where
  "j_rag_session_start E q mt t l = start_streaming E q mt t l True"

definition j_session_cancel :: "'s jvm \<Rightarrow> int \<Rightarrow> ('s, int) jni" where
  "j_session_cancel E sid = dni_int E (dni_session_cancel sid)"

definition j_session_free :: "'s jvm \<Rightarrow> int \<Rightarrow> ('s, int) jni" where
  "j_session_free E sid = dni_int E (dni_session_free sid)"

definition j_http_start :: "'s jvm \<Rightarrow> ('s, int) jni" where
  "j_http_start E = dni_int E dni_http_start"

definition j_http_stop :: "'s jvm \<Rightarrow> ('s, int) jni" where
  "j_http_stop E = dni_int E dni_http_stop"

definition j_pb_start :: "'s jvm \<Rightarrow> int \<Rightarrow> ('s, int) jni" where
  "j_pb_start E flags = dni_int E (dni_pb_start flags)"

definition j_pb_stop :: "'s jvm \<Rightarrow> ('s, unit) jni" where
  "j_pb_stop E = performs E (Dni dni_pb_stop)"

definition j_trace_drain :: "'s jvm \<Rightarrow> ('s, ref) jni" where
  "j_trace_drain E = do { r \<leftarrow> dni_str E dni_trace_drain; take_native_string E r }"

definition j_log_drain :: "'s jvm \<Rightarrow> ('s, ref) jni" where
  "j_log_drain E = do { r \<leftarrow> dni_str E dni_log_drain; take_native_string E r }"

definition j_broker_start :: "'s jvm \<Rightarrow> ref \<Rightarrow> ('s, int) jni" where
  "j_broker_start E path =
     (if path = NULL then State_Monad.return DNI_INVALID_ARGUMENT else do {
      p \<leftarrow> get_chars E path;
      if p = None then State_Monad.return DNI_INTERNAL else do {
      r \<leftarrow> dni_int E (dni_broker_start p);
      performs E (ReleaseStringUTFChars path p);
      State_Monad.return r } })"

definition j_broker_stop :: "'s jvm \<Rightarrow> ('s, int) jni" where
  "j_broker_stop E = dni_int E dni_broker_stop"

definition j_features_json :: "'s jvm \<Rightarrow> ('s, ref) jni" where
  "j_features_json E = do { r \<leftarrow> dni_str E dni_features_json; take_native_string E r }"

definition j_sqlite_features :: "'s jvm \<Rightarrow> ('s, ref) jni" where
  "j_sqlite_features E = do { r \<leftarrow> dni_str E dni_sqlite_features; take_native_string E r }"

definition j_engine_stats :: "'s jvm \<Rightarrow> ('s, ref) jni" where
  "j_engine_stats E = do { r \<leftarrow> dni_str E dni_engine_stats; take_native_string E r }"

definition j_feature_run :: "'s jvm \<Rightarrow> ref \<Rightarrow> ('s, ref) jni" where
  "j_feature_run E i =
     (if i = NULL then State_Monad.return NULL else do {
      cid \<leftarrow> get_chars E i;
      r \<leftarrow> dni_str E (dni_feature_run cid);
      performs E (ReleaseStringUTFChars i cid);
      take_native_string E r })"

definition j_sqlite_run :: "'s jvm \<Rightarrow> ref \<Rightarrow> ('s, ref) jni" where
  "j_sqlite_run E i =
     (if i = NULL then State_Monad.return NULL else do {
      cid \<leftarrow> get_chars E i;
      r \<leftarrow> dni_str E (dni_sqlite_run cid);
      performs E (ReleaseStringUTFChars i cid);
      take_native_string E r })"

definition j_sqlite_rag :: "'s jvm \<Rightarrow> ref \<Rightarrow> ('s, ref) jni" where
  "j_sqlite_rag E q =
     (if q = NULL then State_Monad.return NULL else do {
      cq \<leftarrow> get_chars E q;
      r \<leftarrow> dni_str E (dni_sqlite_rag cq);
      performs E (ReleaseStringUTFChars q cq);
      take_native_string E r })"

definition j_search :: "'s jvm \<Rightarrow> ref \<Rightarrow> ref \<Rightarrow> ('s, ref) jni" where
  "j_search E q c =
     (if q = NULL \<or> c = NULL then State_Monad.return NULL else do {
      cq \<leftarrow> get_chars E q;
      cc \<leftarrow> get_chars E c;
      r \<leftarrow> (if cq \<noteq> None \<and> cc \<noteq> None then dni_str E (dni_search cq cc) else State_Monad.return None);
      when_m (cq \<noteq> None) (performs E (ReleaseStringUTFChars q cq));
      when_m (cc \<noteq> None) (performs E (ReleaseStringUTFChars c cc));
      take_native_string E r })"

definition j_set_assets_dir :: "'s jvm \<Rightarrow> ref \<Rightarrow> ('s, int) jni" where
  "j_set_assets_dir E path =
     (if path = NULL then State_Monad.return (-1) else do {
      p \<leftarrow> get_chars E path;
      r \<leftarrow> (if p \<noteq> None then dni_int E (dni_set_assets_dir p) else State_Monad.return (-1));
      when_m (p \<noteq> None) (performs E (ReleaseStringUTFChars path p));
      State_Monad.return r })"

definition j_sqlite_probe :: "'s jvm \<Rightarrow> ref \<Rightarrow> ('s, ref) jni" where
  "j_sqlite_probe E path =
     (if path = NULL then State_Monad.return NULL else do {
      p \<leftarrow> get_chars E path;
      r \<leftarrow> (if p \<noteq> None then dni_str E (dni_sqlite_probe p) else State_Monad.return None);
      when_m (p \<noteq> None) (performs E (ReleaseStringUTFChars path p));
      take_native_string E r })"

definition j_llama_probe :: "'s jvm \<Rightarrow> ref \<Rightarrow> ('s, ref) jni" where
  "j_llama_probe E path =
     (if path = NULL then State_Monad.return NULL else do {
      p \<leftarrow> get_chars E path;
      r \<leftarrow> (if p \<noteq> None then dni_str E (dni_llama_probe p) else State_Monad.return None);
      when_m (p \<noteq> None) (performs E (ReleaseStringUTFChars path p));
      take_native_string E r })"

definition j_agent_session_start :: "'s jvm \<Rightarrow> ref \<Rightarrow> ref \<Rightarrow> ('s, int) jni" where
  "j_agent_session_start E query listener =
     (if query = NULL \<or> listener = NULL then State_Monad.return DNI_INVALID_ARGUMENT else do {
      lc \<leftarrow> perform E (GetObjectClass listener);
      mid \<leftarrow> perform E (GetMethodID (r_ref lc) ''onToken'' ''(ILjava/lang/String;Z)V'');
      performs E (DeleteLocalRef (r_ref lc));
      if r_ref mid = NULL then do {
        performs E (LogE ''onToken not found''); State_Monad.return DNI_INVALID_ARGUMENT }
      else do {
      st \<leftarrow> c_malloc E;
      if st = NULL then State_Monad.return DNI_INTERNAL else do {
      g \<leftarrow> perform E (NewGlobalRef listener);
      store_cell st (TokenCell \<lparr>listener_ref = r_ref g, on_token = r_ref mid\<rparr>);
      c_query \<leftarrow> perform E (GetStringUTFChars query);
      if r_str c_query = None then do {
        performs E (DeleteGlobalRef (r_ref g)); c_free E st; State_Monad.return DNI_INTERNAL }
      else do {
      sid \<leftarrow> perform E (Dni (dni_agent_session_start (r_str c_query) ffi_token_callback_ptr st));
      performs E (ReleaseStringUTFChars query (r_str c_query));
      when_m (r_int sid \<le> 0) (do { performs E (DeleteGlobalRef (r_ref g)); c_free E st });
      State_Monad.return (r_int sid) } } } })"

text \<open>\<open>(int32_t)strlen(ctext)\<close>: the length truncated to 32 bits and read as signed.\<close>

definition strlen_i32 :: "string \<Rightarrow> int" where
  "strlen_i32 b = sint (of_nat (length b) :: 32 word)"

definition j_ffi_echo :: "'s jvm \<Rightarrow> ref \<Rightarrow> ('s, ref) jni" where
  "j_ffi_echo E text =
     (if text = NULL then State_Monad.return NULL else do {
      ctext \<leftarrow> get_chars E text;
      if ctext = None then State_Monad.return NULL else do {
      r \<leftarrow> dni_str E (dni_ffi_echo ctext (strlen_i32 (c_text ctext)));
      performs E (ReleaseStringUTFChars text ctext);
      take_native_string E r } })"

definition j_ffi_throw :: "'s jvm \<Rightarrow> ('s, ref) jni" where
  "j_ffi_throw E = do { r \<leftarrow> dni_str E dni_ffi_throw; take_native_string E r }"

definition ffi_trace_callback :: "'s jvm \<Rightarrow> addr \<Rightarrow> trace_cb_args \<Rightarrow> ('s, unit) jni" where
  "ffi_trace_callback E user_data a =
     (if user_data = NULL then State_Monad.return () else do {
      env \<leftarrow> attach_current_thread E;
      if env = NULL then State_Monad.return () else do {
      jtext \<leftarrow> perform E (NewStringUTF (c_text (tok_text a)));
      if r_ref jtext = NULL then State_Monad.return () else do {
      st \<leftarrow> load_trace user_data;
      performs E (CallVoidMethod (trace_listener_ref st) (on_trace st)
        [JInt (tok_index a), JRef (r_ref jtext), JLong (tr_managed_thread_id a),
         JLong (tr_elapsed_us a), JBool (tok_is_final a \<noteq> 0)]);
      performs E (DeleteLocalRef (r_ref jtext));
      clear_exception E;
      when_m (tok_is_final a \<noteq> 0) (do {
        st' \<leftarrow> load_trace user_data;
        performs E (DeleteGlobalRef (trace_listener_ref st'));
        c_free E user_data }) } } })"

definition j_ffi_stream_start :: "'s jvm \<Rightarrow> ref \<Rightarrow> int \<Rightarrow> ref \<Rightarrow> ('s, int) jni" where
  "j_ffi_stream_start E prompt max_tokens listener =
     (if prompt = NULL \<or> listener = NULL then State_Monad.return DNI_INVALID_ARGUMENT else do {
      lc \<leftarrow> perform E (GetObjectClass listener);
      mid \<leftarrow> perform E (GetMethodID (r_ref lc) ''onTrace'' ''(ILjava/lang/String;JJZ)V'');
      performs E (DeleteLocalRef (r_ref lc));
      if r_ref mid = NULL then do {
        performs E (LogE ''onTrace not found''); State_Monad.return DNI_INVALID_ARGUMENT }
      else do {
      st \<leftarrow> c_malloc E;
      if st = NULL then State_Monad.return DNI_INTERNAL else do {
      g \<leftarrow> perform E (NewGlobalRef listener);
      store_cell st (TraceCell \<lparr>trace_listener_ref = r_ref g, on_trace = r_ref mid\<rparr>);
      c_prompt \<leftarrow> perform E (GetStringUTFChars prompt);
      if r_str c_prompt = None then do {
        performs E (DeleteGlobalRef (r_ref g)); c_free E st; State_Monad.return DNI_INTERNAL }
      else do {
      sid \<leftarrow> perform E (Dni (dni_ffi_stream_start (r_str c_prompt) max_tokens ffi_trace_callback_ptr st));
      performs E (ReleaseStringUTFChars prompt (r_str c_prompt));
      when_m (r_int sid \<le> 0) (do { performs E (DeleteGlobalRef (r_ref g)); c_free E st });
      State_Monad.return (r_int sid) } } } })"

section \<open>The \<open>RegisterNatives\<close> table and \<open>JNI_OnLoad\<close>\<close>

abbreviation nm :: "string \<Rightarrow> string \<Rightarrow> native_fn \<Rightarrow> JNINativeMethod" where
  "nm n s f \<equiv> \<lparr>nm_name = n, nm_signature = s, nm_fnPtr = f\<rparr>"

definition kMethods :: "JNINativeMethod list" where
  "kMethods = [
     nm ''nativeInitialize'' ''()I'' fn_j_initialize,
     nm ''nativeShutdown'' ''()V'' fn_j_shutdown,
     nm ''nativeSessionStart'' ''(Ljava/lang/String;IFLio/dotnetnativeinterop/transport/FfiTokenListener;)J'' fn_j_session_start,
     nm ''nativeRagSessionStart'' ''(Ljava/lang/String;IFLio/dotnetnativeinterop/transport/FfiTokenListener;)J'' fn_j_rag_session_start,
     nm ''nativeAgentSessionStart'' ''(Ljava/lang/String;Lio/dotnetnativeinterop/transport/FfiTokenListener;)J'' fn_j_agent_session_start,
     nm ''nativeSessionCancel'' ''(J)I'' fn_j_session_cancel,
     nm ''nativeSessionFree'' ''(J)I'' fn_j_session_free,
     nm ''nativeHttpStart'' ''()I'' fn_j_http_start,
     nm ''nativeHttpStop'' ''()I'' fn_j_http_stop,
     nm ''nativePbStart'' ''(I)I'' fn_j_pb_start,
     nm ''nativePbStop'' ''()V'' fn_j_pb_stop,
     nm ''nativeTraceDrain'' ''()Ljava/lang/String;'' fn_j_trace_drain,
     nm ''nativeLogDrain'' ''()Ljava/lang/String;'' fn_j_log_drain,
     nm ''nativeBrokerStart'' ''(Ljava/lang/String;)I'' fn_j_broker_start,
     nm ''nativeBrokerStop'' ''()I'' fn_j_broker_stop,
     nm ''nativeFeaturesJson'' ''()Ljava/lang/String;'' fn_j_features_json,
     nm ''nativeFeatureRun'' ''(Ljava/lang/String;)Ljava/lang/String;'' fn_j_feature_run,
     nm ''nativeSqliteFeatures'' ''()Ljava/lang/String;'' fn_j_sqlite_features,
     nm ''nativeSqliteRun'' ''(Ljava/lang/String;)Ljava/lang/String;'' fn_j_sqlite_run,
     nm ''nativeEngineStats'' ''()Ljava/lang/String;'' fn_j_engine_stats,
     nm ''nativeSearch'' ''(Ljava/lang/String;Ljava/lang/String;)Ljava/lang/String;'' fn_j_search,
     nm ''nativeSetAssetsDir'' ''(Ljava/lang/String;)I'' fn_j_set_assets_dir,
     nm ''nativeSqliteRag'' ''(Ljava/lang/String;)Ljava/lang/String;'' fn_j_sqlite_rag,
     nm ''nativeSqliteProbe'' ''(Ljava/lang/String;)Ljava/lang/String;'' fn_j_sqlite_probe,
     nm ''nativeLlamaProbe'' ''(Ljava/lang/String;)Ljava/lang/String;'' fn_j_llama_probe,
     nm ''nativeFfiEcho'' ''(Ljava/lang/String;)Ljava/lang/String;'' fn_j_ffi_echo,
     nm ''nativeFfiThrow'' ''()Ljava/lang/String;'' fn_j_ffi_throw,
     nm ''nativeFfiStreamStart'' ''(Ljava/lang/String;ILio/dotnetnativeinterop/transport/FfiTraceListener;)J'' fn_j_ffi_stream_start]"

definition JNI_OnLoad :: "'s jvm \<Rightarrow> ref \<Rightarrow> ('s, int) jni" where
  "JNI_OnLoad E vm = do {
     modify (\<lambda>w. w\<lparr>g_jvm := vm\<rparr>);
     t \<leftarrow> gets cur_thread;
     e \<leftarrow> perform E (GetEnv t);
     if r_int e \<noteq> JNI_OK then State_Monad.return JNI_ERR else do {
     clazz \<leftarrow> perform E (FindClass ''io/dotnetnativeinterop/transport/NativeBridge'');
     if r_ref clazz = NULL then do {
       performs E (LogE ''NativeBridge class not found''); State_Monad.return JNI_ERR }
     else do {
     reg \<leftarrow> perform E (RegisterNatives (r_ref clazz) kMethods);
     if r_int reg \<noteq> JNI_OK then do {
       performs E (LogE ''RegisterNatives failed''); State_Monad.return JNI_ERR }
     else do {
     performs E (DeleteLocalRef (r_ref clazz));
     performs E (LogD (length kMethods));
     State_Monad.return JNI_VERSION_1_6 } } } }"

section \<open>Dispatch\<close>

text \<open>
  A registered function is entered by the VM with the arguments its descriptor announces. \<open>c_params\<close>
  gives the parameters and result of the C function as it is declared in the file (after the
  \<open>JNIEnv\<close> and the receiver), \<open>invoke\<close> runs it. A call with other arguments is undefined behaviour.
\<close>

datatype jtype = TInt | TLong | TFloat | TString | TObject | TVoid

fun c_params :: "native_fn \<Rightarrow> jtype list \<times> jtype" where
  "c_params fn_j_initialize = ([], TInt)"
| "c_params fn_j_shutdown = ([], TVoid)"
| "c_params fn_j_session_start = ([TString, TInt, TFloat, TObject], TLong)"
| "c_params fn_j_rag_session_start = ([TString, TInt, TFloat, TObject], TLong)"
| "c_params fn_j_agent_session_start = ([TString, TObject], TLong)"
| "c_params fn_j_session_cancel = ([TLong], TInt)"
| "c_params fn_j_session_free = ([TLong], TInt)"
| "c_params fn_j_http_start = ([], TInt)"
| "c_params fn_j_http_stop = ([], TInt)"
| "c_params fn_j_pb_start = ([TInt], TInt)"
| "c_params fn_j_pb_stop = ([], TVoid)"
| "c_params fn_j_trace_drain = ([], TString)"
| "c_params fn_j_log_drain = ([], TString)"
| "c_params fn_j_broker_start = ([TString], TInt)"
| "c_params fn_j_broker_stop = ([], TInt)"
| "c_params fn_j_features_json = ([], TString)"
| "c_params fn_j_feature_run = ([TString], TString)"
| "c_params fn_j_sqlite_features = ([], TString)"
| "c_params fn_j_sqlite_run = ([TString], TString)"
| "c_params fn_j_engine_stats = ([], TString)"
| "c_params fn_j_search = ([TString, TString], TString)"
| "c_params fn_j_set_assets_dir = ([TString], TInt)"
| "c_params fn_j_sqlite_rag = ([TString], TString)"
| "c_params fn_j_sqlite_probe = ([TString], TString)"
| "c_params fn_j_llama_probe = ([TString], TString)"
| "c_params fn_j_ffi_echo = ([TString], TString)"
| "c_params fn_j_ffi_throw = ([], TString)"
| "c_params fn_j_ffi_stream_start = ([TString, TInt, TObject], TLong)"

fun has_jtype :: "jvalue \<Rightarrow> jtype \<Rightarrow> bool" where
  "has_jtype (JInt _) t = (t = TInt)"
| "has_jtype (JLong _) t = (t = TLong)"
| "has_jtype (JFloat _) t = (t = TFloat)"
| "has_jtype (JBool _) t = False"
| "has_jtype (JRef _) t = (t = TString \<or> t = TObject)"

definition bad_call :: "('s, jvalue) jni" where
  "bad_call = do { modify (\<lambda>w. w\<lparr>ub := True\<rparr>); State_Monad.return (JInt 0) }"

definition ret_int :: "('s, int) jni \<Rightarrow> ('s, jvalue) jni" where
  "ret_int m = do { x \<leftarrow> m; State_Monad.return (JInt x) }"

definition ret_long :: "('s, int) jni \<Rightarrow> ('s, jvalue) jni" where
  "ret_long m = do { x \<leftarrow> m; State_Monad.return (JLong x) }"

definition ret_ref :: "('s, ref) jni \<Rightarrow> ('s, jvalue) jni" where
  "ret_ref m = do { x \<leftarrow> m; State_Monad.return (JRef x) }"

definition ret_void :: "('s, unit) jni \<Rightarrow> ('s, jvalue) jni" where
  "ret_void m = do { _ \<leftarrow> m; State_Monad.return (JInt 0) }"

definition args0 :: "('s, jvalue) jni \<Rightarrow> jvalue list \<Rightarrow> ('s, jvalue) jni" where
  "args0 m xs = (case xs of [] \<Rightarrow> m | _ \<Rightarrow> bad_call)"

definition args_ref :: "(ref \<Rightarrow> ('s, jvalue) jni) \<Rightarrow> jvalue list \<Rightarrow> ('s, jvalue) jni" where
  "args_ref f xs = (case xs of [JRef p] \<Rightarrow> f p | _ \<Rightarrow> bad_call)"

fun invoke :: "'s jvm \<Rightarrow> native_fn \<Rightarrow> jvalue list \<Rightarrow> ('s, jvalue) jni" where
  "invoke E fn_j_initialize xs = args0 (ret_int (j_initialize E)) xs"
| "invoke E fn_j_shutdown xs = args0 (ret_void (j_shutdown E)) xs"
| "invoke E fn_j_session_start xs = (case xs of
     [JRef p, JInt mt, JFloat t, JRef l] \<Rightarrow> ret_long (j_session_start E p mt t l) | _ \<Rightarrow> bad_call)"
| "invoke E fn_j_rag_session_start xs = (case xs of
     [JRef q, JInt mt, JFloat t, JRef l] \<Rightarrow> ret_long (j_rag_session_start E q mt t l) | _ \<Rightarrow> bad_call)"
| "invoke E fn_j_agent_session_start xs = (case xs of
     [JRef q, JRef l] \<Rightarrow> ret_long (j_agent_session_start E q l) | _ \<Rightarrow> bad_call)"
| "invoke E fn_j_session_cancel xs = (case xs of
     [JLong i] \<Rightarrow> ret_int (j_session_cancel E i) | _ \<Rightarrow> bad_call)"
| "invoke E fn_j_session_free xs = (case xs of
     [JLong i] \<Rightarrow> ret_int (j_session_free E i) | _ \<Rightarrow> bad_call)"
| "invoke E fn_j_http_start xs = args0 (ret_int (j_http_start E)) xs"
| "invoke E fn_j_http_stop xs = args0 (ret_int (j_http_stop E)) xs"
| "invoke E fn_j_pb_start xs = (case xs of [JInt f] \<Rightarrow> ret_int (j_pb_start E f) | _ \<Rightarrow> bad_call)"
| "invoke E fn_j_pb_stop xs = args0 (ret_void (j_pb_stop E)) xs"
| "invoke E fn_j_trace_drain xs = args0 (ret_ref (j_trace_drain E)) xs"
| "invoke E fn_j_log_drain xs = args0 (ret_ref (j_log_drain E)) xs"
| "invoke E fn_j_broker_start xs = args_ref (\<lambda>p. ret_int (j_broker_start E p)) xs"
| "invoke E fn_j_broker_stop xs = args0 (ret_int (j_broker_stop E)) xs"
| "invoke E fn_j_features_json xs = args0 (ret_ref (j_features_json E)) xs"
| "invoke E fn_j_feature_run xs = args_ref (\<lambda>p. ret_ref (j_feature_run E p)) xs"
| "invoke E fn_j_sqlite_features xs = args0 (ret_ref (j_sqlite_features E)) xs"
| "invoke E fn_j_sqlite_run xs = args_ref (\<lambda>p. ret_ref (j_sqlite_run E p)) xs"
| "invoke E fn_j_engine_stats xs = args0 (ret_ref (j_engine_stats E)) xs"
| "invoke E fn_j_search xs = (case xs of
     [JRef q, JRef c] \<Rightarrow> ret_ref (j_search E q c) | _ \<Rightarrow> bad_call)"
| "invoke E fn_j_set_assets_dir xs = args_ref (\<lambda>p. ret_int (j_set_assets_dir E p)) xs"
| "invoke E fn_j_sqlite_rag xs = args_ref (\<lambda>p. ret_ref (j_sqlite_rag E p)) xs"
| "invoke E fn_j_sqlite_probe xs = args_ref (\<lambda>p. ret_ref (j_sqlite_probe E p)) xs"
| "invoke E fn_j_llama_probe xs = args_ref (\<lambda>p. ret_ref (j_llama_probe E p)) xs"
| "invoke E fn_j_ffi_echo xs = args_ref (\<lambda>p. ret_ref (j_ffi_echo E p)) xs"
| "invoke E fn_j_ffi_throw xs = args0 (ret_ref (j_ffi_throw E)) xs"
| "invoke E fn_j_ffi_stream_start xs = (case xs of
     [JRef p, JInt mt, JRef l] \<Rightarrow> ret_long (j_ffi_stream_start E p mt l) | _ \<Rightarrow> bad_call)"

text \<open>The JNI type descriptor of a signature, read back from the string in the table.\<close>

fun skip_class :: "string \<Rightarrow> string \<times> string" where
  "skip_class [] = ([], [])"
| "skip_class (c # cs) = (if c = CHR '';'' then ([], cs) else
     (case skip_class cs of (n, r) \<Rightarrow> (c # n, r)))"

lemma skip_class_length: "length (snd (skip_class cs)) \<le> length cs"
  by (induction cs) (auto split: prod.splits)

definition class_type :: "string \<Rightarrow> jtype" where
  "class_type n = (if n = ''java/lang/String'' then TString else TObject)"

function parse_types :: "string \<Rightarrow> (jtype list \<times> string) option" where
  "parse_types [] = None"
| "parse_types (c # cs) =
     (if c = CHR '')'' then Some ([], cs)
      else if c = CHR ''I'' then map_option (map_prod (Cons TInt) id) (parse_types cs)
      else if c = CHR ''J'' then map_option (map_prod (Cons TLong) id) (parse_types cs)
      else if c = CHR ''F'' then map_option (map_prod (Cons TFloat) id) (parse_types cs)
      else if c = CHR ''L'' then
        map_option (map_prod (Cons (class_type (fst (skip_class cs)))) id)
          (parse_types (snd (skip_class cs)))
      else None)"
  by pat_completeness auto
termination
  by (relation "measure length") (auto simp: less_Suc_eq_le skip_class_length)

definition parse_return :: "string \<Rightarrow> jtype option" where
  "parse_return s = (case s of
     [] \<Rightarrow> None
   | c # cs \<Rightarrow>
       if c = CHR ''L'' then
         (if snd (skip_class cs) = [] then Some (class_type (fst (skip_class cs))) else None)
       else if cs \<noteq> [] then None
       else if c = CHR ''V'' then Some TVoid
       else if c = CHR ''I'' then Some TInt
       else if c = CHR ''J'' then Some TLong
       else None)"

definition parse_descriptor :: "string \<Rightarrow> (jtype list \<times> jtype) option" where
  "parse_descriptor s = (case s of
     [] \<Rightarrow> None
   | c # cs \<Rightarrow> if c \<noteq> CHR ''('' then None else
       Option.bind (parse_types cs) (\<lambda>(ts, rest). map_option (Pair ts) (parse_return rest)))"

end
