(* ===== verification/Jni_Protocol.thy ===== *)
theory Jni_Protocol
  imports Jni_Bridge
begin

text \<open>
  The resource protocol between the shim, the Java VM and the dni library, as an automaton over the
  log of calls. It accepts a log when every C copy of a Java string is released exactly once and only
  used while it is held, every string the library returns is copied before it is freed and freed
  exactly once, and only global references that are held are deleted. What is left in the automaton's
  state is what the shim still owns. The theorems run every native method through it.
\<close>

section \<open>The automaton\<close>

record owned =
  chars :: "(ref \<times> addr) list"
  dni_strings :: "addr list"
  global_refs :: "ref list"

definition nothing_owned :: owned where
  "nothing_owned = \<lparr>chars = [], dni_strings = [], global_refs = []\<rparr>"

text \<open>The C strings an export reads, and the callback cell it is handed.\<close>

fun dni_char_args :: "dni_call \<Rightarrow> char_ptr list" where
  "dni_char_args (dni_session_start p _ _ _ _) = [p]"
| "dni_char_args (dni_feature_run p) = [p]"
| "dni_char_args (dni_broker_start p) = [p]"
| "dni_char_args (dni_sqlite_run p) = [p]"
| "dni_char_args (dni_search p q) = [p, q]"
| "dni_char_args (dni_set_assets_dir p) = [p]"
| "dni_char_args (dni_rag_session_start p _ _ _ _) = [p]"
| "dni_char_args (dni_sqlite_rag p) = [p]"
| "dni_char_args (dni_ffi_echo p _) = [p]"
| "dni_char_args (dni_ffi_stream_start p _ _ _) = [p]"
| "dni_char_args (dni_agent_session_start p _ _) = [p]"
| "dni_char_args (dni_sqlite_probe p) = [p]"
| "dni_char_args (dni_llama_probe p) = [p]"
| "dni_char_args _ = []"

fun dni_user_data :: "dni_call \<Rightarrow> addr option" where
  "dni_user_data (dni_session_start _ _ _ _ a) = Some a"
| "dni_user_data (dni_rag_session_start _ _ _ _ a) = Some a"
| "dni_user_data (dni_ffi_stream_start _ _ _ a) = Some a"
| "dni_user_data (dni_agent_session_start _ _ a) = Some a"
| "dni_user_data _ = None"

definition readable :: "owned \<Rightarrow> char_ptr \<Rightarrow> bool" where
  "readable m p = (case p of None \<Rightarrow> True | Some (a, _) \<Rightarrow> a \<in> snd ` set (chars m))"

fun dni_frees :: "dni_call \<Rightarrow> addr option" where
  "dni_frees (dni_string_free a) = Some a"
| "dni_frees _ = None"

definition own_string :: "dni_call \<Rightarrow> jni_reply \<Rightarrow> owned \<Rightarrow> owned" where
  "own_string d r m = (if returns_string d then
     (case r_str r of None \<Rightarrow> m | Some (a, _) \<Rightarrow> m\<lparr>dni_strings := a # dni_strings m\<rparr>) else m)"

definition dni_step :: "owned \<Rightarrow> dni_call \<Rightarrow> jni_reply \<Rightarrow> owned option" where
  "dni_step m d r =
     (if \<not> list_all (readable m) (dni_char_args d) then None
      else (case dni_frees d of
              Some a \<Rightarrow> if a \<in> set (dni_strings m)
                        then Some (m\<lparr>dni_strings := remove1 a (dni_strings m)\<rparr>) else None
            | None \<Rightarrow> Some (own_string d r m)))"

fun mon_step :: "owned \<Rightarrow> jni_call \<Rightarrow> jni_reply \<Rightarrow> owned option" where
  "mon_step m (GetStringUTFChars s) r = (case r_str r of
     None \<Rightarrow> Some m | Some (a, _) \<Rightarrow> Some (m\<lparr>chars := (s, a) # chars m\<rparr>))"
| "mon_step m (ReleaseStringUTFChars s p) r = (case p of
     None \<Rightarrow> None
   | Some (a, _) \<Rightarrow> if (s, a) \<in> set (chars m)
                    then Some (m\<lparr>chars := remove1 (s, a) (chars m)\<rparr>) else None)"
| "mon_step m (NewGlobalRef ob) r =
     Some (if r_ref r = NULL then m else m\<lparr>global_refs := r_ref r # global_refs m\<rparr>)"
| "mon_step m (DeleteGlobalRef g) r =
     (if g = NULL then Some m
      else if g \<in> set (global_refs m) then Some (m\<lparr>global_refs := remove1 g (global_refs m)\<rparr>)
      else None)"
| "mon_step m (Dni d) r = dni_step m d r"
| "mon_step m _ r = Some m"

fun monitor :: "owned \<Rightarrow> (jni_call \<times> jni_reply) list \<Rightarrow> owned option" where
  "monitor m [] = Some m"
| "monitor m ((c, r) # l) = (case mon_step m c r of None \<Rightarrow> None | Some m' \<Rightarrow> monitor m' l)"

lemma monitor_append [simp]:
  "monitor m (l @ k) = (case monitor m l of None \<Rightarrow> None | Some m' \<Rightarrow> monitor m' k)"
  by (induction m l rule: monitor.induct) (auto split: option.splits)

lemmas monitor_simps = nothing_owned_def readable_def dni_step_def own_string_def

section \<open>Runs of the native methods\<close>

lemmas method_defs = j_initialize_def j_shutdown_def j_session_start_def j_rag_session_start_def
  j_session_cancel_def j_session_free_def j_http_start_def j_http_stop_def j_pb_start_def
  j_pb_stop_def j_trace_drain_def j_log_drain_def j_broker_start_def j_broker_stop_def
  j_features_json_def j_sqlite_features_def j_engine_stats_def j_feature_run_def j_sqlite_run_def
  j_sqlite_rag_def j_search_def j_set_assets_dir_def j_sqlite_probe_def j_llama_probe_def
  j_ffi_echo_def j_ffi_throw_def

lemmas shim_defs = dni_int_def dni_str_def get_chars_def

text \<open>A run leaves the shim's own state alone: only the library's state and the log move.\<close>

definition same_shim :: "'s shim \<Rightarrow> 's shim \<Rightarrow> bool" where
  "same_shim w w' \<longleftrightarrow> heap w' = heap w \<and> ub w' = ub w \<and> g_jvm w' = g_jvm w \<and>
     tls_value w' = tls_value w \<and> tls_key_created w' = tls_key_created w \<and>
     cur_thread w' = cur_thread w"

text \<open>
  A method is clean from a state when its calls follow the protocol, it owns nothing at the end and
  it leaves the shim's state alone.
\<close>

definition clean :: "('s, 'a) jni \<Rightarrow> 's shim \<Rightarrow> bool" where
  "clean m w \<longleftrightarrow> (\<exists>l. log (exec m w) = log w @ l \<and> monitor nothing_owned l = Some nothing_owned) \<and>
     same_shim w (exec m w)"

lemma cleanI:
  assumes "log (exec m w) = log w @ l" "monitor nothing_owned l = Some nothing_owned"
    "same_shim w (exec m w)"
  shows "clean m w"
  using assms by (auto simp: clean_def)

lemma emitted_append: "log (exec m w) = log w @ l \<Longrightarrow> emitted m w = l"
  by (simp add: emitted_def)

lemma clean_ret [simp]:
  "clean (ret_int m1) w = clean m1 w" "clean (ret_long m1) w = clean m1 w"
  "clean (ret_ref m2) w = clean m2 w" "clean (ret_void m3) w = clean m3 w"
  by (simp_all add: clean_def ret_int_def ret_long_def ret_ref_def ret_void_def run_simps)

lemma take_native_string_run:
  "exec (take_native_string E s) w = (case s of None \<Rightarrow> w | Some (a, b) \<Rightarrow>
     exec (performs E (Dni (dni_string_free a))) (exec (perform E (NewStringUTF b)) w))"
  by (auto simp: take_native_string_def run_simps split: option.splits)

lemma clean_int: "dni_char_args c = [] \<Longrightarrow> dni_frees c = None \<Longrightarrow> \<not> returns_string c \<Longrightarrow>
    clean (dni_int E c) w \<and> clean (performs E (Dni c)) w"
  by (auto simp: clean_def same_shim_def shim_defs run_simps monitor_simps)

lemma clean_drain: "dni_char_args c = [] \<Longrightarrow> dni_frees c = None \<Longrightarrow> returns_string c \<Longrightarrow>
    clean (State_Monad.bind (dni_str E c) (take_native_string E)) w"
  by (auto simp: clean_def same_shim_def shim_defs run_simps take_native_string_run monitor_simps
      split: option.splits)

text \<open>The methods that copy one Java string, call an export with it and release the copy.\<close>

lemma clean_one_string_checked:
  assumes "dni_char_args (f (r_str r)) = [r_str r]" "dni_frees (f (r_str r)) = None"
    "returns_string (f (r_str r))" "fst (E (GetStringUTFChars s) (ext_state w)) = r"
    "r_str r \<noteq> None"
  shows "clean (State_Monad.bind (get_chars E s) (\<lambda>p. State_Monad.bind (dni_str E (f p))
    (\<lambda>x. State_Monad.bind (performs E (ReleaseStringUTFChars s p)) (\<lambda>_. take_native_string E x)))) w"
  using assms
  by (auto simp: clean_def same_shim_def shim_defs run_simps take_native_string_run monitor_simps
      split: option.splits)

lemma clean_one_string_guarded:
  assumes "dni_char_args (f (r_str r)) = [r_str r]" "dni_frees (f (r_str r)) = None"
    "returns_string (f (r_str r))" "fst (E (GetStringUTFChars s) (ext_state w)) = r"
  shows "clean (State_Monad.bind (get_chars E s) (\<lambda>p.
    State_Monad.bind (if p \<noteq> None then dni_str E (f p) else State_Monad.return None)
    (\<lambda>x. State_Monad.bind (when_m (p \<noteq> None) (performs E (ReleaseStringUTFChars s p)))
    (\<lambda>_. take_native_string E x)))) w"
  using assms
  by (auto simp: clean_def same_shim_def shim_defs run_simps take_native_string_run monitor_simps
      split: option.splits)

lemma clean_return [simp]: "clean (State_Monad.return x) w"
  by (simp add: clean_def same_shim_def run_simps)

lemma clean_if: "(b \<Longrightarrow> clean m w) \<Longrightarrow> (\<not> b \<Longrightarrow> clean n w) \<Longrightarrow> clean (if b then m else n) w"
  by simp

lemma clean_string_methods:
  "clean (j_sqlite_probe E i) w" "clean (j_llama_probe E i) w"
  unfolding j_sqlite_probe_def j_llama_probe_def
  by (rule clean_if; (rule clean_return | rule clean_one_string_guarded; simp))+

lemma clean_unchecked_methods:
  assumes "r_str (fst (E (GetStringUTFChars i) (ext_state w))) \<noteq> None"
  shows "clean (j_feature_run E i) w" "clean (j_sqlite_run E i) w" "clean (j_sqlite_rag E i) w"
  using assms
  by (auto simp: j_feature_run_def j_sqlite_run_def j_sqlite_rag_def
      intro!: clean_one_string_checked)

lemma clean_j_ffi_echo: "clean (j_ffi_echo E i) w"
  by (auto simp: j_ffi_echo_def clean_def same_shim_def shim_defs run_simps take_native_string_run
      monitor_simps split: option.splits)

lemma clean_j_broker_start: "clean (j_broker_start E i) w"
  by (auto simp: j_broker_start_def clean_def same_shim_def shim_defs run_simps monitor_simps
      split: option.splits)

lemma clean_j_set_assets_dir: "clean (j_set_assets_dir E i) w"
  by (auto simp: j_set_assets_dir_def clean_def same_shim_def shim_defs run_simps monitor_simps
      split: option.splits)

lemma clean_j_search: "clean (j_search E q c) w"
  by (auto simp: j_search_def clean_def same_shim_def shim_defs run_simps take_native_string_run
      monitor_simps split: option.splits)

lemmas clean_methods = clean_string_methods clean_j_ffi_echo clean_j_broker_start
  clean_j_set_assets_dir clean_j_search

section \<open>The methods that start a session\<close>

text \<open>
  The three start functions of the file are one program up to the callback they look up and the
  export they call. \<open>start_session\<close> is that program; the functions are its instances.
\<close>

definition start_session :: "'s jvm \<Rightarrow> string \<Rightarrow> string \<Rightarrow> string \<Rightarrow> (ref \<Rightarrow> ref \<Rightarrow> c_cell) \<Rightarrow>
    (char_ptr \<Rightarrow> addr \<Rightarrow> dni_call) \<Rightarrow> ref \<Rightarrow> ref \<Rightarrow> ('s, int) jni" where
  "start_session E name sig msg mk call text listener =
     (if text = NULL \<or> listener = NULL then State_Monad.return DNI_INVALID_ARGUMENT else do {
      lc \<leftarrow> perform E (GetObjectClass listener);
      mid \<leftarrow> perform E (GetMethodID (r_ref lc) name sig);
      performs E (DeleteLocalRef (r_ref lc));
      if r_ref mid = NULL then do { performs E (LogE msg); State_Monad.return DNI_INVALID_ARGUMENT }
      else do {
      st \<leftarrow> c_malloc E;
      if st = NULL then State_Monad.return DNI_INTERNAL else do {
      g \<leftarrow> perform E (NewGlobalRef listener);
      store_cell st (mk (r_ref g) (r_ref mid));
      ct \<leftarrow> perform E (GetStringUTFChars text);
      if r_str ct = None then do {
        performs E (DeleteGlobalRef (r_ref g)); c_free E st; State_Monad.return DNI_INTERNAL }
      else do {
      sid \<leftarrow> perform E (Dni (call (r_str ct) st));
      performs E (ReleaseStringUTFChars text (r_str ct));
      when_m (r_int sid \<le> 0) (do { performs E (DeleteGlobalRef (r_ref g)); c_free E st });
      State_Monad.return (r_int sid) } } } })"

abbreviation token_cell :: "ref \<Rightarrow> ref \<Rightarrow> c_cell" where
  "token_cell g m \<equiv> TokenCell \<lparr>listener_ref = g, on_token = m\<rparr>"

abbreviation trace_cell :: "ref \<Rightarrow> ref \<Rightarrow> c_cell" where
  "trace_cell g m \<equiv> TraceCell \<lparr>trace_listener_ref = g, on_trace = m\<rparr>"

lemma start_streaming_eq:
  "start_streaming E text mt t listener rag =
     start_session E ''onToken'' ''(ILjava/lang/String;Z)V'' ''onToken not found'' token_cell
       (\<lambda>p a. if rag then dni_rag_session_start p mt t ffi_token_callback_ptr a
              else dni_session_start p mt t ffi_token_callback_ptr a) text listener"
  by (simp add: start_streaming_def start_session_def)

lemma j_agent_session_start_eq:
  "j_agent_session_start E q listener =
     start_session E ''onToken'' ''(ILjava/lang/String;Z)V'' ''onToken not found'' token_cell
       (\<lambda>p a. dni_agent_session_start p ffi_token_callback_ptr a) q listener"
  by (simp add: j_agent_session_start_def start_session_def)

lemma j_ffi_stream_start_eq:
  "j_ffi_stream_start E p mt listener =
     start_session E ''onTrace'' ''(ILjava/lang/String;JJZ)V'' ''onTrace not found'' trace_cell
       (\<lambda>c a. dni_ffi_stream_start c mt ffi_trace_callback_ptr a) p listener"
  by (simp add: j_ffi_stream_start_def start_session_def)

text \<open>\<open>malloc\<close> returns \<open>NULL\<close> or an address that is not in use.\<close>

definition malloc_fresh :: "'s jvm \<Rightarrow> 's shim \<Rightarrow> bool" where
  "malloc_fresh E w \<longleftrightarrow> (\<forall>s. heap w (r_ref (fst (E Malloc s))) = None)"

definition owns_ref :: "ref \<Rightarrow> owned" where
  "owns_ref g = nothing_owned\<lparr>global_refs := (if g = NULL then [] else [g])\<rparr>"

text \<open>
  What a start function promises: on failure the run is clean, on success the only thing left over
  is one new cell holding the one new global reference, and the engine was handed that cell.
\<close>

definition start_ok :: "(ref \<Rightarrow> ref \<Rightarrow> c_cell) \<Rightarrow> ('s, int) jni \<Rightarrow> 's shim \<Rightarrow> bool" where
  "start_ok mk m w \<longleftrightarrow>
     (if result m w \<le> 0 then clean m w
      else (\<exists>l a g mid d r. log (exec m w) = log w @ l \<and>
              monitor nothing_owned l = Some (owns_ref g) \<and>
              (Dni d, r) \<in> set l \<and> dni_user_data d = Some a \<and> r_int r = result m w \<and>
              a \<noteq> NULL \<and> heap w a = None \<and> same_shim (w\<lparr>heap := (heap w)(a \<mapsto> mk g mid)\<rparr>) (exec m w)))"

lemma start_ok_success:
  assumes "\<not> result m w \<le> 0" "log (exec m w) = log w @ l"
    "monitor nothing_owned l = Some (owns_ref g)" "(Dni d, r) \<in> set l" "dni_user_data d = Some a"
    "r_int r = result m w" "a \<noteq> NULL" "heap w a = None"
    "same_shim (w\<lparr>heap := (heap w)(a \<mapsto> mk g mid)\<rparr>) (exec m w)"
  shows "start_ok mk m w"
  using assms unfolding start_ok_def by (metis (no_types, lifting))

lemmas start_defs = start_session_def c_malloc_def c_free_def store_cell_def

lemma start_session_ok:
  assumes fresh: "malloc_fresh E w"
    and call: "\<And>p a. dni_char_args (call p a) = [p]" "\<And>p a. dni_frees (call p a) = None"
      "\<And>p a. \<not> returns_string (call p a)" "\<And>p a. dni_user_data (call p a) = Some a"
  shows "start_ok mk (start_session E name sig msg mk call text listener) w"
    (is "start_ok mk ?m w")
proof -
  obtain lc s1 where e1: "E (GetObjectClass listener) (ext_state w) = (lc, s1)" by fastforce
  obtain mid s2 where e2: "E (GetMethodID (r_ref lc) name sig) s1 = (mid, s2)" by fastforce
  obtain x3 s3 where e3: "E (DeleteLocalRef (r_ref lc)) s2 = (x3, s3)" by fastforce
  obtain st s4 where e4: "E Malloc s3 = (st, s4)" by fastforce
  obtain g s5 where e5: "E (NewGlobalRef listener) s4 = (g, s5)" by fastforce
  obtain ct s6 where e6: "E (GetStringUTFChars text) s5 = (ct, s6)" by fastforce
  have h: "heap w (r_ref st) = None"
    using fresh e4 unfolding malloc_fresh_def by (metis fst_conv)
  note run = start_defs run_simps e1 e2 e3 e4 e5 e6 h
  note check = start_ok_def clean_def same_shim_def monitor_simps call owns_ref_def dni_status_defs
  show ?thesis
  proof -
    consider "text = NULL \<or> listener = NULL"
      | "text \<noteq> NULL" "listener \<noteq> NULL" "r_ref mid = NULL"
      | "text \<noteq> NULL" "listener \<noteq> NULL" "r_ref mid \<noteq> NULL" "r_ref st = NULL"
      | (go) "text \<noteq> NULL" "listener \<noteq> NULL" "r_ref mid \<noteq> NULL" "r_ref st \<noteq> NULL"
      by blast
    then show ?thesis
  proof cases
    case 1
    then show ?thesis by (simp add: run check)
  next
    case 2
    then show ?thesis by (simp add: run check)
  next
    case 3
    then show ?thesis by (simp add: run check)
  next
    case go
    note nn = go
    show ?thesis
    proof (cases "r_str ct")
      case None
      with nn show ?thesis by (auto simp: run check fun_upd_idem)
    next
      case (Some p)
      obtain a b where p: "p = (a, b)" by (cases p)
      obtain sid s7 where e7: "E (Dni (call (Some (a, b)) (r_ref st))) s6 = (sid, s7)" by fastforce
      show ?thesis
      proof (cases "r_int sid \<le> 0")
        case True
        with nn Some p e7 show ?thesis by (simp add: run check fun_upd_idem)
      next
        case False
        let ?l = "[(GetObjectClass listener, lc), (GetMethodID (r_ref lc) name sig, mid),
          (DeleteLocalRef (r_ref lc), x3), (Malloc, st), (NewGlobalRef listener, g),
          (GetStringUTFChars text, ct), (Dni (call (Some (a, b)) (r_ref st)), sid),
          (ReleaseStringUTFChars text (Some (a, b)),
           fst (E (ReleaseStringUTFChars text (Some (a, b))) s7))]"
        from False nn Some p e7 show ?thesis
          by (intro start_ok_success [where l = ?l and a = "r_ref st" and g = "r_ref g"
                and mid = "r_ref mid" and r = sid and d = "call (Some (a, b)) (r_ref st)"])
            (simp_all add: run check)
      qed
    qed
  qed
  qed
qed

section \<open>Every registered method\<close>

lemma has_jtype_iff:
  "has_jtype x TInt \<longleftrightarrow> (\<exists>i. x = JInt i)" "has_jtype x TLong \<longleftrightarrow> (\<exists>i. x = JLong i)"
  "has_jtype x TFloat \<longleftrightarrow> (\<exists>f. x = JFloat f)" "has_jtype x TString \<longleftrightarrow> (\<exists>r. x = JRef r)"
  "has_jtype x TObject \<longleftrightarrow> (\<exists>r. x = JRef r)"
  by (cases x; simp)+

definition conforms :: "native_fn \<Rightarrow> jvalue list \<Rightarrow> bool" where
  "conforms fn xs \<longleftrightarrow> list_all2 has_jtype xs (fst (c_params fn))"

definition start_fns :: "native_fn set" where
  "start_fns = {fn_j_session_start, fn_j_rag_session_start, fn_j_agent_session_start,
     fn_j_ffi_stream_start}"

definition unchecked_fns :: "native_fn set" where
  "unchecked_fns = {fn_j_feature_run, fn_j_sqlite_run, fn_j_sqlite_rag}"

definition chars_nonnull :: "'s jvm \<Rightarrow> bool" where
  "chars_nonnull E \<longleftrightarrow> (\<forall>s x. r_str (fst (E (GetStringUTFChars s) x)) \<noteq> None)"

lemmas conforms_simps = conforms_def list_all2_Cons2 has_jtype_iff args0_def args_ref_def

text \<open>A VM and a state to evaluate the theorems on: every call succeeds, a started session gets id 1,
  and thread 2 runs while one token stream and one traced stream are live.\<close>

definition demo_jvm :: "unit jvm" where
  "demo_jvm c s = (\<lparr>r_ref = 7,
     r_int = (case c of Dni d \<Rightarrow> if dni_user_data d = None then 0 else 1 | _ \<Rightarrow> 0),
     r_str = Some (3, ''abc'')\<rparr>, s)"

definition demo_shim :: "unit shim" where
  "demo_shim = \<lparr>ext_state = (), log = [], g_jvm = 5, tls_key_created = False,
     tls_value = (\<lambda>_. 0), cur_thread = 2,
     heap = [4 \<mapsto> TokenCell \<lparr>listener_ref = 21, on_token = 22\<rparr>,
             6 \<mapsto> TraceCell \<lparr>trace_listener_ref = 31, on_trace = 32\<rparr>],
     ub = False\<rparr>"

lemmas demo_defs = demo_jvm_def demo_shim_def


text \<open>C2. The four methods that start a session, when \<open>malloc\<close> returns fresh memory: if the result
  is an error code nothing is left behind, the callback cell and the global reference included; if it
  is a session id the method leaves exactly one new heap cell, which holds the one global reference
  it still owns and whose address is the user data the engine was given.\<close>

theorem start_methods_ownership:
  assumes "malloc_fresh E w"
  shows "start_ok token_cell (j_session_start E p mt t l) w \<and>
    start_ok token_cell (j_rag_session_start E p mt t l) w \<and>
    start_ok token_cell (j_agent_session_start E p l) w \<and>
    start_ok trace_cell (j_ffi_stream_start E p mt l) w"
  using assms
  by (simp_all add: j_session_start_def j_rag_session_start_def start_streaming_eq
      j_agent_session_start_eq j_ffi_stream_start_eq start_session_ok)


theorem start_methods_ownership_witness:
  "result (j_session_start demo_jvm 1 16 0 2) demo_shim = 1 \<and>
   start_ok token_cell (j_session_start demo_jvm 1 16 0 2) demo_shim"
proof -
  have "malloc_fresh demo_jvm demo_shim" by (simp add: malloc_fresh_def demo_defs)
  from start_methods_ownership [OF this, of 1 16 0 2]
  have "start_ok token_cell (j_session_start demo_jvm 1 16 0 2) demo_shim" by blast
  moreover have "result (j_session_start demo_jvm 1 16 0 2) demo_shim = 1"
    by (simp add: j_session_start_def start_streaming_eq start_defs run_simps demo_defs)
  ultimately show ?thesis by blast
qed

end
