(* ===== verification/Streaming.thy ===== *)
theory Streaming
  imports Jni_Protocol Inference_Token
begin

text \<open>
  A token stream end to end. The engine side is \<^verbatim>\<open>InferenceOrchestrator.RunAsync\<close> (number the
  fragments, append the final marker) and \<^verbatim>\<open>ExportsFfi.DrainAsync\<close> / \<^verbatim>\<open>Invoke\<close> (one native callback
  per token; a cancelled or faulted stream just stops). The native side is the shim's
  \<open>ffi_token_callback\<close>, which owns the heap cell made by the start function and frees it when it has
  delivered the final marker. The theorems say what the Java listener receives and when the cell and
  its global reference are given back.
\<close>

section \<open>The engine side\<close>

text \<open>
  \<open>Invoke\<close> allocates the UTF-8 copy, calls back and frees the copy; \<open>p\<close> is the address it got. The
  copy is never \<open>NULL\<close>. \<open>InvokeTraced\<close> also passes the managed thread id and the elapsed time.
\<close>

definition Invoke :: "'s jvm \<Rightarrow> addr \<Rightarrow> addr \<Rightarrow> InferenceToken \<Rightarrow> ('s, unit) jni" where
  "Invoke E userData p t = ffi_token_callback E userData
     \<lparr>tok_index = Index t, tok_text = Some (p, Text t), tok_is_final = (if IsFinal t then 1 else 0)\<rparr>"

definition InvokeTraced :: "'s jvm \<Rightarrow> addr \<Rightarrow> addr \<times> int \<times> int \<Rightarrow> InferenceToken \<Rightarrow> ('s, unit) jni" where
  "InvokeTraced E userData q t = (case q of (p, tid, us) \<Rightarrow> ffi_trace_callback E userData
     \<lparr>tok_index = Index t, tok_text = Some (p, Text t), tok_is_final = (if IsFinal t then 1 else 0),
      tr_managed_thread_id = tid, tr_elapsed_us = us\<rparr>)"

text \<open>
  \<open>await foreach\<close> over a channel that yields \<open>n\<close> of the tokens before it completes, is cancelled or
  faults. \<open>env\<close> gives what each invocation draws from the runtime (the address of the text copy, the
  thread id and the clock).
\<close>

fun await_foreach :: "(nat \<Rightarrow> 't \<Rightarrow> ('w, unit) state) \<Rightarrow> nat \<Rightarrow> 't list \<Rightarrow> ('w, unit) state" where
  "await_foreach body n [] = State_Monad.return ()"
| "await_foreach body 0 (t # ts) = State_Monad.return ()"
| "await_foreach body (Suc n) (t # ts) = do { body n t; await_foreach body n ts }"

definition DrainAsync :: "'s jvm \<Rightarrow> addr \<Rightarrow> (nat \<Rightarrow> addr) \<Rightarrow> nat \<Rightarrow> InferenceToken list \<Rightarrow> ('s, unit) jni" where
  "DrainAsync E u env n ts = await_foreach (\<lambda>i t. Invoke E u (env i) t) n ts"

definition DrainTracedAsync ::
    "'s jvm \<Rightarrow> addr \<Rightarrow> (nat \<Rightarrow> addr \<times> int \<times> int) \<Rightarrow> nat \<Rightarrow> InferenceToken list \<Rightarrow> ('s, unit) jni" where
  "DrainTracedAsync E u env n ts = await_foreach (\<lambda>i t. InvokeTraced E u (env i) t) n ts"

lemma await_foreach_append:
  "length ts \<le> n \<Longrightarrow> exec (await_foreach body n (ts @ us)) w =
     exec (await_foreach body (n - length ts) us) (exec (await_foreach body n ts) w)"
  by (induction body n ts arbitrary: w rule: await_foreach.induct) (auto simp: run_simps)

section \<open>What a log shows of the listener\<close>

fun listener_calls :: "(jni_call \<times> jni_reply) list \<Rightarrow> (ref \<times> ref \<times> jvalue list) list" where
  "listener_calls [] = []"
| "listener_calls ((c, r) # l) =
     (case c of CallVoidMethod g m xs \<Rightarrow> [(g, m, xs)] | _ \<Rightarrow> []) @ listener_calls l"

fun strings_made :: "(jni_call \<times> jni_reply) list \<Rightarrow> (string \<times> ref) list" where
  "strings_made [] = []"
| "strings_made ((c, r) # l) =
     (case c of NewStringUTF b \<Rightarrow> [(b, r_ref r)] | _ \<Rightarrow> []) @ strings_made l"

fun refs_deleted :: "(jni_call \<times> jni_reply) list \<Rightarrow> ref list" where
  "refs_deleted [] = []"
| "refs_deleted ((c, r) # l) = (case c of DeleteGlobalRef g \<Rightarrow> [g] | _ \<Rightarrow> []) @ refs_deleted l"

text \<open>No listener is called once a global reference has been deleted.\<close>

fun calls_before_delete :: "(jni_call \<times> jni_reply) list \<Rightarrow> bool" where
  "calls_before_delete [] = True"
| "calls_before_delete ((c, r) # l) =
     ((case c of DeleteGlobalRef g \<Rightarrow> listener_calls l = [] | _ \<Rightarrow> True) \<and> calls_before_delete l)"

lemma view_append [simp]:
  "listener_calls (l @ k) = listener_calls l @ listener_calls k"
  "strings_made (l @ k) = strings_made l @ strings_made k"
  "refs_deleted (l @ k) = refs_deleted l @ refs_deleted k"
  by (induction l) auto

lemma calls_before_delete_append [simp]:
  "calls_before_delete (l @ k) \<longleftrightarrow> calls_before_delete l \<and> calls_before_delete k \<and>
     (refs_deleted l = [] \<or> listener_calls k = [])"
  by (induction l) (auto split: jni_call.splits)

lemma calls_before_no_delete: "refs_deleted l = [] \<Longrightarrow> calls_before_delete l"
  by (induction l) (auto split: jni_call.splits)

section \<open>One callback\<close>

lemma attach_frame:
  assumes "w' = exec (attach_current_thread E) w"
  shows "heap w' = heap w" "ub w' = ub w" "g_jvm w' = g_jvm w" "cur_thread w' = cur_thread w"
    "\<exists>l. log w' = log w @ l \<and> listener_calls l = [] \<and> strings_made l = [] \<and> refs_deleted l = []"
  unfolding assms
  by (simp_all add: attach_current_thread_def pthread_once_tls_def create_tls_key_def
      pthread_setspecific_def run_simps)

text \<open>The VM can take a delivery: the thread has an environment and a Java string can be made.\<close>

definition delivers :: "'s jvm \<Rightarrow> bool" where
  "delivers E \<longleftrightarrow>
     (\<forall>w. g_jvm w \<noteq> NULL \<longrightarrow> result (attach_current_thread E) w \<noteq> NULL) \<and>
     (\<forall>b s. r_ref (fst (E (NewStringUTF b) s)) \<noteq> NULL)"

text \<open>What the listener sees of one token: the call it gets and the Java string made for it.\<close>

definition fits_token :: "CallbackState \<Rightarrow> InferenceToken \<Rightarrow> ref \<times> ref \<times> jvalue list \<Rightarrow> string \<times> ref \<Rightarrow> bool" where
  "fits_token st t c s \<longleftrightarrow> fst s = Text t \<and>
     c = (listener_ref st, on_token st, [JInt (Index t), JRef (snd s), JBool (IsFinal t)])"

definition fits_trace :: "TraceCallbackState \<Rightarrow> InferenceToken \<Rightarrow> ref \<times> ref \<times> jvalue list \<Rightarrow> string \<times> ref \<Rightarrow> bool" where
  "fits_trace st t c s \<longleftrightarrow> fst s = Text t \<and>
     (\<exists>tid us. c = (trace_listener_ref st, on_trace st,
        [JInt (Index t), JRef (snd s), JLong tid, JLong us, JBool (IsFinal t)]))"

text \<open>The listener received exactly these tokens, in order, and each call passed the Java string
  made for its token.\<close>

definition delivered :: "(InferenceToken \<Rightarrow> ref \<times> ref \<times> jvalue list \<Rightarrow> string \<times> ref \<Rightarrow> bool) \<Rightarrow>
    InferenceToken list \<Rightarrow> (jni_call \<times> jni_reply) list \<Rightarrow> bool" where
  "delivered fits ts l \<longleftrightarrow> length (listener_calls l) = length (strings_made l) \<and>
     list_all2 (\<lambda>t cs. fits t (fst cs) (snd cs)) ts (zip (listener_calls l) (strings_made l))"

lemma delivered_append:
  "delivered fits ts l \<Longrightarrow> delivered fits us k \<Longrightarrow> delivered fits (ts @ us) (l @ k)"
  by (simp add: delivered_def list_all2_appendI)

text \<open>
  The contract of a streaming callback: while the cell is live and the VM can take deliveries, an
  invocation delivers its token once, and gives the cell and its reference back exactly when the
  token is the final marker.
\<close>

locale stream_callback =
  fixes inv :: "'s jvm \<Rightarrow> addr \<Rightarrow> 'e \<Rightarrow> InferenceToken \<Rightarrow> ('s, unit) jni"
    and cell_of :: "'c \<Rightarrow> c_cell"
    and listener_of :: "'c \<Rightarrow> ref"
    and fits :: "'c \<Rightarrow> InferenceToken \<Rightarrow> ref \<times> ref \<times> jvalue list \<Rightarrow> string \<times> ref \<Rightarrow> bool"
  assumes inv_heap: "u \<noteq> NULL \<Longrightarrow> g_jvm w \<noteq> NULL \<Longrightarrow> heap w u = Some (cell_of st) \<Longrightarrow> delivers E \<Longrightarrow>
      heap (exec (inv E u e t) w) = (if IsFinal t then (heap w)(u := None) else heap w)"
    and inv_frame: "u \<noteq> NULL \<Longrightarrow> g_jvm w \<noteq> NULL \<Longrightarrow> heap w u = Some (cell_of st) \<Longrightarrow> delivers E \<Longrightarrow>
      ub (exec (inv E u e t) w) = ub w \<and> g_jvm (exec (inv E u e t) w) = g_jvm w"
    and inv_log: "u \<noteq> NULL \<Longrightarrow> g_jvm w \<noteq> NULL \<Longrightarrow> heap w u = Some (cell_of st) \<Longrightarrow> delivers E \<Longrightarrow>
      \<exists>l. log (exec (inv E u e t) w) = log w @ l \<and> delivered (fits st) [t] l \<and>
        calls_before_delete l \<and> refs_deleted l = (if IsFinal t then [listener_of st] else [])"
begin

lemma prefix:
  assumes "u \<noteq> NULL" "g_jvm w \<noteq> NULL" "heap w u = Some (cell_of st)" "delivers E"
    "\<forall>t \<in> set (take n ts). \<not> IsFinal t"
    "w' = exec (await_foreach (\<lambda>i t. inv E u (env i) t) n ts) w"
  shows "heap w' = heap w \<and> ub w' = ub w \<and> g_jvm w' = g_jvm w \<and>
    (\<exists>l. log w' = log w @ l \<and> refs_deleted l = [] \<and> delivered (fits st) (take n ts) l)"
  using assms
proof (induction ts arbitrary: w n)
  case Nil
  then show ?case by (simp add: run_simps delivered_def)
next
  case (Cons t ts)
  show ?case
  proof (cases n)
    case 0
    with Cons.prems show ?thesis by (simp add: run_simps delivered_def)
  next
    case (Suc m)
    define w1 where "w1 = exec (inv E u (env m) t) w"
    have nf: "\<not> IsFinal t" and nfs: "\<forall>t \<in> set (take m ts). \<not> IsFinal t"
      using Cons.prems(5) Suc by auto
    note live = Cons.prems(1-4)
    have h1: "heap w1 = heap w" "g_jvm w1 = g_jvm w" "ub w1 = ub w"
      using inv_heap [OF live] inv_frame [OF live] nf by (auto simp: w1_def)
    obtain l where l: "log w1 = log w @ l" "delivered (fits st) [t] l" "refs_deleted l = []"
      using inv_log [OF live, of "env m" t] nf by (auto simp: w1_def)
    have w': "w' = exec (await_foreach (\<lambda>i t. inv E u (env i) t) m ts) w1"
      using Cons.prems(6) Suc by (simp add: run_simps w1_def)
    note IH = Cons.IH [of w1, unfolded h1, OF live nfs w']
    from IH obtain k where "log w' = log w1 @ k" "refs_deleted k = []"
      "delivered (fits st) (take m ts) k" by blast
    with l have "log w' = log w @ (l @ k)" "refs_deleted (l @ k) = []"
      "delivered (fits st) (take n (t # ts)) (l @ k)"
      using delivered_append [of "fits st" "[t]"] Suc by auto
    with IH show ?thesis by blast
  qed
qed

lemma complete:
  assumes live: "u \<noteq> NULL" "g_jvm w \<noteq> NULL" "heap w u = Some (cell_of st)" "delivers E"
    and n: "length fragments < n"
    and w': "w' = exec (await_foreach (\<lambda>i t. inv E u (env i) t) n (RunAsync fragments)) w"
  shows "heap w' = (heap w)(u := None) \<and> ub w' = ub w \<and>
    (\<exists>l. log w' = log w @ l \<and> delivered (fits st) (RunAsync fragments) l \<and>
      refs_deleted l = [listener_of st] \<and> calls_before_delete l)"
proof -
  let ?F = "Final (int (length fragments))"
  obtain ts where ts: "RunAsync fragments = ts @ [?F]"
    "\<forall>t \<in> set ts. \<not> IsFinal t" "length ts = length fragments"
    using run_tokens_split [of 0 fragments] by (auto simp: RunAsync_def)
  define w1 where "w1 = exec (await_foreach (\<lambda>i t. inv E u (env i) t) n ts) w"
  have pre: "heap w1 = heap w \<and> ub w1 = ub w \<and> g_jvm w1 = g_jvm w \<and>
      (\<exists>l. log w1 = log w @ l \<and> refs_deleted l = [] \<and> delivered (fits st) ts l)"
    using prefix [OF live, of n ts w1 env] n ts by (simp add: w1_def)
  obtain m where m: "n - length ts = Suc m" using n ts(3) by (cases "n - length ts") auto
  have w2: "w' = exec (inv E u (env m) ?F) w1"
    using n ts m by (simp add: await_foreach_append w1_def [symmetric] w' run_simps)
  have "g_jvm w1 \<noteq> NULL" "heap w1 u = Some (cell_of st)" using live pre by auto
  note live1 = live(1) this live(4)
  obtain l where l: "log w1 = log w @ l" "refs_deleted l = []" "delivered (fits st) ts l"
    using pre by blast
  obtain k where k: "log w' = log w1 @ k" "delivered (fits st) [?F] k"
    "calls_before_delete k" "refs_deleted k = [listener_of st]"
    using inv_log [OF live1, of "env m" ?F] by (auto simp: Final_def w2)
  have "log w' = log w @ (l @ k)" "delivered (fits st) (RunAsync fragments) (l @ k)"
    "refs_deleted (l @ k) = [listener_of st]" "calls_before_delete (l @ k)"
    using l k by (simp_all add: ts(1) delivered_append calls_before_no_delete)
  moreover have "heap w' = (heap w)(u := None)" "ub w' = ub w"
    using inv_heap [OF live1] inv_frame [OF live1] pre by (auto simp: Final_def w2)
  ultimately show ?thesis by blast
qed

lemma aborted:
  assumes live: "u \<noteq> NULL" "g_jvm w \<noteq> NULL" "heap w u = Some (cell_of st)" "delivers E"
    and n: "n \<le> length fragments"
    and w': "w' = exec (await_foreach (\<lambda>i t. inv E u (env i) t) n (RunAsync fragments)) w"
  shows "heap w' u = Some (cell_of st) \<and>
    (\<exists>l. log w' = log w @ l \<and> refs_deleted l = [] \<and>
      delivered (fits st) (take n (RunAsync fragments)) l)"
proof -
  obtain ts where ts: "RunAsync fragments = ts @ [Final (int (length fragments))]"
    "\<forall>t \<in> set ts. \<not> IsFinal t" "length ts = length fragments"
    using run_tokens_split [of 0 fragments] by (auto simp: RunAsync_def)
  have "\<forall>t \<in> set (take n (RunAsync fragments)). \<not> IsFinal t"
    using ts n by (auto dest: in_set_takeD)
  from prefix [OF live this w'] show ?thesis using live(3) by auto
qed

end

lemmas callback_defs = ffi_token_callback_def ffi_trace_callback_def load_token_def load_trace_def
  clear_exception_def c_free_def c_text_def

interpretation token: stream_callback "Invoke :: 's jvm \<Rightarrow> _" TokenCell listener_ref fits_token
proof
  fix u :: addr and w :: "'s shim" and E :: "'s jvm" and st e and t :: InferenceToken
  assume live: "u \<noteq> NULL" "g_jvm w \<noteq> NULL" "heap w u = Some (TokenCell st)" "delivers E"
  define w1 where "w1 = exec (attach_current_thread E) w"
  note fr = attach_frame [OF w1_def]
  obtain l where l: "log w1 = log w @ l" "listener_calls l = []" "strings_made l = []"
    "refs_deleted l = []" using fr(5) by blast
  have env: "result (attach_current_thread E) w \<noteq> NULL"
    using live by (simp add: delivers_def)
  obtain j s1 where j: "E (NewStringUTF (Text t)) (ext_state w1) = (j, s1)" by fastforce
  have jn: "r_ref j \<noteq> NULL" using live(4) j unfolding delivers_def by (metis fst_conv)
  note run = Invoke_def callback_defs run_simps w1_def [symmetric] fr l env j jn live(1-3) fits_token_def
  show "heap (exec (Invoke E u e t) w) = (if IsFinal t then (heap w)(u := None) else heap w)"
    by (simp add: run)
  show "ub (exec (Invoke E u e t) w) = ub w \<and> g_jvm (exec (Invoke E u e t) w) = g_jvm w"
    by (simp add: run)
  show "\<exists>l. log (exec (Invoke E u e t) w) = log w @ l \<and> delivered (fits_token st) [t] l \<and>
      calls_before_delete l \<and> refs_deleted l = (if IsFinal t then [listener_ref st] else [])"
    by (auto simp: run delivered_def calls_before_no_delete)
qed

interpretation traced: stream_callback "InvokeTraced :: 's jvm \<Rightarrow> _" TraceCell trace_listener_ref fits_trace
proof
  fix u :: addr and w :: "'s shim" and E :: "'s jvm" and st and t :: InferenceToken and e :: "addr \<times> int \<times> int"
  assume live: "u \<noteq> NULL" "g_jvm w \<noteq> NULL" "heap w u = Some (TraceCell st)" "delivers E"
  define w1 where "w1 = exec (attach_current_thread E) w"
  note fr = attach_frame [OF w1_def]
  obtain l where l: "log w1 = log w @ l" "listener_calls l = []" "strings_made l = []"
    "refs_deleted l = []" using fr(5) by blast
  have env: "result (attach_current_thread E) w \<noteq> NULL"
    using live by (simp add: delivers_def)
  obtain p tid us where e: "e = (p, tid, us)" by (cases e)
  obtain j s1 where j: "E (NewStringUTF (Text t)) (ext_state w1) = (j, s1)" by fastforce
  have jn: "r_ref j \<noteq> NULL" using live(4) j unfolding delivers_def by (metis fst_conv)
  note run = InvokeTraced_def callback_defs run_simps w1_def [symmetric] fr l env j jn live(1-3)
    fits_trace_def e
  show "heap (exec (InvokeTraced E u e t) w) = (if IsFinal t then (heap w)(u := None) else heap w)"
    by (simp add: run)
  show "ub (exec (InvokeTraced E u e t) w) = ub w \<and> g_jvm (exec (InvokeTraced E u e t) w) = g_jvm w"
    by (simp add: run)
  show "\<exists>l. log (exec (InvokeTraced E u e t) w) = log w @ l \<and> delivered (fits_trace st) [t] l \<and>
      calls_before_delete l \<and> refs_deleted l = (if IsFinal t then [trace_listener_ref st] else [])"
    by (auto simp: run delivered_def calls_before_no_delete)
qed

section \<open>Whole streams\<close>

text \<open>A stream that runs to its end: the Java listener receives every fragment in order, numbered
  from 0, and then the final marker; the global reference is deleted exactly once, after the last
  delivery; the heap cell is freed and no memory is touched after it is freed.\<close>

theorem stream_completes:
  assumes "u \<noteq> NULL" "g_jvm w \<noteq> NULL" "heap w u = Some (TokenCell st)" "delivers E"
    "length fragments < n" "w' = exec (DrainAsync E u env n (RunAsync fragments)) w"
  shows "heap w' = (heap w)(u := None) \<and> ub w' = ub w \<and>
    (\<exists>l. log w' = log w @ l \<and> delivered (fits_token st) (RunAsync fragments) l \<and>
      refs_deleted l = [listener_ref st] \<and> calls_before_delete l)"
  using assms(6) unfolding DrainAsync_def by (rule token.complete [OF assms(1-5)])

text \<open>The same for the instrumented stream, whose callback receives the thread id and the elapsed
  time before the final flag.\<close>

theorem traced_stream_completes:
  assumes "u \<noteq> NULL" "g_jvm w \<noteq> NULL" "heap w u = Some (TraceCell st)" "delivers E"
    "length fragments < n" "w' = exec (DrainTracedAsync E u env n (RunAsync fragments)) w"
  shows "heap w' = (heap w)(u := None) \<and> ub w' = ub w \<and>
    (\<exists>l. log w' = log w @ l \<and> delivered (fits_trace st) (RunAsync fragments) l \<and>
      refs_deleted l = [trace_listener_ref st] \<and> calls_before_delete l)"
  using assms(6) unfolding DrainTracedAsync_def by (rule traced.complete [OF assms(1-5)])

text \<open>A stream that is cancelled or faults before its final marker, however far it got: the cell
  and its global reference are still held, no deletion was made, and since the engine makes no further
  callback nothing in the shim will release them.\<close>

theorem stream_aborted_keeps_cell:
  assumes "u \<noteq> NULL" "g_jvm w \<noteq> NULL" "heap w u = Some (TokenCell st)" "delivers E"
    "n \<le> length fragments" "w' = exec (DrainAsync E u env n (RunAsync fragments)) w"
  shows "heap w' u = Some (TokenCell st) \<and>
    (\<exists>l. log w' = log w @ l \<and> refs_deleted l = [] \<and>
      delivered (fits_token st) (take n (RunAsync fragments)) l)"
  using assms(6) unfolding DrainAsync_def by (rule token.aborted [OF assms(1-5)])

lemma delivers_demo_jvm: "delivers demo_jvm"
  by (simp add: delivers_def demo_jvm_def attach_current_thread_def run_simps jni_const_defs
      pthread_once_tls_def create_tls_key_def)

theorem stream_completes_witness:
  "heap (exec (DrainAsync demo_jvm 4 (\<lambda>_. 9) 3 (RunAsync [''a'', ''b''])) demo_shim) 4 = None"
  using stream_completes [OF _ _ _ delivers_demo_jvm _ refl, of 4 demo_shim _ "[''a'', ''b'']" 3 "\<lambda>_. 9"]
  by (simp add: demo_shim_def)

theorem traced_stream_completes_witness:
  "heap (exec (DrainTracedAsync demo_jvm 6 (\<lambda>i. (9, 4, int i)) 2 (RunAsync [''a''])) demo_shim) 6 = None"
  using traced_stream_completes [OF _ _ _ delivers_demo_jvm _ refl,
      of 6 demo_shim _ "[''a'']" 2 "\<lambda>i. (9, 4, int i)"]
  by (simp add: demo_shim_def)

theorem stream_aborted_keeps_cell_witness:
  "heap (exec (DrainAsync demo_jvm 4 (\<lambda>_. 9) 1 (RunAsync [''a'', ''b''])) demo_shim) 4
     = Some (TokenCell \<lparr>listener_ref = 21, on_token = 22\<rparr>)"
  using stream_aborted_keeps_cell [OF _ _ _ delivers_demo_jvm _ refl,
      of 4 demo_shim _ 1 "[''a'', ''b'']" "\<lambda>_. 9"]
  by (simp add: demo_shim_def)

end
