(* ===== verification/Binary32.thy ===== *)
theory Binary32
  imports Prelude "HOL-Library.Log_Nat"
begin

text \<open>
  The C type \<open>float\<close> as IEEE 754 binary32, on the bit pattern: classification, the exact value of a
  finite number as an integer multiple of \<open>2 ^ - 149\<close>, rounding to nearest with ties to even,
  addition and subtraction, comparison. Also the theory of correctly rounded conversions that the
  16-bit formats use: when a value table is linear between neighbouring codes of a coarser format,
  rounding the code rounds the value.
\<close>

unbundle bit_operations_syntax

type_synonym f32 = "32 word"

section \<open>Bit patterns\<close>

definition f32_mag_bits :: "f32 \<Rightarrow> nat" where
  "f32_mag_bits w = unat w mod 2 ^ 31"

definition f32_neg :: "f32 \<Rightarrow> bool" where
  "f32_neg w = (unat w \<ge> 2 ^ 31)"

definition f32_inf_bits :: nat where "f32_inf_bits = 255 * 2 ^ 23"

definition f32_is_nan :: "f32 \<Rightarrow> bool" where
  "f32_is_nan w = (f32_mag_bits w > f32_inf_bits)"

definition f32_is_inf :: "f32 \<Rightarrow> bool" where
  "f32_is_inf w = (f32_mag_bits w = f32_inf_bits)"

definition f32_is_finite :: "f32 \<Rightarrow> bool" where
  "f32_is_finite w = (f32_mag_bits w < f32_inf_bits)"

text \<open>
  The magnitude of a code (exponent and fraction field together) of a format with \<open>p\<close> fraction bits,
  in units of its smallest subnormal. For binary32 the unit is \<open>2 ^ - 149\<close>.
\<close>

definition fp_mag :: "nat \<Rightarrow> nat \<Rightarrow> nat" where
  "fp_mag p u = (if u < 2 ^ p then u else (2 ^ p + u mod 2 ^ p) * 2 ^ (u div 2 ^ p - 1))"

definition f32_mag :: "nat \<Rightarrow> nat" where
  "f32_mag u = fp_mag 23 u"

definition f32_val :: "f32 \<Rightarrow> int" where
  "f32_val w = (if f32_neg w then - int (f32_mag (f32_mag_bits w)) else int (f32_mag (f32_mag_bits w)))"

section \<open>Rounding and arithmetic\<close>

text \<open>The quotient \<open>n / d\<close> rounded to the nearest integer, ties to even.\<close>

definition rne_div :: "nat \<Rightarrow> nat \<Rightarrow> nat" where
  "rne_div n d = (let q = n div d; r = n mod d in
     if 2 * r > d \<or> (2 * r = d \<and> odd q) then q + 1 else q)"

text \<open>The code of the binary32 number nearest to \<open>n\<close> units; from the largest finite number's upper
  half-unit on, infinity.\<close>

definition round_f32 :: "nat \<Rightarrow> nat" where
  "round_f32 n = (if n < 2 ^ 24 then n else
     (let k = floorlog 2 n - 24 in min f32_inf_bits (k * 2 ^ 23 + rne_div n (2 ^ k))))"

definition f32_of_bits :: "bool \<Rightarrow> nat \<Rightarrow> f32" where
  "f32_of_bits neg u = of_nat (u + (if neg then 2 ^ 31 else 0))"

definition f32_qnan :: f32 where "f32_qnan = 0x7FC00000"

definition f32_add :: "f32 \<Rightarrow> f32 \<Rightarrow> f32" where
  "f32_add a b =
     (if f32_is_nan a \<or> f32_is_nan b then f32_qnan
      else if f32_is_inf a then (if f32_is_inf b \<and> f32_neg a \<noteq> f32_neg b then f32_qnan else a)
      else if f32_is_inf b then b
      else (let v = f32_val a + f32_val b in
        if v = 0 then f32_of_bits (f32_neg a \<and> f32_neg b) 0
        else f32_of_bits (v < 0) (round_f32 (nat \<bar>v\<bar>))))"

definition f32_uminus :: "f32 \<Rightarrow> f32" where
  "f32_uminus a = a + 0x80000000"

definition f32_sub :: "f32 \<Rightarrow> f32 \<Rightarrow> f32" where
  "f32_sub a b = f32_add a (f32_uminus b)"

definition f32_lt :: "f32 \<Rightarrow> f32 \<Rightarrow> bool" where
  "f32_lt a b =
     (if f32_is_nan a \<or> f32_is_nan b then False
      else if f32_is_inf a \<and> f32_is_inf b then f32_neg a \<and> \<not> f32_neg b
      else if f32_is_inf a then f32_neg a
      else if f32_is_inf b then \<not> f32_neg b
      else f32_val a < f32_val b)"

section \<open>Words and their fields\<close>

lemma f32_mag_bits_less: "f32_mag_bits w < 2 ^ 31"
  by (simp add: f32_mag_bits_def)

lemma f32_of_bits_fields:
  assumes "u < 2 ^ 31"
  shows "f32_mag_bits (f32_of_bits neg u) = u" "f32_neg (f32_of_bits neg u) = neg"
proof -
  have "unat (f32_of_bits neg u) = u + (if neg then 2 ^ 31 else 0)"
    using assms by (simp add: f32_of_bits_def unat_of_nat del: of_nat_add)
  then show "f32_mag_bits (f32_of_bits neg u) = u" "f32_neg (f32_of_bits neg u) = neg"
    using assms by (auto simp: f32_mag_bits_def f32_neg_def)
qed

lemma f32_val_of_bits:
  "u < 2 ^ 31 \<Longrightarrow> f32_val (f32_of_bits neg u) = (if neg then - int (f32_mag u) else int (f32_mag u))"
  by (simp add: f32_val_def f32_of_bits_fields)

lemma f32_fields_unat: "unat w = f32_mag_bits w + (if f32_neg w then 2 ^ 31 else 0)"
proof -
  have "unat w < 2 ^ 32" using unsigned_less [of w, where ?'a = nat] by simp
  then show ?thesis by (auto simp: f32_mag_bits_def f32_neg_def mod_if)
qed

lemma f32_of_bits_eta: "f32_of_bits (f32_neg w) (f32_mag_bits w) = w"
proof -
  have "f32_of_bits (f32_neg w) (f32_mag_bits w) = of_nat (unat w)"
    unfolding f32_of_bits_def f32_fields_unat [of w] by simp
  then show ?thesis by simp
qed

lemma f32_uminus_fields:
  "f32_mag_bits (f32_uminus w) = f32_mag_bits w" "f32_neg (f32_uminus w) = (\<not> f32_neg w)"
proof -
  have "unat w < 2 ^ 32" using unsigned_less [of w, where ?'a = nat] by simp
  moreover have "unat (f32_uminus w) = (unat w + 2 ^ 31) mod 2 ^ 32"
    by (simp add: f32_uminus_def unat_word_ariths)
  ultimately show "f32_mag_bits (f32_uminus w) = f32_mag_bits w"
    "f32_neg (f32_uminus w) = (\<not> f32_neg w)"
    by (auto simp: f32_mag_bits_def f32_neg_def mod_if)
qed

lemma f32_val_uminus: "f32_val (f32_uminus w) = - f32_val w"
  by (simp add: f32_val_def f32_uminus_fields)

lemma or_sign32: "unat a < 2 ^ 31 \<Longrightarrow> a OR (if s then 0x80000000 else 0 :: 32 word) = f32_of_bits s (unat a)"
proof -
  assume a: "unat a < 2 ^ 31"
  have "(0x80000000 :: 32 word) = NOT (mask 31)" by (simp add: mask_eq_exp_minus_1)
  then have "a AND 0x80000000 = 0" using and_high [OF a] by simp
  then have "a + 0x80000000 = a OR 0x80000000" by (rule disjunctive_add_eq_or)
  then show ?thesis by (simp add: f32_of_bits_def)
qed

section \<open>Magnitudes\<close>

lemma cell_div: "b < D \<Longrightarrow> (a * D + b) div D = a" and cell_mod: "b < D \<Longrightarrow> (a * D + b) mod D = b"
  for a b D :: nat
  by simp_all

lemma fp_mag_split: "r < 2 ^ p \<Longrightarrow> fp_mag p ((k + 1) * 2 ^ p + r) = (2 ^ p + r) * 2 ^ k"
proof -
  assume r: "r < 2 ^ p"
  have "((k + 1) * 2 ^ p + r) mod 2 ^ p = r" using r by (rule cell_mod)
  moreover have "((k + 1) * 2 ^ p + r) div 2 ^ p = k + 1" using r by (rule cell_div)
  moreover have "\<not> (k + 1) * 2 ^ p + r < 2 ^ p" by simp
  ultimately show ?thesis unfolding fp_mag_def by simp
qed

lemma fp_code_cases:
  fixes u p :: nat
  obtains "u < 2 ^ p" | k r where "u = (k + 1) * 2 ^ p + r" "r < 2 ^ p" "u div 2 ^ p = k + 1"
proof (cases "u < 2 ^ p")
  case False
  then have "1 \<le> u div 2 ^ p" using div_le_mono [of "2 ^ p" u "2 ^ p"] by simp
  then obtain k where k: "u div 2 ^ p = k + 1" by (metis Suc_eq_plus1 Suc_le_D One_nat_def)
  show thesis
    by (rule that(2) [of k "u mod 2 ^ p"]) (use k div_mult_mod_eq [of u "2 ^ p"] in auto)
qed (rule that)

text \<open>A code step adds \<open>2 ^ k\<close> units, where \<open>k + 1\<close> is the exponent field (0 for subnormals).\<close>

lemma fp_mag_Suc: "fp_mag p (Suc u) = fp_mag p u + 2 ^ (u div 2 ^ p - 1)"
proof (cases u p rule: fp_code_cases)
  case 1
  show ?thesis
  proof (cases "Suc u < 2 ^ p")
    case True
    with 1 show ?thesis by (simp add: fp_mag_def)
  next
    case False
    with 1 have e: "Suc u = (0 + 1) * 2 ^ p + 0" by simp
    show ?thesis unfolding e using fp_mag_split [of 0 p 0] 1 e by (simp add: fp_mag_def)
  qed
next
  case (2 k r)
  have m: "fp_mag p u = (2 ^ p + r) * 2 ^ k" using fp_mag_split [OF 2(2), of k] 2(1) by simp
  show ?thesis
  proof (cases "Suc r < 2 ^ p")
    case True
    have "Suc u = (k + 1) * 2 ^ p + Suc r" using 2(1) by simp
    then have "fp_mag p (Suc u) = (2 ^ p + Suc r) * 2 ^ k" using fp_mag_split [OF True, of k] by simp
    then show ?thesis using m 2(3) by simp
  next
    case False
    with 2(2) have r: "Suc r = 2 ^ p" by simp
    have "Suc u = (Suc k + 1) * 2 ^ p + 0" using 2(1) r by simp
    then have "fp_mag p (Suc u) = 2 ^ p * 2 ^ Suc k" using fp_mag_split [of 0 p "Suc k"] by simp
    moreover have "(2 ^ p + r) * 2 ^ k + 2 ^ k = (2 ^ p + Suc r) * 2 ^ k" by simp
    ultimately show ?thesis using m 2(3) r by simp
  qed
qed

lemma fp_mag_strict_mono: "strict_mono (fp_mag p)"
  by (simp add: strict_mono_Suc_iff fp_mag_Suc)

lemma fp_mag_small: "u < 2 ^ Suc p \<Longrightarrow> fp_mag p u = u"
proof (induction u)
  case (Suc u)
  have "u div 2 ^ p - 1 = 0"
  proof -
    have "u < 2 * 2 ^ p" using Suc.prems by simp
    then have "u div 2 ^ p < 2" by (simp add: less_mult_imp_div_less)
    then show ?thesis by simp
  qed
  with Suc show ?case by (simp add: fp_mag_Suc)
qed (simp add: fp_mag_def)

text \<open>The code of \<open>q * 2 ^ k\<close> for a full significand \<open>q\<close>, the carry into the next binade included.\<close>

lemma fp_mag_scaled:
  assumes "2 ^ p \<le> q" "q \<le> 2 ^ Suc p"
  shows "fp_mag p (k * 2 ^ p + q) = q * 2 ^ k"
proof (cases "q = 2 ^ Suc p")
  case True
  then have "k * 2 ^ p + q = (Suc k + 1) * 2 ^ p + 0" by simp
  then have "fp_mag p (k * 2 ^ p + q) = 2 ^ p * 2 ^ Suc k"
    using fp_mag_split [of 0 p "Suc k"] by (simp only: add_0_right zero_less_power zero_less_numeral)
  then show ?thesis using True by simp
next
  case False
  with assms have r: "q - 2 ^ p < 2 ^ p" by simp
  have "k * 2 ^ p + q = (k + 1) * 2 ^ p + (q - 2 ^ p)" using assms by simp
  then show ?thesis using fp_mag_split [OF r, of k] assms by simp
qed

lemma fp_mag_linear:
  "u mod 2 ^ p + r \<le> 2 ^ p \<Longrightarrow> fp_mag p (u + r) = fp_mag p u + r * 2 ^ (u div 2 ^ p - 1)"
proof (induction r)
  case (Suc r)
  have "(u + r) div 2 ^ p = u div 2 ^ p"
  proof -
    have "u + r = u div 2 ^ p * 2 ^ p + (u mod 2 ^ p + r)"
      using div_mult_mod_eq [of u "2 ^ p"] by linarith
    moreover have "u mod 2 ^ p + r < 2 ^ p" using Suc.prems by simp
    ultimately show ?thesis by (metis cell_div)
  qed
  with Suc show ?case by (simp add: fp_mag_Suc)
qed simp

section \<open>Correct rounding\<close>

text \<open>
  \<open>b\<close> is the code, among \<open>0..N\<close> with values \<open>V\<close>, of the value nearest to \<open>n\<close>; in a tie \<open>b\<close> is even.
\<close>

definition nearest_even :: "(nat \<Rightarrow> nat) \<Rightarrow> nat \<Rightarrow> nat \<Rightarrow> nat \<Rightarrow> bool" where
  "nearest_even V N n b \<longleftrightarrow> b \<le> N \<and>
     (\<forall>c \<le> N. \<bar>int n - int (V b)\<bar> \<le> \<bar>int n - int (V c)\<bar>) \<and>
     (\<forall>c \<le> N. c \<noteq> b \<and> \<bar>int n - int (V b)\<bar> = \<bar>int n - int (V c)\<bar> \<longrightarrow> even b)"

lemma nearest_even_between:
  assumes mono: "strict_mono V" and lo: "V c \<le> n" and hi: "n < V (Suc c)" and N: "Suc c \<le> N"
    and b: "b = (if V (Suc c) - n < n - V c \<or> (V (Suc c) - n = n - V c \<and> odd c) then Suc c else c)"
  shows "nearest_even V N n b"
proof -
  have below: "V c' \<le> V c" if "c' \<le> c" for c'
    using mono that by (simp add: strict_mono_less_eq)
  have above: "V (Suc c) \<le> V c'" if "\<not> c' \<le> c" for c'
    using mono that by (simp add: strict_mono_less_eq)
  have below': "V c' < V c" if "c' < c" for c'
    using mono that by (simp add: strict_mono_less)
  have above': "V (Suc c) < V c'" if "Suc c < c'" for c'
    using mono that by (simp add: strict_mono_less)
  have opt: "\<bar>int n - int (V b)\<bar> \<le> \<bar>int n - int (V c')\<bar>" for c'
    using below [of c'] above [of c'] lo hi b by (cases "c' \<le> c") (auto split: if_splits)
  have tie: "even b" if "c' \<noteq> b" "\<bar>int n - int (V b)\<bar> = \<bar>int n - int (V c')\<bar>" for c'
  proof -
    consider "c' < c" | "c' = c" | "c' = Suc c" | "Suc c < c'" by linarith
    then show ?thesis
      using that lo hi b below' [of c'] above' [of c'] by cases (auto split: if_splits)
  qed
  show ?thesis
    using opt tie b N by (auto simp: nearest_even_def split: if_splits)
qed

text \<open>Rounding a fine code to a coarse one rounds the value, when the values are linear in between.\<close>

lemma nearest_even_step:
  assumes mono: "strict_mono V" and n: "n = V c + r * s" and step: "V (Suc c) = V c + d * s"
    and r: "r < d" and s: "0 < s" and N: "Suc c \<le> N" and x: "x = c * d + r"
  shows "nearest_even V N n (rne_div x d)"
proof (rule nearest_even_between [OF mono _ _ N])
  show "V c \<le> n" using n by simp
  show "n < V (Suc c)" using n step r s by simp
  have q: "x div d = c" "x mod d = r" using r x by auto
  have "V (Suc c) - n = (d - r) * s" "n - V c = r * s"
    using n step by (simp_all add: diff_mult_distrib)
  then have "(V (Suc c) - n < n - V c) = (d < 2 * r)" "(V (Suc c) - n = n - V c) = (2 * r = d)"
    using r s by auto
  then show "rne_div x d = (if V (Suc c) - n < n - V c \<or> (V (Suc c) - n = n - V c \<and> odd c) then Suc c else c)"
    by (simp add: rne_div_def q)
qed

lemma nearest_even_exact:
  assumes "strict_mono V" "nearest_even V N (V c) b" "c \<le> N"
  shows "b = c"
proof -
  have "\<bar>int (V c) - int (V b)\<bar> \<le> \<bar>int (V c) - int (V c)\<bar>"
    using assms(2,3) by (auto simp: nearest_even_def)
  then have "V b = V c" by simp
  then show ?thesis using assms(1) by (simp add: strict_mono_eq)
qed

lemma rne_bias:
  assumes "0 < h" shows "rne_div x (2 * h) = (x + (h - 1) + (x div (2 * h)) mod 2) div (2 * h)"
proof -
  define d q r where "d = 2 * h" and "q = x div d" and "r = x mod d"
  have r: "r < d" using assms by (simp add: d_def r_def)
  have x: "x = q * d + r" unfolding q_def r_def by (rule div_mult_mod_eq [symmetric])
  have "(x + (h - 1) + q mod 2) div d = q + (r + (h - 1) + q mod 2) div d"
    using r unfolding x by (simp add: add.assoc)
  also have "(r + (h - 1) + q mod 2) div d = (if 2 * r > d \<or> (2 * r = d \<and> odd q) then 1 else 0)"
  proof -
    have m: "q mod 2 = (if odd q then 1 else 0)" by presburger
    show ?thesis using r assms unfolding m d_def by (auto simp: div_nat_eqI intro!: div_nat_eqI)
  qed
  finally show ?thesis by (simp add: rne_div_def Let_def q_def r_def d_def)
qed

lemma rne_div_add: "even a \<Longrightarrow> 0 < d \<Longrightarrow> rne_div (a * d + n) d = a + rne_div n d"
  by (auto simp: rne_div_def Let_def)

lemma rne_div_le: "0 < d \<Longrightarrow> x \<le> q * d \<Longrightarrow> rne_div x d \<le> q"
proof -
  assume d: "0 < d" and x: "x \<le> q * d"
  show ?thesis
  proof (cases "x = q * d")
    case True
    then show ?thesis using d by (simp add: rne_div_def)
  next
    case False
    with x have "x < q * d" by simp
    then have "x div d < q" by (simp add: less_mult_imp_div_less)
    then show ?thesis by (auto simp: rne_div_def Let_def)
  qed
qed

lemma nearest_even_top:
  assumes mono: "strict_mono V" and n: "V N \<le> n"
  shows "nearest_even V N n N"
proof -
  have "V c \<le> V N" if "c \<le> N" for c using mono that by (simp add: strict_mono_less_eq)
  moreover have "V c < V N" if "c \<le> N" "c \<noteq> N" for c using mono that by (simp add: strict_mono_less)
  ultimately show ?thesis using n unfolding nearest_even_def by fastforce
qed

text \<open>Rounding to binary32 is exact on representable magnitudes.\<close>

lemma rne_div_mult: "0 < d \<Longrightarrow> rne_div (q * d) d = q"
  by (simp add: rne_div_def)

lemma round_f32_scaled:
  assumes "2 ^ 23 \<le> q" "q < 2 ^ 24" "k * 2 ^ 23 + q < f32_inf_bits"
  shows "round_f32 (q * 2 ^ k) = k * 2 ^ 23 + q"
proof (cases "q * 2 ^ k < 2 ^ 24")
  case True
  show ?thesis
  proof (cases k)
    case 0
    with True show ?thesis by (simp add: round_f32_def)
  next
    case (Suc j)
    have "2 ^ 23 * 2 \<le> q * 2 ^ k" using assms(1) Suc by (intro mult_le_mono) auto
    with True show ?thesis by simp
  qed
next
  case False
  have "floorlog 2 q \<le> 24" using assms(2) by (intro floorlog_leI) auto
  moreover have "24 \<le> floorlog 2 q" using assms(1) by (intro floorlog_geI) auto
  ultimately have "floorlog 2 (q * 2 ^ k) = 24 + k" using assms(1) by simp
  then show ?thesis using False assms by (simp add: round_f32_def rne_div_mult Let_def)
qed

lemma round_f32_exact:
  assumes "0 < c" "c < 2 ^ 24" "k + 24 < 254" "24 \<le> k"
  shows "f32_mag (round_f32 (c * 2 ^ k)) = c * 2 ^ k" "round_f32 (c * 2 ^ k) < f32_inf_bits"
proof -
  define L where "L = floorlog 2 c"
  have "L \<le> 24" unfolding L_def using assms by (intro floorlog_leI) auto
  moreover have "0 < L" using assms by (simp add: L_def floorlog_def)
  ultimately have L: "L \<le> 24" "0 < L" by simp_all
  define q where "q = c * 2 ^ (24 - L)"
  have cb: "2 ^ (L - 1) \<le> c" "c < 2 ^ L" using floorlog_bounds [of c 2] assms by (auto simp: L_def)
  have "2 ^ (L - 1) * 2 ^ (24 - L) \<le> q" unfolding q_def using cb by (intro mult_le_mono) auto
  then have q1: "2 ^ 23 \<le> q" using L by (simp add: power_add [symmetric])
  have "q < 2 ^ L * 2 ^ (24 - L)" unfolding q_def using cb by (intro mult_strict_right_mono) auto
  then have q2: "q < 2 ^ 24" using L by (simp add: power_add [symmetric])
  define j where "j = k - (24 - L)"
  have e: "c * 2 ^ k = q * 2 ^ j"
    unfolding q_def j_def using L assms by (simp add: mult.assoc power_add [symmetric])
  have "j * 2 ^ 23 + q < 229 * 2 ^ 23 + 2 ^ 24"
    using q2 assms unfolding j_def by (intro add_le_less_mono mult_le_mono1) auto
  then have b: "j * 2 ^ 23 + q < f32_inf_bits" by (simp add: f32_inf_bits_def)
  have R: "round_f32 (c * 2 ^ k) = j * 2 ^ 23 + q"
    unfolding e by (rule round_f32_scaled [OF q1 q2 b])
  show "round_f32 (c * 2 ^ k) < f32_inf_bits" using R b by simp
  show "f32_mag (round_f32 (c * 2 ^ k)) = c * 2 ^ k"
    unfolding R unfolding e f32_mag_def by (rule fp_mag_scaled) (use q1 q2 in simp_all)
qed

lemma round_f32_magic:
  assumes "m < 2 ^ 135" shows "round_f32 (2 ^ 148 + m) = 126 * 2 ^ 23 + rne_div m (2 ^ 125)"
proof -
  have "floorlog 2 (2 ^ 148 + m) \<le> 149" using assms by (intro floorlog_leI) auto
  moreover have "149 \<le> floorlog 2 (2 ^ 148 + m)" by (intro floorlog_geI) auto
  ultimately have "floorlog 2 (2 ^ 148 + m) = 149" by simp
  moreover have "rne_div (2 ^ 148 + m) (2 ^ 125) = 2 ^ 23 + rne_div m (2 ^ 125)"
    using rne_div_add [of "2 ^ 23" "2 ^ 125" m] by (simp add: power_add [symmetric])
  moreover have "rne_div m (2 ^ 125) \<le> 2 ^ 10"
    by (rule rne_div_le) (use assms in simp_all)
  ultimately show ?thesis by (simp add: round_f32_def Let_def f32_inf_bits_def)
qed

end
