(* ===== verification/Float16_Convert.thy ===== *)
theory Float16_Convert
  imports Float16
begin

text \<open>
  The conversions of \<^verbatim>\<open>onnxruntime_float16.h\<close> between \<open>float\<close> and the 16-bit formats. Both directions
  are first computed on the codes (\<open>half_code\<close>, \<open>float_code\<close>), where the bias tricks of the source are
  ordinary rounding of integers; the theorems then state them on values: narrowing is correctly
  rounded, widening is exact, and widening followed by narrowing is the identity.
\<close>

section \<open>The code of a converted number\<close>

text \<open>The code \<open>Float16Impl::ToUint16Impl\<close> computes from the magnitude bits of a float.\<close>

definition half_code :: "nat \<Rightarrow> nat" where
  "half_code u = (if u \<ge> 143 * 2 ^ 23 then (if u > 255 * 2 ^ 23 then 0x7e00 else 0x7c00)
     else if u < 113 * 2 ^ 23 then rne_div (f32_mag u) (2 ^ 125)
     else rne_div (u - 112 * 2 ^ 23) (2 ^ 13))"

text \<open>The magnitude bits of \<open>ToFloatImpl\<close>.\<close>

definition float_code :: "nat \<Rightarrow> nat" where
  "float_code c = (if c \<ge> 31 * 2 ^ 10 then c * 2 ^ 13 + 224 * 2 ^ 23
     else if c < 2 ^ 10 then (if c = 0 then 0 else round_f32 (c * 2 ^ 125))
     else c * 2 ^ 13 + 112 * 2 ^ 23)"

text \<open>The values of the codes of both formats, in units of \<open>2 ^ - 149\<close>.\<close>

abbreviation (input) half_value :: "nat \<Rightarrow> nat" where
  "half_value c \<equiv> fp_mag 10 c * 2 ^ 125"

abbreviation (input) bf16_value :: "nat \<Rightarrow> nat" where
  "bf16_value c \<equiv> fp_mag 7 c * 2 ^ 16"

section \<open>Narrowing to binary16\<close>

lemma magic_subnormal:
  assumes u: "unat u < 113 * 2 ^ 23"
  shows "unat (f32_add u (push_bit 23 126)) = 126 * 2 ^ 23 + rne_div (f32_mag (unat u)) (2 ^ 125)"
    and "rne_div (f32_mag (unat u)) (2 ^ 125) \<le> 2 ^ 10"
proof -
  have m: "f32_mag (unat u) < 2 ^ 135"
  proof -
    have "f32_mag (unat u) < fp_mag 23 (113 * 2 ^ 23)"
      unfolding f32_mag_def using u fp_mag_strict_mono by (simp add: strict_mono_less)
    also have "fp_mag 23 (113 * 2 ^ 23) = 2 ^ 135" by (simp add: fp_mag_def)
    finally show ?thesis .
  qed
  show le: "rne_div (f32_mag (unat u)) (2 ^ 125) \<le> 2 ^ 10"
    by (rule rne_div_le) (use m in simp_all)
  have b: "f32_mag_bits u = unat u" "f32_neg u = False"
    using u by (simp_all add: f32_mag_bits_def f32_neg_def)
  have m0: "(push_bit 23 126 :: f32) = 0x3F000000" by simp
  have c: "f32_mag_bits 0x3F000000 = 126 * 2 ^ 23" "f32_neg 0x3F000000 = False"
    by (simp_all add: f32_mag_bits_def f32_neg_def)
  have vc: "f32_val 0x3F000000 = 2 ^ 148"
    by (simp add: f32_val_def c f32_mag_def fp_mag_def)
  have vu: "f32_val u = int (f32_mag (unat u))" by (simp add: f32_val_def b)
  have "f32_add u (push_bit 23 126) = f32_of_bits False (round_f32 (2 ^ 148 + f32_mag (unat u)))"
    using u unfolding m0
    by (simp add: f32_add_def f32_is_nan_def f32_is_inf_def f32_inf_bits_def b c vu vc nat_add_distrib
        add.commute)
  then show "unat (f32_add u (push_bit 23 126)) = 126 * 2 ^ 23 + rne_div (f32_mag (unat u)) (2 ^ 125)"
    unfolding round_f32_magic [OF m] using le by (simp add: f32_of_bits_def unat_of_nat del: of_nat_add)
qed

lemma bias_normal:
  assumes u: "113 * 2 ^ 23 \<le> unat (u :: 32 word)" "unat u < 143 * 2 ^ 23"
  shows "unat (drop_bit 13 (u + 0xc8000fff + (drop_bit 13 u AND 1))) = rne_div (unat u - 112 * 2 ^ 23) (2 ^ 13)"
    and "rne_div (unat u - 112 * 2 ^ 23) (2 ^ 13) \<le> 0x7c00"
proof -
  define x where "x = unat u - 112 * 2 ^ 23"
  have ux: "unat u = x + 112 * 2 ^ 23" using u by (simp add: x_def)
  have o: "unat (drop_bit 13 u AND 1) = (x div 2 ^ 13) mod 2"
  proof -
    have "unat u div 2 ^ 13 = x div 2 ^ 13 + 114688"
      using div_mult_self1 [of "2 ^ 13" x 114688] unfolding ux by simp
    then show ?thesis
      using unat_and_mask [of "drop_bit 13 u" 1] unfolding unat_drop_bit
      by (simp add: mask_eq_exp_minus_1 mod_add_right_eq [of _ 114688, symmetric] del: mod_add_right_eq)
  qed
  have b: "x \<le> 31 * 2 ^ 23" using u ux by simp
  have o1: "(x div 2 ^ 13) mod 2 \<le> 1" by simp
  have "unat (u + 0xc8000fff + (drop_bit 13 u AND 1)) = x + (2 ^ 12 - 1) + (x div (2 * 2 ^ 12)) mod 2"
  proof -
    have "(4294971391 + x) mod 4294967296 = x + 4095" using b by (simp add: mod_if)
    then show ?thesis using b o1 ux o by (simp add: unat_word_ariths)
  qed
  then show "unat (drop_bit 13 (u + 0xc8000fff + (drop_bit 13 u AND 1))) = rne_div (unat u - 112 * 2 ^ 23) (2 ^ 13)"
    using rne_bias [of "2 ^ 12" x] unfolding unat_drop_bit x_def by simp
  show "rne_div (unat u - 112 * 2 ^ 23) (2 ^ 13) \<le> 0x7c00"
    by (rule rne_div_le) (use u in simp_all)
qed

lemma half_code_less: "half_code u < 2 ^ 15" if "u < 2 ^ 31"
proof -
  have "rne_div (f32_mag u) (2 ^ 125) \<le> 2 ^ 10" if "u < 113 * 2 ^ 23"
    using magic_subnormal(2) [of "of_nat u"] that by (simp add: unat_of_nat)
  moreover have "rne_div (u - 112 * 2 ^ 23) (2 ^ 13) \<le> 0x7c00" if "u < 143 * 2 ^ 23"
    by (rule rne_div_le) (use that in simp_all)
  ultimately show ?thesis by (auto simp: half_code_def)
qed

lemma Float16_ToUint16_code:
  "code16 (Float16_ToUint16Impl v) = half_code (f32_mag_bits v)"
  "neg16 (Float16_ToUint16Impl v) = f32_neg v"
proof -
  define u where "u = v XOR (v AND 0x80000000)"
  have uu: "unat u = f32_mag_bits v" unfolding u_def f32_mag_bits_def by (rule xor_sign32)
  define h :: "16 word" where
    "h = (if u \<ge> 0x47800000 then (if u > 0x7F800000 then 0x7e00 else 0x7c00)
          else if u < 0x38800000 then ucast (f32_add u 0x3F000000 - 0x3F000000)
          else ucast (drop_bit 13 (u + 0xc8000fff + (drop_bit 13 u AND 1))))"
  have v: "Float16_ToUint16Impl v = h OR (if f32_neg v then 0x8000 else 0)"
    unfolding Float16_ToUint16Impl_def Let_def u_def [symmetric] sign_to16 h_def by simp
  have "unat h = half_code (f32_mag_bits v)"
  proof -
    consider "143 * 2 ^ 23 \<le> unat u" | "unat u < 113 * 2 ^ 23" 
      | "113 * 2 ^ 23 \<le> unat u" "unat u < 143 * 2 ^ 23" by linarith
    then show ?thesis
    proof cases
      case 1
      then show ?thesis using uu by (simp add: h_def half_code_def word_le_nat_alt word_less_nat_alt)
    next
      case 2
      have "unat (f32_add u 0x3F000000 - 0x3F000000) = rne_div (f32_mag (unat u)) (2 ^ 125)"
        using magic_subnormal [OF 2] by (simp add: unat_sub word_le_nat_alt)
      then show ?thesis using 2 uu magic_subnormal(2) [OF 2]
        by (simp add: h_def half_code_def word_le_nat_alt word_less_nat_alt unat_ucast)
    next
      case 3
      then show ?thesis using uu bias_normal [OF 3]
        by (simp add: h_def half_code_def word_le_nat_alt word_less_nat_alt unat_ucast)
    qed
  qed
  moreover have "half_code (f32_mag_bits v) < 2 ^ 15"
    by (rule half_code_less) (rule f32_mag_bits_less)
  ultimately show "code16 (Float16_ToUint16Impl v) = half_code (f32_mag_bits v)"
    "neg16 (Float16_ToUint16Impl v) = f32_neg v"
    unfolding v by (simp_all only: set_sign16_fields)
qed

lemma half_value_mono: "strict_mono (\<lambda>c. half_value c)"
  using fp_mag_strict_mono [of 10] by (simp add: strict_mono_def)

lemma half_code_nearest:
  assumes u: "u \<le> 255 * 2 ^ 23"
  shows "nearest_even (\<lambda>c. half_value c) 0x7c00 (f32_mag u) (half_code u)"
proof -
  consider "143 * 2 ^ 23 \<le> u" | "u < 113 * 2 ^ 23" | "113 * 2 ^ 23 \<le> u" "u < 143 * 2 ^ 23" by linarith
  then show ?thesis
  proof cases
    case 1
    have "half_value 0x7c00 = fp_mag 23 (143 * 2 ^ 23)" by (simp add: fp_mag_def)
    also have "\<dots> \<le> f32_mag u"
      unfolding f32_mag_def using 1 fp_mag_strict_mono by (simp add: strict_mono_less_eq)
    finally show ?thesis using 1 u nearest_even_top [OF half_value_mono] by (simp add: half_code_def)
  next
    case 2
    define m where "m = f32_mag u"
    have "m < fp_mag 23 (113 * 2 ^ 23)"
      unfolding m_def f32_mag_def using 2 fp_mag_strict_mono by (simp add: strict_mono_less)
    also have "fp_mag 23 (113 * 2 ^ 23) = 2 ^ 10 * 2 ^ 125" by (simp add: fp_mag_def)
    finally have c: "m div 2 ^ 125 < 2 ^ 10" by (rule less_mult_imp_div_less)
    then have f: "fp_mag 10 (m div 2 ^ 125) = m div 2 ^ 125" "fp_mag 10 (Suc (m div 2 ^ 125)) = Suc (m div 2 ^ 125)"
      by (auto intro!: fp_mag_small)
    have "nearest_even (\<lambda>c. half_value c) 0x7c00 m (rne_div m (2 ^ 125))"
      by (rule nearest_even_step [OF half_value_mono, where c = "m div 2 ^ 125" and r = "m mod 2 ^ 125" and s = 1])
        (use c in \<open>simp_all only: f div_mult_mod_eq mult_1_right mult_Suc add.commute mod_less_divisor, simp_all\<close>)
    then show ?thesis using 2 by (simp add: half_code_def m_def)
  next
    case 3
    define x where "x = u - 112 * 2 ^ 23"
    have xb: "2 ^ 10 * 2 ^ 13 \<le> x" "x < 0x7c00 * 2 ^ 13" using 3 by (simp_all add: x_def)
    define c r where "c = x div 2 ^ 13" and "r = x mod 2 ^ 13"
    have xc: "x = c * 2 ^ 13 + r" unfolding c_def r_def by (rule div_mult_mod_eq [symmetric])
    have r: "r < 2 ^ 13" by (simp add: r_def)
    have c: "2 ^ 10 \<le> c" "Suc c \<le> 0x7c00"
      using xb xc r by simp_all
    then obtain k c' where k: "c = (k + 1) * 2 ^ 10 + c'" "c' < 2 ^ 10" "c div 2 ^ 10 = k + 1"
      by (metis fp_code_cases linorder_not_le)
    have V: "half_value c = (2 ^ 10 + c') * 2 ^ k * 2 ^ 125"
      using fp_mag_split [OF k(2), of k] k(1) by simp
    have uk: "u = (112 + k + 1) * 2 ^ 23 + (c' * 2 ^ 13 + r)" using 3 xc k(1) by (simp add: x_def)
    have "f32_mag u = (2 ^ 23 + (c' * 2 ^ 13 + r)) * 2 ^ (112 + k)"
      unfolding uk f32_mag_def by (rule fp_mag_split) (use k(2) r in simp)
    also have "\<dots> = half_value c + r * 2 ^ (112 + k)"
      unfolding V by (simp add: power_add algebra_simps)
    finally have n: "f32_mag u = half_value c + r * 2 ^ (112 + k)" .
    have "nearest_even (\<lambda>c. half_value c) 0x7c00 (f32_mag u) (rne_div x (2 ^ 13))"
      by (rule nearest_even_step [OF half_value_mono n _ r _ c(2) xc])
        (use k(3) in \<open>simp_all add: fp_mag_Suc power_add algebra_simps\<close>)
    then show ?thesis using 3 by (simp add: half_code_def x_def)
  qed
qed

section \<open>Widening from binary16\<close>

lemma and_exponent: "(0xF800000 :: f32) AND w = push_bit 23 (take_bit 5 (drop_bit 23 w))"
proof -
  have "(0xF800000 :: f32) = push_bit 23 (mask 5)" by (simp add: mask_eq_exp_minus_1)
  then show ?thesis using and_field [of w 23 5] by (simp only: and.commute)
qed

lemma unat_and_exponent: "unat ((0xF800000 :: f32) AND w) = unat w div 2 ^ 23 mod 32 * 2 ^ 23"
proof -
  have "unat w div 2 ^ 23 mod 32 * 2 ^ 23 < 32 * 2 ^ 23" by simp
  then show ?thesis
    unfolding and_exponent unat_push_bit by (simp add: unsigned_take_bit_eq unat_drop_bit take_bit_nat_def)
qed

lemma renormalise:
  assumes c: "c < 2 ^ 10"
  shows "unat (f32_sub (of_nat (c * 2 ^ 13 + 113 * 2 ^ 23)) 0x38800000)
    = (if c = 0 then 0 else round_f32 (c * 2 ^ 125))"
proof -
  let ?a = "f32_of_bits False (c * 2 ^ 13 + 113 * 2 ^ 23)" and ?b = "f32_of_bits True (113 * 2 ^ 23)"
  have fa: "c * 2 ^ 13 + 113 * 2 ^ 23 < (2 :: nat) ^ 31" "(113 * 2 ^ 23 :: nat) < 2 ^ 31" using c by simp_all
  have "f32_mag (c * 2 ^ 13 + 113 * 2 ^ 23) = (2 ^ 23 + c * 2 ^ 13) * 2 ^ 112"
    using fp_mag_split [of "c * 2 ^ 13" 23 112] c by (simp add: f32_mag_def add.commute)
  then have va: "f32_val ?a = int c * 2 ^ 125 + 2 ^ 135"
    using f32_val_of_bits [OF fa(1)] by simp
  have "f32_mag (113 * 2 ^ 23) = 2 ^ 135" by (simp add: f32_mag_def fp_mag_def)
  then have vb: "f32_val ?b = - (2 ^ 135)" using f32_val_of_bits [OF fa(2)] by simp
  note f = f32_of_bits_fields [OF fa(1)] f32_of_bits_fields [OF fa(2)]
  have n: "\<not> f32_is_nan ?a" "\<not> f32_is_inf ?a" "\<not> f32_is_nan ?b" "\<not> f32_is_inf ?b"
    unfolding f32_is_nan_def f32_is_inf_def f f32_inf_bits_def using c by simp_all
  have "f32_add ?a ?b = (if c = 0 then f32_of_bits False 0 else f32_of_bits False (round_f32 (c * 2 ^ 125)))"
    using va vb n f by (simp add: f32_add_def Let_def nat_mult_distrib)
  moreover have "unat (f32_of_bits False (round_f32 (c * 2 ^ 125))) = round_f32 (c * 2 ^ 125)" if "c \<noteq> 0"
    using round_f32_exact(2) [of c 125] c that by (simp add: f32_of_bits_def unat_of_nat f32_inf_bits_def)
  moreover have "f32_uminus 0x38800000 = ?b" "of_nat (c * 2 ^ 13 + 113 * 2 ^ 23) = ?a"
    by (simp_all add: f32_uminus_def f32_of_bits_def)
  ultimately show ?thesis unfolding f32_sub_def by (simp add: f32_of_bits_def)
qed

lemma float_code_less: "c < 2 ^ 15 \<Longrightarrow> float_code c < 2 ^ 31"
  using round_f32_exact(2) [of c 125] by (cases "c < 2 ^ 10") (auto simp: float_code_def f32_inf_bits_def)

lemma Float16_ToFloat_bits: "Float16_ToFloatImpl h = f32_of_bits (neg16 h) (float_code (code16 h))"
proof -
  define c where "c = code16 h"
  define o0 :: f32 where "o0 = push_bit 13 (ucast (h AND 0x7fff))"
  have c: "c < 2 ^ 15" unfolding c_def by (rule code16_less)
  have "(0x7fff :: 16 word) = mask 15" by (simp add: mask_eq_exp_minus_1)
  then have "unat (h AND 0x7fff) = c" by (simp only: unat_and_mask c_def code16_def)
  then have o0: "unat o0 = c * 2 ^ 13" using c unfolding o0_def unat_push_bit unat_ucast by simp
  have e: "unat (0xF800000 AND o0) = c div 2 ^ 10 * 2 ^ 23"
  proof -
    have "c * 2 ^ 13 div 2 ^ 23 = c div 2 ^ 10" by (simp add: div_mult2_eq [of _ 8192 1024, simplified])
    moreover have "c div 2 ^ 10 < 32" using c by (simp add: less_mult_imp_div_less)
    ultimately show ?thesis unfolding unat_and_exponent o0 by simp
  qed
  define o2 where "o2 = (if 0xF800000 AND o0 = 0xF800000 then o0 + 0x38000000 + 0x38000000
           else if 0xF800000 AND o0 = 0 then f32_sub (o0 + 0x38000000 + 0x800000) 0x38800000
           else o0 + 0x38000000)"
  have F: "Float16_ToFloatImpl h = o2 OR (if neg16 h then 0x80000000 else 0)"
    unfolding Float16_ToFloatImpl_def Let_def o0_def [symmetric] sign_to32 o2_def by simp
  have "0xF800000 AND o0 = 0xF800000 \<longleftrightarrow> c div 2 ^ 10 = 31"
    unfolding word_unat_eq_iff e by simp
  also have "\<dots> \<longleftrightarrow> c \<ge> 31 * 2 ^ 10"
    using less_eq_div_iff_mult_less_eq [of "2 ^ 10" 31 c] less_mult_imp_div_less [of c 32 "2 ^ 10"] c by auto
  finally have inf: "0xF800000 AND o0 = 0xF800000 \<longleftrightarrow> c \<ge> 31 * 2 ^ 10" .
  have sub: "0xF800000 AND o0 = 0 \<longleftrightarrow> c < 2 ^ 10"
    unfolding word_unat_eq_iff e by (simp add: div_eq_0_iff)
  have ren: "unat (f32_sub (o0 + 0x38000000 + 0x800000) 0x38800000) = (if c = 0 then 0 else round_f32 (c * 2 ^ 125))"
    if "c < 2 ^ 10"
  proof -
    have "o0 + 0x38000000 + 0x800000 = of_nat (c * 2 ^ 13 + 113 * 2 ^ 23)"
      using o0 c by (simp add: word_unat_eq_iff unat_word_ariths unat_of_nat del: of_nat_add of_nat_mult)
    then show ?thesis by (simp only: renormalise [OF that])
  qed
  have o2: "unat o2 = float_code c"
    unfolding o2_def inf sub float_code_def using o0 c ren
    by (simp add: unat_word_ariths)
  have lt: "float_code c < 2 ^ 31"
    using c by (rule float_code_less)
  show ?thesis unfolding F c_def [symmetric] using or_sign32 [of o2 "neg16 h"] o2 lt by simp
qed


lemma float_code_value:
  assumes c: "c < 31 * 2 ^ 10" shows "f32_mag (float_code c) = half_value c"
proof (cases "c < 2 ^ 10")
  case True
  then have "fp_mag 10 c = c" by (simp add: fp_mag_small)
  then show ?thesis
    using True round_f32_exact(1) [of c 125]
    by (cases "c = 0") (simp_all add: float_code_def f32_mag_def fp_mag_small)
next
  case False
  then obtain k c' where k: "c = (k + 1) * 2 ^ 10 + c'" "c' < 2 ^ 10"
    by (metis fp_code_cases)
  have "float_code c = (112 + k + 1) * 2 ^ 23 + c' * 2 ^ 13"
    using False c k by (simp add: float_code_def)
  then have "f32_mag (float_code c) = (2 ^ 23 + c' * 2 ^ 13) * 2 ^ (112 + k)"
    using fp_mag_split [of "c' * 2 ^ 13" 23 "112 + k"] k(2) by (simp add: f32_mag_def)
  also have "\<dots> = half_value c"
    using fp_mag_split [OF k(2), of k] k(1) by (simp add: power_add algebra_simps)
  finally show ?thesis .
qed

lemma float_code_class:
  assumes "c < 2 ^ 15"
  shows "float_code c < f32_inf_bits \<longleftrightarrow> c < 31 * 2 ^ 10" "float_code c = f32_inf_bits \<longleftrightarrow> c = 31 * 2 ^ 10"
proof -
  have "float_code c < f32_inf_bits" if "c < 2 ^ 10"
    using round_f32_exact(2) [of c 125] that by (simp add: float_code_def f32_inf_bits_def)
  moreover have "float_code c < f32_inf_bits \<longleftrightarrow> c < 31 * 2 ^ 10" "float_code c = f32_inf_bits \<longleftrightarrow> c = 31 * 2 ^ 10"
    if "\<not> c < 2 ^ 10"
    using that by (simp_all add: float_code_def f32_inf_bits_def)
  ultimately show "float_code c < f32_inf_bits \<longleftrightarrow> c < 31 * 2 ^ 10" "float_code c = f32_inf_bits \<longleftrightarrow> c = 31 * 2 ^ 10"
    by fastforce+
qed

section \<open>bfloat16\<close>

lemma get_msb_half_eq: "get_msb_half little w = ucast (drop_bit 16 w)"
proof -
  have "ucast (ucast (drop_bit 16 w) :: 8 word) OR push_bit 8 (ucast (ucast (drop_bit 24 w) :: 8 word))
      = (ucast (drop_bit 16 w) :: 16 word)"
    by (rule bit_word_eqI) (auto simp: bit_simps)
  then show ?thesis by (simp add: get_msb_half_def u16_of_bytes_def f32_bytes_def Let_def)
qed

lemma unat_get_msb_half: "unat (get_msb_half little w) = unat w div 2 ^ 16"
proof -
  have "unat w div 2 ^ 16 < 2 ^ 16"
    using unsigned_less [of w, where ?'a = nat] by (simp add: less_mult_imp_div_less)
  then show ?thesis unfolding get_msb_half_eq unat_ucast unat_drop_bit by simp
qed

lemma BFloat16_ToUint16_unat:
  assumes "\<not> f32_is_nan v"
  shows "unat (BFloat16_ToUint16Impl little v) = rne_div (unat v) (2 ^ 16)"
proof -
  let ?b = "get_msb_half little v AND 1"
  have "unat (get_msb_half little v AND mask 1) = unat v div 2 ^ 16 mod 2 ^ 1"
    unfolding unat_and_mask unat_get_msb_half by (rule refl)
  then have b: "unat ?b = unat v div 2 ^ 16 mod 2" by (simp add: mask_eq_exp_minus_1)
  have m: "f32_mag_bits v \<le> 255 * 2 ^ 23" using assms by (simp add: f32_is_nan_def f32_inf_bits_def)
  have "unat v + (2 ^ 15 - 1) + unat v div 2 ^ 16 mod 2 < 2 ^ 32"
  proof -
    have "unat v div 2 ^ 16 mod 2 \<le> 1" by simp
    then show ?thesis using m f32_fields_unat [of v] by (simp split: if_splits)
  qed
  then have "unat (v + ucast ?b + ucast BFloat16_kRoundToNearest) = unat v + (2 ^ 15 - 1) + (unat v div (2 * 2 ^ 15)) mod 2"
    using b by (simp add: unat_word_ariths unat_ucast BFloat16_consts)
  then show ?thesis
    using assms rne_bias [of "2 ^ 15" "unat v"]
    by (simp add: BFloat16_ToUint16Impl_def Let_def unat_get_msb_half)
qed

lemma BFloat16_ToUint16_code:
  assumes "\<not> f32_is_nan v"
  shows "code16 (BFloat16_ToUint16Impl little v) = rne_div (f32_mag_bits v) (2 ^ 16)"
    "neg16 (BFloat16_ToUint16Impl little v) = f32_neg v"
proof -
  have "unat v = (if f32_neg v then 2 ^ 15 else 0) * 2 ^ 16 + f32_mag_bits v"
    using f32_fields_unat [of v] by simp
  then have u: "unat (BFloat16_ToUint16Impl little v) = (if f32_neg v then 2 ^ 15 else 0) + rne_div (f32_mag_bits v) (2 ^ 16)"
    unfolding BFloat16_ToUint16_unat [OF assms] by (simp only: rne_div_add) (auto simp: rne_div_add)
  have "f32_mag_bits v \<le> 0x7f80 * 2 ^ 16" using assms by (simp add: f32_is_nan_def f32_inf_bits_def)
  then have "rne_div (f32_mag_bits v) (2 ^ 16) \<le> 0x7f80" by (intro rne_div_le) auto
  then show "code16 (BFloat16_ToUint16Impl little v) = rne_div (f32_mag_bits v) (2 ^ 16)"
    "neg16 (BFloat16_ToUint16Impl little v) = f32_neg v"
    using u by (simp_all add: code16_def neg16_def)
qed

lemma bf16_value_mono: "strict_mono (\<lambda>c. bf16_value c)"
  using fp_mag_strict_mono [of 7] by (simp add: strict_mono_def)

lemma bf16_value: "bf16_value c = f32_mag (c * 2 ^ 16)"
proof (cases "c < 2 ^ 7")
  case True
  then show ?thesis by (simp add: f32_mag_def fp_mag_def)
next
  case False
  then obtain k c' where k: "c = (k + 1) * 2 ^ 7 + c'" "c' < 2 ^ 7" by (metis fp_code_cases)
  have "c * 2 ^ 16 = (k + 1) * 2 ^ 23 + c' * 2 ^ 16" using k(1) by simp
  then have "f32_mag (c * 2 ^ 16) = (2 ^ 23 + c' * 2 ^ 16) * 2 ^ k"
    using fp_mag_split [of "c' * 2 ^ 16" 23 k] k(2) by (simp add: f32_mag_def)
  moreover have "fp_mag 7 c = (2 ^ 7 + c') * 2 ^ k" using fp_mag_split [OF k(2), of k] k(1) by simp
  ultimately show ?thesis by (simp add: algebra_simps)
qed

lemma bf16_code_nearest:
  assumes "u \<le> 255 * 2 ^ 23"
  shows "nearest_even (\<lambda>c. bf16_value c) 0x7f80 (f32_mag u) (rne_div u (2 ^ 16))"
proof (cases "u = 255 * 2 ^ 23")
  case True
  then have "u = 0x7f80 * 2 ^ 16" by simp
  then have "rne_div u (2 ^ 16) = 0x7f80" "f32_mag u = bf16_value 0x7f80"
    using bf16_value [of "0x7f80"] rne_div_mult [of "2 ^ 16" "0x7f80"] by simp_all
  then show ?thesis by (simp only: nearest_even_top [OF bf16_value_mono])
next
  case False
  define c r where "c = u div 2 ^ 16" and "r = u mod 2 ^ 16"
  have u: "u = c * 2 ^ 16 + r" unfolding c_def r_def by (rule div_mult_mod_eq [symmetric])
  have r: "r < 2 ^ 16" by (simp add: r_def)
  have c: "Suc c \<le> 0x7f80" using assms False u by simp
  have "c * 2 ^ 16 mod 2 ^ 23 = (c mod 2 ^ 7) * 2 ^ 16" using mult_mod_left [of c "2 ^ 7" "2 ^ 16"] by simp
  moreover have "c mod 2 ^ 7 < 2 ^ 7" by simp
  ultimately have room: "c * 2 ^ 16 mod 2 ^ 23 + 2 ^ 16 \<le> 2 ^ 23" by simp
  let ?s = "2 ^ (c * 2 ^ 16 div 2 ^ 23 - 1)"
  have n: "f32_mag u = bf16_value c + r * ?s"
    unfolding bf16_value u unfolding f32_mag_def by (rule fp_mag_linear) (use room r in linarith)
  have s: "bf16_value (Suc c) = bf16_value c + 2 ^ 16 * ?s"
  proof -
    have e: "Suc c * 2 ^ 16 = c * 2 ^ 16 + 2 ^ 16" by simp
    show ?thesis unfolding bf16_value e unfolding f32_mag_def by (rule fp_mag_linear [OF room])
  qed
  show ?thesis by (rule nearest_even_step [OF bf16_value_mono n s r _ c u]) simp
qed

lemma BFloat16_ToFloat_bits:
  assumes "\<not> BFloat16_IsNaN h"
  shows "BFloat16_ToFloatImpl little h = f32_of_bits (neg16 h) (code16 h * 2 ^ 16)"
proof -
  have "ucast (0 :: 8 word) OR push_bit 8 (ucast (0 :: 8 word)) OR push_bit 16 (ucast (ucast h :: 8 word))
       OR push_bit 24 (ucast (ucast (drop_bit 8 h) :: 8 word)) = (push_bit 16 (ucast h) :: f32)" (is "?l = ?r")
  proof (rule bit_word_eqI)
    fix n assume "n < LENGTH(32)"
    then show "bit ?l n = bit ?r n" by (cases "n < 24") (auto simp: bit_simps)
  qed
  then have "BFloat16_ToFloatImpl little h = push_bit 16 (ucast h)"
    using assms by (simp add: BFloat16_ToFloatImpl_def f32_of_bytes_def u16_bytes_def Let_def)
  moreover have "unat (push_bit 16 (ucast h) :: f32) = unat h * 2 ^ 16"
    using unsigned_less [of h, where ?'a = nat] unfolding unat_push_bit unat_ucast by simp
  moreover have "unat (f32_of_bits (neg16 h) (code16 h * 2 ^ 16)) = unat h * 2 ^ 16"
    using code16_less [of h] fields16 [of h]
    by (auto simp: f32_of_bits_def unat_of_nat simp del: of_nat_add of_nat_mult)
  ultimately show ?thesis by (simp add: word_unat_eq_iff)
qed

section \<open>Theorems\<close>

text \<open>C35. Narrowing a float that is not a NaN keeps the sign and gives the code of the nearest binary16
  value, ties to even; \<open>0x7C00\<close> is infinity, so from half a unit above the largest finite number on the
  result is infinity.\<close>

theorem Float16_from_float_rounds:
  assumes "\<not> f32_is_nan v"
  shows "neg16 (Float16_ToUint16Impl v) = f32_neg v \<and>
    nearest_even (\<lambda>c. fp_mag 10 c * 2 ^ 125) 0x7c00 (f32_mag (f32_mag_bits v)) (code16 (Float16_ToUint16Impl v))"
  using half_code_nearest [of "f32_mag_bits v"] assms
  by (simp add: Float16_ToUint16_code f32_is_nan_def f32_inf_bits_def)

theorem Float16_from_float_rounds_witness:
  "\<not> f32_is_nan 0x477FF000 \<and> neg16 (Float16_ToUint16Impl 0x477FF000) = f32_neg 0x477FF000 \<and>
    nearest_even (\<lambda>c. fp_mag 10 c * 2 ^ 125) 0x7c00 (f32_mag (f32_mag_bits 0x477FF000))
      (code16 (Float16_ToUint16Impl 0x477FF000))"
proof -
  have h: "\<not> f32_is_nan 0x477FF000" by (simp add: f32_is_nan_def f32_mag_bits_def f32_inf_bits_def)
  show ?thesis using h Float16_from_float_rounds [OF h] by (rule conjI)
qed

text \<open>Widening a finite binary16 number is exact: the float is finite, has the same sign and the same
  value (the unit of a float is \<open>2 ^ 125\<close> times smaller).\<close>

theorem Float16_to_float_exact:
  assumes "Float16_IsFinite h"
  shows "f32_is_finite (Float16_ToFloatImpl h) \<and> f32_neg (Float16_ToFloatImpl h) = neg16 h \<and>
    f32_val (Float16_ToFloatImpl h) = val16 10 h * 2 ^ 125"
proof -
  have c: "code16 h < 31 * 2 ^ 10"
    using assms by (simp add: Float16_IsFinite_def word_less_nat_alt abs16 Float16_consts)
  note f = f32_of_bits_fields [OF float_code_less [OF code16_less [of h]]]
  show ?thesis
    using float_code_value [OF c] float_code_class [OF code16_less [of h]] c
    by (simp add: Float16_ToFloat_bits f32_is_finite_def f32_val_def f val16_def)
qed

theorem Float16_to_float_exact_witness:
  "Float16_IsFinite 0x8001 \<and> f32_is_finite (Float16_ToFloatImpl 0x8001) \<and>
    f32_neg (Float16_ToFloatImpl 0x8001) = neg16 0x8001 \<and>
    f32_val (Float16_ToFloatImpl 0x8001) = val16 10 0x8001 * 2 ^ 125"
proof -
  have h: "Float16_IsFinite 0x8001"
    by (simp add: Float16_IsFinite_def Float16_AbsImpl_def Float16_consts)
  show ?thesis using h Float16_to_float_exact [OF h] by (rule conjI)
qed

text \<open>C36. Widening a binary16 number that is not a NaN and narrowing it again gives the same bits,
  subnormals, zeros of both signs and infinities included.\<close>

theorem Float16_roundtrip:
  assumes "\<not> Float16_IsNaN h"
  shows "Float16_ToUint16Impl (Float16_ToFloatImpl h) = h"
proof -
  let ?f = "Float16_ToFloatImpl h"
  note f = f32_of_bits_fields [OF float_code_less [OF code16_less [of h]]]
  have c: "code16 h \<le> 31 * 2 ^ 10" using assms by (simp add: nan16_iff)
  have b: "f32_mag_bits ?f = float_code (code16 h)" "f32_neg ?f = neg16 h"
    by (simp_all add: Float16_ToFloat_bits f)
  have "half_code (float_code (code16 h)) = code16 h"
  proof (cases "code16 h = 31 * 2 ^ 10")
    case True
    then show ?thesis by (simp add: float_code_def half_code_def)
  next
    case False
    with c have l: "code16 h < 31 * 2 ^ 10" by simp
    then have "float_code (code16 h) < f32_inf_bits" using float_code_class(1) [OF code16_less] by simp
    then have "nearest_even (\<lambda>c. half_value c) 0x7c00 (half_value (code16 h)) (half_code (float_code (code16 h)))"
      using half_code_nearest [of "float_code (code16 h)"] float_code_value [OF l]
      by (simp add: f32_inf_bits_def)
    then show ?thesis using c by (intro nearest_even_exact [OF half_value_mono]) auto
  qed
  then show ?thesis using b by (simp add: eq16_iff Float16_ToUint16_code)
qed

theorem Float16_roundtrip_witness:
  "\<not> Float16_IsNaN 0x83FF \<and> Float16_ToUint16Impl (Float16_ToFloatImpl 0x83FF) = 0x83FF"
proof -
  have h: "\<not> Float16_IsNaN 0x83FF" by (simp add: Float16_IsNaN_def Float16_AbsImpl_def Float16_consts)
  show ?thesis using h Float16_roundtrip [OF h] by (rule conjI)
qed

text \<open>Both conversions keep the special values: a float is a NaN exactly if its binary16 image is,
  and a binary16 number is a NaN (an infinity) exactly if its float image is.\<close>

theorem Float16_specials:
  "Float16_IsNaN (Float16_ToUint16Impl v) = f32_is_nan v \<and>
   f32_is_nan (Float16_ToFloatImpl h) = Float16_IsNaN h \<and>
   f32_is_inf (Float16_ToFloatImpl h) = Float16_IsInfinity h"
proof (intro conjI)
  note f = f32_of_bits_fields [OF float_code_less [OF code16_less [of h]]]
  show "Float16_IsNaN (Float16_ToUint16Impl v) = f32_is_nan v"
    using half_code_nearest [of "f32_mag_bits v"]
    by (auto simp: nan16_iff Float16_ToUint16_code half_code_def f32_is_nan_def f32_inf_bits_def
        nearest_even_def split: if_splits)
  show "f32_is_inf (Float16_ToFloatImpl h) = Float16_IsInfinity h"
    using float_code_class [OF code16_less [of h]]
    by (simp add: Float16_IsInfinity_def word_unat_eq_iff abs16 Float16_consts f32_is_inf_def
        Float16_ToFloat_bits f)
  show "f32_is_nan (Float16_ToFloatImpl h) = Float16_IsNaN h"
    using float_code_class [OF code16_less [of h]]
    by (simp add: nan16_iff f32_is_nan_def Float16_ToFloat_bits f) linarith
qed

text \<open>Narrowing a float that is not a NaN to bfloat16 keeps the sign and gives the nearest bfloat16
  code, ties to even, on machines of either byte order.\<close>

theorem BFloat16_from_float_rounds:
  assumes "\<not> f32_is_nan v"
  shows "neg16 (BFloat16_ToUint16Impl little v) = f32_neg v \<and>
    nearest_even (\<lambda>c. fp_mag 7 c * 2 ^ 16) 0x7f80 (f32_mag (f32_mag_bits v))
      (code16 (BFloat16_ToUint16Impl little v))"
  using bf16_code_nearest [of "f32_mag_bits v"] assms
  by (simp add: BFloat16_ToUint16_code [OF assms] f32_is_nan_def f32_inf_bits_def)

theorem BFloat16_from_float_rounds_witness:
  "\<not> f32_is_nan 0x3F808000 \<and> neg16 (BFloat16_ToUint16Impl True 0x3F808000) = f32_neg 0x3F808000 \<and>
    nearest_even (\<lambda>c. fp_mag 7 c * 2 ^ 16) 0x7f80 (f32_mag (f32_mag_bits 0x3F808000))
      (code16 (BFloat16_ToUint16Impl True 0x3F808000))"
proof -
  have h: "\<not> f32_is_nan 0x3F808000" by (simp add: f32_is_nan_def f32_mag_bits_def f32_inf_bits_def)
  show ?thesis using h BFloat16_from_float_rounds [OF h] by (rule conjI)
qed

text \<open>Widening a finite bfloat16 number is exact, on machines of either byte order.\<close>

theorem BFloat16_to_float_exact:
  assumes "BFloat16_IsFinite h"
  shows "f32_is_finite (BFloat16_ToFloatImpl little h) \<and> f32_neg (BFloat16_ToFloatImpl little h) = neg16 h \<and>
    f32_val (BFloat16_ToFloatImpl little h) = val16 7 h * 2 ^ 16"
proof -
  have c: "code16 h < 255 * 2 ^ 7"
    using assms by (simp add: BFloat16_IsFinite_def word_less_nat_alt abs16 BFloat16_consts)
  have "code16 h * 2 ^ 16 < 2 ^ 31" using c by simp
  note f = f32_of_bits_fields [OF this]
  have "BFloat16_ToFloatImpl little h = f32_of_bits (neg16 h) (code16 h * 2 ^ 16)"
    by (rule BFloat16_ToFloat_bits) (use c in \<open>simp add: nan16_iff\<close>)
  then show ?thesis
    using bf16_value [of "code16 h"] c f
    by (simp add: f32_is_finite_def f32_val_def f val16_def f32_inf_bits_def)
qed

theorem BFloat16_to_float_exact_witness:
  "BFloat16_IsFinite 0xBF80 \<and> f32_is_finite (BFloat16_ToFloatImpl False 0xBF80) \<and>
    f32_neg (BFloat16_ToFloatImpl False 0xBF80) = neg16 0xBF80 \<and>
    f32_val (BFloat16_ToFloatImpl False 0xBF80) = val16 7 0xBF80 * 2 ^ 16"
proof -
  have h: "BFloat16_IsFinite 0xBF80"
    by (simp add: BFloat16_IsFinite_def BFloat16_AbsImpl_def BFloat16_consts)
  show ?thesis using h BFloat16_to_float_exact [OF h] by (rule conjI)
qed

text \<open>Widening a bfloat16 number that is not a NaN and narrowing it again gives the same bits.\<close>

theorem BFloat16_roundtrip:
  assumes "\<not> BFloat16_IsNaN h"
  shows "BFloat16_ToUint16Impl little (BFloat16_ToFloatImpl little h) = h"
proof -
  let ?f = "f32_of_bits (neg16 h) (code16 h * 2 ^ 16)"
  have "code16 h * 2 ^ 16 < 2 ^ 31" using code16_less [of h] by simp
  note f = f32_of_bits_fields [OF this]
  have n: "\<not> f32_is_nan ?f" using assms unfolding f32_is_nan_def f by (simp add: nan16_iff f32_inf_bits_def)
  show ?thesis
    unfolding BFloat16_ToFloat_bits [OF assms] eq16_iff BFloat16_ToUint16_code [OF n] f
    by (simp only: rne_div_mult zero_less_power zero_less_numeral simp_thms)
qed

theorem BFloat16_roundtrip_witness:
  "\<not> BFloat16_IsNaN 0x0001 \<and> BFloat16_ToUint16Impl True (BFloat16_ToFloatImpl True 0x0001) = 0x0001"
proof -
  have h: "\<not> BFloat16_IsNaN 0x0001"
    by (simp add: BFloat16_IsNaN_def BFloat16_AbsImpl_def BFloat16_consts)
  show ?thesis using h BFloat16_roundtrip [OF h] by (rule conjI)
qed

end
