(* ===== verification/Resources.thy ===== *)
theory Resources
  imports Prelude "HOL-Library.Multiset"
begin

text \<open>
  Ownership of what an external library hands out. A policy says, for each call, which resources it
  needs alive, which it takes back (frees, or moves into another object) and which its answer gives.
  \<open>track\<close> runs a log against a policy and fails on the first call that needs or takes back something
  not held; \<open>held\<close> is what a program still holds after the calls it has logged. That a program never
  frees twice, never uses after free and does not leak are statements about \<open>held\<close>.
\<close>

record ('c, 'r, 'x) policy =
  needs :: "'c \<Rightarrow> 'x multiset"
  takes :: "'c \<Rightarrow> 'x multiset"
  gives :: "'c \<Rightarrow> 'r \<Rightarrow> 'x multiset"

definition track_step :: "('c, 'r, 'x) policy \<Rightarrow> 'x multiset \<Rightarrow> 'c \<Rightarrow> 'r \<Rightarrow> 'x multiset option" where
  "track_step P M c r = (if needs P c \<subseteq># M \<and> takes P c \<subseteq># M then Some (M - takes P c + gives P c r) else None)"

fun track :: "('c, 'r, 'x) policy \<Rightarrow> 'x multiset \<Rightarrow> ('c \<times> 'r) list \<Rightarrow> 'x multiset option" where
  "track P M [] = Some M"
| "track P M ((c, r) # l) = Option.bind (track_step P M c r) (\<lambda>N. track P N l)"

definition held :: "('c, 'r, 'x) policy \<Rightarrow> ('s, 'c, 'r, 'z) world_scheme \<Rightarrow> 'x multiset option" where
  "held P w = track P {#} (log w)"

lemma track_append: "track P M (l @ k) = Option.bind (track P M l) (\<lambda>N. track P N k)"
  by (induction P M l rule: track.induct) (auto simp: bind_assoc split: Option.bind_splits)

lemma held_perform:
  "held P (exec (perform E c) w) =
     Option.bind (held P w) (\<lambda>M. track_step P M c (result (perform E c) w))"
  by (simp add: held_def exec_perform result_perform track_append)

lemma held_log: "log w' = log w \<Longrightarrow> held P w' = held P w"
  by (simp add: held_def)

lemma held_performI:
  assumes "held P w = Some M" "needs P c \<subseteq># M" "takes P c \<subseteq># M"
  shows "held P (exec (perform E c) w) = Some (M - takes P c + gives P c (result (perform E c) w))"
  using assms by (simp add: held_perform track_step_def)

text \<open>Execution that leaves the calls themselves in place, so that \<open>held\<close> can step over them.\<close>

lemmas step_simps = exec_bind result_bind exec_return result_return exec_performs exec_modify exec_gets
  exec_when exec_if held_perform

text \<open>What is held besides does not disturb a program.\<close>

lemma track_frame: "track P M l = Some N \<Longrightarrow> track P (M + F) l = Some (N + F)"
proof (induction P M l rule: track.induct)
  case (2 P M c r l)
  then obtain K where K: "track_step P M c r = Some K" "track P K l = Some N"
    by (auto split: Option.bind_splits)
  then have n: "needs P c \<subseteq># M" "takes P c \<subseteq># M" "K = M - takes P c + gives P c r"
    by (auto simp: track_step_def split: if_splits)
  have le: "A \<subseteq># M \<Longrightarrow> A \<subseteq># M + F" for A
    by (metis mset_subset_eq_add_left subset_mset.order_trans)
  have "M + F - takes P c + gives P c r = K + F"
    using n(2,3) by (auto simp: mset_subset_eq_exists_conv ac_simps)
  then have "track_step P (M + F) c r = Some (K + F)"
    using n(1,2) le by (simp add: track_step_def)
  then show ?case using 2(1) [OF K] by simp
qed simp

end
