(* ===== verification/Llama_Shim.thy ===== *)
theory Llama_Shim
  imports Resources
begin

text \<open>
  The llama.cpp shim, \<^verbatim>\<open>src/native/llama-shim/dni_llama.cpp\<close> and \<^verbatim>\<open>dni_llama.h\<close>: loading a model,
  generating text with an optional grammar, freeing. llama.cpp, the address \<open>new\<close> returns and the
  caller's callback are the external library; the shim's own state is the \<open>DniLlama\<close> objects it has
  allocated. The theorems: every path gives back what it acquired and uses only what is alive, a
  generation delivers exactly the pieces of the tokens it sampled, never more than \<open>max_tokens\<close>, the
  grammar is the first sampler of the chain, and each return code means what the header says.
\<close>

section \<open>What the shim calls\<close>

type_synonym llama_token = int

text \<open>
  \<open>llama_batch_get_one\<close> keeps a pointer to the caller's tokens. The pointer is into the prompt vector
  or to the variable \<open>tok\<close> of the loop body that was entered with \<open>decoded\<close> tokens delivered.
\<close>

datatype token_storage = Prompt_vector | Loop_variable nat

record llama_batch =
  storage :: token_storage
  tokens :: "llama_token list"

datatype llama_call =
    Llama_backend_init
  | Llama_backend_free
  | Llama_model_load_from_file char_ptr int
  | Llama_init_from_model ref int int
  | Llama_model_get_vocab ref
  | Llama_model_free ref
  | Llama_free ref
  | Llama_get_memory ref
  | Llama_memory_clear ref bool
  | Llama_tokenize ref string int int bool bool
  | Llama_sampler_chain_init
  | Llama_sampler_init_grammar ref string string
  | Llama_sampler_init_top_k int
  | Llama_sampler_init_temp "32 word"
  | Llama_sampler_init_dist "32 word"
  | Llama_sampler_chain_add ref ref
  | Llama_sampler_free ref
  | Llama_decode ref "llama_token list"
  | Llama_sampler_sample ref ref int
  | Llama_vocab_is_eog ref llama_token
  | Llama_token_to_piece ref llama_token int int bool
  | New_DniLlama
  | Delete_DniLlama addr
  | Token_cb addr string

text \<open>An answer: the pointer, the integer and what the call wrote to its output buffer.\<close>

record llama_reply =
  l_ptr :: ref
  l_int :: int
  l_tokens :: "llama_token list"
  l_bytes :: string

section \<open>State\<close>

record DniLlama =
  model :: ref
  ctx :: ref
  vocab :: ref

record 's llama = "('s, llama_call, llama_reply) world" +
  handles :: "addr \<rightharpoonup> DniLlama"
  expired_read :: bool
  overrun :: bool

type_synonym ('s, 'a) lm = "('s llama, 'a) state"
type_synonym 's llama_lib = "('s, llama_call, llama_reply) extern"

text \<open>
  \<open>expired_read\<close> records that \<open>llama_decode\<close> was given a batch that points to a variable whose
  lifetime has ended, \<open>overrun\<close> that \<open>buf[n]\<close> was outside the 512 bytes of \<open>buf\<close>. A generation
  returns a code, throws \<open>std::length_error\<close> from the vector's constructor, or has no defined behaviour
  because the handle is not a live object.
\<close>

datatype outcome = Returned int | Length_error | Undefined

definition LLAMA_DEFAULT_SEED :: "32 word" where "LLAMA_DEFAULT_SEED = 0xFFFFFFFF"

section \<open>Operations\<close>

definition dni_llama_load :: "'s llama_lib \<Rightarrow> char_ptr \<Rightarrow> ('s, addr) lm" where
  "dni_llama_load L gguf_path = do {
     performs L Llama_backend_init;
     m \<leftarrow> perform L (Llama_model_load_from_file gguf_path 0);
     if l_ptr m = NULL then do { performs L Llama_backend_free; State_Monad.return NULL } else do {
     c \<leftarrow> perform L (Llama_init_from_model (l_ptr m) 2048 512);
     if l_ptr c = NULL then do {
       performs L (Llama_model_free (l_ptr m)); performs L Llama_backend_free; State_Monad.return NULL }
     else do {
     v \<leftarrow> perform L (Llama_model_get_vocab (l_ptr m));
     h \<leftarrow> perform L New_DniLlama;
     modify (\<lambda>w. w\<lparr>handles := (handles w)(l_ptr h \<mapsto> \<lparr>model = l_ptr m, ctx = l_ptr c, vocab = l_ptr v\<rparr>)\<rparr>);
     State_Monad.return (l_ptr h) } } }"

definition valid_batch :: "nat \<Rightarrow> llama_batch \<Rightarrow> bool" where
  "valid_batch decoded b = (case storage b of Prompt_vector \<Rightarrow> True | Loop_variable k \<Rightarrow> k = decoded)"

definition c_string :: "string \<Rightarrow> string" where
  "c_string bs = takeWhile (\<lambda>c. c \<noteq> CHR 0x00) bs"

text \<open>The loop runs while \<open>decoded < max_tokens\<close>; \<open>left\<close> is \<open>max_tokens - decoded\<close>.\<close>

fun generate_loop :: "'s llama_lib \<Rightarrow> DniLlama \<Rightarrow> ref \<Rightarrow> addr \<Rightarrow> nat \<Rightarrow> nat \<Rightarrow> llama_batch \<Rightarrow> ('s, int) lm" where
  "generate_loop L h smpl user_data decoded 0 batch = State_Monad.return 0"
| "generate_loop L h smpl user_data decoded (Suc left) batch = do {
     modify (\<lambda>w. w\<lparr>expired_read := expired_read w \<or> \<not> valid_batch decoded batch\<rparr>);
     d \<leftarrow> perform L (Llama_decode (ctx h) (tokens batch));
     if l_int d \<noteq> 0 then State_Monad.return (- 3) else do {
     tok \<leftarrow> perform L (Llama_sampler_sample smpl (ctx h) (- 1));
     eog \<leftarrow> perform L (Llama_vocab_is_eog (vocab h) (l_int tok));
     if l_int eog \<noteq> 0 then State_Monad.return 0 else do {
     n \<leftarrow> perform L (Llama_token_to_piece (vocab h) (l_int tok) 511 0 True);
     if l_int n < 0 then State_Monad.return (- 4) else do {
     modify (\<lambda>w. w\<lparr>overrun := overrun w \<or> l_int n > 511\<rparr>);
     performs L (Token_cb user_data (c_string (take (nat (l_int n)) (l_bytes n))));
     generate_loop L h smpl user_data (decoded + 1) left
       \<lparr>storage = Loop_variable decoded, tokens = [l_int tok]\<rparr> } } } }"

definition add_sampler :: "'s llama_lib \<Rightarrow> ref \<Rightarrow> llama_call \<Rightarrow> ('s, unit) lm" where
  "add_sampler L smpl c = do { s \<leftarrow> perform L c; performs L (Llama_sampler_chain_add smpl (l_ptr s)) }"

definition add_fixed_samplers :: "'s llama_lib \<Rightarrow> ref \<Rightarrow> 32 word \<Rightarrow> ('s, unit) lm" where
  "add_fixed_samplers L smpl temp = do {
     add_sampler L smpl (Llama_sampler_init_top_k 40);
     add_sampler L smpl (Llama_sampler_init_temp temp);
     add_sampler L smpl (Llama_sampler_init_dist LLAMA_DEFAULT_SEED) }"

text \<open>The grammar stage: False when the grammar is malformed.\<close>

definition add_grammar :: "'s llama_lib \<Rightarrow> DniLlama \<Rightarrow> ref \<Rightarrow> char_ptr \<Rightarrow> ('s, bool) lm" where
  "add_grammar L h smpl grammar = (case grammar of
     None \<Rightarrow> State_Monad.return True
   | Some (a, g) \<Rightarrow> if g = '''' then State_Monad.return True else do {
       gs \<leftarrow> perform L (Llama_sampler_init_grammar (vocab h) g ''root'');
       if l_ptr gs = NULL then State_Monad.return False
       else do { performs L (Llama_sampler_chain_add smpl (l_ptr gs)); State_Monad.return True } })"

definition sample_all :: "'s llama_lib \<Rightarrow> DniLlama \<Rightarrow> int \<Rightarrow> 32 word \<Rightarrow> char_ptr \<Rightarrow> addr \<Rightarrow> llama_token list \<Rightarrow> ('s, int) lm" where
  "sample_all L h max_tokens temp grammar user_data toks = do {
     s \<leftarrow> perform L Llama_sampler_chain_init;
     ok \<leftarrow> add_grammar L h (l_ptr s) grammar;
     if \<not> ok then do { performs L (Llama_sampler_free (l_ptr s)); State_Monad.return (- 5) } else do {
     add_fixed_samplers L (l_ptr s) temp;
     rc \<leftarrow> generate_loop L h (l_ptr s) user_data 0 (nat max_tokens)
       \<lparr>storage = Prompt_vector, tokens = toks\<rparr>;
     performs L (Llama_sampler_free (l_ptr s));
     State_Monad.return rc } }"

text \<open>The part before the sampler: clear the KV cache and tokenize. \<open>Inl\<close> is an early exit.\<close>

definition prepare_prompt :: "'s llama_lib \<Rightarrow> DniLlama \<Rightarrow> string \<Rightarrow> ('s, outcome + llama_token list) lm" where
  "prepare_prompt L h text = do {
     mem \<leftarrow> perform L (Llama_get_memory (ctx h));
     performs L (Llama_memory_clear (l_ptr mem) True);
     n \<leftarrow> perform L (Llama_tokenize (vocab h) text (int (length text)) 0 True True);
     if - l_int n < 0 then State_Monad.return (Inl Length_error) else do {
     t \<leftarrow> perform L (Llama_tokenize (vocab h) text (int (length text)) (- l_int n) True True);
     if l_int t < 0 then State_Monad.return (Inl (Returned (- 2)))
     else State_Monad.return (Inr (take (nat (- l_int n)) (l_tokens t @ replicate (nat (- l_int n)) 0))) } }"

definition dni_llama_generate :: "'s llama_lib \<Rightarrow> addr \<Rightarrow> char_ptr \<Rightarrow> int \<Rightarrow> 32 word \<Rightarrow> char_ptr \<Rightarrow> ref \<Rightarrow> addr
    \<Rightarrow> ('s, outcome) lm" where
  "dni_llama_generate L handle prompt max_tokens temp grammar cb user_data = do {
     ho \<leftarrow> gets (\<lambda>w. handles w handle);
     if handle = NULL \<or> prompt = None \<or> cb = NULL then State_Monad.return (Returned (- 1)) else
     (case ho of None \<Rightarrow> State_Monad.return Undefined | Some h \<Rightarrow> do {
     p \<leftarrow> prepare_prompt L h (snd (the prompt));
     (case p of Inl r \<Rightarrow> State_Monad.return r | Inr toks \<Rightarrow> do {
     rc \<leftarrow> sample_all L h max_tokens temp grammar user_data toks;
     State_Monad.return (Returned rc) }) }) }"

definition dni_llama_free :: "'s llama_lib \<Rightarrow> addr \<Rightarrow> ('s, outcome) lm" where
  "dni_llama_free L handle = do {
     ho \<leftarrow> gets (\<lambda>w. handles w handle);
     if handle = NULL then State_Monad.return (Returned 0) else
     (case ho of None \<Rightarrow> State_Monad.return Undefined | Some h \<Rightarrow> do {
     when_m (ctx h \<noteq> NULL) (performs L (Llama_free (ctx h)));
     when_m (model h \<noteq> NULL) (performs L (Llama_model_free (model h)));
     performs L Llama_backend_free;
     performs L (Delete_DniLlama handle);
     modify (\<lambda>w. w\<lparr>handles := (handles w)(handle := None)\<rparr>);
     State_Monad.return (Returned 0) }) }"

section \<open>Ownership\<close>

datatype llama_res = Backend | Model ref | Ctx ref | Sampler ref | Handle addr

fun llama_needs :: "llama_call \<Rightarrow> llama_res multiset" where
  "llama_needs (Llama_model_load_from_file p n) = {#Backend#}"
| "llama_needs (Llama_init_from_model m n b) = {#Model m#}"
| "llama_needs (Llama_model_get_vocab m) = {#Model m#}"
| "llama_needs (Llama_get_memory c) = {#Ctx c#}"
| "llama_needs (Llama_decode c ts) = {#Ctx c#}"
| "llama_needs (Llama_sampler_sample s c i) = {#Sampler s, Ctx c#}"
| "llama_needs (Llama_sampler_chain_add s x) = {#Sampler s, Sampler x#}"
| "llama_needs _ = {#}"

fun llama_takes :: "llama_call \<Rightarrow> llama_res multiset" where
  "llama_takes Llama_backend_free = {#Backend#}"
| "llama_takes (Llama_model_free m) = {#Model m#}"
| "llama_takes (Llama_free c) = {#Ctx c#}"
| "llama_takes (Llama_sampler_chain_add s x) = {#Sampler x#}"
| "llama_takes (Llama_sampler_free s) = {#Sampler s#}"
| "llama_takes (Delete_DniLlama h) = {#Handle h#}"
| "llama_takes _ = {#}"

definition unless_null :: "ref \<Rightarrow> llama_res \<Rightarrow> llama_res multiset" where
  "unless_null p x = (if p = NULL then {#} else {#x#})"

fun llama_gives :: "llama_call \<Rightarrow> llama_reply \<Rightarrow> llama_res multiset" where
  "llama_gives Llama_backend_init r = {#Backend#}"
| "llama_gives (Llama_model_load_from_file p n) r = unless_null (l_ptr r) (Model (l_ptr r))"
| "llama_gives (Llama_init_from_model m n b) r = unless_null (l_ptr r) (Ctx (l_ptr r))"
| "llama_gives Llama_sampler_chain_init r = {#Sampler (l_ptr r)#}"
| "llama_gives (Llama_sampler_init_grammar v g rt) r = unless_null (l_ptr r) (Sampler (l_ptr r))"
| "llama_gives (Llama_sampler_init_top_k k) r = {#Sampler (l_ptr r)#}"
| "llama_gives (Llama_sampler_init_temp t) r = {#Sampler (l_ptr r)#}"
| "llama_gives (Llama_sampler_init_dist d) r = {#Sampler (l_ptr r)#}"
| "llama_gives New_DniLlama r = {#Handle (l_ptr r)#}"
| "llama_gives _ r = {#}"

definition llama_policy :: "(llama_call, llama_reply, llama_res) policy" where
  "llama_policy = \<lparr>needs = llama_needs, takes = llama_takes, gives = llama_gives\<rparr>"

definition owned_by :: "addr \<Rightarrow> DniLlama \<Rightarrow> llama_res multiset" where
  "owned_by a h = {#Backend, Model (model h), Ctx (ctx h), Handle a#}"

abbreviation llama_held :: "'s llama \<Rightarrow> llama_res multiset option" where
  "llama_held w \<equiv> held llama_policy w"

lemmas llama_track = track_step_def unless_null_def owned_by_def

lemma llama_policy_simps [simp]:
  "needs llama_policy = llama_needs" "takes llama_policy = llama_takes" "gives llama_policy = llama_gives"
  by (simp_all add: llama_policy_def)

lemma llama_held_update [simp]:
  "llama_held (handles_update f w) = llama_held w" "llama_held (expired_read_update b w) = llama_held w"
  "llama_held (overrun_update b w) = llama_held w"
  by (simp_all add: held_def)

lemma llama_perform_fields [simp]:
  "handles (exec (perform L c) w) = handles w" "expired_read (exec (perform L c) w) = expired_read w"
  "overrun (exec (perform L c) w) = overrun w"
  by (simp_all add: exec_perform)

lemma llama_performs_held:
  assumes "llama_held w = Some M" "llama_needs c \<subseteq># M" "llama_takes c = {#}" "\<And>r. llama_gives c r = {#}"
  shows "llama_held (exec (perform L c) w) = Some M"
  using assms by (simp add: held_perform llama_track)

lemma add_sampler_held:
  assumes "llama_held w = Some M" "Sampler s \<in># M" "llama_needs c = {#}" "llama_takes c = {#}"
    "\<And>r. llama_gives c r = {#Sampler (l_ptr r)#}"
  shows "llama_held (exec (add_sampler L s c) w) = Some M"
  using assms by (simp add: add_sampler_def step_simps llama_track)

lemma add_fixed_samplers_held:
  assumes "llama_held w = Some M" "Sampler s \<in># M"
  shows "llama_held (exec (add_fixed_samplers L s t) w) = Some M"
  using assms by (simp add: add_fixed_samplers_def step_simps add_sampler_held)

lemma add_grammar_held:
  assumes "llama_held w = Some M" "Sampler s \<in># M"
  shows "llama_held (exec (add_grammar L h s g) w) = Some M"
  using assms by (auto simp: add_grammar_def step_simps llama_track split: option.splits)

lemma generate_loop_held:
  assumes "llama_held w = Some M" "Ctx (ctx h) \<in># M" "Sampler s \<in># M"
  shows "llama_held (exec (generate_loop L h s u k n b) w) = Some M"
  using assms
proof (induction n arbitrary: w k b)
  case (Suc n)
  have "{#Sampler s, Ctx (ctx h)#} \<subseteq># M" using Suc.prems by (simp add: insert_subset_eq_iff in_diff_count)
  with Suc show ?case by (simp add: step_simps llama_track)
qed (simp add: step_simps)

lemma sample_all_held:
  assumes "llama_held w = Some M" "Ctx (ctx h) \<in># M"
  shows "llama_held (exec (sample_all L h mt t g u ts) w) = Some M"
proof -
  let ?r = "result (perform L Llama_sampler_chain_init) w"
  let ?w1 = "exec (perform L Llama_sampler_chain_init) w"
  let ?w2 = "exec (add_grammar L h (l_ptr ?r) g) ?w1"
  let ?w3 = "exec (add_fixed_samplers L (l_ptr ?r) t) ?w2"
  let ?loop = "generate_loop L h (l_ptr ?r) u 0 (nat mt) \<lparr>storage = Prompt_vector, tokens = ts\<rparr>"
  let ?M = "add_mset (Sampler (l_ptr ?r)) M"
  have 1: "llama_held ?w1 = Some ?M" using assms by (simp add: held_perform llama_track)
  then have 2: "llama_held ?w2 = Some ?M" by (rule add_grammar_held) simp
  then have 3: "llama_held ?w3 = Some ?M" by (rule add_fixed_samplers_held) simp
  then have 4: "llama_held (exec ?loop ?w3) = Some ?M" by (rule generate_loop_held) (use assms in simp_all)
  show ?thesis using 2 4 by (simp add: sample_all_def step_simps llama_track)
qed

lemma samplers_handles [simp]:
  "handles (exec (add_sampler L s c) w) = handles w"
  "handles (exec (add_fixed_samplers L s t) w) = handles w"
  "handles (exec (add_grammar L h s g) w) = handles w"
  by (auto simp: add_sampler_def add_fixed_samplers_def add_grammar_def step_simps split: option.splits)

lemma generate_loop_handles [simp]: "handles (exec (generate_loop L h s u k n b) w) = handles w"
  by (induction n arbitrary: w k b) (simp_all add: step_simps)

lemma sample_all_handles [simp]: "handles (exec (sample_all L h mt t g u ts) w) = handles w"
  by (simp add: sample_all_def step_simps)

lemma prepare_held:
  assumes "llama_held w = Some M" "Ctx (ctx h) \<in># M"
  shows "llama_held (exec (prepare_prompt L h x) w) = Some M" "handles (exec (prepare_prompt L h x) w) = handles w"
  using assms by (simp_all add: prepare_prompt_def step_simps llama_track)

lemma generate_held:
  assumes "llama_held w = Some M" "handles w a = Some h" "Ctx (ctx h) \<in># M"
  shows "llama_held (exec (dni_llama_generate L a p mt t g cb u) w) = Some M"
    "handles (exec (dni_llama_generate L a p mt t g cb u) w) = handles w"
  using assms
  by (auto simp: dni_llama_generate_def step_simps prepare_held sample_all_held split: sum.splits)

definition new_nonnull :: "'s llama_lib \<Rightarrow> bool" where
  "new_nonnull L \<longleftrightarrow> (\<forall>s. l_ptr (fst (L New_DniLlama s)) \<noteq> NULL)"

definition load_ok :: "llama_res multiset \<Rightarrow> 's llama \<Rightarrow> addr \<Rightarrow> 's llama \<Rightarrow> bool" where
  "load_ok M w a w' = (if a = NULL then llama_held w' = Some M \<and> handles w' = handles w
     else let h = the (handles w' a) in model h \<noteq> NULL \<and> ctx h \<noteq> NULL \<and>
       handles w' = (handles w)(a \<mapsto> h) \<and> llama_held w' = Some (M + owned_by a h))"

lemma load_held:
  assumes "llama_held w = Some M" "new_nonnull L"
  shows "load_ok M w (result (dni_llama_load L p) w) (exec (dni_llama_load L p) w)"
proof -
  have n: "l_ptr (result (perform L New_DniLlama) v) \<noteq> 0" for v
    using assms by (simp add: result_perform new_nonnull_def)
  then have "(l_ptr (result (perform L New_DniLlama) v) = 0) = False" for v by simp
  note run = dni_llama_load_def step_simps llama_track assms(1) load_ok_def this Let_def
  let ?w1 = "exec (perform L Llama_backend_init) w"
  let ?m = "l_ptr (result (perform L (Llama_model_load_from_file p 0)) ?w1)"
  let ?w2 = "exec (perform L (Llama_model_load_from_file p 0)) ?w1"
  let ?c = "l_ptr (result (perform L (Llama_init_from_model ?m 2048 512)) ?w2)"
  consider "?m = 0" | "?m \<noteq> 0" "?c = 0" | "?m \<noteq> 0" "?c \<noteq> 0" by blast
  then show ?thesis by cases (simp_all add: run n)
qed

lemma free_held:
  assumes "llama_held w = Some (M + owned_by a h)" "handles w a = Some h" "a \<noteq> NULL" "model h \<noteq> NULL" "ctx h \<noteq> NULL"
  shows "llama_held (exec (dni_llama_free L a) w) = Some M"
    "handles (exec (dni_llama_free L a) w) = (handles w)(a := None)"
    "result (dni_llama_free L a) w = Returned 0"
  using assms by (simp_all add: dni_llama_free_def step_simps llama_track insert_subset_eq_iff in_diff_count)

section \<open>What a generation does\<close>

text \<open>The texts the callback received, the texts of the pieces llama.cpp produced, and the calls that
  build the sampler chain, in a log.\<close>

definition texts_delivered :: "(llama_call \<times> llama_reply) list \<Rightarrow> string list" where
  "texts_delivered l = concat (map (\<lambda>(c, r). case c of Token_cb u t \<Rightarrow> [t] | _ \<Rightarrow> []) l)"

definition pieces :: "(llama_call \<times> llama_reply) list \<Rightarrow> string list" where
  "pieces l = concat (map (\<lambda>(c, r). case c of
     Llama_token_to_piece v t n ls sp \<Rightarrow> if l_int r < 0 then [] else [c_string (take (nat (l_int r)) (l_bytes r))]
   | _ \<Rightarrow> []) l)"

definition is_decode :: "llama_call \<Rightarrow> llama_reply \<Rightarrow> bool" where
  "is_decode c r = (case c of Llama_decode x ts \<Rightarrow> True | _ \<Rightarrow> False)"

definition sampler_setup :: "(llama_call \<times> llama_reply) list \<Rightarrow> llama_call list" where
  "sampler_setup l = concat (map (\<lambda>(c, r). case c of
     Llama_sampler_chain_init \<Rightarrow> [c] | Llama_sampler_init_grammar v g rt \<Rightarrow> [c]
   | Llama_sampler_init_top_k k \<Rightarrow> [c] | Llama_sampler_init_temp t \<Rightarrow> [c] | Llama_sampler_init_dist d \<Rightarrow> [c]
   | Llama_sampler_chain_add x y \<Rightarrow> [c] | _ \<Rightarrow> []) l)"

lemmas log_views = texts_delivered_def pieces_def is_decode_def sampler_setup_def

lemma log_perform: "log (exec (perform E c) w) = log w @ [(c, result (perform E c) w)]"
  by (simp add: exec_perform result_perform)

lemma llama_view_append:
  "texts_delivered (l @ k) = texts_delivered l @ texts_delivered k" "pieces (l @ k) = pieces l @ pieces k"
  "sampler_setup (l @ k) = sampler_setup l @ sampler_setup k"
  by (simp_all add: log_views)

lemma llama_view_Cons:
  "texts_delivered ((c, r) # l) = (case c of Token_cb u t \<Rightarrow> [t] | _ \<Rightarrow> []) @ texts_delivered l"
  "pieces ((c, r) # l) = (case c of Llama_token_to_piece v t n ls sp \<Rightarrow>
     if l_int r < 0 then [] else [c_string (take (nat (l_int r)) (l_bytes r))] | _ \<Rightarrow> []) @ pieces l"
  "sampler_setup ((c, r) # l) = (case c of
     Llama_sampler_chain_init \<Rightarrow> [c] | Llama_sampler_init_grammar v g rt \<Rightarrow> [c]
   | Llama_sampler_init_top_k k \<Rightarrow> [c] | Llama_sampler_init_temp t \<Rightarrow> [c] | Llama_sampler_init_dist d \<Rightarrow> [c]
   | Llama_sampler_chain_add x y \<Rightarrow> [c] | _ \<Rightarrow> []) @ sampler_setup l"
  "texts_delivered [] = []" "pieces [] = []" "sampler_setup [] = []"
  by (simp_all add: log_views)

lemmas quiet_simps = step_simps log_perform llama_view_append llama_view_Cons is_decode_def

lemma setup_quiet:
  "texts_delivered (log (exec (add_fixed_samplers L s t) w)) = texts_delivered (log w)"
  "pieces (log (exec (add_fixed_samplers L s t) w)) = pieces (log w)"
  "events is_decode (log (exec (add_fixed_samplers L s t) w)) = events is_decode (log w)"
  "expired_read (exec (add_fixed_samplers L s t) w) = expired_read w"
  "overrun (exec (add_fixed_samplers L s t) w) = overrun w"
  "texts_delivered (log (exec (add_grammar L h s g) w)) = texts_delivered (log w)"
  "pieces (log (exec (add_grammar L h s g) w)) = pieces (log w)"
  "events is_decode (log (exec (add_grammar L h s g) w)) = events is_decode (log w)"
  "expired_read (exec (add_grammar L h s g) w) = expired_read w"
  "overrun (exec (add_grammar L h s g) w) = overrun w"
  by (simp_all add: add_fixed_samplers_def add_sampler_def add_grammar_def quiet_simps split: option.splits)

text \<open>The progress of a run: \<open>ts\<close> are the texts delivered, \<open>d\<close> the decodes made, and whether a decode
  read an expired variable.\<close>

definition progress :: "string list \<Rightarrow> nat \<Rightarrow> bool \<Rightarrow> 's llama \<Rightarrow> 's llama \<Rightarrow> bool" where
  "progress ts d x w w' \<longleftrightarrow> texts_delivered (log w') = texts_delivered (log w) @ ts \<and>
     pieces (log w') = pieces (log w) @ ts \<and>
     events is_decode (log w') = events is_decode (log w) + d \<and>
     expired_read w' = (expired_read w \<or> x)"

lemma progress_trans: "progress ts d x w w' \<Longrightarrow> progress us e y w' w'' \<Longrightarrow> progress (ts @ us) (d + e) (x \<or> y) w w''"
  by (auto simp: progress_def)

lemma generate_loop_progress:
  "\<exists>ts d. length ts \<le> n \<and> d \<le> n \<and>
     progress ts d ((1 \<le> d \<and> \<not> valid_batch k b) \<or> 2 \<le> d) w (exec (generate_loop L h s u k n b) w)"
proof (induction n arbitrary: w k b)
  case 0
  have "progress [] 0 False w w" by (simp add: progress_def)
  then show ?case by (intro exI [of _ "[]"] exI [of _ 0]) (simp add: step_simps)
next
  case (Suc n)
  let ?w0 = "w\<lparr>expired_read := expired_read w \<or> \<not> valid_batch k b\<rparr>"
  let ?w1 = "exec (perform L (Llama_decode (ctx h) (tokens b))) ?w0"
  let ?t = "result (perform L (Llama_sampler_sample s (ctx h) (- 1))) ?w1"
  let ?w2 = "exec (perform L (Llama_sampler_sample s (ctx h) (- 1))) ?w1"
  let ?w3 = "exec (perform L (Llama_vocab_is_eog (vocab h) (l_int ?t))) ?w2"
  let ?n = "result (perform L (Llama_token_to_piece (vocab h) (l_int ?t) 511 0 True)) ?w3"
  let ?w4 = "exec (perform L (Llama_token_to_piece (vocab h) (l_int ?t) 511 0 True)) ?w3"
  let ?txt = "c_string (take (nat (l_int ?n)) (l_bytes ?n))"
  let ?w5 = "exec (perform L (Token_cb u ?txt)) (?w4\<lparr>overrun := overrun ?w4 \<or> l_int ?n > 511\<rparr>)"
  have stop: "progress [] 1 (\<not> valid_batch k b) w ?w1" "progress [] 1 (\<not> valid_batch k b) w ?w3"
    "l_int ?n < 0 \<Longrightarrow> progress [] 1 (\<not> valid_batch k b) w ?w4"
    "\<not> l_int ?n < 0 \<Longrightarrow> progress [?txt] 1 (\<not> valid_batch k b) w ?w5"
    by (simp_all add: progress_def quiet_simps)
  let ?b = "\<lparr>storage = Loop_variable k, tokens = [l_int ?t]\<rparr>"
  have e: "((1 \<le> d \<and> \<not> valid_batch (k + 1) ?b) \<or> 2 \<le> d) = (1 \<le> d)" for d :: nat
    by (auto simp: valid_batch_def)
  obtain ts d where r: "length ts \<le> n" "d \<le> n"
    and p: "progress ts d (1 \<le> d) ?w5 (exec (generate_loop L h s u (k + 1) n ?b) ?w5)"
    using Suc.IH [of "k + 1" ?b ?w5] unfolding e by blast
  have one: "\<exists>ts d. length ts \<le> Suc n \<and> d \<le> Suc n \<and> progress ts d ((1 \<le> d \<and> \<not> valid_batch k b) \<or> 2 \<le> d) w w'"
    if "progress [] 1 (\<not> valid_batch k b) w w'" for w' :: "'a llama"
    using that by (intro exI [of _ "[]"] exI [of _ 1]) simp
  have more: "\<exists>ts d. length ts \<le> Suc n \<and> d \<le> Suc n \<and> progress ts d ((1 \<le> d \<and> \<not> valid_batch k b) \<or> 2 \<le> d) w
      (exec (generate_loop L h s u (k + 1) n \<lparr>storage = Loop_variable k, tokens = [l_int ?t]\<rparr>) ?w5)"
    if "\<not> l_int ?n < 0"
    using progress_trans [OF stop(4) [OF that] p] r
    by (intro exI [of _ "?txt # ts"] exI [of _ "Suc d"]) (simp add: Suc_le_eq)
  show ?case
    using one [OF stop(1)] one [OF stop(2)] one [OF stop(3)] more by (simp add: step_simps)
qed

lemma generate_loop_result: "result (generate_loop L h s u k n b) w \<in> {0, - 3, - 4}"
  by (induction n arbitrary: w k b) (simp_all add: step_simps)

definition piece_bounded :: "'s llama_lib \<Rightarrow> bool" where
  "piece_bounded L \<longleftrightarrow> (\<forall>v t n ls sp s. l_int (fst (L (Llama_token_to_piece v t n ls sp) s)) \<le> n)"

lemma generate_loop_overrun: "piece_bounded L \<Longrightarrow> overrun (exec (generate_loop L h s u k n b) w) = overrun w"
proof (induction n arbitrary: w k b)
  case (Suc n)
  then have "\<not> 511 < l_int (result (perform L (Llama_token_to_piece (vocab h) t 511 0 True)) w')" for t and w' :: "'a llama"
    by (simp add: piece_bounded_def result_perform not_less)
  then show ?case using Suc by (simp add: step_simps)
qed (simp add: step_simps)

lemma generate_loop_setup: "sampler_setup (log (exec (generate_loop L h s u k n b) w)) = sampler_setup (log w)"
  by (induction n arbitrary: w k b) (simp_all add: quiet_simps)

lemma sample_all_progress:
  "\<exists>ts d. length ts \<le> nat mt \<and> progress ts d (2 \<le> d) w (exec (sample_all L h mt t g u toks) w) \<and>
     (result (sample_all L h mt t g u toks) w = - 5 \<longrightarrow> ts = [] \<and> d = 0)"
proof -
  let ?r = "result (perform L Llama_sampler_chain_init) w"
  let ?w2 = "exec (add_grammar L h (l_ptr ?r) g) (exec (perform L Llama_sampler_chain_init) w)"
  let ?w3 = "exec (add_fixed_samplers L (l_ptr ?r) t) ?w2"
  let ?b = "\<lparr>storage = Prompt_vector, tokens = toks\<rparr>"
  let ?w4 = "exec (generate_loop L h (l_ptr ?r) u 0 (nat mt) ?b) ?w3"
  obtain ts d where p: "length ts \<le> nat mt" "progress ts d (2 \<le> d) ?w3 ?w4"
    using generate_loop_progress [of "nat mt" 0 ?b ?w3 L h "l_ptr ?r" u] by (auto simp: valid_batch_def)
  have "progress [] 0 False w ?w3" by (simp add: progress_def setup_quiet quiet_simps)
  then have q: "progress ts d (2 \<le> d) w ?w4" using progress_trans p(2) by fastforce
  have n: "result (generate_loop L h (l_ptr ?r) u 0 (nat mt) ?b) ?w3 \<noteq> - 5"
    using generate_loop_result [of L h "l_ptr ?r" u 0 "nat mt" ?b ?w3] by auto
  have fr: "progress us e x w v \<Longrightarrow> progress us e x w (exec (perform L (Llama_sampler_free y)) v)" for us e x v y
    by (simp add: progress_def quiet_simps)
  have "progress [] 0 False w ?w2" by (simp add: progress_def setup_quiet quiet_simps)
  with q n p(1) show ?thesis
    by (auto simp: sample_all_def step_simps intro: fr exI [of _ "[]"] exI [of _ 0])
qed

text \<open>The calls that build the chain of a sampler \<open>s\<close>, with the stages' addresses.\<close>

definition chain_calls :: "DniLlama \<Rightarrow> char_ptr \<Rightarrow> 32 word \<Rightarrow> ref \<Rightarrow> ref \<Rightarrow> ref \<Rightarrow> ref \<Rightarrow> ref \<Rightarrow> llama_call list" where
  "chain_calls h g t s gs k x d = [Llama_sampler_chain_init] @
    (case g of None \<Rightarrow> [] | Some (_, r) \<Rightarrow> if r = '''' then [] else
       [Llama_sampler_init_grammar (vocab h) r ''root'', Llama_sampler_chain_add s gs]) @
    [Llama_sampler_init_top_k 40, Llama_sampler_chain_add s k, Llama_sampler_init_temp t,
     Llama_sampler_chain_add s x, Llama_sampler_init_dist LLAMA_DEFAULT_SEED, Llama_sampler_chain_add s d]"

lemma sample_all_setup:
  assumes "result (sample_all L h mt t g u toks) w \<noteq> - 5"
  shows "\<exists>s gs k x d. sampler_setup (log (exec (sample_all L h mt t g u toks) w)) =
    sampler_setup (log w) @ chain_calls h g t s gs k x d"
  using assms
  by (auto simp: sample_all_def add_grammar_def add_fixed_samplers_def add_sampler_def quiet_simps
      chain_calls_def generate_loop_setup split: option.splits if_splits)

lemma prepare_quiet: "progress [] 0 False w (exec (prepare_prompt L h x) w)"
  by (simp add: progress_def prepare_prompt_def quiet_simps)

lemma generate_progress:
  "\<exists>ts d. length ts \<le> nat mt \<and> progress ts d (2 \<le> d) w (exec (dni_llama_generate L a p mt t g cb u) w)"
proof -
  have stay: "\<exists>ts d. length ts \<le> nat mt \<and> progress ts d (2 \<le> d) w w'" if "progress [] 0 False w w'"
    for w' :: "'a llama" using that by (intro exI [of _ "[]"] exI [of _ 0]) simp
  have q: "progress [] 0 False w w" by (simp add: progress_def)
  show ?thesis
  proof (cases "a = NULL \<or> p = None \<or> cb = NULL \<or> handles w a = None")
    case True
    with stay [OF q] show ?thesis by (auto simp: dni_llama_generate_def step_simps split: option.splits)
  next
    case False
    then obtain h where h: "handles w a = Some h" by auto
    let ?w = "exec (prepare_prompt L h (snd (the p))) w"
    show ?thesis
    proof (cases "result (prepare_prompt L h (snd (the p))) w")
      case (Inl r)
      with False h stay [OF prepare_quiet] show ?thesis by (auto simp: dni_llama_generate_def step_simps)
    next
      case (Inr toks)
      obtain ts d where "length ts \<le> nat mt" "progress ts d (2 \<le> d) ?w (exec (sample_all L h mt t g u toks) ?w)"
        using sample_all_progress [of mt ?w L h t g u toks] by blast
      then have "length ts \<le> nat mt \<and> progress ts d (2 \<le> d) w (exec (sample_all L h mt t g u toks) ?w)"
        using progress_trans [OF prepare_quiet] by fastforce
      with False h Inr show ?thesis by (auto simp: dni_llama_generate_def step_simps)
    qed
  qed
qed

text \<open>What llama.cpp reported: the counts of the tokenizations, the calls that failed, each with the code
  of its failure, and the tokens recognised as the end of a generation.\<close>

definition tokenizations :: "(llama_call \<times> llama_reply) list \<Rightarrow> int list" where
  "tokenizations l = concat (map (\<lambda>(c, r). case c of Llama_tokenize v x n m a b \<Rightarrow> [l_int r] | _ \<Rightarrow> []) l)"

definition failures :: "(llama_call \<times> llama_reply) list \<Rightarrow> int list" where
  "failures l = concat (map (\<lambda>(c, r). case c of
     Llama_decode x ts \<Rightarrow> if l_int r = 0 then [] else [- 3]
   | Llama_token_to_piece v t n ls sp \<Rightarrow> if l_int r < 0 then [- 4] else []
   | Llama_sampler_init_grammar v g rt \<Rightarrow> if l_ptr r = NULL then [- 5] else []
   | _ \<Rightarrow> []) l)"

definition is_end :: "llama_call \<Rightarrow> llama_reply \<Rightarrow> bool" where
  "is_end c r = (case c of Llama_vocab_is_eog v t \<Rightarrow> l_int r \<noteq> 0 | _ \<Rightarrow> False)"

text \<open>The outcome those reports call for: the first tokenization, with no buffer, answers the number of tokens
  negated, the second fills the vector.\<close>

fun llama_code :: "int list \<Rightarrow> int list \<Rightarrow> outcome" where
  "llama_code [n] [] = (if 0 < n then Length_error else Undefined)"
| "llama_code [n, m] [] = (if 0 < n then Undefined else if m < 0 then Returned (- 2) else Returned 0)"
| "llama_code [n, m] [c] = (if 0 < n \<or> m < 0 then Undefined else Returned c)"
| "llama_code _ _ = Undefined"

lemma report_append:
  "tokenizations (l @ k) = tokenizations l @ tokenizations k" "failures (l @ k) = failures l @ failures k"
  by (simp_all add: tokenizations_def failures_def)

lemma report_Cons:
  "tokenizations ((c, r) # l) = (case c of Llama_tokenize v x n m a b \<Rightarrow> [l_int r] | _ \<Rightarrow> []) @ tokenizations l"
  "failures ((c, r) # l) = (case c of
     Llama_decode x ts \<Rightarrow> if l_int r = 0 then [] else [- 3]
   | Llama_token_to_piece v t n ls sp \<Rightarrow> if l_int r < 0 then [- 4] else []
   | Llama_sampler_init_grammar v g rt \<Rightarrow> if l_ptr r = NULL then [- 5] else []
   | _ \<Rightarrow> []) @ failures l"
  "tokenizations [] = []" "failures [] = []"
  by (simp_all add: tokenizations_def failures_def)

lemmas report_simps = quiet_simps report_append report_Cons is_end_def

text \<open>A step of the shim that ends with code \<open>c\<close> added exactly the failure that is called \<open>c\<close>.\<close>

definition reports :: "int \<Rightarrow> 's llama \<Rightarrow> 's llama \<Rightarrow> bool" where
  "reports c w w' \<longleftrightarrow> tokenizations (log w') = tokenizations (log w) \<and>
     failures (log w') = failures (log w) @ (if c = 0 then [] else [c])"

lemma generate_loop_reports: "reports (result (generate_loop L h s u k n b) w) w (exec (generate_loop L h s u k n b) w)"
  by (induction n arbitrary: w k b) (simp_all add: reports_def report_simps)

lemma generate_loop_end:
  "events is_end (log (exec (generate_loop L h s u k n b) w)) = events is_end (log w) +
     of_bool (result (generate_loop L h s u k n b) w = 0 \<and>
       length (texts_delivered (log (exec (generate_loop L h s u k n b) w))) < length (texts_delivered (log w)) + n)"
  by (induction n arbitrary: w k b) (simp_all add: report_simps)

lemma setup_reports:
  "reports 0 w (exec (add_fixed_samplers L s t) w)"
  "reports (if result (add_grammar L h s g) w then 0 else - 5) w (exec (add_grammar L h s g) w)"
  "events is_end (log (exec (add_fixed_samplers L s t) w)) = events is_end (log w)"
  "events is_end (log (exec (add_grammar L h s g) w)) = events is_end (log w)"
  by (simp_all add: reports_def add_fixed_samplers_def add_sampler_def add_grammar_def report_simps split: option.splits)

lemma sample_all_reports: "reports (result (sample_all L h mt t g u toks) w) w (exec (sample_all L h mt t g u toks) w)"
  by (simp add: sample_all_def reports_def report_simps setup_reports(1,2) [unfolded reports_def]
      generate_loop_reports [unfolded reports_def])

lemma sample_all_end:
  "events is_end (log (exec (sample_all L h mt t g u toks) w)) = events is_end (log w) +
     of_bool (result (sample_all L h mt t g u toks) w = 0 \<and>
       length (texts_delivered (log (exec (sample_all L h mt t g u toks) w))) < length (texts_delivered (log w)) + nat mt)"
  by (simp add: sample_all_def report_simps setup_reports(3,4) generate_loop_end setup_quiet)

lemma prepare_reports:
  "\<exists>ns. tokenizations (log (exec (prepare_prompt L h x) w)) = tokenizations (log w) @ ns \<and>
     failures (log (exec (prepare_prompt L h x) w)) = failures (log w) \<and>
     (case result (prepare_prompt L h x) w of Inl r \<Rightarrow> r = llama_code ns []
      | Inr toks \<Rightarrow> \<exists>n m. ns = [n, m] \<and> \<not> 0 < n \<and> \<not> m < 0)"
  by (simp add: prepare_prompt_def report_simps)

lemma generate_reports:
  assumes "handles w a = Some h" "a \<noteq> NULL" "p \<noteq> None" "cb \<noteq> NULL"
  shows "\<exists>ns fs. tokenizations (log (exec (dni_llama_generate L a p mt t g cb u) w)) = tokenizations (log w) @ ns \<and>
    failures (log (exec (dni_llama_generate L a p mt t g cb u) w)) = failures (log w) @ fs \<and>
    result (dni_llama_generate L a p mt t g cb u) w = llama_code ns fs"
proof -
  let ?p = "prepare_prompt L h (snd (the p))"
  obtain ns where ns: "tokenizations (log (exec ?p w)) = tokenizations (log w) @ ns" "failures (log (exec ?p w)) = failures (log w)"
    "case result ?p w of Inl r \<Rightarrow> r = llama_code ns [] | Inr toks \<Rightarrow> \<exists>n m. ns = [n, m] \<and> \<not> 0 < n \<and> \<not> m < 0"
    using prepare_reports by blast
  show ?thesis
  proof (cases "result ?p w")
    case (Inl r)
    then show ?thesis using assms ns
      by (intro exI [of _ ns] exI [of _ "[]"]) (auto simp: dni_llama_generate_def step_simps)
  next
    case (Inr toks)
    let ?c = "result (sample_all L h mt t g u toks) (exec ?p w)"
    have "llama_code ns (if ?c = 0 then [] else [?c]) = Returned ?c"
      using ns(3) Inr by auto
    then show ?thesis using assms ns(1,2) Inr sample_all_reports [of L h mt t g u toks "exec ?p w"]
      by (intro exI [of _ ns] exI [of _ "if ?c = 0 then [] else [?c]"])
        (auto simp: dni_llama_generate_def step_simps reports_def)
  qed
qed

lemma generate_end:
  "events is_end (log (exec (dni_llama_generate L a p mt t g cb u) w)) = events is_end (log w) +
     of_bool (result (dni_llama_generate L a p mt t g cb u) w = Returned 0 \<and>
       length (texts_delivered (log (exec (dni_llama_generate L a p mt t g cb u) w))) < length (texts_delivered (log w)) + nat mt)"
  by (auto simp: dni_llama_generate_def prepare_prompt_def report_simps sample_all_end split: option.splits)

section \<open>Theorems\<close>

type_synonym generate_args = "char_ptr \<times> int \<times> 32 word \<times> char_ptr \<times> ref \<times> addr"

primrec generate_all :: "'s llama_lib \<Rightarrow> addr \<Rightarrow> generate_args list \<Rightarrow> ('s, outcome list) lm" where
  "generate_all L a [] = State_Monad.return []"
| "generate_all L a (x # xs) = (case x of (p, mt, t, g, cb, u) \<Rightarrow> do {
     r \<leftarrow> dni_llama_generate L a p mt t g cb u;
     rs \<leftarrow> generate_all L a xs;
     State_Monad.return (r # rs) })"

text \<open>A client: load a model and, if that succeeds, generate any number of times and free it.\<close>

definition client :: "'s llama_lib \<Rightarrow> char_ptr \<Rightarrow> generate_args list \<Rightarrow> ('s, outcome list) lm" where
  "client L path xs = do {
     a \<leftarrow> dni_llama_load L path;
     if a = NULL then State_Monad.return [] else do {
     rs \<leftarrow> generate_all L a xs;
     r \<leftarrow> dni_llama_free L a;
     State_Monad.return (rs @ [r]) } }"

lemma generate_defined: "handles w a = Some h \<Longrightarrow> Undefined \<noteq> result (dni_llama_generate L a p mt t g cb u) w"
  by (auto simp: dni_llama_generate_def prepare_prompt_def step_simps split: sum.splits if_splits)

lemma generate_all_held:
  assumes "llama_held w = Some M" "handles w a = Some h" "Ctx (ctx h) \<in># M"
  shows "llama_held (exec (generate_all L a xs) w) = Some M"
    "handles (exec (generate_all L a xs) w) = handles w"
    "Undefined \<notin> set (result (generate_all L a xs) w)"
  using assms
  by (induction xs arbitrary: w) (auto simp: step_simps generate_held generate_defined split: prod.splits)

text \<open>C12. A client that loads a model, generates any number of times with any arguments and frees the
  model ends with exactly the llama.cpp objects it started with, whatever llama.cpp answers, and on the
  way uses only objects that are alive: no leak, no double free, no use after free.\<close>

theorem llama_lifecycle:
  assumes "llama_held w = Some M" "new_nonnull L"
  shows "llama_held (exec (client L path xs) w) = Some M \<and> Undefined \<notin> set (result (client L path xs) w)"
proof (cases "result (dni_llama_load L path) w = NULL")
  case True
  then show ?thesis using load_held [OF assms, of path] by (simp add: client_def step_simps load_ok_def)
next
  case False
  let ?a = "result (dni_llama_load L path) w" and ?w = "exec (dni_llama_load L path) w"
  define h where "h = the (handles ?w ?a)"
  have h: "model h \<noteq> NULL" "ctx h \<noteq> NULL" "handles ?w ?a = Some h" "llama_held ?w = Some (M + owned_by ?a h)"
    using load_held [OF assms, of path] False unfolding load_ok_def Let_def h_def [symmetric] by auto
  have "Ctx (ctx h) \<in># M + owned_by ?a h" by (simp add: owned_by_def)
  note g = generate_all_held [OF h(4,3) this, of L xs]
  show ?thesis
    using False g h free_held [where M = M and a = ?a and h = h and w = "exec (generate_all L ?a xs) ?w" and L = L]
    by (simp add: client_def step_simps)
qed

text \<open>One generation, on any path, gives back every sampler it created and leaves the model, the
  context and the table of handles as they were.\<close>

theorem llama_generate_balanced:
  assumes "llama_held w = Some M" "handles w a = Some h" "Ctx (ctx h) \<in># M"
  shows "llama_held (exec (dni_llama_generate L a p mt t g cb u) w) = Some M \<and>
    handles (exec (dni_llama_generate L a p mt t g cb u) w) = handles w"
  using generate_held [OF assms] by simp

text \<open>C13. The callback receives, in order, exactly the texts of the pieces llama.cpp produced for the
  sampled tokens, and at most \<open>max_tokens\<close> of them. A generation that returns 0 with fewer stopped at the one
  token llama.cpp recognised as the end; no other generation saw such a token.\<close>

theorem llama_generate_delivers:
  "\<exists>ts. length ts \<le> nat mt \<and>
     texts_delivered (log (exec (dni_llama_generate L a p mt t g cb u) w)) = texts_delivered (log w) @ ts \<and>
     pieces (log (exec (dni_llama_generate L a p mt t g cb u) w)) = pieces (log w) @ ts \<and>
     events is_end (log (exec (dni_llama_generate L a p mt t g cb u) w)) = events is_end (log w) +
       of_bool (result (dni_llama_generate L a p mt t g cb u) w = Returned 0 \<and> length ts < nat mt)"
proof -
  obtain ts d where "length ts \<le> nat mt" "progress ts d (2 \<le> d) w (exec (dni_llama_generate L a p mt t g cb u) w)"
    using generate_progress by blast
  then show ?thesis
    using generate_end [of L a p mt t g cb u w] by (intro exI [of _ ts]) (simp add: progress_def)
qed

text \<open>From the second token on, \<open>llama_decode\<close> reads the token through a pointer to the loop
  variable of the previous iteration, whose lifetime has ended: a generation reads an expired variable
  exactly if it decodes at least twice.\<close>

theorem llama_decode_expired:
  "expired_read (exec (dni_llama_generate L a p mt t g cb u) w) =
     (expired_read w \<or>
      events is_decode (log w) + 2 \<le> events is_decode (log (exec (dni_llama_generate L a p mt t g cb u) w)))"
  using generate_progress [of mt w L a p t g cb u] by (auto simp: progress_def)

text \<open>C14. The return codes: \<open>- 1\<close> exactly for a null handle, prompt or callback, and then nothing is
  done; otherwise the code says what failed: \<open>- 2\<close> the tokenization, \<open>- 3\<close> a decode, \<open>- 4\<close> a piece, \<open>- 5\<close> the
  grammar, of which there is at most one, and 0 exactly when nothing failed. The vector's constructor throws only
  if llama.cpp claims a negative number of tokens.\<close>

theorem llama_generate_codes:
  "if a = NULL \<or> p = None \<or> cb = NULL
   then result (dni_llama_generate L a p mt t g cb u) w = Returned (- 1) \<and>
     exec (dni_llama_generate L a p mt t g cb u) w = w
   else (case handles w a of
       None \<Rightarrow> result (dni_llama_generate L a p mt t g cb u) w = Undefined
     | Some h \<Rightarrow> result (dni_llama_generate L a p mt t g cb u) w \<noteq> Undefined \<and>
        (\<exists>ns fs. tokenizations (log (exec (dni_llama_generate L a p mt t g cb u) w)) = tokenizations (log w) @ ns \<and>
          failures (log (exec (dni_llama_generate L a p mt t g cb u) w)) = failures (log w) @ fs \<and>
          result (dni_llama_generate L a p mt t g cb u) w = llama_code ns fs))"
proof (cases "a = NULL \<or> p = None \<or> cb = NULL")
  case False
  then show ?thesis
    using generate_reports [of w a _ p cb L mt t g u] generate_defined [of w a _ L p mt t g cb u]
    by (cases "handles w a") (auto simp: dni_llama_generate_def step_simps)
qed (auto simp: dni_llama_generate_def step_simps)

text \<open>Unless the grammar is malformed, the sampler chain is built in the order grammar (when one is
  given), top-k, temperature, distribution, so that the grammar masks tokens before any other stage.\<close>

theorem llama_grammar_first:
  assumes "result (sample_all L h mt t g u toks) w \<noteq> - 5"
  shows "\<exists>s gs k x d. sampler_setup (log (exec (sample_all L h mt t g u toks) w)) =
    sampler_setup (log w) @ chain_calls h g t s gs k x d"
  using assms by (rule sample_all_setup)

text \<open>As long as \<open>llama_token_to_piece\<close> keeps to the length it is given, the terminating NUL is
  written inside the 512 bytes of \<open>buf\<close>.\<close>

theorem llama_buffer_bound:
  assumes "piece_bounded L"
  shows "overrun (exec (dni_llama_generate L a p mt t g cb u) w) = overrun w"
  using assms
  by (auto simp: dni_llama_generate_def prepare_prompt_def sample_all_def step_simps generate_loop_overrun
      setup_quiet split: option.splits sum.splits)

section \<open>Witnesses\<close>

text \<open>A llama.cpp that answers every call with pointer 1, reports three prompt tokens, and yields the
  piece \<open>a\<close> for every token.\<close>

definition demo_llama :: "unit llama_lib" where
  "demo_llama c s = (\<lparr>l_ptr = 1,
     l_int = (case c of Llama_tokenize v x n m a b \<Rightarrow> if m = 0 then - 3 else 3
       | Llama_token_to_piece v t n ls sp \<Rightarrow> min 1 n | _ \<Rightarrow> 0),
     l_tokens = [5, 6, 7], l_bytes = ''a''\<rparr>, s)"

definition demo_world :: "unit llama" where
  "demo_world = \<lparr>ext_state = (), log = [], handles = Map.empty, expired_read = False, overrun = False\<rparr>"

lemma demo_held: "llama_held demo_world = Some {#}" "new_nonnull demo_llama" "piece_bounded demo_llama"
  by (simp_all add: held_def demo_world_def new_nonnull_def piece_bounded_def demo_llama_def)

theorem llama_lifecycle_witness:
  "llama_held (exec (client demo_llama (Some (1, ''m'')) [(Some (1, ''hi''), 2, 0, None, 1, 9)]) demo_world) = Some {#} \<and>
   result (client demo_llama (Some (1, ''m'')) [(Some (1, ''hi''), 2, 0, None, 1, 9)]) demo_world = [Returned 0, Returned 0]"
  using llama_lifecycle [OF demo_held(1,2), of "Some (1, ''m'')" "[(Some (1, ''hi''), 2, 0, None, 1, 9)]"]
  by (simp add: client_def dni_llama_load_def dni_llama_generate_def dni_llama_free_def prepare_prompt_def sample_all_def
      add_grammar_def add_fixed_samplers_def add_sampler_def run_simps demo_llama_def demo_world_def numeral_2_eq_2)

definition demo_loaded :: "unit llama" where
  "demo_loaded = exec (dni_llama_load demo_llama (Some (1, ''m''))) demo_world"

lemma demo_loaded_held: "handles demo_loaded 1 = Some \<lparr>model = 1, ctx = 1, vocab = 1\<rparr>"
  "llama_held demo_loaded = Some (owned_by 1 \<lparr>model = 1, ctx = 1, vocab = 1\<rparr>)"
proof -
  show h: "handles demo_loaded 1 = Some \<lparr>model = 1, ctx = 1, vocab = 1\<rparr>"
    by (simp add: demo_loaded_def dni_llama_load_def run_simps demo_llama_def demo_world_def)
  have "result (dni_llama_load demo_llama (Some (1, ''m''))) demo_world = 1"
    by (simp add: dni_llama_load_def run_simps demo_llama_def demo_world_def)
  then show "llama_held demo_loaded = Some (owned_by 1 \<lparr>model = 1, ctx = 1, vocab = 1\<rparr>)"
    using load_held [OF demo_held(1,2), of "Some (1, ''m'')"] h
    by (simp add: load_ok_def demo_loaded_def Let_def)
qed

theorem llama_generate_balanced_witness:
  "\<exists>M. llama_held demo_loaded = Some M \<and>
     llama_held (exec (dni_llama_generate demo_llama 1 (Some (1, ''hi'')) 2 0 (Some (2, ''root ::= x'')) 1 9) demo_loaded) = Some M"
proof -
  have c: "Ctx (ctx \<lparr>model = 1, ctx = 1, vocab = 1\<rparr>) \<in># owned_by 1 \<lparr>model = 1, ctx = 1, vocab = 1\<rparr>"
    by (simp add: owned_by_def)
  show ?thesis
    using demo_loaded_held(2) llama_generate_balanced [OF demo_loaded_held(2,1) c] by blast
qed

theorem llama_grammar_first_witness:
  "\<exists>s gs k x d. sampler_setup (log (exec (sample_all demo_llama \<lparr>model = 1, ctx = 1, vocab = 1\<rparr> 1 0
      (Some (2, ''root ::= x'')) 9 [5]) demo_loaded)) =
    sampler_setup (log demo_loaded) @
    chain_calls \<lparr>model = 1, ctx = 1, vocab = 1\<rparr> (Some (2, ''root ::= x'')) 0 s gs k x d"
  by (rule llama_grammar_first)
    (simp add: sample_all_def add_grammar_def add_fixed_samplers_def add_sampler_def run_simps demo_llama_def)

theorem llama_buffer_bound_witness:
  "\<not> overrun (exec (dni_llama_generate demo_llama 1 (Some (1, ''hi'')) 2 0 None 1 9) demo_loaded)"
  using llama_buffer_bound [OF demo_held(3), of 1 "Some (1, ''hi'')" 2 0 None 1 9 demo_loaded]
  by (simp add: demo_loaded_def dni_llama_load_def run_simps demo_llama_def demo_world_def)

end
