(* ===== verification/Grammar_Gate.thy ===== *)
theory Grammar_Gate
  imports Llama_Shim
begin

text \<open>
  The host gate of grammar-constrained sampling, \<^verbatim>\<open>src/native/llama-shim/grammar_gate.cpp\<close>: a program that loads a
  model through the shim, generates four times and exits with 0 if four checks on the texts pass. The shim is the one
  of \<open>Llama_Shim\<close>; a \<open>Sink\<close> is read off the calls the shim makes to \<open>on_piece\<close>. The theorems: what the string checks
  accept, that exit code 0 means exactly that all four verdicts were printed as passes, that the gate gives back
  every llama.cpp object on every exit, and what the check of the malformed grammar does and does not establish.
\<close>

section \<open>Text helpers\<close>

definition gate_ws :: "char \<Rightarrow> bool" where
  "gate_ws c \<longleftrightarrow> c \<in> {CHR '' '', CHR 0x09, CHR 0x0D, CHR 0x0A}"

text \<open>\<open>std::string::find_first_not_of\<close>, \<open>find_last_not_of\<close> (\<open>None\<close> is \<open>npos\<close>) and \<open>substr\<close>.\<close>

fun find_first_not_of :: "(char \<Rightarrow> bool) \<Rightarrow> string \<Rightarrow> nat option" where
  "find_first_not_of p [] = None"
| "find_first_not_of p (c # cs) = (if p c then map_option Suc (find_first_not_of p cs) else Some 0)"

definition find_last_not_of :: "(char \<Rightarrow> bool) \<Rightarrow> string \<Rightarrow> nat option" where
  "find_last_not_of p x = map_option (\<lambda>i. length x - Suc i) (find_first_not_of p (rev x))"

definition substr :: "string \<Rightarrow> nat \<Rightarrow> nat \<Rightarrow> string" where
  "substr x i n = take n (drop i x)"

definition trim :: "string \<Rightarrow> string" where
  "trim x = (case find_first_not_of gate_ws x of None \<Rightarrow> ''''
     | Some a \<Rightarrow> substr x a (the (find_last_not_of gate_ws x) - a + 1))"

definition is_upper :: "char \<Rightarrow> bool" where
  "is_upper c \<longleftrightarrow> \<not> (of_char c < (65 :: nat) \<or> of_char c > (90 :: nat))"

definition matches_forced :: "string \<Rightarrow> bool" where
  "matches_forced raw = (let s = trim raw in
     if length s \<noteq> 10 then False
     else if substr s 0 4 \<noteq> ''DNI-'' then False
     else if \<exists>i \<in> {4, 5, 6}. \<not> is_upper (s ! i) then False
     else substr s 7 3 = ''-OK'')"

section \<open>The gate\<close>

text \<open>What the program prints, one constructor per \<open>printf\<close>, and how it ends: with an exit code, or because an
  exception left the shim (\<open>std::terminate\<close>).\<close>

datatype gate_line =
    Usage | Banner | Load_failed
  | Generate_rc int
  | Control string | Control_verdict bool
  | Forced string | Forced_verdict bool
  | Answered string | Answer_verdict bool
  | Malformed_verdict bool int
  | Summary nat nat

datatype gate_end = Exit int | Terminated

type_synonym gate_run = "gate_line list \<times> gate_end"

definition on_piece :: ref where "on_piece = 1"

text \<open>The sink after a generation: what \<open>on_piece\<close> appended to it.\<close>

definition gen_raw :: "'s llama_lib \<Rightarrow> addr \<Rightarrow> addr \<Rightarrow> string \<Rightarrow> string option \<Rightarrow> int \<Rightarrow> ('s, (int \<times> string) option) lm" where
  "gen_raw L h u prompt grammar max_tokens = do {
     before \<leftarrow> gets log;
     r \<leftarrow> dni_llama_generate L h (Some (2, prompt)) max_tokens 0 (map_option (Pair 3) grammar) on_piece u;
     after \<leftarrow> gets log;
     State_Monad.return (case r of
       Returned rc \<Rightarrow> Some (rc, concat (texts_delivered (drop (length before) after)))
     | _ \<Rightarrow> None) }"

definition gen :: "'s llama_lib \<Rightarrow> addr \<Rightarrow> addr \<Rightarrow> string \<Rightarrow> string option \<Rightarrow> int
    \<Rightarrow> ('s, (gate_line list \<times> string) option) lm" where
  "gen L h u prompt grammar max_tokens = do {
     g \<leftarrow> gen_raw L h u prompt grammar max_tokens;
     State_Monad.return (map_option (\<lambda>(rc, s). (if rc \<noteq> 0 then [Generate_rc rc] else [], s)) g) }"

definition gate_prompt :: string where "gate_prompt = ''The capital of France is''"
definition answer_prompt :: string where "answer_prompt = ''Describe HVAC maintenance in one short sentence.''"

text \<open>String literals of the source; a quote is \<open>CHR 0x22\<close>, a backslash \<open>CHR 0x5C\<close>.\<close>

definition synthetic_gbnf :: string where
  "synthetic_gbnf = ''root ::= '' @ [CHR 0x22] @ ''DNI-'' @ [CHR 0x22] @ '' [A-Z] [A-Z] [A-Z] '' @ [CHR 0x22] @ ''-OK'' @ [CHR 0x22]"

definition answer_gbnf :: string where
  "answer_gbnf = ''root ::= answer'' @ [CHR 0x0A] @
     ''answer ::= '' @ [CHR 0x22, CHR ''{'', CHR 0x5C, CHR 0x22] @ ''answer'' @ [CHR 0x5C, CHR 0x22, CHR '':'', CHR 0x22] @
     '' string '' @ [CHR 0x22, CHR ''}'', CHR 0x22, CHR 0x0A] @
     ''string ::= '' @ [CHR 0x22, CHR 0x5C, CHR 0x22, CHR 0x22] @ '' ([^'' @ [CHR 0x22, CHR 0x5C, CHR 0x5C] @ ''] | '' @
     [CHR 0x22, CHR 0x5C, CHR 0x5C, CHR 0x22] @ '' .)* '' @ [CHR 0x22, CHR 0x5C, CHR 0x22, CHR 0x22, CHR 0x0A]"

definition malformed_gbnf :: string where "malformed_gbnf = ''root ::= ( unterminated''"

definition answer_prefix :: string where
  "answer_prefix = [CHR ''{'', CHR 0x22] @ ''answer'' @ [CHR 0x22, CHR '':'', CHR 0x22]"

definition ctrl_ok :: "string \<Rightarrow> bool" where
  "ctrl_ok ctrl \<longleftrightarrow> ctrl \<noteq> '''' \<and> \<not> matches_forced ctrl"

definition ans_ok :: "string \<Rightarrow> bool" where
  "ans_ok ans \<longleftrightarrow> take (length answer_prefix) ans = answer_prefix \<and> 13 \<le> length ans \<and> last ans = CHR ''}''"

definition malformed_check :: "'s llama_lib \<Rightarrow> addr \<Rightarrow> addr \<Rightarrow> ('s, (int \<times> string) option) lm" where
  "malformed_check L h junk = gen_raw L h junk gate_prompt (Some malformed_gbnf) 8"

text \<open>Print \<open>out\<close> and go on, or stop because an exception was thrown.\<close>

definition or_terminate :: "('s, 'a option) lm \<Rightarrow> ('a \<Rightarrow> gate_line list \<times> ('s, gate_run) lm) \<Rightarrow> ('s, gate_run) lm" where
  "or_terminate m f = do {
     x \<leftarrow> m;
     (case x of None \<Rightarrow> State_Monad.return ([], Terminated)
      | Some y \<Rightarrow> do { r \<leftarrow> snd (f y); State_Monad.return (fst (f y) @ fst r, snd r) }) }"

definition gate_finish :: "'s llama_lib \<Rightarrow> addr \<Rightarrow> bool list \<Rightarrow> ('s, gate_run) lm" where
  "gate_finish L h oks = do {
     _ \<leftarrow> dni_llama_free L h;
     let pass = length (filter id oks);
     State_Monad.return ([Summary pass (length oks)], Exit (if pass = length oks then 0 else 1)) }"

definition gate_checks :: "'s llama_lib \<Rightarrow> addr \<Rightarrow> (nat \<Rightarrow> addr) \<Rightarrow> ('s, gate_run) lm" where
  "gate_checks L h sinks =
     or_terminate (gen L h (sinks 0) gate_prompt None 12) (\<lambda>(o1, t1). let ctrl = trim t1 in
       (o1 @ [Control ctrl, Control_verdict (ctrl_ok ctrl)],
     or_terminate (gen L h (sinks 1) gate_prompt (Some synthetic_gbnf) 24) (\<lambda>(o2, t2). let forced = trim t2 in
       (o2 @ [Forced forced, Forced_verdict (matches_forced forced)],
     or_terminate (gen L h (sinks 2) answer_prompt (Some answer_gbnf) 160) (\<lambda>(o3, t3). let ans = trim t3 in
       (o3 @ [Answered ans, Answer_verdict (ans_ok ans)],
     or_terminate (malformed_check L h (sinks 3)) (\<lambda>(rc, junk).
       ([Malformed_verdict (rc < 0) rc],
     gate_finish L h [ctrl_ok ctrl, matches_forced forced, ans_ok ans, rc < 0]))))))))"

definition gate_main :: "'s llama_lib \<Rightarrow> char_ptr list \<Rightarrow> (nat \<Rightarrow> addr) \<Rightarrow> ('s, gate_run) lm" where
  "gate_main L argv sinks =
     (if length argv < 2 then State_Monad.return ([Usage], Exit 2) else do {
      h \<leftarrow> dni_llama_load L (argv ! 1);
      if h = NULL then State_Monad.return ([Banner, Load_failed], Exit 2) else do {
      r \<leftarrow> gate_checks L h sinks;
      State_Monad.return (Banner # fst r, snd r) } })"

section \<open>The string checks\<close>

lemma find_first_not_of_eq:
  "find_first_not_of p x = (if list_all p x then None else Some (length (takeWhile p x)))"
  by (induction x) auto

lemma trim_eq: "trim x = rev (dropWhile gate_ws (rev (dropWhile gate_ws x)))"
proof (cases "list_all gate_ws x")
  case True
  then show ?thesis by (auto simp: trim_def find_first_not_of_eq list_all_iff dest: set_dropWhileD)
next
  case False
  let ?a = "length (takeWhile gate_ws x)" and ?b = "length (takeWhile gate_ws (rev x))"
  have l: "find_last_not_of gate_ws x = Some (length x - Suc ?b)"
    using False by (simp add: find_last_not_of_def find_first_not_of_eq list_all_iff)
  obtain u c v where x: "x = u @ c # v" "\<forall>d \<in> set u. gate_ws d" "\<not> gate_ws c"
    using False split_list_first_prop [of x "\<lambda>c. \<not> gate_ws c"] by (auto simp: list_all_iff)
  then have a: "takeWhile gate_ws x = u" "dropWhile gate_ws x = c # v" by auto
  obtain v1 d v2 where v: "c # v = v1 @ d # v2" "\<forall>e \<in> set v2. gate_ws e" "\<not> gate_ws d"
    using x(3) split_list_last_prop [of "c # v" "\<lambda>c. \<not> gate_ws c"] by auto
  then have b: "takeWhile gate_ws (rev x) = rev v2" "dropWhile gate_ws (rev (c # v)) = d # rev v1"
    using x by (simp_all add: takeWhile_append dropWhile_append)
  have "length x - Suc ?b - ?a + 1 = Suc (length v1)" using x v(1) a b by simp
  then have "trim x = take (Suc (length v1)) (drop (length u) x)"
    using False l a(1) by (simp add: trim_def find_first_not_of_eq substr_def)
  also have "\<dots> = v1 @ [d]" using x v(1) by simp
  finally show ?thesis using a b by simp
qed

lemma take_eq_prefix: "take (length p) s = p \<longleftrightarrow> (\<exists>r. s = p @ r)"
  by (metis append_eq_conv_conj)

text \<open>The forced shape is recognised exactly: after trimming the text is \<open>DNI-\<close>, three capital letters and \<open>-OK\<close>.\<close>

theorem matches_forced_iff:
  "matches_forced raw \<longleftrightarrow> (\<exists>a b c. is_upper a \<and> is_upper b \<and> is_upper c \<and> trim raw = ''DNI-'' @ [a, b, c] @ ''-OK'')"
proof
  assume m: "matches_forced raw"
  define s where "s = trim raw"
  have s: "length s = 10" "take 4 s = ''DNI-''" "is_upper (s ! 4)" "is_upper (s ! 5)" "is_upper (s ! 6)"
    "take 3 (drop 7 s) = ''-OK''"
    using m by (auto simp: matches_forced_def s_def Let_def substr_def split: if_splits)
  have "s = take 4 s @ [s ! 4, s ! 5, s ! 6] @ take 3 (drop 7 s)"
    using s(1) by (intro nth_equalityI) (auto simp: nth_append less_Suc_eq numeral_eq_Suc nth_Cons')
  with s show "\<exists>a b c. is_upper a \<and> is_upper b \<and> is_upper c \<and> trim raw = ''DNI-'' @ [a, b, c] @ ''-OK''"
    unfolding s_def by (metis)
qed (auto simp: matches_forced_def Let_def substr_def numeral_eq_Suc)

lemma dropWhile_trimmed: "\<not> gate_ws (last x) \<Longrightarrow> x \<noteq> [] \<Longrightarrow> dropWhile gate_ws (rev x) = rev x"
  by (cases x rule: rev_cases) auto

lemma trim_idem [simp]: "trim (trim x) = trim x"
proof (cases "trim x")
  case (Cons c cs)
  have "\<not> gate_ws (hd (trim x))"
  proof -
    have "hd (dropWhile gate_ws x) = hd (trim x)"
      using Cons unfolding trim_eq
      by (metis append_is_Nil_conv dropWhile_eq_Nil_conv hd_append2 list.discI rev_append rev_is_Nil_conv rev_rev_ident takeWhile_dropWhile_id)
    then show ?thesis using Cons unfolding trim_eq by (metis dropWhile_eq_Nil_conv hd_dropWhile list.discI rev_is_Nil_conv set_dropWhileD set_rev)
  qed
  moreover have "\<not> gate_ws (last (trim x))"
    using Cons unfolding trim_eq by (metis hd_dropWhile last_rev list.discI rev_is_Nil_conv)
  ultimately show ?thesis using Cons dropWhile_trimmed [of "trim x"] unfolding trim_eq [of "trim x"]
    by (cases "trim x") auto
next
  case Nil
  have "trim [] = []" by (simp add: trim_def)
  with Nil show ?thesis by simp
qed

section \<open>Running the gate\<close>

lemma result_or_terminate:
  "result (or_terminate m f) w = (case result m w of None \<Rightarrow> ([], Terminated)
     | Some y \<Rightarrow> (fst (f y) @ fst (result (snd (f y)) (exec m w)), snd (result (snd (f y)) (exec m w))))"
  by (simp add: or_terminate_def step_simps split: option.splits)

lemma exec_or_terminate:
  "exec (or_terminate m f) w = (case result m w of None \<Rightarrow> exec m w | Some y \<Rightarrow> exec (snd (f y)) (exec m w))"
  by (simp add: or_terminate_def step_simps split: option.splits)

lemmas or_terminate_run = result_or_terminate exec_or_terminate

lemma exec_gen: "exec (gen_raw L h u p g n) w = exec (dni_llama_generate L h (Some (2, p)) n 0 (map_option (Pair 3) g) on_piece u) w"
  "exec (gen L h u p g n) w = exec (gen_raw L h u p g n) w"
  by (simp_all add: gen_def gen_raw_def step_simps)

lemma gen_lines: "result (gen L h u p g n) w = Some (out, t) \<Longrightarrow> out = [] \<or> (\<exists>rc. out = [Generate_rc rc])"
  by (auto simp: gen_def step_simps split: if_splits)

lemma gate_finish_result:
  "result (gate_finish L h oks) w = ([Summary (length (filter id oks)) (length oks)], Exit (if list_all id oks then 0 else 1))"
proof -
  have "length (filter id oks) = length oks \<longleftrightarrow> list_all id oks"
    by (metis filter_id_conv length_filter_less less_irrefl list_all_iff)
  then show ?thesis by (simp add: gate_finish_def step_simps Let_def)
qed

text \<open>The four texts and codes a gate that was not terminated saw.\<close>

definition gate_saw :: "gate_line list \<Rightarrow> string \<Rightarrow> string \<Rightarrow> string \<Rightarrow> int \<Rightarrow> bool" where
  "gate_saw out ctrl forced ans rc \<longleftrightarrow> Control ctrl \<in> set out \<and> Forced forced \<in> set out \<and> Answered ans \<in> set out \<and>
     Malformed_verdict (rc < 0) rc \<in> set out"

lemma gate_checks_result:
  assumes "result (gate_checks L h sinks) w = (out, e)" "e \<noteq> Terminated"
  shows "\<exists>c f a rc o1 o2 o3. out = o1 @ [Control (trim c), Control_verdict (ctrl_ok (trim c))] @
      o2 @ [Forced (trim f), Forced_verdict (matches_forced (trim f))] @
      o3 @ [Answered (trim a), Answer_verdict (ans_ok (trim a))] @
      [Malformed_verdict (rc < 0) rc] @
      [Summary (length (filter id [ctrl_ok (trim c), matches_forced (trim f), ans_ok (trim a), rc < 0])) 4] \<and>
    set (o1 @ o2 @ o3) \<subseteq> range Generate_rc \<and>
    e = Exit (if ctrl_ok (trim c) \<and> matches_forced (trim f) \<and> ans_ok (trim a) \<and> rc < 0 then 0 else 1)"
proof -
  let ?g1 = "gen L h (sinks 0) gate_prompt None 12"
  let ?g2 = "gen L h (sinks 1) gate_prompt (Some synthetic_gbnf) 24"
  let ?g3 = "gen L h (sinks 2) answer_prompt (Some answer_gbnf) 160"
  let ?g4 = "malformed_check L h (sinks 3)"
  obtain o1 c where 1: "result ?g1 w = Some (o1, c)"
    using assms by (auto simp: gate_checks_def or_terminate_run split: option.splits prod.splits)
  obtain o2 f where 2: "result ?g2 (exec ?g1 w) = Some (o2, f)"
    using assms 1 by (auto simp: gate_checks_def or_terminate_run Let_def split: option.splits prod.splits)
  obtain o3 a where 3: "result ?g3 (exec ?g2 (exec ?g1 w)) = Some (o3, a)"
    using assms 1 2 by (auto simp: gate_checks_def or_terminate_run Let_def split: option.splits prod.splits)
  obtain rc j where 4: "result ?g4 (exec ?g3 (exec ?g2 (exec ?g1 w))) = Some (rc, j)"
    using assms 1 2 3 by (auto simp: gate_checks_def or_terminate_run Let_def split: option.splits prod.splits)
  have "(out, e) = (o1 @ [Control (trim c), Control_verdict (ctrl_ok (trim c))] @
      o2 @ [Forced (trim f), Forced_verdict (matches_forced (trim f))] @
      o3 @ [Answered (trim a), Answer_verdict (ans_ok (trim a))] @ [Malformed_verdict (rc < 0) rc] @
      [Summary (length (filter id [ctrl_ok (trim c), matches_forced (trim f), ans_ok (trim a), rc < 0])) 4],
    Exit (if ctrl_ok (trim c) \<and> matches_forced (trim f) \<and> ans_ok (trim a) \<and> rc < 0 then 0 else 1))"
    unfolding assms(1) [symmetric]
    by (simp add: gate_checks_def or_terminate_run Let_def gate_finish_result 1 2 3 4 del: One_nat_def)
  moreover have "set (o1 @ o2 @ o3) \<subseteq> range Generate_rc"
    using gen_lines [OF 1] gen_lines [OF 2] gen_lines [OF 3] by auto
  ultimately show ?thesis by blast
qed


section \<open>The gate and the shim\<close>

lemma gen_held:
  assumes "llama_held w = Some M" "handles w a = Some h" "Ctx (ctx h) \<in># M"
  shows "llama_held (exec (gen L a u p g n) w) = Some M" "handles (exec (gen L a u p g n) w) = handles w"
    "llama_held (exec (malformed_check L a u) w) = Some M" "handles (exec (malformed_check L a u) w) = handles w"
  using generate_held [OF assms] by (simp_all add: exec_gen malformed_check_def)

lemma gate_checks_held:
  assumes "llama_held w = Some (M + owned_by a h)" "handles w a = Some h" "a \<noteq> NULL" "model h \<noteq> NULL" "ctx h \<noteq> NULL"
  shows "llama_held (exec (gate_checks L a sinks) w) =
    Some (if snd (result (gate_checks L a sinks) w) = Terminated then M + owned_by a h else M)"
proof -
  have c: "Ctx (ctx h) \<in># M + owned_by a h" by (simp add: owned_by_def)
  have g: "llama_held (exec (gen L a u p g n) v) = Some (M + owned_by a h)" "handles (exec (gen L a u p g n) v) a = Some h"
    "llama_held (exec (malformed_check L a u) v) = Some (M + owned_by a h)" "handles (exec (malformed_check L a u) v) a = Some h"
    if "llama_held v = Some (M + owned_by a h)" "handles v a = Some h" for v :: "'a llama" and u p g n
    using gen_held [OF that c] that(2) by simp_all
  have f: "llama_held (exec (gate_finish L a oks) v) = Some M"
    if "llama_held v = Some (M + owned_by a h)" "handles v a = Some h" for v :: "'a llama" and oks
    using free_held(1) [OF that assms(3-5)] by (simp add: gate_finish_def step_simps Let_def)
  show ?thesis
    by (auto simp: gate_checks_def or_terminate_run Let_def gate_finish_result g f assms(1,2) split: option.splits prod.splits)
qed

text \<open>\<open>llama_tokenize\<close> without a buffer answers the number of tokens negated. Then no exception leaves the shim.\<close>

definition counts_negated :: "'s llama_lib \<Rightarrow> bool" where
  "counts_negated L \<longleftrightarrow> (\<forall>v x n a b s. l_int (fst (L (Llama_tokenize v x n 0 a b) s)) \<le> 0)"

lemma gen_returns:
  assumes "counts_negated L" "handles w a = Some h" "a \<noteq> NULL"
  shows "result (gen_raw L a u p g n) w \<noteq> None" "result (gen L a u p g n) w \<noteq> None"
proof -
  have "result (prepare_prompt L h p) w \<in> {Inl (Returned (- 2))} \<union> range Inr"
    using assms(1) by (simp add: prepare_prompt_def step_simps result_perform counts_negated_def leD)
  then show "result (gen_raw L a u p g n) w \<noteq> None"
    using assms(2,3) by (auto simp: gen_raw_def dni_llama_generate_def step_simps on_piece_def)
  then show "result (gen L a u p g n) w \<noteq> None" by (simp add: gen_def step_simps)
qed

lemma gate_checks_returns:
  assumes "counts_negated L" "llama_held w = Some M" "handles w a = Some h" "a \<noteq> NULL" "Ctx (ctx h) \<in># M"
  shows "snd (result (gate_checks L a sinks) w) \<noteq> Terminated"
proof -
  have g: "llama_held (exec (gen L a u p g n) v) = Some M" "handles (exec (gen L a u p g n) v) a = Some h"
    if "llama_held v = Some M" "handles v a = Some h" for v :: "'a llama" and u p g n
    using gen_held [OF that assms(5)] that(2) by simp_all
  have r: "\<exists>o1 t. result (gen L a u p g n) v = Some (o1, t)" "\<exists>rc t. result (malformed_check L a u) v = Some (rc, t)"
    if "handles v a = Some h" for v :: "'a llama" and u p g n
    using gen_returns [OF assms(1) that assms(4)] by (auto simp: malformed_check_def)
  let ?w1 = "exec (gen L a (sinks 0) gate_prompt None 12) w"
  let ?w2 = "exec (gen L a (sinks 1) gate_prompt (Some synthetic_gbnf) 24) ?w1"
  let ?w3 = "exec (gen L a (sinks 2) answer_prompt (Some answer_gbnf) 160) ?w2"
  note h = assms(2,3)
  note h1 = g [OF h, of "sinks 0" gate_prompt None 12]
  note h2 = g [OF h1, of "sinks 1" gate_prompt "Some synthetic_gbnf" 24]
  note h3 = g [OF h2, of "sinks 2" answer_prompt "Some answer_gbnf" 160]
  obtain o1 t1 o2 t2 o3 t3 rc t4 where
    "result (gen L a (sinks 0) gate_prompt None 12) w = Some (o1, t1)"
    "result (gen L a (sinks 1) gate_prompt (Some synthetic_gbnf) 24) ?w1 = Some (o2, t2)"
    "result (gen L a (sinks 2) answer_prompt (Some answer_gbnf) 160) ?w2 = Some (o3, t3)"
    "result (malformed_check L a (sinks 3)) ?w3 = Some (rc, t4)"
    using r(1) [OF h(2)] r(1) [OF h1(2)] r(1) [OF h2(2)] r(2) [OF h3(2)] by metis
  then show ?thesis
    by (simp add: gate_checks_def or_terminate_run Let_def gate_finish_result del: One_nat_def)
qed

text \<open>The gate gives back every llama.cpp object and exits, whatever else llama.cpp answers.\<close>

theorem gate_balanced:
  assumes "llama_held w = Some M" "new_nonnull L" "counts_negated L"
  shows "llama_held (exec (gate_main L argv sinks) w) = Some M \<and>
    (\<exists>c. snd (result (gate_main L argv sinks) w) = Exit c)"
proof (cases "length argv < 2 \<or> result (dni_llama_load L (argv ! 1)) w = NULL")
  case True
  then show ?thesis using load_held [OF assms(1,2), of "argv ! 1"] assms(1)
    by (auto simp: gate_main_def step_simps load_ok_def)
next
  case False
  let ?a = "result (dni_llama_load L (argv ! 1)) w" and ?w = "exec (dni_llama_load L (argv ! 1)) w"
  define h where "h = the (handles ?w ?a)"
  have h: "model h \<noteq> NULL" "ctx h \<noteq> NULL" "handles ?w ?a = Some h" "llama_held ?w = Some (M + owned_by ?a h)"
    using load_held [OF assms(1,2), of "argv ! 1"] False unfolding load_ok_def Let_def h_def [symmetric] by auto
  have "snd (result (gate_checks L ?a sinks) ?w) \<noteq> Terminated"
    using False by (intro gate_checks_returns [OF assms(3) h(4,3)]) (simp_all add: owned_by_def)
  then show ?thesis
    using gate_checks_held [OF h(4,3) _ h(1,2), of L sinks] False
    by (cases "snd (result (gate_checks L ?a sinks) ?w)") (auto simp: gate_main_def step_simps)
qed

text \<open>The shim only appends to the log, so the sink holds the texts this generation delivered.\<close>

lemma generate_loop_log: "\<exists>l. log (exec (generate_loop L h s u k n b) w) = log w @ l"
proof (induction n arbitrary: w k b)
  case (Suc n)
  have "\<exists>l. log (exec (generate_loop L h s u k' n b') w') = log w @ l" if "\<exists>l. log w' = log w @ l" for k' b' and w' :: "'a llama"
    using that Suc by (metis append.assoc)
  then show ?case by (simp add: step_simps log_perform)
qed (simp add: step_simps)

lemma sample_all_log: "\<exists>l. log (exec (sample_all L h mt t g u toks) w) = log w @ l"
proof -
  have f: "\<exists>l. log (exec (add_fixed_samplers L s t) v) = log v @ l" for s and v :: "'a llama"
    by (simp add: add_fixed_samplers_def add_sampler_def step_simps log_perform)
  have g: "\<exists>l. log (exec (add_grammar L h s g) v) = log v @ l" for s and v :: "'a llama"
    by (simp add: add_grammar_def step_simps log_perform split: option.splits)
  let ?r = "result (perform L Llama_sampler_chain_init) w"
  let ?w1 = "exec (perform L Llama_sampler_chain_init) w"
  let ?w2 = "exec (add_grammar L h (l_ptr ?r) g) ?w1"
  let ?w3 = "exec (add_fixed_samplers L (l_ptr ?r) t) ?w2"
  let ?w4 = "exec (generate_loop L h (l_ptr ?r) u 0 (nat mt) \<lparr>storage = Prompt_vector, tokens = toks\<rparr>) ?w3"
  have 2: "\<exists>l. log ?w2 = log w @ l" using g [of "l_ptr ?r" ?w1] by (auto simp: log_perform)
  then have "\<exists>l. log ?w4 = log w @ l"
    using f [of "l_ptr ?r" ?w2] generate_loop_log [of L h "l_ptr ?r" u 0 "nat mt" _ ?w3] by (metis append.assoc)
  with 2 show ?thesis by (auto simp: sample_all_def step_simps log_perform)
qed

lemma generate_log: "\<exists>l. log (exec (dni_llama_generate L a p mt t g cb u) w) = log w @ l"
proof (cases "a = NULL \<or> p = None \<or> cb = NULL \<or> handles w a = None")
  case True
  then show ?thesis by (auto simp: dni_llama_generate_def step_simps split: option.splits)
next
  case False
  then obtain h where h: "handles w a = Some h" by auto
  let ?p = "prepare_prompt L h (snd (the p))"
  have "\<exists>l. log (exec ?p w) = log w @ l" by (simp add: prepare_prompt_def step_simps log_perform)
  moreover have "\<exists>l. log (exec (sample_all L h mt t g u toks) (exec ?p w)) = log (exec ?p w) @ l" for toks
    by (rule sample_all_log)
  ultimately show ?thesis using False h
    by (cases "result ?p w") (auto simp: dni_llama_generate_def step_simps, metis append.assoc)
qed

lemma gen_raw_sink:
  assumes "result (gen_raw L a u p g n) w = Some (rc, s)"
    "texts_delivered (log (exec (gen_raw L a u p g n) w)) = texts_delivered (log w) @ ts"
  shows "s = concat ts"
proof -
  obtain l where "log (exec (gen_raw L a u p g n) w) = log w @ l"
    using generate_log unfolding exec_gen by blast
  then show ?thesis using assms
    by (auto simp: gen_raw_def step_simps exec_gen llama_view_append split: outcome.splits)
qed

text \<open>A llama.cpp that rejects a grammar, as its documentation says of one it cannot parse: \<open>NULL\<close>.\<close>

definition rejects :: "'s llama_lib \<Rightarrow> string \<Rightarrow> bool" where
  "rejects L g \<longleftrightarrow> (\<forall>v s. l_ptr (fst (L (Llama_sampler_init_grammar v g ''root'') s)) = NULL)"

text \<open>When llama.cpp rejects the malformed grammar, the check passes and nothing was emitted.\<close>

theorem gate_malformed_rejected:
  assumes "rejects L malformed_gbnf" "handles w a = Some h" "a \<noteq> NULL"
    "result (malformed_check L a u) w = Some (rc, junk)"
  shows "rc < 0 \<and> junk = ''''"
proof -
  let ?p = "prepare_prompt L h gate_prompt"
  have gr: "result (add_grammar L h' s (Some (3, malformed_gbnf))) v = False" for h' s and v :: "'a llama"
    using assms(1) by (simp add: add_grammar_def step_simps result_perform rejects_def malformed_gbnf_def)
  have s: "result (sample_all L h 8 0 (Some (3, malformed_gbnf)) u toks) v = - 5"
    "texts_delivered (log (exec (sample_all L h 8 0 (Some (3, malformed_gbnf)) u toks) v)) = texts_delivered (log v)"
    for toks and v :: "'a llama"
    by (simp_all add: sample_all_def step_simps gr setup_quiet quiet_simps)
  have q: "texts_delivered (log (exec ?p w)) = texts_delivered (log w)"
    using prepare_quiet [of w L h gate_prompt] by (simp add: progress_def)
  have "texts_delivered (log (exec (malformed_check L a u) w)) = texts_delivered (log w) @ []"
    using assms(2,3) q
    by (cases "result ?p w") (simp_all add: malformed_check_def exec_gen dni_llama_generate_def step_simps on_piece_def s)
  then have "junk = concat []" using gen_raw_sink assms(4) unfolding malformed_check_def by blast
  moreover have "rc < 0" using assms(2-4) generate_reports
    by (cases "result ?p w")
      (auto simp: malformed_check_def gen_raw_def dni_llama_generate_def step_simps on_piece_def s prepare_prompt_def
        split: if_splits)
  ultimately show ?thesis by simp
qed

text \<open>The converse fails: a llama.cpp that accepts the grammar, delivers a piece and then fails to decode also passes
  the check, which only looks at the sign of the code.\<close>

definition failing_llama :: "nat llama_lib" where
  "failing_llama c s = (\<lparr>l_ptr = 1,
     l_int = (case c of Llama_tokenize v x n m a b \<Rightarrow> if m = 0 then - 3 else 3
       | Llama_token_to_piece v t n ls sp \<Rightarrow> 1 | Llama_decode x ts \<Rightarrow> int s | _ \<Rightarrow> 0),
     l_tokens = [5, 6, 7], l_bytes = ''a''\<rparr>, case c of Llama_decode x ts \<Rightarrow> Suc s | _ \<Rightarrow> s)"

definition gate_world :: "nat llama" where
  "gate_world = \<lparr>ext_state = 0, log = [], handles = Map.empty(1 \<mapsto> \<lparr>model = 1, ctx = 1, vocab = 1\<rparr>),
     expired_read = False, overrun = False\<rparr>"

text \<open>The fourth check of the gate says that a malformed grammar is refused and emits nothing, but it looks only at the sign of
  the return code: a generation that accepts the grammar, emits a piece and then fails to decode passes it.\<close>

theorem gate_malformed_false_pass: "result (malformed_check failing_llama 1 9) gate_world = Some (- 3, ''a'')"
  by (simp add: malformed_check_def gen_raw_def dni_llama_generate_def prepare_prompt_def sample_all_def add_grammar_def
      add_fixed_samplers_def add_sampler_def malformed_gbnf_def gate_world_def failing_llama_def on_piece_def run_simps
      texts_delivered_def c_string_def eval_nat_numeral)

section \<open>Witnesses\<close>

definition strict_llama :: "nat llama_lib" where
  "strict_llama c s = (case c of Llama_sampler_init_grammar v g r \<Rightarrow>
      (\<lparr>l_ptr = NULL, l_int = 0, l_tokens = [], l_bytes = ''''\<rparr>, s) | _ \<Rightarrow> failing_llama c s)"

lemmas gate_run_defs = malformed_check_def gen_def gen_raw_def dni_llama_generate_def prepare_prompt_def sample_all_def
  add_grammar_def add_fixed_samplers_def add_sampler_def malformed_gbnf_def gate_world_def failing_llama_def
  strict_llama_def on_piece_def run_simps texts_delivered_def c_string_def eval_nat_numeral

theorem gate_malformed_rejected_witness: "result (malformed_check strict_llama 1 9) gate_world = Some (- 5, '''')"
proof -
  have "rejects strict_llama malformed_gbnf" by (simp add: rejects_def strict_llama_def)
  moreover have "handles gate_world 1 = Some \<lparr>model = 1, ctx = 1, vocab = 1\<rparr>" by (simp add: gate_world_def)
  moreover have "\<exists>junk. result (malformed_check strict_llama 1 9) gate_world = Some (- 5, junk)"
    by (simp add: gate_run_defs)
  ultimately show ?thesis using gate_malformed_rejected [of strict_llama gate_world 1 _ 9] by fastforce
qed

theorem gate_balanced_witness:
  "llama_held (exec (gate_main failing_llama [None, Some (1, ''m'')] id) (gate_world\<lparr>handles := Map.empty\<rparr>)) = Some {#}"
proof -
  have "llama_held (gate_world\<lparr>handles := Map.empty\<rparr>) = Some {#}" by (simp add: held_def gate_world_def)
  moreover have "new_nonnull failing_llama" by (simp add: new_nonnull_def failing_llama_def)
  moreover have "counts_negated failing_llama" by (simp add: counts_negated_def failing_llama_def)
  ultimately show ?thesis using gate_balanced by blast
qed

end
