(* ===== verification/Llama_Model.thy ===== *)
theory Llama_Model
  imports Llama_Shim "HOL-Library.Sublist"
begin

text \<open>
  \<^verbatim>\<open>src/core/DotnetNativeInterop.Engine/Llama/LlamaLanguageModel.cs\<close>: the managed model over the shim. A background task
  runs \<open>dni_llama_generate\<close>, whose callback \<open>OnPiece\<close> tries to write each piece into a bounded channel; the async
  iterator reads the channel until it is completed or the caller cancels. The two run concurrently, so a stream is a
  state machine. The theorems: a stream of at most 256 pieces, hence every generation of at most 256 tokens, is passed on
  exactly; a longer one can lose pieces; and after a cancellation the native generation goes on, so that the handle can be
  freed under it.
\<close>

section \<open>State\<close>

text \<open>The native call still has pieces to deliver or has returned. The iterator reads, has left because it was
  cancelled, or has finished. \<open>handle_freed\<close> is \<open>Dispose\<close>.\<close>

datatype native_call = Running "string list" | Returned_native
datatype iterator = Iterating | Left | Finished

record llama_stream =
  native :: native_call
  pieces_queue :: "string list"
  completed :: bool
  iterator :: iterator
  yielded :: "string list"
  dropped :: "string list"
  handle_freed :: bool

definition llama_capacity :: nat where "llama_capacity = 256"

definition GenerateAsync :: "string list \<Rightarrow> llama_stream" where
  "GenerateAsync ps = \<lparr>native = Running ps, pieces_queue = [], completed = False, iterator = Iterating, yielded = [],
     dropped = [], handle_freed = False\<rparr>"

section \<open>Steps\<close>

text \<open>\<open>OnPiece\<close>: an empty text is ignored, the others go through \<open>TryWrite\<close>, which refuses when the channel is full.\<close>

definition OnPiece :: "string \<Rightarrow> llama_stream \<Rightarrow> llama_stream" where
  "OnPiece p s = (if p = '''' then s
     else if length (pieces_queue s) < llama_capacity then s\<lparr>pieces_queue := pieces_queue s @ [p]\<rparr>
     else s\<lparr>dropped := dropped s @ [p]\<rparr>)"

text \<open>The code \<open>dni_llama_generate\<close> returns is not read: the \<open>finally\<close> block completes the channel in any case.\<close>

inductive llama_step :: "llama_stream \<Rightarrow> llama_stream \<Rightarrow> bool" where
  piece: "native s = Running (p # ps) \<Longrightarrow> llama_step s (OnPiece p (s\<lparr>native := Running ps\<rparr>))"
| generated: "native s = Running [] \<Longrightarrow> llama_step s (s\<lparr>native := Returned_native, completed := True\<rparr>)"
| yield: "iterator s = Iterating \<Longrightarrow> pieces_queue s = p # q \<Longrightarrow>
    llama_step s (s\<lparr>pieces_queue := q, yielded := yielded s @ [p]\<rparr>)"
| ended: "iterator s = Iterating \<Longrightarrow> pieces_queue s = [] \<Longrightarrow> completed s \<Longrightarrow> llama_step s (s\<lparr>iterator := Finished\<rparr>)"
| cancelled: "iterator s = Iterating \<Longrightarrow> llama_step s (s\<lparr>iterator := Left\<rparr>)"
| freed: "iterator s \<noteq> Iterating \<Longrightarrow> \<not> handle_freed s \<Longrightarrow> llama_step s (s\<lparr>handle_freed := True\<rparr>)"

text \<open>The last rule is \<open>EngineHost.Reset\<close>: \<open>Shutdown\<close> calls it after it has waited for the pumps, that is for the iterators.\<close>

inductive_cases llama_stepE: "llama_step s s'"

inductive llama_reach :: "llama_stream \<Rightarrow> llama_stream \<Rightarrow> bool" where
  llama_refl: "llama_reach s s"
| llama_trans: "llama_reach s s' \<Longrightarrow> llama_step s' s'' \<Longrightarrow> llama_reach s s''"

section \<open>Streams that fit\<close>

definition nonempty :: "string list \<Rightarrow> string list" where
  "nonempty ps = filter (\<lambda>p. p \<noteq> '''') ps"

definition rest :: "llama_stream \<Rightarrow> string list" where
  "rest s = (case native s of Running ps \<Rightarrow> nonempty ps | Returned_native \<Rightarrow> [])"

definition stream_inv :: "string list \<Rightarrow> llama_stream \<Rightarrow> bool" where
  "stream_inv ps s \<longleftrightarrow> (completed s \<longleftrightarrow> native s = Returned_native) \<and>
     length (pieces_queue s) \<le> llama_capacity \<and>
     (iterator s = Finished \<longrightarrow> pieces_queue s = [] \<and> completed s) \<and>
     length (yielded s @ pieces_queue s @ dropped s @ rest s) = length (nonempty ps) \<and>
     (dropped s = [] \<longrightarrow> yielded s @ pieces_queue s @ rest s = nonempty ps) \<and>
     subseq (yielded s @ pieces_queue s @ rest s) (nonempty ps) \<and>
     (dropped s \<noteq> [] \<longrightarrow> llama_capacity < length (nonempty ps))"

lemma stream_inv_start: "stream_inv ps (GenerateAsync ps)"
  by (simp add: stream_inv_def GenerateAsync_def rest_def)

lemma subseq_drop_mid: "subseq (xs @ y # zs) us \<Longrightarrow> subseq (xs @ zs) us"
  by (metis append_Cons append_Nil list_emb_append_mono subseq_order.dual_order.trans subseq_order.order_refl subseq_Cons')

lemma stream_inv_step: "llama_step s s' \<Longrightarrow> stream_inv ps s \<Longrightarrow> stream_inv ps s'"
proof (erule llama_stepE)
  fix p qs
  assume i: "stream_inv ps s" and s': "s' = OnPiece p (s\<lparr>native := Running qs\<rparr>)" and n: "native s = Running (p # qs)"
  have r: "rest s = nonempty [p] @ nonempty qs" using n by (simp add: rest_def nonempty_def)
  have le: "length (pieces_queue s) \<le> llama_capacity" using i by (simp add: stream_inv_def)
  consider "p = ''''" | "p \<noteq> ''''" "length (pieces_queue s) < llama_capacity"
    | "p \<noteq> ''''" "length (pieces_queue s) = llama_capacity"
    using le by linarith
  then show "stream_inv ps s'"
  proof cases
    case 3
    have "subseq ((yielded s @ pieces_queue s) @ nonempty qs) (nonempty ps)"
      using i r 3 subseq_drop_mid [of "yielded s @ pieces_queue s" p "nonempty qs"]
      by (simp add: stream_inv_def nonempty_def)
    moreover have "llama_capacity < length (nonempty ps)"
      using i r 3 by (simp add: stream_inv_def nonempty_def)
    ultimately show ?thesis using i r s' n 3
      by (auto simp: stream_inv_def OnPiece_def rest_def nonempty_def)
  qed (use i r s' n in \<open>auto simp: stream_inv_def OnPiece_def rest_def nonempty_def\<close>)
qed (auto simp: stream_inv_def rest_def nonempty_def)

lemma stream_inv_reach: "llama_reach s s' \<Longrightarrow> stream_inv ps s \<Longrightarrow> stream_inv ps s'"
  by (induction rule: llama_reach.induct) (auto dest: stream_inv_step)

text \<open>A stream that finished yields a subsequence of the pieces that are not empty, and all of them, in order, when there
  are at most 256.\<close>

theorem llama_stream_exact:
  assumes "llama_reach (GenerateAsync ps) s" "iterator s = Finished" "length (nonempty ps) \<le> 256"
  shows "yielded s = nonempty ps"
proof -
  have i: "stream_inv ps s" using stream_inv_reach [OF assms(1) stream_inv_start] .
  then have "rest s = []" "pieces_queue s = []" "dropped s = []"
    using assms(2,3) by (auto simp: stream_inv_def rest_def llama_capacity_def)
  then show ?thesis using i by (simp add: stream_inv_def)
qed

section \<open>Streams that do not\<close>

lemma reach_pieces:
  assumes "native s = Running (replicate n p @ ps)" "p \<noteq> ''''" "length (pieces_queue s) + n \<le> llama_capacity"
  shows "llama_reach s (s\<lparr>native := Running ps, pieces_queue := pieces_queue s @ replicate n p\<rparr>)"
  using assms
proof (induction n arbitrary: ps)
  case 0
  then have "s\<lparr>native := Running ps, pieces_queue := pieces_queue s @ []\<rparr> = s" by simp
  then show ?case using llama_refl [of s] by simp
next
  case (Suc n)
  let ?s = "s\<lparr>native := Running (p # ps), pieces_queue := pieces_queue s @ replicate n p\<rparr>"
  have "native s = Running (replicate n p @ p # ps)" using Suc.prems(1) by (simp add: replicate_app_Cons_same)
  then have a: "llama_reach s ?s" using Suc by auto
  have b: "llama_step ?s (OnPiece p (?s\<lparr>native := Running ps\<rparr>))" by (rule llama_step.piece) simp
  have c: "OnPiece p (?s\<lparr>native := Running ps\<rparr>) = s\<lparr>native := Running ps, pieces_queue := pieces_queue s @ replicate (Suc n) p\<rparr>"
    using Suc.prems(2,3) by (simp add: OnPiece_def replicate_append_same)
  show ?case using llama_trans [OF a b] unfolding c .
qed

lemma reach_yields:
  assumes "iterator s = Iterating" "pieces_queue s = q"
  shows "llama_reach s (s\<lparr>pieces_queue := [], yielded := yielded s @ q\<rparr>)"
  using assms
proof (induction q arbitrary: s)
  case Nil
  then have "s\<lparr>pieces_queue := [], yielded := yielded s @ []\<rparr> = s" by simp
  then show ?case using llama_refl [of s] by simp
next
  case (Cons p q)
  let ?s = "s\<lparr>pieces_queue := q, yielded := yielded s @ [p]\<rparr>"
  have st: "llama_step s ?s" using Cons.prems by (intro llama_step.yield)
  have "llama_reach ?s (?s\<lparr>pieces_queue := [], yielded := yielded ?s @ q\<rparr>)" using Cons.IH [of ?s] Cons.prems by simp
  then have "llama_reach s (?s\<lparr>pieces_queue := [], yielded := yielded ?s @ q\<rparr>)"
    by (induction ?s _ rule: llama_reach.induct) (blast intro: llama_refl llama_trans st)+
  then show ?case by simp
qed

lemma reach_append: "llama_reach t u \<Longrightarrow> llama_reach s t \<Longrightarrow> llama_reach s u"
  by (induction rule: llama_reach.induct) (auto intro: llama_trans)

text \<open>With 257 pieces there is a run that finishes normally and has lost one of them: the consumer was slower than the
  model.\<close>

theorem llama_stream_drops:
  "\<exists>s. llama_reach (GenerateAsync (replicate 257 ''a'')) s \<and> iterator s = Finished \<and> length (yielded s) = 256 \<and>
     dropped s = [''a'']"
proof -
  let ?s0 = "GenerateAsync (replicate 257 ''a'')"
  have r: "replicate 257 ''a'' = replicate 256 ''a'' @ [''a'']"
    by (simp add: replicate_append_same flip: replicate_Suc)
  let ?s1 = "?s0\<lparr>native := Running [''a''], pieces_queue := replicate 256 ''a''\<rparr>"
  let ?s2 = "OnPiece ''a'' (?s1\<lparr>native := Running []\<rparr>)"
  let ?s3 = "?s2\<lparr>native := Returned_native, completed := True\<rparr>"
  let ?s4 = "?s3\<lparr>pieces_queue := [], yielded := replicate 256 ''a''\<rparr>"
  let ?s5 = "?s4\<lparr>iterator := Finished\<rparr>"
  have d: "?s2 = ?s1\<lparr>native := Running [], dropped := [''a'']\<rparr>"
    by (simp add: OnPiece_def llama_capacity_def GenerateAsync_def)
  have 1: "llama_reach ?s0 ?s1"
    using reach_pieces [of ?s0 256 "''a''" "[''a'']"] by (simp add: GenerateAsync_def r llama_capacity_def)
  have 2: "llama_step ?s1 ?s2" by (rule llama_step.piece) simp
  have 3: "llama_step ?s2 ?s3" unfolding d by (rule llama_step.generated) simp
  have 4: "llama_reach ?s3 ?s4"
    using reach_yields [of ?s3 "replicate 256 ''a''"] unfolding d by (simp add: GenerateAsync_def)
  have 5: "llama_step ?s4 ?s5" unfolding d by (rule llama_step.ended) (simp_all add: GenerateAsync_def)
  have "llama_reach ?s0 ?s5"
    by (rule llama_trans [OF reach_append [OF 4 llama_trans [OF llama_trans [OF 1 2] 3]] 5])
  moreover have "iterator ?s5 = Finished \<and> length (yielded ?s5) = 256 \<and> dropped ?s5 = [''a'']" unfolding d by simp
  ultimately show ?thesis by blast
qed

text \<open>A cancelled iterator does not wait for the task: with any piece left, the handle can be freed while the native
  generation still runs.\<close>

theorem llama_freed_in_use:
  assumes "ps \<noteq> []"
  shows "\<exists>s s'. llama_reach (GenerateAsync ps) s \<and> handle_freed s \<and> native s = Running ps \<and> llama_step s s'"
proof -
  let ?s1 = "(GenerateAsync ps)\<lparr>iterator := Left\<rparr>"
  let ?s2 = "?s1\<lparr>handle_freed := True\<rparr>"
  have "llama_step (GenerateAsync ps) ?s1" by (rule llama_step.cancelled) (simp add: GenerateAsync_def)
  moreover have "llama_step ?s1 ?s2" by (rule llama_step.freed) (simp_all add: GenerateAsync_def)
  ultimately have "llama_reach (GenerateAsync ps) ?s2" by (meson llama_refl llama_trans)
  moreover have "native ?s2 = Running ps" "handle_freed ?s2" by (simp_all add: GenerateAsync_def)
  moreover obtain p qs where "ps = p # qs" using assms by (cases ps) auto
  ultimately show ?thesis using llama_step.piece [of ?s2 p qs] by blast
qed

section \<open>The model over the shim\<close>


section \<open>Witnesses\<close>

definition demo_stream :: llama_stream where
  "demo_stream = \<lparr>native = Returned_native, pieces_queue = [], completed = True, iterator = Finished, yielded = [''a''],
     dropped = [], handle_freed = False\<rparr>"

lemma demo_stream_reached: "llama_reach (GenerateAsync [''a'']) demo_stream"
proof -
  let ?s0 = "GenerateAsync [''a'']"
  let ?s1 = "?s0\<lparr>native := Running [], pieces_queue := [''a'']\<rparr>"
  let ?s2 = "?s1\<lparr>pieces_queue := [], yielded := yielded ?s1 @ [''a'']\<rparr>"
  let ?s3 = "?s2\<lparr>native := Returned_native, completed := True\<rparr>"
  let ?s4 = "?s3\<lparr>iterator := Finished\<rparr>"
  have "llama_step ?s0 (OnPiece ''a'' (?s0\<lparr>native := Running []\<rparr>))"
    by (rule llama_step.piece) (simp add: GenerateAsync_def)
  moreover have "OnPiece ''a'' (?s0\<lparr>native := Running []\<rparr>) = ?s1"
    by (simp add: OnPiece_def GenerateAsync_def llama_capacity_def)
  ultimately have 1: "llama_step ?s0 ?s1" by simp
  have 2: "llama_step ?s1 ?s2" by (rule llama_step.yield) (simp_all add: GenerateAsync_def)
  have 3: "llama_step ?s2 ?s3" by (rule llama_step.generated) simp
  have 4: "llama_step ?s3 ?s4" by (rule llama_step.ended) (simp_all add: GenerateAsync_def)
  have "llama_reach ?s0 ?s4" using llama_refl llama_trans 1 2 3 4 by meson
  moreover have "?s4 = demo_stream" by (simp add: demo_stream_def GenerateAsync_def)
  ultimately show ?thesis by simp
qed

theorem llama_stream_exact_witness: "yielded demo_stream = nonempty [''a'']"
  using llama_stream_exact [OF demo_stream_reached] by (simp add: demo_stream_def nonempty_def)

theorem llama_freed_in_use_witness:
  "\<exists>s s'. llama_reach (GenerateAsync [''a'']) s \<and> handle_freed s \<and> native s = Running [''a''] \<and> llama_step s s'"
  using llama_freed_in_use [of "[''a'']"] by simp


end
