(* ===== verification/Utf16.thy ===== *)
theory Utf16
  imports "HOL-Library.Word"
begin

text \<open>
  Strings of C# and Kotlin: lists of UTF-16 code units. Here are the encoding of Unicode scalars, ASCII literals of the
  sources and the well-formed strings, which are the encodings of lists of scalars.
\<close>

type_synonym cs_string = "16 word list"

definition scalar :: "int \<Rightarrow> bool" where
  "scalar n \<longleftrightarrow> 0 \<le> n \<and> n < 0xD800 \<or> 0xE000 \<le> n \<and> n < 0x110000"

definition utf16_1 :: "int \<Rightarrow> 16 word list" where
  "utf16_1 n = (if n < 0x10000 then [word_of_int n]
     else [word_of_int (0xD800 + (n - 0x10000) div 0x400), word_of_int (0xDC00 + (n - 0x10000) mod 0x400)])"

definition utf16 :: "int list \<Rightarrow> 16 word list" where
  "utf16 s = concat (map utf16_1 s)"

definition scalars :: "int list \<Rightarrow> bool" where
  "scalars s \<longleftrightarrow> list_all scalar s"

definition lit :: "string \<Rightarrow> 'c::comm_semiring_1 list" where
  "lit s = map of_char s"

lemma uint_unit: "0 \<le> n \<Longrightarrow> n < 65536 \<Longrightarrow> uint (word_of_int n :: 16 word) = n"
  by (simp add: unsigned_of_int take_bit_int_eq_self)

lemma utf16_1_Nil: "utf16_1 n \<noteq> []"
  by (simp add: utf16_1_def)

lemma utf16_Nil [simp]: "utf16 s = [] \<longleftrightarrow> s = []"
  by (auto simp: utf16_def utf16_1_Nil)

lemma utf16_simps: "utf16 [] = []" "utf16 (n # s) = utf16_1 n @ utf16 s" "utf16 (s @ t) = utf16 s @ utf16 t"
  by (simp_all add: utf16_def)

text \<open>The units of a scalar outside the basic plane are surrogates.\<close>

lemma utf16_1_cases:
  assumes "scalar n"
  obtains (basic) u where "utf16_1 n = [u]" "uint u = n" "\<not> (0xD800 \<le> uint u \<and> uint u < 0xE000)" "n < 0x10000"
    | (astral) h l where "utf16_1 n = [h, l]" "uint h = 0xD800 + (n - 0x10000) div 0x400" "uint l = 0xDC00 + (n - 0x10000) mod 0x400"
        "0xD800 \<le> uint h \<and> uint h < 0xE000" "0xD800 \<le> uint l \<and> uint l < 0xE000" "0x10000 \<le> n"
proof (cases "n < 0x10000")
  case True
  then show ?thesis using basic [of "word_of_int n"] assms by (auto simp: utf16_1_def uint_unit scalar_def)
next
  case False
  define h l where hl: "h = 0xD800 + (n - 0x10000) div 0x400" "l = 0xDC00 + (n - 0x10000) mod 0x400"
  have "(n - 0x10000) div 0x400 < 0x400" "(n - 0x10000) mod 0x400 < 0x400" "0 \<le> (n - 0x10000) div 0x400" "0 \<le> (n - 0x10000) mod 0x400"
    using assms False by (auto simp: scalar_def div_int_pos_iff)
  then have b: "0xD800 \<le> h" "h < 0xE000" "0xD800 \<le> l" "l < 0xE000" by (simp_all add: hl)
  then have u: "uint (word_of_int h :: 16 word) = h" "uint (word_of_int l :: 16 word) = l" by (simp_all add: uint_unit)
  have "utf16_1 n = [word_of_int h, word_of_int l]" using False by (simp add: utf16_1_def hl)
  then show ?thesis using astral [of "word_of_int h" "word_of_int l"] False b u hl by simp
qed

lemma utf16_1_inj:
  assumes "scalar a" "scalar b" "utf16_1 a @ xs = utf16_1 b @ ys"
  shows "a = b" "xs = ys"
proof -
  have "a = b \<and> xs = ys"
    using assms(1)
  proof (cases rule: utf16_1_cases)
    case (basic u)
    from assms(2) show ?thesis by (cases rule: utf16_1_cases) (use basic assms(3) in auto)
  next
    case (astral h l)
    note a = astral
    from assms(2) show ?thesis
    proof (cases rule: utf16_1_cases)
      case (astral h' l')
      then have "h = h'" "l = l'" "xs = ys" using a assms(3) by auto
      then have "0xD800 + (a - 0x10000) div 0x400 = 0xD800 + (b - 0x10000) div 0x400"
        "0xDC00 + (a - 0x10000) mod 0x400 = 0xDC00 + (b - 0x10000) mod 0x400"
        using a(2,3) astral(2,3) by (metis, metis)
      then have "(a - 0x10000) div 0x400 = (b - 0x10000) div 0x400" "(a - 0x10000) mod 0x400 = (b - 0x10000) mod 0x400"
        by (simp_all only: add_left_cancel)
      then have "a - 0x10000 = b - 0x10000" by (metis div_mult_mod_eq)
      then have "a = b" using a(6) astral(6) by linarith
      then show ?thesis using \<open>xs = ys\<close> by simp
    qed (use a assms(3) in auto)
  qed
  then show "a = b" "xs = ys" by auto
qed

lemma scalars_simps [simp]: "scalars []" "scalars (n # s) \<longleftrightarrow> scalar n \<and> scalars s" "scalars (s @ t) \<longleftrightarrow> scalars s \<and> scalars t"
  by (simp_all add: scalars_def)

lemma utf16_prefix: "scalars x \<Longrightarrow> scalars y \<Longrightarrow> utf16 x @ z = utf16 y \<Longrightarrow> \<exists>y'. y = x @ y' \<and> z = utf16 y'"
proof (induction x arbitrary: y)
  case (Cons a x)
  from Cons.prems(3) have "y \<noteq> []" by (auto simp: utf16_simps utf16_1_Nil)
  then obtain b y0 where y: "y = b # y0" by (cases y) auto
  have e: "utf16_1 a @ (utf16 x @ z) = utf16_1 b @ utf16 y0" using Cons.prems(3) by (simp add: utf16_simps y)
  have "a = b" "utf16 x @ z = utf16 y0" using utf16_1_inj [OF _ _ e] Cons.prems(1,2) y by auto
  then show ?case using Cons.IH [of y0] Cons.prems(1,2) y by auto
qed (simp add: utf16_simps)

lemma utf16_inj: "scalars x \<Longrightarrow> scalars y \<Longrightarrow> utf16 x = utf16 y \<longleftrightarrow> x = y"
  using utf16_prefix [of x y "[]"] by (metis append_Nil2 utf16_Nil)

lemma lit_units: "utf16 (lit s) = lit s" "scalars (lit s)"
proof -
  have b: "0 \<le> (of_char c :: int)" "of_char c < (256 :: int)" for c :: char
    using of_char_mod_256 [of c, where 'a = int] by (metis pos_mod_bound pos_mod_sign zero_less_numeral)+
  have "of_char c < (65536 :: int)" "of_char c < (55296 :: int)" "0 \<le> (of_char c :: int)" for c :: char
    using b [of c] by simp_all
  then have "utf16_1 (of_char c) = [of_char c]" "scalar (of_char c)" for c
    by (simp_all add: utf16_1_def scalar_def of_int_of_char)
  then show "utf16 (lit s) = lit s" "scalars (lit s)"
    by (induction s) (simp_all add: utf16_simps lit_def)
qed

section \<open>Well-formed strings\<close>

text \<open>Every surrogate is half of a pair: a high one and the low one after it.\<close>

definition high_surrogate :: "16 word \<Rightarrow> bool" where
  "high_surrogate u \<longleftrightarrow> 0xD800 \<le> uint u \<and> uint u < 0xDC00"

definition low_surrogate :: "16 word \<Rightarrow> bool" where
  "low_surrogate u \<longleftrightarrow> 0xDC00 \<le> uint u \<and> uint u < 0xE000"

fun wf_utf16 :: "cs_string \<Rightarrow> bool" where
  "wf_utf16 [] = True"
| "wf_utf16 (u # s) =
     (if high_surrogate u then (case s of [] \<Rightarrow> False | v # s' \<Rightarrow> low_surrogate v \<and> wf_utf16 s')
      else \<not> low_surrogate u \<and> wf_utf16 s)"

lemma wf_utf16_append: "wf_utf16 s \<Longrightarrow> wf_utf16 (s @ t) = wf_utf16 t"
proof (induction s rule: wf_utf16.induct)
  case (2 u s)
  show ?case
  proof (cases "high_surrogate u")
    case True
    with 2(3) obtain v s' where "s = v # s'" "low_surrogate v" "wf_utf16 s'" by (cases s) simp_all
    then show ?thesis using 2(1) True by simp
  qed (use 2 in simp)
qed simp

lemma wf_utf16_plain: "wf_utf16 (u # s) = wf_utf16 s" if "uint u < 0xD800"
  using that by (simp add: high_surrogate_def low_surrogate_def)

lemma wf_utf16_ascii: "\<forall>u \<in> set s. uint u < 0xD800 \<Longrightarrow> wf_utf16 s"
  by (induction s) (simp_all add: wf_utf16_plain del: wf_utf16.simps(2))

lemma wf_lit: "wf_utf16 (lit s)"
proof (rule wf_utf16_ascii, safe)
  fix u :: "16 word" assume "u \<in> set (lit s)"
  then obtain c :: char where c: "u = of_char c" by (auto simp: lit_def)
  have b: "0 \<le> (of_char c :: int)" "of_char c < (256 :: int)"
    using of_char_mod_256 [of c, where 'a = int] by (metis pos_mod_bound pos_mod_sign zero_less_numeral)+
  have "u = word_of_int (of_char c)" by (simp add: c of_int_of_char)
  then show "uint u < 0xD800" using b uint_unit [of "of_char c"] by simp
qed

text \<open>The well-formed strings are the encodings.\<close>

lemma wf_utf16_iff: "wf_utf16 s \<longleftrightarrow> (\<exists>ns. scalars ns \<and> s = utf16 ns)"
proof
  have pair: "\<exists>n. scalar n \<and> utf16_1 n = [u, v]" if "high_surrogate u" "low_surrogate v" for u v
  proof -
    let ?n = "0x10000 + (uint u - 0xD800) * 0x400 + (uint v - 0xDC00)"
    have v: "0 \<le> uint v - 0xDC00" "uint v - 0xDC00 < 0x400" using that by (simp_all add: low_surrogate_def)
    have u: "0 \<le> uint u - 0xD800" "uint u - 0xD800 < 0x400" using that by (simp_all add: high_surrogate_def)
    have split: "(a * 0x400 + b) div 0x400 = a \<and> (a * 0x400 + b) mod 0x400 = b" if "0 \<le> b" "b < 0x400" for a b :: int
      using that by simp
    have "?n - 0x10000 = (uint u - 0xD800) * 0x400 + (uint v - 0xDC00)" by simp
    then have d: "(?n - 0x10000) div 0x400 = uint u - 0xD800" "(?n - 0x10000) mod 0x400 = uint v - 0xDC00"
      using split [OF v, of "uint u - 0xD800"] by metis+
    have "scalar ?n" "\<not> ?n < 0x10000" using u v by (auto simp: scalar_def)
    moreover have "word_of_int (0xD800 + (uint u - 0xD800)) = u" "word_of_int (0xDC00 + (uint v - 0xDC00)) = v" by simp_all
    ultimately show ?thesis unfolding utf16_1_def using d by (intro exI [of _ ?n]) simp
  qed
  show "wf_utf16 s \<Longrightarrow> \<exists>ns. scalars ns \<and> s = utf16 ns"
  proof (induction s rule: wf_utf16.induct)
    case 1
    then show ?case by (intro exI [of _ "[]"]) (simp add: utf16_simps)
  next
    case (2 u s)
    show ?case
    proof (cases "high_surrogate u")
      case True
      with 2(3) obtain v s' where s: "s = v # s'" "low_surrogate v" "wf_utf16 s'" by (auto split: list.splits)
      obtain n where "scalar n" "utf16_1 n = [u, v]" using pair [OF True s(2)] by blast
      moreover obtain ns where "scalars ns" "s' = utf16 ns" using 2(1) [OF True s(1) s(3)] by blast
      ultimately show ?thesis using s(1) by (intro exI [of _ "n # ns"]) (simp add: utf16_simps)
    next
      case False
      with 2 obtain ns where "scalars ns" "s = utf16 ns" by auto
      moreover have "scalar (uint u)" "utf16_1 (uint u) = [u]"
        using False 2(3) uint_bounded [of u] by (auto simp: scalar_def utf16_1_def high_surrogate_def low_surrogate_def)
      ultimately show ?thesis by (intro exI [of _ "uint u # ns"]) (simp add: utf16_simps)
    qed
  qed
next
  have one: "wf_utf16 (utf16_1 n)" if "scalar n" for n
    using that
  proof (cases rule: utf16_1_cases)
    case (astral h l)
    then have "0 \<le> (n - 0x10000) div 0x400" "(n - 0x10000) div 0x400 < 0x400" "0 \<le> (n - 0x10000) mod 0x400" "(n - 0x10000) mod 0x400 < 0x400"
      using that by (auto simp: scalar_def div_int_pos_iff)
    then show ?thesis using astral by (simp add: high_surrogate_def low_surrogate_def)
  qed (auto simp: high_surrogate_def low_surrogate_def)
  assume "\<exists>ns. scalars ns \<and> s = utf16 ns"
  then obtain ns where "scalars ns" "s = utf16 ns" by blast
  then show "wf_utf16 s"
    by (induction ns arbitrary: s) (simp_all add: utf16_simps wf_utf16_append one del: wf_utf16.simps(2))
qed

end
