(* ===== verification/Wordpiece.thy ===== *)
theory Wordpiece
  imports Utf16 "HOL-Library.Sublist"
begin

text \<open>
  The WordPiece tokenizer in its three implementations: the engine's (\<^verbatim>\<open>Ai/WordPieceTokenizer.cs\<close> under
  \<^verbatim>\<open>src/core/DotnetNativeInterop.Engine\<close>), the Android port (\<^verbatim>\<open>WordPieceTokenizer.kt\<close>) and the iOS port
  (\<^verbatim>\<open>ios/Shared/EdgeSearch/WordPieceTokenizer.swift\<close>), which must produce the same ids for the vectors to be comparable.
  The loops are the same over two kinds of characters, UTF-16 code units in C# and Kotlin and Unicode scalars in Swift, so
  they are polymorphic in the character. Case folding and normalisation, the general category and Swift's canonical
  comparison of strings are parameters. The theorems: the loop computes the greedy longest-match segmentation; the layout
  of ids and mask; when the ports agree with the engine, and texts on which they do not.
\<close>

section \<open>Unicode\<close>

datatype UnicodeCategory = UppercaseLetter | LowercaseLetter | TitlecaseLetter | ModifierLetter | OtherLetter
  | NonSpacingMark | SpacingCombiningMark | EnclosingMark | DecimalDigitNumber | LetterNumber | OtherNumber
  | SpaceSeparator | LineSeparator | ParagraphSeparator | Control | Format | Surrogate | PrivateUse
  | ConnectorPunctuation | DashPunctuation | OpenPunctuation | ClosePunctuation | InitialQuotePunctuation
  | FinalQuotePunctuation | OtherPunctuation | MathSymbol | CurrencySymbol | ModifierSymbol | OtherSymbol | OtherNotAssigned

text \<open>\<open>char.IsPunctuation\<close>, \<open>char.IsSymbol\<close> and the switches of the two ports.\<close>

definition IsPunctuation :: "UnicodeCategory \<Rightarrow> bool" where
  "IsPunctuation c \<longleftrightarrow> c \<in> {ConnectorPunctuation, DashPunctuation, OpenPunctuation, ClosePunctuation, InitialQuotePunctuation,
     FinalQuotePunctuation, OtherPunctuation}"

definition IsSymbol :: "UnicodeCategory \<Rightarrow> bool" where
  "IsSymbol c \<longleftrightarrow> c \<in> {MathSymbol, CurrencySymbol, ModifierSymbol, OtherSymbol}"

definition isPunctuationOrSymbol :: "UnicodeCategory \<Rightarrow> bool" where
  "isPunctuationOrSymbol c = (case c of
     ConnectorPunctuation \<Rightarrow> True | DashPunctuation \<Rightarrow> True | OpenPunctuation \<Rightarrow> True | ClosePunctuation \<Rightarrow> True
   | InitialQuotePunctuation \<Rightarrow> True | FinalQuotePunctuation \<Rightarrow> True | OtherPunctuation \<Rightarrow> True
   | MathSymbol \<Rightarrow> True | CurrencySymbol \<Rightarrow> True | ModifierSymbol \<Rightarrow> True | OtherSymbol \<Rightarrow> True | _ \<Rightarrow> False)"

lemma punctuation_switch: "isPunctuationOrSymbol c \<longleftrightarrow> IsPunctuation c \<or> IsSymbol c"
  by (cases c) (simp_all add: isPunctuationOrSymbol_def IsPunctuation_def IsSymbol_def)

definition separator :: "UnicodeCategory \<Rightarrow> bool" where
  "separator c \<longleftrightarrow> c \<in> {SpaceSeparator, LineSeparator, ParagraphSeparator}"

text \<open>White space of a code point with category \<open>c\<close>: \<open>char.IsWhiteSpace\<close> and Swift's \<open>isWhitespace\<close> are the Unicode property,
  Kotlin's \<open>isWhitespace\<close> is Java's, which has the four information separators instead of the next-line character.\<close>

definition IsWhiteSpace :: "UnicodeCategory \<Rightarrow> int \<Rightarrow> bool" where
  "IsWhiteSpace c n \<longleftrightarrow> separator c \<or> 9 \<le> n \<and> n \<le> 13 \<or> n = 0x85"

definition isWhitespace_kt :: "UnicodeCategory \<Rightarrow> int \<Rightarrow> bool" where
  "isWhitespace_kt c n \<longleftrightarrow> separator c \<or> 9 \<le> n \<and> n \<le> 13 \<or> 0x1C \<le> n \<and> n \<le> 0x1F"

text \<open>The category of a code unit: a surrogate is in the category of surrogates.\<close>

definition unit_category :: "(int \<Rightarrow> UnicodeCategory) \<Rightarrow> 16 word \<Rightarrow> UnicodeCategory" where
  "unit_category cat u = (if 0xD800 \<le> uint u \<and> uint u < 0xE000 then Surrogate else cat (uint u))"

section \<open>Words\<close>

text \<open>\<open>BasicTokenize\<close> after normalisation: the words so far and the string builder.\<close>

definition Flush :: "'c list list \<times> 'c list \<Rightarrow> 'c list list \<times> 'c list" where
  "Flush st = (case st of (words, sb) \<Rightarrow> if sb \<noteq> [] then (words @ [sb], []) else (words, sb))"

record 'c classes =
  mark_char :: "'c \<Rightarrow> bool"
  space_char :: "'c \<Rightarrow> bool"
  punct_char :: "'c \<Rightarrow> bool"

definition token_step :: "'c classes \<Rightarrow> 'c \<Rightarrow> 'c list list \<times> 'c list \<Rightarrow> 'c list list \<times> 'c list" where
  "token_step K ch st =
     (if mark_char K ch then st
      else if space_char K ch then Flush st
      else if punct_char K ch then (case Flush st of (words, sb) \<Rightarrow> (words @ [[ch]], sb))
      else (case st of (words, sb) \<Rightarrow> (words, sb @ [ch])))"

definition BasicTokenize :: "'c classes \<Rightarrow> 'c list \<Rightarrow> 'c list list" where
  "BasicTokenize K normalized = fst (Flush (fold (token_step K) normalized ([], [])))"

definition classes_cs :: "(int \<Rightarrow> UnicodeCategory) \<Rightarrow> 16 word classes" where
  "classes_cs cat = \<lparr>mark_char = (\<lambda>u. unit_category cat u = NonSpacingMark),
     space_char = (\<lambda>u. IsWhiteSpace (unit_category cat u) (uint u)),
     punct_char = (\<lambda>u. IsPunctuation (unit_category cat u) \<or> IsSymbol (unit_category cat u))\<rparr>"

definition classes_kt :: "(int \<Rightarrow> UnicodeCategory) \<Rightarrow> 16 word classes" where
  "classes_kt cat = \<lparr>mark_char = (\<lambda>u. unit_category cat u = NonSpacingMark),
     space_char = (\<lambda>u. isWhitespace_kt (unit_category cat u) (uint u)),
     punct_char = (\<lambda>u. isPunctuationOrSymbol (unit_category cat u))\<rparr>"

definition classes_swift :: "(int \<Rightarrow> UnicodeCategory) \<Rightarrow> int classes" where
  "classes_swift cat = \<lparr>mark_char = (\<lambda>n. cat n = NonSpacingMark), space_char = (\<lambda>n. IsWhiteSpace (cat n) n),
     punct_char = (\<lambda>n. isPunctuationOrSymbol (cat n))\<rparr>"

section \<open>Pieces\<close>

record 'c tokenizer =
  vocab :: "'c list \<Rightarrow> int option"
  ClsId :: int
  SepId :: int
  unkId :: int
  padId :: int

primrec vocab_from :: "int \<Rightarrow> 'c list list \<Rightarrow> ('c list \<Rightarrow> int option) \<Rightarrow> ('c list \<Rightarrow> int option)" where
  "vocab_from i [] m = m"
| "vocab_from i (line # ls) m = vocab_from (i + 1) ls (m(line \<mapsto> i))"

text \<open>The constructors. A missing special token is an exception in C# and Kotlin; Swift skips empty lines, compares lines up
  to canonical equivalence and has defaults.\<close>

definition WordPieceTokenizer :: "'c::comm_semiring_1 list list \<Rightarrow> 'c tokenizer option" where
  "WordPieceTokenizer vocabLines = (let v = vocab_from 0 vocabLines Map.empty in
     case (v (lit ''[CLS]''), v (lit ''[SEP]''), v (lit ''[UNK]''), v (lit ''[PAD]'')) of
       (Some cls, Some sep, Some unk, Some pad) \<Rightarrow> Some \<lparr>vocab = v, ClsId = cls, SepId = sep, unkId = unk, padId = pad\<rparr>
     | _ \<Rightarrow> None)"

primrec vocab_swift :: "(int list \<Rightarrow> int list) \<Rightarrow> int \<Rightarrow> int list list \<Rightarrow> (int list \<Rightarrow> int option) \<Rightarrow> (int list \<Rightarrow> int option)" where
  "vocab_swift canon i [] m = m"
| "vocab_swift canon i (line # ls) m = vocab_swift canon (i + 1) ls (if line = [] then m else m(canon line \<mapsto> i))"

definition init_swift :: "(int list \<Rightarrow> int list) \<Rightarrow> int list list \<Rightarrow> int tokenizer" where
  "init_swift canon vocabLines =
     (let v = (\<lambda>s. vocab_swift canon 0 vocabLines Map.empty (canon s));
          special = (\<lambda>s d. case v (lit s) of Some i \<Rightarrow> i | None \<Rightarrow> d)
      in \<lparr>vocab = v, ClsId = special ''[CLS]'' 101, SepId = special ''[SEP]'' 102, unkId = special ''[UNK]'' 100,
          padId = special ''[PAD]'' 0\<rparr>)"

text \<open>The inner loop of \<open>WordPiece\<close>: the match and the end it stopped at.\<close>

fun find_match :: "'c::comm_semiring_1 tokenizer \<Rightarrow> 'c list \<Rightarrow> nat \<Rightarrow> nat \<Rightarrow> int \<times> nat" where
  "find_match T word start en =
     (if start < en
      then let sub = (if start > 0 then lit ''##'' else []) @ drop start (take en word)
           in case vocab T sub of Some i \<Rightarrow> (i, en) | None \<Rightarrow> find_match T word start (en - 1)
      else (-1, en))"

declare find_match.simps [simp del]

text \<open>It finds the longest substring from \<open>start\<close> that ends at or before \<open>en\<close>, if there is one.\<close>

abbreviation subword :: "'c::comm_semiring_1 tokenizer \<Rightarrow> 'c list \<Rightarrow> nat \<Rightarrow> nat \<Rightarrow> int option" where
  "subword T word start k \<equiv> vocab T ((if start > 0 then lit ''##'' else []) @ drop start (take k word))"

lemma find_match_cases:
  "(\<exists>k i. start < k \<and> k \<le> en \<and> subword T word start k = Some i \<and> find_match T word start en = (i, k) \<and>
      (\<forall>k'. k < k' \<and> k' \<le> en \<longrightarrow> subword T word start k' = None)) \<or>
   (fst (find_match T word start en) = -1 \<and> (\<forall>k. start < k \<and> k \<le> en \<longrightarrow> subword T word start k = None))"
proof (induction en)
  case 0
  then show ?case by (simp add: find_match.simps)
next
  case (Suc en)
  show ?case
  proof (cases "start < Suc en \<and> subword T word start (Suc en) = None")
    case True
    then have "find_match T word start (Suc en) = find_match T word start en" by (subst find_match.simps) (simp add: Let_def)
    then show ?thesis using Suc True by (metis le_Suc_eq)
  next
    case False
    then show ?thesis by (subst (1 2) find_match.simps) (auto simp: Let_def)
  qed
qed

lemma find_match_progress: "find_match T word start en = (m, e) \<Longrightarrow> 0 \<le> m \<Longrightarrow> start < e"
  using find_match_cases [of start en T word] by auto

function piece_loop :: "'c::comm_semiring_1 tokenizer \<Rightarrow> 'c list \<Rightarrow> nat \<Rightarrow> int list \<Rightarrow> int list" where
  "piece_loop T word start out =
     (if start < length word
      then let (matched, en) = find_match T word start (length word)
           in if matched < 0 then [unkId T] else piece_loop T word en (out @ [matched])
      else out)"
  by auto
termination
proof (relation "measure (\<lambda>(T, word, start, out). length word - start)", goal_cases)
  case (2 T word start out x m e)
  then have "start < e" using find_match_progress [of T word start "length word" m e] by simp
  with 2(1) show ?case by auto
qed simp

declare piece_loop.simps [simp del]

definition WordPiece :: "'c::comm_semiring_1 tokenizer \<Rightarrow> 'c list \<Rightarrow> int list" where
  "WordPiece T word = piece_loop T word 0 []"

section \<open>Ids and mask\<close>

text \<open>In C# and Swift the break leaves the loop over the pieces of a word, in Kotlin both loops.\<close>

primrec add_pieces :: "nat \<Rightarrow> int list \<Rightarrow> int list \<Rightarrow> int list" where
  "add_pieces maxLen [] pieces = pieces"
| "add_pieces maxLen (p # ps) pieces =
     (if int (length pieces) \<ge> int maxLen - 1 then pieces else add_pieces maxLen ps (pieces @ [p]))"

primrec add_pieces_kt :: "nat \<Rightarrow> int list \<Rightarrow> int list \<Rightarrow> int list \<times> bool" where
  "add_pieces_kt maxLen [] pieces = (pieces, False)"
| "add_pieces_kt maxLen (p # ps) pieces =
     (if int (length pieces) \<ge> int maxLen - 1 then (pieces, True) else add_pieces_kt maxLen ps (pieces @ [p]))"

primrec add_words_kt :: "nat \<Rightarrow> int list list \<Rightarrow> int list \<Rightarrow> int list" where
  "add_words_kt maxLen [] pieces = pieces"
| "add_words_kt maxLen (w # ws) pieces = (case add_pieces_kt maxLen w pieces of
     (pieces, stop) \<Rightarrow> if stop then pieces else add_words_kt maxLen ws pieces)"

definition padded :: "int \<Rightarrow> nat \<Rightarrow> int list \<Rightarrow> int list \<times> int list" where
  "padded pad maxLen pieces =
     (map (\<lambda>i. if i < length pieces then pieces ! i else pad) [0..<maxLen],
      map (\<lambda>i. if i < length pieces then 1 else 0) [0..<maxLen])"

definition Encode :: "('c list \<Rightarrow> 'c list) \<Rightarrow> 'c classes \<Rightarrow> 'c::comm_semiring_1 tokenizer \<Rightarrow> 'c list \<Rightarrow> nat \<Rightarrow> int list \<times> int list" where
  "Encode norm K T txt maxLen =
     (let pieces = fold (\<lambda>word. add_pieces maxLen (WordPiece T word)) (BasicTokenize K (norm txt)) [ClsId T]
      in padded (padId T) maxLen (pieces @ [SepId T]))"

definition encode_kt :: "('c list \<Rightarrow> 'c list) \<Rightarrow> 'c classes \<Rightarrow> 'c::comm_semiring_1 tokenizer \<Rightarrow> 'c list \<Rightarrow> nat \<Rightarrow> int list \<times> int list" where
  "encode_kt norm K T txt maxLen =
     (let pieces = add_words_kt maxLen (map (WordPiece T) (BasicTokenize K (norm txt))) [ClsId T]
      in padded (padId T) maxLen (pieces @ [SepId T]))"

definition encode_swift :: "(int list \<Rightarrow> int list) \<Rightarrow> (int \<Rightarrow> UnicodeCategory) \<Rightarrow> int tokenizer \<Rightarrow> int list \<Rightarrow> nat \<Rightarrow> int list \<times> int list" where
  "encode_swift norm cat T txt maxLen =
     (let pieces = fold (\<lambda>word. add_pieces maxLen (WordPiece T word)) (BasicTokenize (classes_swift cat) (norm txt)) [ClsId T] @ [SepId T];
          filled = filter (\<lambda>i. i < length pieces) [0..<maxLen]
      in (fold (\<lambda>i ids. ids[i := pieces ! i]) filled (replicate maxLen (padId T)),
          fold (\<lambda>i msk. msk[i := 1]) filled (replicate maxLen 0)))"

section \<open>The words of a text\<close>

lemma tokenize_concat:
  "concat (fst (fold (token_step K) t st)) @ snd (fold (token_step K) t st) =
     concat (fst st) @ snd st @ filter (\<lambda>ch. \<not> mark_char K ch \<and> \<not> space_char K ch) t"
proof (induction t arbitrary: st)
  case (Cons ch t)
  show ?case by (simp add: Cons) (cases st; simp add: token_step_def Flush_def)
qed simp

lemma Flush_concat: "concat (fst (Flush st)) = concat (fst st) @ snd st"
  by (cases st) (simp add: Flush_def)

lemma tokenize_nonempty:
  "[] \<notin> set (fst st) \<Longrightarrow> [] \<notin> set (fst (fold (token_step K) t st))"
  by (induction t arbitrary: st) (auto simp: token_step_def Flush_def split: prod.splits)

lemma BasicTokenize_concat:
  "concat (BasicTokenize K t) = filter (\<lambda>ch. \<not> mark_char K ch \<and> \<not> space_char K ch) t"
  using tokenize_concat [of K t "([], [])"] by (simp add: BasicTokenize_def Flush_concat)

section \<open>Greedy segmentation\<close>

text \<open>The specification: at each point the longest word of the vocabulary that the rest begins with.\<close>

definition piece :: "'c::comm_semiring_1 tokenizer \<Rightarrow> bool \<Rightarrow> 'c list \<Rightarrow> int option" where
  "piece T inside p = vocab T ((if inside then lit ''##'' else []) @ p)"

definition longest :: "('c list \<Rightarrow> int option) \<Rightarrow> 'c list \<Rightarrow> 'c list \<Rightarrow> bool" where
  "longest v w p \<longleftrightarrow> prefix p w \<and> p \<noteq> [] \<and> v p \<noteq> None \<and> (\<forall>q. prefix q w \<and> v q \<noteq> None \<longrightarrow> length q \<le> length p)"

inductive greedy :: "(bool \<Rightarrow> 'c list \<Rightarrow> int option) \<Rightarrow> bool \<Rightarrow> 'c list \<Rightarrow> int list option \<Rightarrow> bool" for v where
  finished: "greedy v inside [] (Some [])"
| stuck: "w \<noteq> [] \<Longrightarrow> (\<And>p. prefix p w \<Longrightarrow> p \<noteq> [] \<Longrightarrow> v inside p = None) \<Longrightarrow> greedy v inside w None"
| more: "longest (v inside) (p @ w) p \<Longrightarrow> v inside p = Some i \<Longrightarrow> greedy v True w r \<Longrightarrow>
    greedy v inside (p @ w) (map_option ((#) i) r)"

lemma prefix_slice: "prefix p (drop start word) \<Longrightarrow> drop start (take (start + length p) word) = p"
  by (auto simp: prefix_def drop_take)

lemma subword_piece: "subword T word start k = piece T (start > 0) (drop start (take k word))"
  by (simp add: piece_def)

lemma piece_loop_greedy:
  assumes "\<And>s i. vocab T s = Some i \<Longrightarrow> 0 \<le> i" "start \<le> length word"
  shows "\<exists>r. greedy (piece T) (start > 0) (drop start word) r \<and>
    piece_loop T word start out = (case r of None \<Rightarrow> [unkId T] | Some ids \<Rightarrow> out @ ids)"
  using assms(2)
proof (induction "length word - start" arbitrary: start out rule: less_induct)
  case less
  show ?case
  proof (cases "start < length word")
    case False
    then show ?thesis using greedy.finished [of "piece T"] by (intro exI [of _ "Some []"]) (simp add: piece_loop.simps)
  next
    case True
    consider k i where "start < k" "k \<le> length word" "subword T word start k = Some i"
        "find_match T word start (length word) = (i, k)" "\<And>k'. k < k' \<Longrightarrow> k' \<le> length word \<Longrightarrow> subword T word start k' = None"
      | "fst (find_match T word start (length word)) = -1" "\<And>k. start < k \<Longrightarrow> k \<le> length word \<Longrightarrow> subword T word start k = None"
      using find_match_cases [of start "length word" T word] by blast
    then show ?thesis
    proof cases
      case 1
      let ?p = "drop start (take k word)"
      have w: "drop start word = ?p @ drop k word"
        using 1(1,2) append_take_drop_id [of "k - start" "drop start word"] by (simp add: drop_take)
      have "longest (piece T (start > 0)) (?p @ drop k word) ?p"
        unfolding longest_def
      proof (intro conjI allI impI)
        show "?p \<noteq> []" using 1(1,2) by simp
        show "piece T (start > 0) ?p \<noteq> None" using 1(3) by (simp add: piece_def)
        fix q assume q: "prefix q (?p @ drop k word) \<and> piece T (start > 0) q \<noteq> None"
        then have "prefix q (drop start word)" by (simp add: w)
        note sl = prefix_slice [OF this] and le = prefix_length_le [OF this]
        have "subword T word start (start + length q) \<noteq> None" using q by (simp add: piece_def sl)
        moreover have "start + length q \<le> length word" using le True by simp
        ultimately have "\<not> k < start + length q" using 1(5) [of "start + length q"] by auto
        then show "length q \<le> length ?p" using 1(2) by simp
      qed simp
      moreover have "piece T (start > 0) ?p = Some i" using 1(3) by (simp add: piece_def)
      moreover obtain r where r: "greedy (piece T) (k > 0) (drop k word) r"
        "piece_loop T word k (out @ [i]) = (case r of None \<Rightarrow> [unkId T] | Some ids \<Rightarrow> (out @ [i]) @ ids)"
        using less(1) [of k "out @ [i]"] 1(1,2) True by (metis diff_less_mono2)
      moreover have "k > 0" using 1(1) by simp
      ultimately have "greedy (piece T) (start > 0) (drop start word) (map_option ((#) i) r)"
        using greedy.more [of "piece T" "start > 0" ?p "drop k word" i r] by (simp add: w)
      moreover have "piece_loop T word start out = piece_loop T word k (out @ [i])"
        using True 1(4) assms(1) 1(3) by (subst piece_loop.simps) force
      ultimately show ?thesis using r(2) by (intro exI [of _ "map_option ((#) i) r"]) (cases r; simp)
    next
      case 2
      have "greedy (piece T) (start > 0) (drop start word) None"
      proof (rule greedy.stuck)
        fix p assume p: "prefix p (drop start word)" "p \<noteq> []"
        note sl = prefix_slice [OF p(1)] and le = prefix_length_le [OF p(1)]
        have "start < start + length p" "start + length p \<le> length word" using p(2) le True by simp_all
        then have "subword T word start (start + length p) = None" using 2(2) [of "start + length p"] by blast
        then show "piece T (start > 0) p = None" by (simp add: piece_def sl)
      qed (use True in simp)
      moreover have "piece_loop T word start out = [unkId T]"
        using True 2(1) by (subst piece_loop.simps) (auto simp: Let_def split: prod.splits)
      ultimately show ?thesis by force
    qed
  qed
qed

lemma longest_unique: "longest v w p \<Longrightarrow> longest v w q \<Longrightarrow> p = q"
  unfolding longest_def by (meson prefix_length_prefix prefix_order.antisym)

inductive_cases greedy_NilE: "greedy v inside [] r"
inductive_cases greedyE: "greedy v inside w r"

lemma greedy_unique: "greedy v inside w r \<Longrightarrow> greedy v inside w r' \<Longrightarrow> r = r'"
proof (induction arbitrary: r' rule: greedy.induct)
  case (finished inside)
  then show ?case by (auto simp: longest_def elim: greedyE)
next
  case (stuck w inside)
  from stuck(3) show ?case
  proof (rule greedyE)
    fix p w' i ra assume "w = p @ w'" "longest (v inside) (p @ w') p"
    then show ?thesis using stuck(2) by (auto simp: longest_def)
  qed (use stuck(1) in auto)
next
  case (more inside p w i r)
  from more(5) show ?case
  proof (rule greedyE)
    assume "\<And>q. prefix q (p @ w) \<Longrightarrow> q \<noteq> [] \<Longrightarrow> v inside q = None"
    then show ?thesis using more(1) by (auto simp: longest_def)
  next
    fix q w' j ra assume q: "r' = map_option ((#) j) ra" "p @ w = q @ w'" "longest (v inside) (q @ w') q" "v inside q = Some j"
      "greedy v True w' ra"
    then have "p = q" using longest_unique more(1) by metis
    then show ?thesis using q more by auto
  qed (use more(1) in \<open>auto simp: longest_def\<close>)
qed

text \<open>The loop of \<open>WordPiece\<close> ends for every word and vocabulary, and computes the greedy segmentation, the only one: the ids
  of the longest pieces from left to right, or the unknown token alone if it gets stuck.\<close>

lemma WordPiece_greedy:
  assumes "\<And>s i. vocab T s = Some i \<Longrightarrow> 0 \<le> i" "greedy (piece T) False w r"
  shows "WordPiece T w = (case r of None \<Rightarrow> [unkId T] | Some ids \<Rightarrow> ids)"
proof -
  obtain r' where "greedy (piece T) False w r'" "WordPiece T w = (case r' of None \<Rightarrow> [unkId T] | Some ids \<Rightarrow> ids)"
    using piece_loop_greedy [of T 0 w "[]"] assms(1) by (auto simp: WordPiece_def cong: option.case_cong)
  then show ?thesis using greedy_unique [OF assms(2)] by blast
qed

text \<open>The greedy segmentation is the same over scalars and over their code units, when the vocabulary has only well-formed
  strings: no match ends between two surrogates.\<close>

lemma greedy_utf16:
  assumes "greedy v inside w r" "scalars w"
    and v: "\<And>inside p. scalars p \<Longrightarrow> p \<noteq> [] \<Longrightarrow> v' inside (utf16 p) = v inside p"
      "\<And>inside q. v' inside q \<noteq> None \<Longrightarrow> \<exists>p. scalars p \<and> q = utf16 p"
  shows "greedy v' inside (utf16 w) r"
  using assms(1,2)
proof (induction rule: greedy.induct)
  case (finished inside)
  show ?case using greedy.finished by (simp add: utf16_simps)
next
  case (stuck w inside)
  show ?case
  proof (rule greedy.stuck)
    fix q assume q: "prefix q (utf16 w)" "q \<noteq> []"
    show "v' inside q = None"
    proof (rule ccontr)
      assume n: "v' inside q \<noteq> None"
      then obtain p where p: "scalars p" "q = utf16 p" using v(2) by blast
      then have "prefix p w" using q(1) stuck(3) utf16_prefix [of p w] by (auto simp: prefix_def)
      then show False using stuck(2) [of p] p q(2) n v(1) [of p inside] by auto
    qed
  qed (use stuck(1) in simp)
next
  case (more inside p w i r)
  then have sc: "scalars p" "scalars w" "p \<noteq> []" by (auto simp: longest_def)
  have "longest (v' inside) (utf16 p @ utf16 w) (utf16 p)"
    unfolding longest_def
  proof (intro conjI allI impI)
    show "utf16 p \<noteq> []" "v' inside (utf16 p) \<noteq> None" using sc more(2) v(1) by auto
    fix q assume q: "prefix q (utf16 p @ utf16 w) \<and> v' inside q \<noteq> None"
    then obtain p' where p': "scalars p'" "q = utf16 p'" using v(2) by blast
    then have pre: "prefix p' (p @ w)" using q sc utf16_prefix [of p' "p @ w"] by (auto simp: prefix_def utf16_simps)
    show "length q \<le> length (utf16 p)"
    proof (cases "p' = []")
      case False
      then have "length p' \<le> length p" using more(1) pre p' q v(1) [of p' inside] by (auto simp: longest_def)
      then have "prefix p' p" using pre by (meson prefixI prefix_length_prefix)
      then show ?thesis using p' by (auto simp: prefix_def utf16_simps)
    qed (simp add: p' utf16_simps)
  qed simp
  moreover have "v' inside (utf16 p) = Some i" using sc more(2) v(1) by auto
  ultimately show ?case using greedy.more [of v' inside "utf16 p" "utf16 w" i r] more sc by (simp add: utf16_simps)
qed

section \<open>The words in code units\<close>

text \<open>Characters outside the basic plane that the scalar view does not treat specially.\<close>

definition plain_astral :: "(int \<Rightarrow> UnicodeCategory) \<Rightarrow> int \<Rightarrow> bool" where
  "plain_astral cat n \<longleftrightarrow> (0x10000 \<le> n \<longrightarrow> cat n \<noteq> NonSpacingMark \<and> \<not> separator (cat n) \<and> \<not> isPunctuationOrSymbol (cat n))"

definition units :: "int list list \<times> int list \<Rightarrow> 16 word list list \<times> 16 word list" where
  "units st = (map utf16 (fst st), utf16 (snd st))"

lemma units_Flush: "Flush (units st) = units (Flush st)"
  by (cases st) (simp add: Flush_def units_def utf16_simps)

lemmas char_classes = classes_cs_def classes_swift_def classes_kt_def unit_category_def

lemma token_step_units:
  assumes "scalar n" "plain_astral cat n"
  shows "fold (token_step (classes_cs cat)) (utf16_1 n) (units st) = units (token_step (classes_swift cat) n st)"
  using assms(1)
proof (cases rule: utf16_1_cases)
  case (basic u)
  then have "token_step (classes_cs cat) u (units st) = units (token_step (classes_swift cat) n st)"
    using units_Flush [of st]
    by (cases st; cases "Flush st") (auto simp: token_step_def char_classes punctuation_switch units_def utf16_simps)
  then show ?thesis using basic by simp
next
  case (astral h l)
  have "\<not> IsWhiteSpace Surrogate (uint h)" "\<not> IsWhiteSpace Surrogate (uint l)" "\<not> IsWhiteSpace (cat n) n"
    using astral assms(2) by (auto simp: IsWhiteSpace_def separator_def plain_astral_def)
  moreover have "cat n \<noteq> NonSpacingMark" "\<not> isPunctuationOrSymbol (cat n)" using astral assms(2) by (auto simp: plain_astral_def)
  ultimately show ?thesis using astral
    by (cases st) (simp add: token_step_def char_classes units_def utf16_simps IsPunctuation_def IsSymbol_def)
qed

lemma tokenize_units:
  assumes "scalars t" "\<forall>n \<in> set t. plain_astral cat n"
  shows "fold (token_step (classes_cs cat)) (utf16 t) (units st) = units (fold (token_step (classes_swift cat)) t st)"
  using assms by (induction t arbitrary: st) (simp_all add: utf16_simps token_step_units)

lemma BasicTokenize_units:
  assumes "scalars t" "\<forall>n \<in> set t. plain_astral cat n"
  shows "BasicTokenize (classes_cs cat) (utf16 t) = map utf16 (BasicTokenize (classes_swift cat) t)"
  using tokenize_units [OF assms, of "([], [])"]
  by (simp add: BasicTokenize_def units_def utf16_simps units_Flush [unfolded units_def, symmetric])
    (metis fst_conv units_Flush units_def)

lemma BasicTokenize_scalars: "scalars t \<Longrightarrow> w \<in> set (BasicTokenize K t) \<Longrightarrow> scalars w"
  using arg_cong [OF BasicTokenize_concat [of K t], of set] by (fastforce simp: scalars_def list_all_iff)

section \<open>The vocabularies\<close>

lemma vocab_from_map:
  assumes "\<And>l. l \<in> set ls \<Longrightarrow> f l = f s \<longleftrightarrow> l = s" "m' (f s) = m s"
  shows "vocab_from i (map f ls) m' (f s) = vocab_from i ls m s"
  using assms
proof (induction ls arbitrary: i m m')
  case (Cons a ls)
  have "vocab_from (i + 1) (map f ls) (m'(f a \<mapsto> i)) (f s) = vocab_from (i + 1) ls (m(a \<mapsto> i)) s"
  proof (rule Cons.IH)
    show "(m'(f a \<mapsto> i)) (f s) = (m(a \<mapsto> i)) s" using Cons.prems(1) [of a] Cons.prems(2) by (cases "a = s") auto
  qed (use Cons.prems(1) in auto)
  then show ?case by simp
qed simp

lemma vocab_from_dom: "vocab_from i ls m s \<noteq> None \<Longrightarrow> m s = None \<Longrightarrow> s \<in> set ls"
proof (induction ls arbitrary: i m)
  case (Cons a ls)
  then show ?case by (cases "s = a") auto
qed simp

lemma vocab_from_nonneg: "vocab_from i ls m s = Some j \<Longrightarrow> 0 \<le> i \<Longrightarrow> (\<And>k. m s = Some k \<Longrightarrow> 0 \<le> k) \<Longrightarrow> 0 \<le> j"
  by (induction ls arbitrary: i m) (force split: if_splits)+

lemma vocab_swift_eq:
  assumes "\<And>l. l \<in> set ls \<Longrightarrow> canon s = canon l \<Longrightarrow> s = l" "s \<noteq> []" "m' (canon s) = m s"
  shows "vocab_swift canon i ls m' (canon s) = vocab_from i ls m s"
  using assms
proof (induction ls arbitrary: i m m')
  case (Cons a ls)
  have "vocab_swift canon (i + 1) ls (if a = [] then m' else m'(canon a \<mapsto> i)) (canon s) = vocab_from (i + 1) ls (m(a \<mapsto> i)) s"
    by (rule Cons.IH) (use Cons.prems in auto)
  then show ?case by simp
qed simp

lemma tokenizer_vocab:
  assumes "WordPieceTokenizer ls = Some T"
  shows "vocab T = vocab_from 0 ls Map.empty" "vocab T (lit ''[CLS]'') = Some (ClsId T)" "vocab T (lit ''[SEP]'') = Some (SepId T)"
    "vocab T (lit ''[UNK]'') = Some (unkId T)" "vocab T (lit ''[PAD]'') = Some (padId T)"
  using assms by (auto simp: WordPieceTokenizer_def Let_def split: option.splits)

section \<open>The loops of Encode\<close>

lemma add_pieces_eq: "add_pieces n ps pieces = pieces @ take (n - 1 - length pieces) ps"
proof (induction ps arbitrary: pieces)
  case (Cons p ps)
  show ?case
  proof (cases "int (length pieces) \<ge> int n - 1")
    case False
    then have "n - 1 - length pieces = Suc (n - 1 - length (pieces @ [p]))" by simp
    then show ?thesis using False by (simp add: Cons)
  qed simp
qed simp

lemma add_words_eq:
  "fold (\<lambda>w. add_pieces n (f w)) ws pieces = pieces @ take (n - 1 - length pieces) (concat (map f ws))"
proof (induction ws arbitrary: pieces)
  case (Cons w ws)
  show ?case by (simp only: fold_simps Cons) (simp add: add_pieces_eq min_def)
qed simp

lemma add_pieces_kt_eq:
  "fst (add_pieces_kt n ps pieces) = add_pieces n ps pieces"
  "snd (add_pieces_kt n ps pieces) \<Longrightarrow> length (fst (add_pieces_kt n ps pieces)) + 1 \<ge> n"
  by (induction ps arbitrary: pieces) (auto split: if_splits)

lemma add_words_kt_eq: "add_words_kt n (map f ws) pieces = fold (\<lambda>w. add_pieces n (f w)) ws pieces"
proof (induction ws arbitrary: pieces)
  case (Cons w ws)
  obtain ps stop where r: "add_pieces_kt n (f w) pieces = (ps, stop)" by (cases "add_pieces_kt n (f w) pieces")
  then have "ps = add_pieces n (f w) pieces" "stop \<Longrightarrow> n - 1 - length ps = 0"
    using add_pieces_kt_eq [of n "f w" pieces] by auto
  then show ?case using r Cons by (cases stop) (simp_all add: add_words_eq [of n f ws "add_pieces n (f w) pieces"])
qed simp

lemma swift_fill:
  "fold (\<lambda>i xs. xs[i := f i]) (filter P [0..<n]) (replicate n d) = map (\<lambda>i. if P i then f i else d) [0..<n]"
proof -
  have "fold (\<lambda>i xs. xs[i := f i]) (filter P [0..<k]) (replicate n d) =
      map (\<lambda>i. if i < k \<and> P i then f i else d) [0..<n]" if "k \<le> n" for k
    using that
  proof (induction k)
    case 0
    then show ?case by (simp add: map_replicate_const)
  next
    case (Suc k)
    then show ?case by (auto intro!: nth_equalityI simp: nth_list_update less_Suc_eq)
  qed
  from this [of n] show ?thesis by simp
qed

lemma swift_padded:
  "encode_swift norm cat T txt n = Encode norm (classes_swift cat) T txt n"
  unfolding encode_swift_def Encode_def padded_def Let_def swift_fill ..

lemma padded_eq:
  "length l \<le> n \<Longrightarrow> padded pad n l = (l @ replicate (n - length l) pad, replicate (length l) 1 @ replicate (n - length l) 0)"
  by (auto simp: padded_def nth_append intro!: nth_equalityI)

section \<open>Properties\<close>

text \<open>C29. The loop of \<open>WordPiece\<close> ends for every word and vocabulary and computes the greedy segmentation, of which there is
  exactly one: the ids of the longest pieces from left to right, or the unknown token alone when it gets stuck.\<close>

theorem wordpiece_longest_match:
  assumes "WordPieceTokenizer lines = Some T"
  shows "\<exists>!r. greedy (piece T) False w r \<and> WordPiece T w = (case r of None \<Rightarrow> [unkId T] | Some ids \<Rightarrow> ids)"
proof -
  have n: "vocab T s = Some i \<Longrightarrow> 0 \<le> i" for s i
    using vocab_from_nonneg [of 0 lines Map.empty s i] tokenizer_vocab(1) [OF assms] by simp
  obtain r where r: "greedy (piece T) False w r"
    using piece_loop_greedy [of T 0 w "[]"] n by auto
  show ?thesis
  proof (rule ex1I)
    show "greedy (piece T) False w r \<and> WordPiece T w = (case r of None \<Rightarrow> [unkId T] | Some ids \<Rightarrow> ids)"
      using r WordPiece_greedy [OF n r] by simp
  qed (use greedy_unique [OF r] in blast)
qed

text \<open>Ids and mask have the requested length. The ids are the class token, as many pieces of the text as fit, the separator
  and padding; the mask is 1 exactly on what is not padding.\<close>

theorem encode_layout:
  assumes "2 \<le> maxLen"
  shows "Encode norm K T txt maxLen =
    (let ps = take (maxLen - 2) (concat (map (WordPiece T) (BasicTokenize K (norm txt))))
     in (ClsId T # ps @ SepId T # replicate (maxLen - 2 - length ps) (padId T),
         replicate (length ps + 2) 1 @ replicate (maxLen - 2 - length ps) 0))"
proof -
  let ?c = "concat (map (WordPiece T) (BasicTokenize K (norm txt)))"
  let ?ps = "take (maxLen - 2) ?c"
  have e: "Encode norm K T txt maxLen = padded (padId T) maxLen (ClsId T # ?ps @ [SepId T])"
    by (simp add: Encode_def add_words_eq numeral_2_eq_2)
  have "length (ClsId T # ?ps @ [SepId T]) \<le> maxLen" using assms by simp
  from padded_eq [OF this, of "padId T"] show ?thesis
    by (simp add: e Let_def numeral_2_eq_2 del: length_take)
qed

lemma vocab_swift_nonneg: "vocab_swift canon i ls m s = Some j \<Longrightarrow> 0 \<le> i \<Longrightarrow> (\<And>k. m s = Some k \<Longrightarrow> 0 \<le> k) \<Longrightarrow> 0 \<le> j"
  by (induction ls arbitrary: i m) (force split: if_splits)+

lemma vocab_units:
  assumes "WordPieceTokenizer (map utf16 L) = Some T" "\<forall>l \<in> set L. scalars l"
  shows "scalars s \<Longrightarrow> vocab T (utf16 s) = vocab_from 0 L Map.empty s" "vocab T q \<noteq> None \<Longrightarrow> \<exists>s. scalars s \<and> q = utf16 s"
proof -
  note v = tokenizer_vocab(1) [OF assms(1)]
  show "scalars s \<Longrightarrow> vocab T (utf16 s) = vocab_from 0 L Map.empty s"
    unfolding v by (rule vocab_from_map) (use assms(2) in \<open>auto simp: utf16_inj\<close>)
  show "vocab T q \<noteq> None \<Longrightarrow> \<exists>s. scalars s \<and> q = utf16 s"
    using vocab_from_dom [of 0 "map utf16 L" Map.empty q] assms(2) by (auto simp: v)
qed

lemma vocab_swift_units:
  assumes "WordPieceTokenizer (map utf16 L) = Some T" "\<forall>l \<in> set L. scalars l" "\<forall>x. \<forall>l \<in> set L. canon x = canon l \<longrightarrow> x = l"
    "scalars s" "s \<noteq> []"
  shows "vocab (init_swift canon L) s = vocab T (utf16 s)"
  using vocab_units(1) [OF assms(1,2,4)] vocab_swift_eq [of L canon s Map.empty Map.empty 0] assms(3,5)
  by (auto simp: init_swift_def Let_def)

lemma specials_swift:
  assumes "WordPieceTokenizer (map utf16 L) = Some T" "\<forall>l \<in> set L. scalars l" "\<forall>x. \<forall>l \<in> set L. canon x = canon l \<longrightarrow> x = l"
  shows "ClsId (init_swift canon L) = ClsId T" "SepId (init_swift canon L) = SepId T" "unkId (init_swift canon L) = unkId T"
    "padId (init_swift canon L) = padId T"
proof -
  have "vocab (init_swift canon L) (lit (c # s)) = vocab T (lit (c # s))" for c s
    using vocab_swift_units [OF assms, of "lit (c # s)"] lit_units [of "c # s"] by (simp add: lit_def)
  note this [unfolded init_swift_def Let_def tokenizer.simps]
  then show "ClsId (init_swift canon L) = ClsId T" "SepId (init_swift canon L) = SepId T" "unkId (init_swift canon L) = unkId T"
    "padId (init_swift canon L) = padId T"
    using tokenizer_vocab(2-5) [OF assms(1)] by (simp_all add: init_swift_def Let_def)
qed

lemma WordPiece_units:
  assumes "WordPieceTokenizer (map utf16 L) = Some T" "\<forall>l \<in> set L. scalars l" "\<forall>x. \<forall>l \<in> set L. canon x = canon l \<longrightarrow> x = l"
    "scalars w"
  shows "WordPiece (init_swift canon L) w = WordPiece T (utf16 w)"
proof -
  let ?S = "init_swift canon L"
  have nT: "0 \<le> i" if "vocab T s = Some i" for s i
    using vocab_from_nonneg [of 0 "map utf16 L" Map.empty s i] tokenizer_vocab(1) [OF assms(1)] that by simp
  have p: "piece T inside (utf16 p) = piece ?S inside p" if "scalars p" "p \<noteq> []" for inside p
    using vocab_swift_units [OF assms(1-3), of "(if inside then lit ''##'' else []) @ p"] that lit_units [of "''##''"]
    by (simp add: piece_def utf16_simps)
  have q: "\<exists>p. scalars p \<and> q = utf16 p" if "piece T inside q \<noteq> None" for inside q
  proof -
    obtain s where s: "scalars s" "(if inside then lit ''##'' else []) @ q = utf16 s"
      using vocab_units(2) [OF assms(1,2)] \<open>piece T inside q \<noteq> None\<close> unfolding piece_def by blast
    then show ?thesis using lit_units [of "''##''"] utf16_prefix [of "lit ''##''" s q] by (cases inside) auto
  qed
  have nS: "0 \<le> i" if "vocab ?S s = Some i" for s i
    using vocab_swift_nonneg [of canon 0 L Map.empty "canon s" i] that by (simp add: init_swift_def Let_def)
  obtain r where r: "greedy (piece ?S) False w r" using piece_loop_greedy [of ?S 0 w "[]"] nS by auto
  have "greedy (piece T) False (utf16 w) r" by (rule greedy_utf16 [OF r assms(4)]) (fact p, fact q)
  then have "WordPiece T (utf16 w) = (case r of None \<Rightarrow> [unkId T] | Some ids \<Rightarrow> ids)"
    by (rule WordPiece_greedy [rotated]) (fact nT)
  moreover have "WordPiece ?S w = (case r of None \<Rightarrow> [unkId ?S] | Some ids \<Rightarrow> ids)"
    by (rule WordPiece_greedy [OF _ r]) (fact nS)
  ultimately show ?thesis using specials_swift(3) [OF assms(1-3)] by (cases r) simp_all
qed


text \<open>The Android port computes the ids and the mask of the engine for every UTF-16 text without the next-line character and
  the four information separators. Its break leaves both loops, which makes no difference.\<close>

theorem kotlin_agrees:
  assumes "\<forall>u \<in> set (norm txt). uint u \<noteq> 0x85 \<and> \<not> (0x1C \<le> uint u \<and> uint u \<le> 0x1F)"
  shows "encode_kt norm (classes_kt cat) T txt maxLen = Encode norm (classes_cs cat) T txt maxLen"
proof -
  have "token_step (classes_kt cat) u st = token_step (classes_cs cat) u st" if "u \<in> set (norm txt)" for u st
    using assms that by (auto simp: token_step_def char_classes punctuation_switch IsWhiteSpace_def isWhitespace_kt_def)
  then have "fold (token_step (classes_kt cat)) (norm txt) st = fold (token_step (classes_cs cat)) (norm txt) st" for st
    by (intro fold_cong) auto
  then have "BasicTokenize (classes_kt cat) (norm txt) = BasicTokenize (classes_cs cat) (norm txt)"
    by (simp add: BasicTokenize_def)
  then show ?thesis unfolding encode_kt_def Encode_def add_words_kt_eq by simp
qed

section \<open>Where the ports differ\<close>

definition demo_lines :: "int list list" where
  "demo_lines = map lit [''[PAD]'', ''[UNK]'', ''[CLS]'', ''[SEP]'', ''a'', ''b'', ''##b'']"

definition demo_cat :: "int \<Rightarrow> UnicodeCategory" where
  "demo_cat n = (if n = 0x1F600 then OtherSymbol else if n = 0x85 then Control else LowercaseLetter)"

definition demo_T :: "16 word tokenizer" where
  "demo_T = the (WordPieceTokenizer (map utf16 demo_lines))"

lemma demo_T: "WordPieceTokenizer (map utf16 demo_lines) = Some demo_T"
proof -
  have "\<not> Option.is_none (WordPieceTokenizer (map utf16 demo_lines))" by code_simp
  then show ?thesis by (auto simp: demo_T_def Option.is_none_def)
qed

text \<open>A letter followed by an emoji (U+1F600, a symbol): the engine sees two surrogates, makes one word of them and finds it
  unknown; the iOS port keeps the letter's id.\<close>

theorem swift_differs:
  "encode_swift id demo_cat (init_swift id demo_lines) [97, 0x1F600] 6 = ([2, 4, 1, 3, 0, 0], [1, 1, 1, 1, 0, 0]) \<and>
   Encode id (classes_cs demo_cat) demo_T (utf16 [97, 0x1F600]) 6 = ([2, 1, 3, 0, 0, 0], [1, 1, 1, 0, 0, 0])"
  by code_simp

text \<open>Two letters separated by the next-line character: white space for the engine, part of a word for the Android port.\<close>

theorem kotlin_differs:
  "encode_kt id (classes_kt demo_cat) demo_T [97, 0x85, 98] 6 = ([2, 1, 3, 0, 0, 0], [1, 1, 1, 0, 0, 0]) \<and>
   Encode id (classes_cs demo_cat) demo_T [97, 0x85, 98] 6 = ([2, 4, 5, 3, 0, 0], [1, 1, 1, 1, 0, 0])"
  by code_simp

section \<open>Witnesses\<close>

theorem wordpiece_longest_match_witness:
  "\<exists>r. greedy (piece demo_T) False [97, 98] r \<and> WordPiece demo_T [97, 98] = (case r of None \<Rightarrow> [unkId demo_T] | Some ids \<Rightarrow> ids)"
  using wordpiece_longest_match [OF demo_T, of "[97, 98]"] by blast

theorem encode_layout_witness: "length (fst (Encode id (classes_cs demo_cat) demo_T [97, 98] 64)) = 64"
proof -
  have "length (take 62 xs) + (62 - length (take 62 xs)) = 62" for xs :: "int list" by simp
  then show ?thesis
    using encode_layout [of 64 id "classes_cs demo_cat" demo_T "[97, 98]"] by (simp add: Let_def)
qed


theorem kotlin_agrees_witness:
  "encode_kt id (classes_kt demo_cat) demo_T [97, 32, 98] 64 = Encode id (classes_cs demo_cat) demo_T [97, 32, 98] 64"
  using kotlin_agrees [of id "[97, 32, 98]" demo_cat demo_T 64] by simp

end
