(* ===== verification/Json_Document.thy ===== *)
theory Json_Document
  imports Utf16
begin

text \<open>
  What the engine uses of \<^verbatim>\<open>System.Text.Json\<close> to read what a model or a router wrote: \<open>JsonDocument.Parse\<close> on a string, the
  kind of an element, \<open>TryGetProperty\<close>, \<open>GetString\<close> and \<open>GetRawText\<close>. The reader is a lexer and a machine with a stack of open
  containers, at most 64 deep. A string that is not well-formed UTF-16 is refused with an \<open>ArgumentException\<close> before it is
  read, text that is not JSON with a \<open>JsonException\<close>, and an escape of half a surrogate pair is only found when the string is
  read, with an \<open>InvalidOperationException\<close>. The engine's own writer of string literals and the lemmas that its output is
  read back are here too.
\<close>

datatype json_exn = JsonException | ArgumentException | InvalidOperationException

section \<open>Tokens\<close>

datatype ValueKind = Object | Array | String | Number | TrueValue | FalseValue | NullValue

datatype token = Space "16 word" | Punct "16 word" | Quoted cs_string | Scalar ValueKind cs_string

fun token_text :: "token \<Rightarrow> cs_string" where
  "token_text (Space c) = [c]"
| "token_text (Punct c) = [c]"
| "token_text (Quoted s) = 0x22 # s @ [0x22]"
| "token_text (Scalar k s) = s"

definition json_space :: "16 word \<Rightarrow> bool" where
  "json_space c \<longleftrightarrow> c = 0x20 \<or> c = 0x09 \<or> c = 0x0A \<or> c = 0x0D"

definition json_punct :: "16 word \<Rightarrow> bool" where
  "json_punct c \<longleftrightarrow> c = 0x7B \<or> c = 0x7D \<or> c = 0x5B \<or> c = 0x5D \<or> c = 0x3A \<or> c = 0x2C"

definition digit :: "16 word \<Rightarrow> bool" where
  "digit c \<longleftrightarrow> 0x30 \<le> c \<and> c \<le> 0x39"

definition hex_value :: "16 word \<Rightarrow> int option" where
  "hex_value c = (if 0x30 \<le> c \<and> c \<le> 0x39 then Some (uint c - 0x30)
     else if 0x41 \<le> c \<and> c \<le> 0x46 then Some (uint c - 0x37)
     else if 0x61 \<le> c \<and> c \<le> 0x66 then Some (uint c - 0x57) else None)"

text \<open>Four hexadecimal digits at the front of a string: their value and what follows them.\<close>

fun hex4 :: "cs_string \<Rightarrow> (int \<times> cs_string) option" where
  "hex4 (a # b # c # d # s) =
     (case (hex_value a, hex_value b, hex_value c, hex_value d) of
        (Some i, Some j, Some k, Some l) \<Rightarrow> Some (((i * 16 + j) * 16 + k) * 16 + l, s)
      | _ \<Rightarrow> None)"
| "hex4 s = None"

definition simple_escape :: "16 word \<Rightarrow> 16 word option" where
  "simple_escape e = (if e = 0x22 \<or> e = 0x5C \<or> e = 0x2F then Some e
     else if e = 0x62 then Some 0x08 else if e = 0x66 then Some 0x0C else if e = 0x6E then Some 0x0A
     else if e = 0x72 then Some 0x0D else if e = 0x74 then Some 0x09 else None)"

text \<open>A string after its opening quote: the text up to the closing quote, with its escapes, and what follows.\<close>

fun lex_string :: "cs_string \<Rightarrow> (cs_string \<times> cs_string) option" where
  "lex_string [] = None"
| "lex_string (c # s) =
     (if c = 0x22 then Some ([], s)
      else if c = 0x5C then
        (case s of [] \<Rightarrow> None
         | e # s' \<Rightarrow>
             if e = 0x75 \<and> hex4 s' = None then None
             else if e = 0x75 \<or> simple_escape e \<noteq> None then map_option (map_prod ((@) [c, e]) id) (lex_string s')
             else None)
      else if uint c < 0x20 then None
      else map_option (map_prod ((#) c) id) (lex_string s))"

definition lex_digits :: "cs_string \<Rightarrow> (cs_string \<times> cs_string) option" where
  "lex_digits s = (if takeWhile digit s = [] then None else Some (takeWhile digit s, dropWhile digit s))"

definition lex_fraction :: "cs_string \<Rightarrow> (cs_string \<times> cs_string) option" where
  "lex_fraction s = (case s of c # s' \<Rightarrow>
       if c = 0x2E then map_option (map_prod ((#) c) id) (lex_digits s') else Some ([], s)
     | [] \<Rightarrow> Some ([], []))"

definition lex_exponent :: "cs_string \<Rightarrow> (cs_string \<times> cs_string) option" where
  "lex_exponent s = (case s of c # s' \<Rightarrow>
       if c = 0x65 \<or> c = 0x45 then
         (case s' of d # s'' \<Rightarrow> if d = 0x2B \<or> d = 0x2D then map_option (map_prod ((@) [c, d]) id) (lex_digits s'')
            else map_option (map_prod ((#) c) id) (lex_digits s')
          | [] \<Rightarrow> None)
       else Some ([], s)
     | [] \<Rightarrow> Some ([], []))"

definition lex_integer :: "cs_string \<Rightarrow> (cs_string \<times> cs_string) option" where
  "lex_integer s = (case s of c # s' \<Rightarrow> if c = 0x30 then Some ([c], s') else lex_digits s | [] \<Rightarrow> None)"

definition lex_number :: "cs_string \<Rightarrow> (cs_string \<times> cs_string) option" where
  "lex_number s = (let (sign, s) = (case s of c # s' \<Rightarrow> if c = 0x2D then ([c], s') else ([], s) | [] \<Rightarrow> ([], [])) in
     Option.bind (lex_integer s) (\<lambda>(i, s). Option.bind (lex_fraction s) (\<lambda>(f, s).
     map_option (map_prod ((@) (sign @ i @ f)) id) (lex_exponent s))))"

definition lex_word :: "ValueKind \<Rightarrow> string \<Rightarrow> cs_string \<Rightarrow> (token \<times> cs_string) option" where
  "lex_word k w s = (if take (length w) s = lit w then Some (Scalar k (lit w), drop (length w) s) else None)"

definition lex_token :: "cs_string \<Rightarrow> (token \<times> cs_string) option" where
  "lex_token s = (case s of [] \<Rightarrow> None | c # s' \<Rightarrow>
     if json_space c then Some (Space c, s')
     else if json_punct c then Some (Punct c, s')
     else if c = 0x22 then map_option (map_prod Quoted id) (lex_string s')
     else if c = 0x2D \<or> digit c then map_option (map_prod (Scalar Number) id) (lex_number s)
     else if c = 0x74 then lex_word TrueValue ''true'' s
     else if c = 0x66 then lex_word FalseValue ''false'' s
     else if c = 0x6E then lex_word NullValue ''null'' s
     else None)"

text \<open>A token is the text it was read from, so the rest is shorter.\<close>

lemma lex_string_text: "lex_string s = Some (q, r) \<Longrightarrow> s = q @ 0x22 # r"
proof (induction s arbitrary: q r rule: lex_string.induct)
  case (2 c s)
  show ?case
  proof (cases "c = 0x22 \<or> c \<noteq> 0x5C")
    case True
    then show ?thesis using 2 by (auto split: if_splits)
  next
    case False
    then obtain e s' where s: "s = e # s'" using 2 by (cases s) auto
    then obtain q' where "lex_string s' = Some (q', r)" "q = [c, e] @ q'" using False 2 by (auto split: if_splits)
    then show ?thesis using 2(1) [OF _ _ s] False s 2 by (auto split: if_splits)
  qed
qed simp

lemma lex_digits_text: "lex_digits s = Some (q, r) \<Longrightarrow> s = q @ r \<and> q \<noteq> []"
  by (auto simp: lex_digits_def split: if_splits)

lemma lex_number_text: "lex_number s = Some (q, r) \<Longrightarrow> s = q @ r \<and> q \<noteq> []"
proof -
  have i: "s = q @ r \<and> q \<noteq> []" if "lex_integer s = Some (q, r)" for s q r
    using that lex_digits_text by (fastforce simp: lex_integer_def split: list.splits if_splits)
  have f: "s = q @ r" if "lex_fraction s = Some (q, r)" for s q r
    using that lex_digits_text by (fastforce simp: lex_fraction_def split: list.splits if_splits)
  have e: "s = q @ r" if "lex_exponent s = Some (q, r)" for s q r
    using that lex_digits_text by (fastforce simp: lex_exponent_def split: list.splits if_splits)
  assume "lex_number s = Some (q, r)"
  then show ?thesis
    by (fastforce simp: lex_number_def Let_def bind_eq_Some_conv split: list.splits if_splits dest!: i f e)
qed

lemma lex_word_text: "lex_word k w s = Some (t, r) \<Longrightarrow> s = token_text t @ r"
  by (auto simp: lex_word_def split: if_splits) (metis append_take_drop_id)

lemma lex_token_text: "lex_token s = Some (t, r) \<Longrightarrow> s = token_text t @ r"
  using lex_string_text lex_number_text lex_word_text
  by (fastforce simp: lex_token_def split: list.splits if_splits)

lemma lex_token_shorter: "lex_token s = Some (t, r) \<Longrightarrow> length r < length s"
proof -
  assume a: "lex_token s = Some (t, r)"
  have "token_text t \<noteq> []"
    using a lex_number_text by (fastforce simp: lex_token_def lex_word_def lit_def split: list.splits if_splits)
  then show ?thesis using lex_token_text [OF a] by (cases "token_text t") auto
qed

function lex_json :: "cs_string \<Rightarrow> token list option" where
  "lex_json s = (if s = [] then Some [] else
     case lex_token s of None \<Rightarrow> None | Some (t, r) \<Rightarrow> map_option ((#) t) (lex_json r))"
  by pat_completeness auto
termination by (relation "measure length") (auto dest: lex_token_shorter)

declare lex_json.simps [simp del]

lemma lex_json_text: "lex_json s = Some ts \<Longrightarrow> s = concat (map token_text ts)"
proof (induction s arbitrary: ts rule: lex_json.induct)
  case (1 s)
  show ?case
  proof (cases "s = []")
    case False
    then obtain t r us where "lex_token s = Some (t, r)" "lex_json r = Some us" "ts = t # us"
      using 1(2) by (subst (asm) lex_json.simps) (auto split: option.splits)
    then show ?thesis using 1(1) [OF False] lex_token_text by fastforce
  qed (use 1 in \<open>simp add: lex_json.simps\<close>)
qed

section \<open>The document\<close>

text \<open>An element keeps its source text; the members of an object keep the text of their names, and those of an array have none.\<close>

datatype json = Json (element_kind: ValueKind) (GetRawText: cs_string) (members: "(cs_string \<times> json) list")

datatype expects = Value | First_value | First_name | Next_name | Colon | Comma_or_end

datatype frame = Frame bool cs_string "(cs_string \<times> json) list" cs_string

datatype doc_state = Reading expects "frame list" | Complete json

definition json_depth :: nat where "json_depth = 64"

text \<open>A finished element goes to the innermost open container.\<close>

fun add_element :: "json \<Rightarrow> frame list \<Rightarrow> doc_state" where
  "add_element v [] = Complete v"
| "add_element v (Frame obj txt ms n # fs) = Reading Comma_or_end (Frame obj (txt @ GetRawText v) (ms @ [(n, v)]) [] # fs)"

fun add_text :: "cs_string \<Rightarrow> frame list \<Rightarrow> frame list" where
  "add_text t [] = []"
| "add_text t (Frame obj txt ms n # fs) = Frame obj (txt @ t) ms n # fs"

definition value_expected :: "expects \<Rightarrow> bool" where
  "value_expected e \<longleftrightarrow> e = Value \<or> e = First_value"

definition open_frame :: "bool \<Rightarrow> 16 word \<Rightarrow> expects \<Rightarrow> frame list \<Rightarrow> doc_state option" where
  "open_frame obj c e fs = (if value_expected e \<and> length fs < json_depth
     then Some (Reading (if obj then First_name else First_value) (Frame obj [c] [] [] # fs)) else None)"

definition close_frame :: "bool \<Rightarrow> 16 word \<Rightarrow> expects \<Rightarrow> frame list \<Rightarrow> doc_state option" where
  "close_frame obj c e fs = (case fs of
     Frame obj' txt ms n # fs' \<Rightarrow>
       if obj' = obj \<and> (e = Comma_or_end \<or> e = (if obj then First_name else First_value))
       then Some (add_element (Json (if obj then Object else Array) (txt @ [c]) ms) fs') else None
   | [] \<Rightarrow> None)"

definition read_punct :: "16 word \<Rightarrow> expects \<Rightarrow> frame list \<Rightarrow> doc_state option" where
  "read_punct c e fs =
     (if c = 0x7B then open_frame True c e fs
      else if c = 0x5B then open_frame False c e fs
      else if c = 0x7D then close_frame True c e fs
      else if c = 0x5D then close_frame False c e fs
      else if c = 0x3A then (if e = Colon then Some (Reading Value (add_text [c] fs)) else None)
      else case fs of
        Frame obj txt ms n # fs' \<Rightarrow>
          if e = Comma_or_end then Some (Reading (if obj then Next_name else Value) (add_text [c] fs)) else None
      | [] \<Rightarrow> None)"

definition read_quoted :: "cs_string \<Rightarrow> expects \<Rightarrow> frame list \<Rightarrow> doc_state option" where
  "read_quoted s e fs =
     (if value_expected e then Some (add_element (Json String (token_text (Quoted s)) []) fs)
      else case fs of
        Frame obj txt ms n # fs' \<Rightarrow>
          if e = First_name \<or> e = Next_name then Some (Reading Colon (Frame obj (txt @ token_text (Quoted s)) ms s # fs'))
          else None
      | [] \<Rightarrow> None)"

fun read_token :: "token \<Rightarrow> doc_state \<Rightarrow> doc_state option" where
  "read_token (Space c) (Reading e fs) = Some (Reading e (add_text [c] fs))"
| "read_token (Space c) (Complete v) = Some (Complete v)"
| "read_token (Punct c) (Reading e fs) = read_punct c e fs"
| "read_token (Quoted s) (Reading e fs) = read_quoted s e fs"
| "read_token (Scalar k s) (Reading e fs) = (if value_expected e then Some (add_element (Json k s []) fs) else None)"
| "read_token t (Complete v) = None"

fun read_tokens :: "token list \<Rightarrow> doc_state \<Rightarrow> doc_state option" where
  "read_tokens [] d = Some d"
| "read_tokens (t # ts) d = Option.bind (read_token t d) (read_tokens ts)"

definition JsonDocument_Parse :: "cs_string \<Rightarrow> json_exn + json" where
  "JsonDocument_Parse s =
     (if \<not> wf_utf16 s then Inl ArgumentException
      else case Option.bind (lex_json s) (\<lambda>ts. read_tokens ts (Reading Value [])) of
        Some (Complete v) \<Rightarrow> Inr v
      | _ \<Rightarrow> Inl JsonException)"

section \<open>Elements\<close>

text \<open>The text of a string with its escapes replaced; an escaped surrogate must be half of an escaped pair.\<close>

fun unescape :: "cs_string \<Rightarrow> cs_string option" where
  "unescape [] = Some []"
| "unescape (c # s) =
     (if c \<noteq> 0x5C then map_option ((#) c) (unescape s)
      else case s of [] \<Rightarrow> None
      | e # s' \<Rightarrow>
          if e \<noteq> 0x75 then Option.bind (simple_escape e) (\<lambda>c. map_option ((#) c) (unescape s'))
          else case s' of h1 # h2 # h3 # h4 # s'' \<Rightarrow>
            (case hex4 [h1, h2, h3, h4] of
               None \<Rightarrow> None
             | Some (n, _) \<Rightarrow>
                 if n < 0xD800 \<or> 0xE000 \<le> n then map_option ((#) (word_of_int n)) (unescape s'')
                 else if 0xDC00 \<le> n then None
                 else case s'' of b # u # k1 # k2 # k3 # k4 # s3 \<Rightarrow>
                   (case hex4 [k1, k2, k3, k4] of
                      Some (m, _) \<Rightarrow>
                        if b = 0x5C \<and> u = 0x75 \<and> 0xDC00 \<le> m \<and> m < 0xE000
                        then map_option (\<lambda>t. word_of_int n # word_of_int m # t) (unescape s3) else None
                    | None \<Rightarrow> None)
                 | _ \<Rightarrow> None)
          | _ \<Rightarrow> None)"

text \<open>The size of a well-formed string in UTF-8, where each half of a pair counts for two bytes.\<close>

definition unit_size :: "16 word \<Rightarrow> nat" where
  "unit_size u = (if uint u < 0x80 then 1 else if uint u < 0x800 \<or> high_surrogate u \<or> low_surrogate u then 2 else 3)"

definition utf8_size :: "cs_string \<Rightarrow> nat" where
  "utf8_size s = sum_list (map unit_size s)"

text \<open>\<open>TryGetProperty\<close> goes through the members from the last to the first. A name with escapes is only unescaped when it is
  longer than the name asked for and agrees with it up to its first escape.\<close>

definition name_is :: "cs_string \<Rightarrow> cs_string \<Rightarrow> json_exn + bool" where
  "name_is name n =
     (if 0x5C \<notin> set n then Inr (n = name)
      else let front = takeWhile (\<lambda>c. c \<noteq> 0x5C) n in
        if utf8_size name < utf8_size n \<and> utf8_size front < utf8_size name \<and> take (length front) name = front
        then (case unescape n of None \<Rightarrow> Inl InvalidOperationException | Some n' \<Rightarrow> Inr (n' = name))
        else Inr False)"

fun find_property :: "cs_string \<Rightarrow> (cs_string \<times> json) list \<Rightarrow> json_exn + json option" where
  "find_property name [] = Inr None"
| "find_property name ((n, v) # ms) = (case name_is name n of
     Inl x \<Rightarrow> Inl x | Inr True \<Rightarrow> Inr (Some v) | Inr False \<Rightarrow> find_property name ms)"

definition TryGetProperty :: "cs_string \<Rightarrow> json \<Rightarrow> json_exn + json option" where
  "TryGetProperty name v = (if element_kind v \<noteq> Object then Inl InvalidOperationException else find_property name (rev (members v)))"

definition GetString_element :: "json \<Rightarrow> json_exn + cs_string option" where
  "GetString_element v =
     (if element_kind v = NullValue then Inr None
      else if element_kind v \<noteq> String then Inl InvalidOperationException
      else case unescape (butlast (tl (GetRawText v))) of None \<Rightarrow> Inl InvalidOperationException | Some s \<Rightarrow> Inr (Some s))"

section \<open>Writing a string literal\<close>

text \<open>\<open>JsonStringLiteral\<close> of \<^verbatim>\<open>DeterministicRouter.cs\<close>, with the \<open>x4\<close> format of a code unit.\<close>

definition hex_digit :: "int \<Rightarrow> 16 word" where
  "hex_digit n = word_of_int (if n < 10 then 0x30 + n else 0x57 + n)"

definition format_x4 :: "16 word \<Rightarrow> cs_string" where
  "format_x4 c = map hex_digit [uint c div 4096, uint c div 256 mod 16, uint c div 16 mod 16, uint c mod 16]"

definition escape1 :: "16 word \<Rightarrow> cs_string" where
  "escape1 c = (if c = 0x22 then [0x5C, 0x22] else if c = 0x5C then [0x5C, 0x5C]
     else if c = 0x0A then [0x5C, 0x6E] else if c = 0x0D then [0x5C, 0x72] else if c = 0x09 then [0x5C, 0x74]
     else if uint c < 0x20 then [0x5C, 0x75] @ format_x4 c else [c])"

definition JsonStringLiteral :: "cs_string \<Rightarrow> cs_string" where
  "JsonStringLiteral s = 0x22 # concat (map escape1 s) @ [0x22]"

section \<open>Reading a literal back\<close>

lemma uint_hex_digit: "0 \<le> n \<Longrightarrow> n < 16 \<Longrightarrow> uint (hex_digit n) = (if n < 10 then 0x30 + n else 0x57 + n)"
  using uint_unit [of "if n < 10 then 0x30 + n else 0x57 + n"] by (simp only: hex_digit_def) (simp split: if_splits)

lemma hex_value_digit: "0 \<le> n \<Longrightarrow> n < 16 \<Longrightarrow> hex_value (hex_digit n) = Some n"
  by (simp add: hex_value_def uint_hex_digit word_le_def)

lemma hex_digits_value: "((n div 4096 * 16 + n div 256 mod 16) * 16 + n div 16 mod 16) * 16 + n mod 16 = n" for n :: int
proof -
  have d: "n div 4096 = n div 256 div 16" "n div 256 = n div 16 div 16" by (simp_all add: zdiv_zmult2_eq [symmetric])
  show ?thesis unfolding d(1) div_mult_mod_eq d(2) by (rule refl)
qed

lemma hex4_format: "hex4 (format_x4 c @ s) = Some (uint c, s)"
proof -
  have u: "0 \<le> uint c" "uint c < 65536" using uint_bounded [of c] by simp_all
  have "hex4 (format_x4 c @ s) =
      Some (((uint c div 4096 * 16 + uint c div 256 mod 16) * 16 + uint c div 16 mod 16) * 16 + uint c mod 16, s)"
    using u by (simp add: format_x4_def hex_value_digit div_int_pos_iff)
  then show ?thesis unfolding hex_digits_value .
qed

lemma format_x4_cases: "\<exists>a b c d. format_x4 u = [a, b, c, d]"
  by (simp add: format_x4_def)

lemma escape1_cases:
  obtains (plain) "escape1 c = [c]" "c \<noteq> 0x22" "c \<noteq> 0x5C" "\<not> uint c < 0x20"
    | (simple) e where "escape1 c = [0x5C, e]" "simple_escape e = Some c" "e \<noteq> 0x75"
    | (hex) "escape1 c = 0x5C # 0x75 # format_x4 c" "uint c < 0x20"
proof -
  have "escape1 c = [c] \<and> c \<noteq> 0x22 \<and> c \<noteq> 0x5C \<and> \<not> uint c < 0x20 \<or>
    (\<exists>e. escape1 c = [0x5C, e] \<and> simple_escape e = Some c \<and> e \<noteq> 0x75) \<or> escape1 c = 0x5C # 0x75 # format_x4 c \<and> uint c < 0x20"
    by (simp add: escape1_def simple_escape_def)
  then show thesis using plain simple hex by blast
qed

definition plain_unit :: "16 word \<Rightarrow> bool" where
  "plain_unit c \<longleftrightarrow> c \<noteq> 0x22 \<and> c \<noteq> 0x5C \<and> 0x20 \<le> uint c"

lemma lex_string_plain: "list_all plain_unit q \<Longrightarrow> lex_string (q @ r) = map_option (map_prod ((@) q) id) (lex_string r)"
  by (induction q; cases "lex_string r") (auto simp: plain_unit_def)

lemma format_x4_plain: "list_all plain_unit (format_x4 c)"
proof -
  have "plain_unit (hex_digit n)" if "0 \<le> n" "n < 16" for n
    using that by (auto simp: plain_unit_def uint_hex_digit word_uint_eq_iff)
  then show ?thesis using uint_bounded [of c] by (simp add: format_x4_def div_int_pos_iff)
qed

lemma lex_string_escape1: "lex_string (escape1 c @ r) = map_option (map_prod ((@) (escape1 c)) id) (lex_string r)"
proof (cases c rule: escape1_cases)
  case hex
  then show ?thesis using hex4_format [of c r] lex_string_plain [OF format_x4_plain, of c r]
    by (cases "lex_string r") auto
next
  case (simple e)
  then show ?thesis by (cases "lex_string r") auto
next
  case plain
  then show ?thesis by (cases "lex_string r") auto
qed

lemma lex_string_literal: "lex_string (concat (map escape1 s) @ 0x22 # r) = Some (concat (map escape1 s), r)"
  by (induction s) (simp_all add: lex_string_escape1)

lemma unescape_escape1: "unescape (escape1 c @ r) = map_option ((#) c) (unescape r)"
proof (cases c rule: escape1_cases)
  case hex
  obtain h1 h2 h3 h4 where h: "format_x4 c = [h1, h2, h3, h4]" using format_x4_cases by blast
  have "hex4 [h1, h2, h3, h4] = Some (uint c, [])" using hex4_format [of c "[]"] h by simp
  then show ?thesis using hex h by simp
qed simp_all

lemma unescape_literal: "unescape (concat (map escape1 s)) = Some s"
  by (induction s) (simp_all add: unescape_escape1)

lemma escape1_surrogate: "high_surrogate c \<or> low_surrogate c \<Longrightarrow> escape1 c = [c]"
  by (cases c rule: escape1_cases) (auto simp: simple_escape_def high_surrogate_def low_surrogate_def split: if_splits)

lemma escape1_ascii:
  assumes "\<not> high_surrogate c" "\<not> low_surrogate c"
  shows "wf_utf16 (escape1 c)" "\<not> low_surrogate (hd (escape1 c))" "escape1 c \<noteq> []"
proof -
  have "uint (hex_digit n) < 0xD800" if "0 \<le> n" "n < 16" for n
    using that by (simp add: uint_hex_digit)
  then have "\<forall>u \<in> set (format_x4 c). uint u < 0xD800"
    using uint_bounded [of c] by (simp add: format_x4_def div_int_pos_iff)
  then have "wf_utf16 (0x5C # 0x75 # format_x4 c)" by (intro wf_utf16_ascii) simp
  then show "wf_utf16 (escape1 c)"
    using assms by (simp add: escape1_def high_surrogate_def low_surrogate_def) blast
  show "\<not> low_surrogate (hd (escape1 c))" "escape1 c \<noteq> []"
    using assms by (auto simp: escape1_def low_surrogate_def)
qed

lemma wf_escapes: "wf_utf16 (concat (map escape1 s)) = wf_utf16 s"
proof (induction s rule: wf_utf16.induct)
  case (2 u s)
  show ?case
  proof (cases "high_surrogate u")
    case True
    show ?thesis
    proof (cases s)
      case (Cons v s')
      show ?thesis
      proof (cases "low_surrogate v")
        case False
        then have "escape1 v \<noteq> []" "\<not> low_surrogate (hd (escape1 v))"
          using escape1_ascii [of v] escape1_surrogate [of v] by (cases "high_surrogate v"; simp)+
        then show ?thesis using True False Cons escape1_surrogate [of u]
          by (cases "escape1 v") simp_all
      qed (use True Cons 2 escape1_surrogate in auto)
    qed (use True escape1_surrogate in auto)
  next
    case False
    show ?thesis
    proof (cases "low_surrogate u")
      case False
      then show ?thesis using 2(2) \<open>\<not> high_surrogate u\<close> by (simp add: wf_utf16_append escape1_ascii)
    qed (use False escape1_surrogate in auto)
  qed
qed simp

section \<open>Objects with string members\<close>

text \<open>Objects written without white space, as the grammar and the router write them: names and the text between the quotes.\<close>

fun member_text :: "bool \<Rightarrow> (cs_string \<times> cs_string) list \<Rightarrow> cs_string" where
  "member_text later [] = []"
| "member_text later ((n, b) # ms) = (if later then [0x2C] else []) @ 0x22 # n @ [0x22, 0x3A, 0x22] @ b @ 0x22 # member_text True ms"

fun member_tokens :: "bool \<Rightarrow> (cs_string \<times> cs_string) list \<Rightarrow> token list" where
  "member_tokens later [] = []"
| "member_tokens later ((n, b) # ms) =
     (if later then [Punct 0x2C] else []) @ Quoted n # Punct 0x3A # Quoted b # member_tokens True ms"

definition object_text :: "(cs_string \<times> cs_string) list \<Rightarrow> cs_string" where
  "object_text ms = 0x7B # member_text False ms @ [0x7D]"

definition string_element :: "cs_string \<Rightarrow> json" where
  "string_element b = Json String (token_text (Quoted b)) []"

definition object_element :: "(cs_string \<times> cs_string) list \<Rightarrow> json" where
  "object_element ms = Json Object (object_text ms) (map (map_prod id string_element) ms)"

definition readable :: "cs_string \<Rightarrow> bool" where
  "readable b \<longleftrightarrow> lex_string (b @ [0x22]) = Some (b, [])"

lemma hex4_front: "hex4 (s @ t) = map_option (map_prod id (\<lambda>r. r @ t)) (hex4 s)" if "4 \<le> length s"
proof -
  from that obtain a b c d r where "s = a # b # c # d # r" by (auto simp: numeral_eq_Suc Suc_le_length_iff)
  then show ?thesis by (simp split: option.splits)
qed

lemma lex_string_continue: "lex_string s = Some (q, r) \<Longrightarrow> lex_string (s @ t) = Some (q, r @ t)"
proof (induction s arbitrary: q r rule: lex_string.induct)
  case (2 c s)
  show ?case
  proof (cases "c = 0x22 \<or> c \<noteq> 0x5C")
    case True
    then show ?thesis using 2 by (auto split: if_splits)
  next
    case False
    then obtain e s' where s: "s = e # s'" using 2 by (cases s) auto
    then obtain q' where q: "lex_string s' = Some (q', r)" "q = [c, e] @ q'" "e = 0x75 \<or> simple_escape e \<noteq> None"
      "\<not> (e = 0x75 \<and> hex4 s' = None)" using False 2 by (auto split: if_splits)
    then have "\<not> (e = 0x75 \<and> hex4 (s' @ t) = None)"
      by (cases "4 \<le> length s'") (auto simp: hex4_front elim!: hex4.elims)
    moreover have "lex_string (s' @ t) = Some (q', r @ t)" using 2(1) [OF _ _ s] False q by blast
    ultimately show ?thesis using False s q by simp
  qed
qed simp

lemma readable_lex: "readable b \<Longrightarrow> lex_string (b @ 0x22 # r) = Some (b, r)"
  using lex_string_continue [of "b @ [0x22]" b "[]" r] by (simp add: readable_def)

lemma readable_plain: "list_all plain_unit b \<Longrightarrow> readable b"
  by (simp add: readable_def lex_string_plain)

lemma readable_literal: "readable (concat (map escape1 s))"
  by (simp add: readable_def lex_string_literal)

lemma lex_punct: "json_punct c \<Longrightarrow> lex_json (c # s) = map_option ((#) (Punct c)) (lex_json s)"
  by (subst lex_json.simps) (auto simp: lex_token_def json_punct_def json_space_def)

lemma lex_quoted: "lex_string s = Some (q, r) \<Longrightarrow> lex_json (0x22 # s) = map_option ((#) (Quoted q)) (lex_json r)"
  by (subst lex_json.simps) (simp add: lex_token_def json_punct_def json_space_def)

lemma lex_json_Nil: "lex_json [] = Some []"
  by (simp add: lex_json.simps)

lemma json_puncts: "json_punct 0x7B" "json_punct 0x3A" "json_punct 0x7D" "json_punct 0x2C"
  by (simp_all add: json_punct_def)

lemmas lex_object = lex_punct lex_json_Nil json_puncts lex_quoted [OF readable_lex] option.map_comp o_def

lemma lex_members:
  assumes "list_all (\<lambda>(n, b). readable n \<and> readable b) ms"
  shows "lex_json (member_text later ms @ r) = map_option ((@) (member_tokens later ms)) (lex_json r)"
  using assms by (induction later ms rule: member_text.induct; cases "lex_json r") (auto simp: lex_object)

lemma lex_object_text:
  assumes "list_all (\<lambda>(n, b). readable n \<and> readable b) ms"
  shows "lex_json (object_text ms @ r) = map_option (\<lambda>ts. Punct 0x7B # member_tokens False ms @ Punct 0x7D # ts) (lex_json r)"
  using lex_members [OF assms, of False "0x7D # r"] by (simp add: object_text_def lex_object)

lemma read_tokens_append: "read_tokens (ts @ us) d = Option.bind (read_tokens ts d) (read_tokens us)"
  by (induction ts arbitrary: d) (auto split: bind_splits)

lemmas read_defs = read_punct_def open_frame_def close_frame_def read_quoted_def value_expected_def

lemma read_members:
  "read_tokens (member_tokens later ms) (Reading (if later then Comma_or_end else First_name) (Frame True tx ms0 [] # fs)) =
     Some (Reading (if later \<or> ms \<noteq> [] then Comma_or_end else First_name)
       (Frame True (tx @ member_text later ms) (ms0 @ map (map_prod id string_element) ms) [] # fs))"
  by (induction later ms arbitrary: tx ms0 rule: member_text.induct) (simp_all add: read_defs string_element_def)

lemma read_object:
  assumes "value_expected e" "length fs < json_depth"
  shows "read_tokens (Punct 0x7B # member_tokens False ms @ Punct 0x7D # ts) (Reading e fs) =
    read_tokens ts (add_element (object_element ms) fs)"
  using assms read_members [of False ms "[0x7B]" "[]" fs]
  by (simp add: read_punct_def open_frame_def close_frame_def read_tokens_append object_element_def object_text_def)

lemma parse_object:
  assumes "list_all (\<lambda>(n, b). readable n \<and> readable b) ms" "wf_utf16 (object_text ms)"
  shows "JsonDocument_Parse (object_text ms) = Inr (object_element ms)"
  using assms lex_object_text [OF assms(1), of "[]"] read_object [of Value "[]" ms "[]"]
  by (simp add: JsonDocument_Parse_def lex_json_Nil value_expected_def json_depth_def)

lemma wf_utf16_ascii_end: "uint u < 0xD800 \<Longrightarrow> wf_utf16 (t @ u # s) \<longleftrightarrow> wf_utf16 t \<and> wf_utf16 s"
proof (induction t rule: wf_utf16.induct)
  case (2 v t)
  then show ?case
    by (cases t) (auto simp: high_surrogate_def low_surrogate_def)
qed (simp add: wf_utf16_plain del: wf_utf16.simps(2))

lemma wf_member_text: "wf_utf16 (member_text later ms @ s) \<longleftrightarrow> list_all (\<lambda>(n, b). wf_utf16 n \<and> wf_utf16 b) ms \<and> wf_utf16 s"
  by (induction later ms rule: member_text.induct) (auto simp: wf_utf16_ascii_end wf_utf16_plain simp del: wf_utf16.simps(2))

lemma wf_object_text: "wf_utf16 (object_text ms) \<longleftrightarrow> list_all (\<lambda>(n, b). wf_utf16 n \<and> wf_utf16 b) ms"
  by (simp add: object_text_def wf_member_text wf_utf16_plain del: wf_utf16.simps(2))

text \<open>A property whose name is written without escapes, in an object whose names are.\<close>

lemma find_property_plain:
  assumes "\<forall>(n, v) \<in> set ms. 0x5C \<notin> set n" "distinct (map fst ms)" "(name, v) \<in> set ms"
  shows "find_property name (rev ms) = Inr (Some v)"
proof -
  have "find_property name ms = Inr (Some v)"
    if "\<forall>(n, v) \<in> set ms. 0x5C \<notin> set n" "distinct (map fst ms)" "(name, v) \<in> set ms" for ms
    using that
  proof (induction ms)
    case (Cons m ms)
    then show ?case by (cases m; cases "fst m = name") (auto simp: name_is_def rev_image_eqI)
  qed simp
  then show ?thesis using assms by (simp add: rev_map [symmetric])
qed

lemma GetString_string_element: "GetString_element (string_element b) = (case unescape b of None \<Rightarrow> Inl InvalidOperationException | Some s \<Rightarrow> Inr (Some s))"
  by (simp add: GetString_element_def string_element_def)

end
