(* ===== verification/Foreman_Tools.thy ===== *)
theory Foreman_Tools
  imports Json_Document
begin

text \<open>
  The tools of the Foreman agent, \<^verbatim>\<open>src/core/DotnetNativeInterop.Engine/Ai/Agent\<close>: their definitions (\<^verbatim>\<open>ToolDefinition.cs\<close>,
  \<^verbatim>\<open>ForemanTools.cs\<close>), the grammar that restricts a turn to a call or an answer (\<^verbatim>\<open>GbnfGrammar.cs\<close>), the parser of what a model
  emits (\<^verbatim>\<open>ToolCallParser.cs\<close>) and the router that picks a tool without a model (\<^verbatim>\<open>DeterministicRouter.cs\<close>). The engine
  operations behind the tools, the text encoder and the arithmetic of its vectors are parameters. The theorems: the router
  picks the first nearest tool; the tool receives the text that was routed; an emission of the grammar is read as the call it
  spells, when its strings are JSON; the parser and the argument reader throw only on strings that are not well-formed.
\<close>

section \<open>Data\<close>

text \<open>An exception is a cancellation or has the name of its type, which is what the agent reports.\<close>

datatype exn = OperationCanceledException | Fault cs_string

fun exn_of :: "json_exn \<Rightarrow> exn" where
  "exn_of JsonException = Fault (lit ''JsonReaderException'')"
| "exn_of ArgumentException = Fault (lit ''ArgumentException'')"
| "exn_of InvalidOperationException = Fault (lit ''InvalidOperationException'')"

record ToolCall =
  call_tool :: cs_string
  ArgsJson :: cs_string

record ToolParam =
  param_name :: cs_string
  JsonType :: cs_string
  Required :: bool

record 's ToolDefinition =
  tool_name :: cs_string
  Description :: cs_string
  Params :: "ToolParam list"
  Invoke :: "cs_string \<Rightarrow> 's \<Rightarrow> (exn + cs_string) \<times> 's"

record AgentDecision =
  Call :: "ToolCall option"
  IsAnswer :: bool

definition Decide_tool :: "ToolCall \<Rightarrow> AgentDecision" where
  "Decide_tool c = \<lparr>Call = Some c, IsAnswer = False\<rparr>"

definition Decide_answer :: AgentDecision where
  "Decide_answer = \<lparr>Call = None, IsAnswer = True\<rparr>"

section \<open>ToolCallParser\<close>

definition answer_or_else :: "json \<Rightarrow> json_exn + AgentDecision" where
  "answer_or_else root = (case TryGetProperty (lit ''answer'') root of Inl x \<Rightarrow> Inl x | Inr _ \<Rightarrow> Inr Decide_answer)"

definition parse_root :: "json \<Rightarrow> json_exn + AgentDecision" where
  "parse_root root =
     (if element_kind root \<noteq> Object then Inr Decide_answer
      else case TryGetProperty (lit ''tool'') root of
        Inl x \<Rightarrow> Inl x
      | Inr None \<Rightarrow> answer_or_else root
      | Inr (Some t) \<Rightarrow>
          if element_kind t \<noteq> String then answer_or_else root
          else case TryGetProperty (lit ''args'') root of
            Inl x \<Rightarrow> Inl x
          | Inr None \<Rightarrow> answer_or_else root
          | Inr (Some a) \<Rightarrow> (case GetString_element t of
              Inl x \<Rightarrow> Inl x
            | Inr s \<Rightarrow> Inr (Decide_tool \<lparr>call_tool = (case s of Some n \<Rightarrow> n | None \<Rightarrow> []), ArgsJson = GetRawText a\<rparr>)))"

definition ToolCallParser_Parse :: "cs_string \<Rightarrow> json_exn + AgentDecision" where
  "ToolCallParser_Parse emission = (case JsonDocument_Parse emission of
     Inl JsonException \<Rightarrow> Inr Decide_answer
   | Inl x \<Rightarrow> Inl x
   | Inr root \<Rightarrow> (case parse_root root of Inl JsonException \<Rightarrow> Inr Decide_answer | r \<Rightarrow> r))"

section \<open>ForemanTools\<close>

definition GetString :: "cs_string \<Rightarrow> cs_string \<Rightarrow> json_exn + cs_string" where
  "GetString argsJson name = (case JsonDocument_Parse argsJson of
     Inl JsonException \<Rightarrow> Inr []
   | Inl x \<Rightarrow> Inl x
   | Inr root \<Rightarrow>
       if element_kind root \<noteq> Object then Inr []
       else case TryGetProperty name root of
         Inl x \<Rightarrow> Inl x
       | Inr None \<Rightarrow> Inr []
       | Inr (Some v) \<Rightarrow>
           if element_kind v \<noteq> String then Inr []
           else case GetString_element v of Inl x \<Rightarrow> Inl x | Inr s \<Rightarrow> Inr (case s of Some t \<Rightarrow> t | None \<Rightarrow> []))"

text \<open>The engine operations the tools are bound to.\<close>

type_synonym 's engine_op = "cs_string \<Rightarrow> 's \<Rightarrow> (exn + cs_string) \<times> 's"

definition with_argument :: "cs_string \<Rightarrow> 's engine_op \<Rightarrow> 's engine_op" where
  "with_argument name f = (\<lambda>args s. case GetString args name of Inl x \<Rightarrow> (Inl (exn_of x), s) | Inr v \<Rightarrow> f v s)"

definition ForemanTools_Build :: "'s engine_op \<Rightarrow> 's engine_op \<Rightarrow> ('s \<Rightarrow> (exn + cs_string) \<times> 's) \<Rightarrow> 's ToolDefinition list" where
  "ForemanTools_Build searchManuals runFeature engineStats =
    [\<lparr>tool_name = lit ''search_manuals'', Description = lit ''search the maintenance manuals for a fault or procedure'',
       Params = [\<lparr>param_name = lit ''query'', JsonType = lit ''string'', Required = True\<rparr>],
       Invoke = with_argument (lit ''query'') searchManuals\<rparr>,
     \<lparr>tool_name = lit ''run_feature'', Description = lit ''run a named C#/.NET feature demo and return its result'',
       Params = [\<lparr>param_name = lit ''id'', JsonType = lit ''string'', Required = True\<rparr>],
       Invoke = with_argument (lit ''id'') runFeature\<rparr>,
     \<lparr>tool_name = lit ''engine_stats'', Description = lit ''current runtime memory, GC, and thread stats'',
       Params = [], Invoke = (\<lambda>_. engineStats)\<rparr>]"

fun FindTool :: "'s ToolDefinition list \<Rightarrow> cs_string \<Rightarrow> 's ToolDefinition option" where
  "FindTool [] n = None"
| "FindTool (t # ts) n = (if tool_name t = n then Some t else FindTool ts n)"

section \<open>DeterministicRouter\<close>

text \<open>The encoder, which may throw, and the comparisons of similarities.\<close>

record ('v, 'f) encoder =
  embed :: "cs_string \<Rightarrow> exn + 'v"
  cosine :: "'v \<Rightarrow> 'v \<Rightarrow> 'f"
  f_less :: "'f \<Rightarrow> 'f \<Rightarrow> bool"
  f_le :: "'f \<Rightarrow> 'f \<Rightarrow> bool"
  f_neginf :: 'f

record ('s, 'v, 'f) DeterministicRouter =
  routed :: "('s ToolDefinition \<times> 'v) list"
  encoder :: "('v, 'f) encoder"
  threshold :: 'f
  hintGate :: 'f

fun embed_tools :: "('v, 'f) encoder \<Rightarrow> 's ToolDefinition list \<Rightarrow> exn + ('s ToolDefinition \<times> 'v) list" where
  "embed_tools E [] = Inr []"
| "embed_tools E (t # ts) = (case embed E (Description t) of
     Inl x \<Rightarrow> Inl x
   | Inr v \<Rightarrow> (case embed_tools E ts of Inl x \<Rightarrow> Inl x | Inr tvs \<Rightarrow> Inr ((t, v) # tvs)))"

definition new_router :: "'s ToolDefinition list \<Rightarrow> ('v, 'f) encoder \<Rightarrow> 'f \<Rightarrow> 'f \<Rightarrow> exn + ('s, 'v, 'f) DeterministicRouter" where
  "new_router tools E th gate = (case embed_tools E tools of
     Inl x \<Rightarrow> Inl x | Inr tvs \<Rightarrow> Inr \<lparr>routed = tvs, encoder = E, threshold = th, hintGate = gate\<rparr>)"

text \<open>The text that is routed and its vector: the query, after the hint when there is one and the query is near it.\<close>

definition routed_text :: "('s, 'v, 'f) DeterministicRouter \<Rightarrow> cs_string \<Rightarrow> cs_string option \<Rightarrow> exn + cs_string \<times> 'v" where
  "routed_text R query contextHint = (let E = encoder R in case embed E query of
     Inl x \<Rightarrow> Inl x
   | Inr q \<Rightarrow> (case contextHint of
       None \<Rightarrow> Inr (query, q)
     | Some h \<Rightarrow> if h = [] then Inr (query, q) else
         (case embed E h of
            Inl x \<Rightarrow> Inl x
          | Inr hv \<Rightarrow>
              if f_le E (hintGate R) (cosine E q hv)
              then (case embed E (h @ 0x0A # query) of Inl x \<Rightarrow> Inl x | Inr q' \<Rightarrow> Inr (h @ 0x0A # query, q'))
              else Inr (query, q))))"

fun nearest :: "('v, 'f) encoder \<Rightarrow> 'v \<Rightarrow> ('s ToolDefinition \<times> 'v) list \<Rightarrow> 'f \<Rightarrow> 's ToolDefinition option
    \<Rightarrow> 'f \<times> 's ToolDefinition option" where
  "nearest E q [] best pick = (best, pick)"
| "nearest E q ((tool, vec) # ts) best pick =
     (if f_less E best (cosine E q vec) then nearest E q ts (cosine E q vec) (Some tool) else nearest E q ts best pick)"

definition call_of :: "'s ToolDefinition \<Rightarrow> cs_string \<Rightarrow> ToolCall" where
  "call_of tool t = \<lparr>call_tool = tool_name tool, ArgsJson =
     (case Params tool of p # _ \<Rightarrow> [0x7B, 0x22] @ param_name p @ [0x22, 0x3A] @ JsonStringLiteral t @ [0x7D] | [] \<Rightarrow> [0x7B, 0x7D])\<rparr>"

definition Route :: "('s, 'v, 'f) DeterministicRouter \<Rightarrow> cs_string \<Rightarrow> cs_string option \<Rightarrow> exn + ToolCall option" where
  "Route R query contextHint = (case routed_text R query contextHint of
     Inl x \<Rightarrow> Inl x
   | Inr (t, q) \<Rightarrow> (case nearest (encoder R) q (routed R) (f_neginf (encoder R)) None of
       (best, None) \<Rightarrow> Inr None
     | (best, Some tool) \<Rightarrow> Inr (if f_less (encoder R) best (threshold R) then None else Some (call_of tool t))))"

section \<open>GbnfGrammar\<close>

definition answer_rules :: cs_string where
  "answer_rules = lit ''answer ::= '' @ [0x22, 0x7B, 0x5C, 0x22] @ lit ''answer'' @ [0x5C, 0x22, 0x3A, 0x22] @ lit '' string '' @
     [0x22, 0x7D, 0x22, 0x0A]"

definition string_rule :: cs_string where
  "string_rule = lit ''string ::= '' @ [0x22, 0x5C, 0x22, 0x22] @ lit '' ([^'' @ [0x22, 0x5C, 0x5C] @ lit ''] | '' @
     [0x22, 0x5C, 0x5C, 0x22] @ lit '' .)* '' @ [0x22, 0x5C, 0x22, 0x22, 0x0A]"

fun args_terms :: "bool \<Rightarrow> ToolParam list \<Rightarrow> cs_string" where
  "args_terms later [] = []"
| "args_terms later (p # ps) = (if later then lit '' '' @ [0x22, 0x2C, 0x22] @ lit '' '' else []) @
     [0x22, 0x5C, 0x22] @ param_name p @ [0x5C, 0x22, 0x3A, 0x22] @ lit '' string'' @ args_terms True ps"

definition ArgsRule :: "'s ToolDefinition \<Rightarrow> cs_string" where
  "ArgsRule t = (if Params t = [] then [0x22, 0x7B, 0x7D, 0x22]
     else [0x22, 0x7B, 0x22] @ lit '' '' @ args_terms False (Params t) @ lit '' '' @ [0x22, 0x7D, 0x22])"

fun call_alternatives :: "bool \<Rightarrow> 's ToolDefinition list \<Rightarrow> cs_string" where
  "call_alternatives later [] = []"
| "call_alternatives later (t # ts) = (if later then lit '' | '' else []) @ lit ''tc_'' @ tool_name t @ call_alternatives True ts"

definition call_rule :: "'s ToolDefinition \<Rightarrow> cs_string" where
  "call_rule t = lit ''tc_'' @ tool_name t @ lit '' ::= '' @ [0x22, 0x7B, 0x5C, 0x22] @ lit ''tool'' @ [0x5C, 0x22, 0x3A, 0x5C, 0x22] @
     tool_name t @ [0x5C, 0x22, 0x2C, 0x5C, 0x22] @ lit ''args'' @ [0x5C, 0x22, 0x3A, 0x22] @ lit '' '' @ ArgsRule t @ lit '' '' @
     [0x22, 0x7D, 0x22, 0x0A]"

definition GbnfGrammar_Build :: "'s ToolDefinition list \<Rightarrow> cs_string" where
  "GbnfGrammar_Build tools =
     (if tools = [] then lit ''root ::= answer'' @ [0x0A] @ answer_rules @ string_rule
      else lit ''root ::= toolcall | answer'' @ [0x0A] @ answer_rules @ lit ''toolcall ::= '' @ call_alternatives False tools @ [0x0A] @
        concat (map call_rule tools) @ string_rule)"

section \<open>What the router picks\<close>

lemma embed_tools_result: "embed_tools E ts = Inr tvs \<Longrightarrow> map fst tvs = ts \<and> (\<forall>(t, v) \<in> set tvs. embed E (Description t) = Inr v)"
  by (induction ts arbitrary: tvs) (auto split: sum.splits)

lemma call_of_args: "ArgsJson (call_of tool t) =
    object_text (case Params tool of p # _ \<Rightarrow> [(param_name p, concat (map escape1 t))] | [] \<Rightarrow> [])"
  by (simp add: call_of_def object_text_def JsonStringLiteral_def split: list.splits)

text \<open>Where similarities are ordered and none is minus infinity, the loop keeps the first of the greatest.\<close>

definition ordered :: "('v, 'f::linorder) encoder \<Rightarrow> bool" where
  "ordered E \<longleftrightarrow> f_less E = (<) \<and> f_le E = (\<le>) \<and> (\<forall>u v. f_neginf E < cosine E u v)"

lemma nearest_best:
  assumes "ordered E" "nearest E q tvs best pick = (b, p)"
  shows "best \<le> b \<and> (\<forall>(t, v) \<in> set tvs. cosine E q v \<le> b) \<and> (b = best \<and> p = pick \<or>
    best < b \<and> (\<exists>us t v ws. tvs = us @ (t, v) # ws \<and> p = Some t \<and> cosine E q v = b \<and> (\<forall>(t', v') \<in> set us. cosine E q v' < b)))"
  using assms(2)
proof (induction tvs arbitrary: best pick)
  case (Cons tv tvs)
  obtain t v where tv: "tv = (t, v)" by fastforce
  show ?case
  proof (cases "best < cosine E q v")
    case True
    then have "nearest E q tvs (cosine E q v) (Some t) = (b, p)" using Cons.prems assms(1) tv by (simp add: ordered_def)
    from Cons.IH [OF this] consider "b = cosine E q v" "p = Some t" "\<forall>(t, v) \<in> set tvs. cosine E q v \<le> b"
      | us t' v' ws where "cosine E q v < b" "tvs = us @ (t', v') # ws" "p = Some t'" "cosine E q v' = b"
        "\<forall>(t, v) \<in> set us. cosine E q v < b" "\<forall>(t, v) \<in> set tvs. cosine E q v \<le> b" by blast
    then show ?thesis
    proof cases
      case 1
      then show ?thesis using True tv by (intro conjI disjI2 exI [of _ "[]"]) auto
    next
      case 2
      then show ?thesis using True tv by (intro conjI disjI2 exI [of _ "(t, v) # us"]) auto
    qed
  next
    case False
    then have "nearest E q tvs best pick = (b, p)" using Cons.prems assms(1) tv by (simp add: ordered_def)
    from Cons.IH [OF this] consider "b = best" "p = pick" "\<forall>(t, v) \<in> set tvs. cosine E q v \<le> b"
      | us t' v' ws where "best < b" "tvs = us @ (t', v') # ws" "p = Some t'" "cosine E q v' = b"
        "\<forall>(t, v) \<in> set us. cosine E q v < b" "\<forall>(t, v) \<in> set tvs. cosine E q v \<le> b" by blast
    then show ?thesis
    proof cases
      case 2
      then show ?thesis using False tv by (intro conjI disjI2 exI [of _ "(t, v) # us"]) auto
    qed (use False tv in auto)
  qed
qed simp

text \<open>The router picks the tool nearest to the routed text, the first of equals, and none when none is as near as the
  threshold.\<close>

theorem route_nearest:
  assumes "ordered E" "new_router tools E th gate = Inr R" "routed_text R query hint = Inr (t, q)"
  shows "case Route R query hint of
      Inr (Some call) \<Rightarrow> (\<exists>us tool v ws. routed R = us @ (tool, v) # ws \<and> call = call_of tool t \<and> th \<le> cosine E q v \<and>
        (\<forall>(t', v') \<in> set us. cosine E q v' < cosine E q v) \<and> (\<forall>(t', v') \<in> set ws. cosine E q v' \<le> cosine E q v))
    | Inr None \<Rightarrow> (\<forall>(t', v') \<in> set (routed R). cosine E q v' < th)
    | Inl x \<Rightarrow> False"
proof -
  have R: "encoder R = E" "threshold R = th" using assms(2) by (auto simp: new_router_def split: sum.splits)
  obtain b p where n: "nearest E q (routed R) (f_neginf E) None = (b, p)" by fastforce
  note best = nearest_best [OF assms(1) n]
  have low: "f_neginf E < cosine E q v" for v using assms(1) by (simp add: ordered_def)
  show ?thesis
  proof (cases p)
    case None
    then have "routed R = []" using best low by (cases "routed R") (fastforce simp: not_less [symmetric])+
    then show ?thesis using None n R assms(3) by (simp add: Route_def)
  next
    case (Some tool)
    then obtain us v ws where p: "routed R = us @ (tool, v) # ws" "cosine E q v = b" "\<forall>(t', v') \<in> set us. cosine E q v' < b"
      using best by blast
    have all: "\<forall>(t', v') \<in> set (routed R). cosine E q v' \<le> b" using best by blast
    have "f_less E b th \<longleftrightarrow> b < th" using assms(1) by (simp add: ordered_def)
    then have r: "Route R query hint = Inr (if b < th then None else Some (call_of tool t))"
      using Some n R assms(3) by (simp add: Route_def)
    show ?thesis
    proof (cases "b < th")
      case True
      then have "\<forall>(t', v') \<in> set (routed R). cosine E q v' < th" using all by fastforce
      then show ?thesis using r True by simp
    next
      case False
      have "\<forall>(t', v') \<in> set ws. cosine E q v' \<le> b" using all p(1) by simp
      then have "\<exists>us tool' v ws. routed R = us @ (tool', v) # ws \<and> call_of tool t = call_of tool' t \<and> th \<le> cosine E q v \<and>
        (\<forall>(t', v') \<in> set us. cosine E q v' < cosine E q v) \<and> (\<forall>(t', v') \<in> set ws. cosine E q v' \<le> cosine E q v)"
        using p False by (intro exI [of _ us] exI [of _ tool] exI [of _ v] exI [of _ ws]) simp
      then show ?thesis using r False by simp
    qed
  qed
qed

section \<open>What the tools receive\<close>

lemma GetString_object:
  assumes "list_all (\<lambda>(n, b). list_all plain_unit n \<and> readable b \<and> wf_utf16 b \<and> wf_utf16 n) ms" "distinct (map fst ms)"
    "(name, b) \<in> set ms" "unescape b = Some t"
  shows "GetString (object_text ms) name = Inr t"
proof -
  have "list_all (\<lambda>(n, b). readable n \<and> readable b) ms" "wf_utf16 (object_text ms)"
    using assms(1) by (auto simp: wf_object_text list_all_iff readable_plain)
  from parse_object [OF this] have "JsonDocument_Parse (object_text ms) = Inr (object_element ms)" .
  moreover have "find_property name (rev (map (map_prod id string_element) ms)) = Inr (Some (string_element b))"
  proof (rule find_property_plain)
    show "\<forall>(n, v) \<in> set (map (map_prod id string_element) ms). 0x5C \<notin> set n"
      using assms(1) by (fastforce simp: list_all_iff plain_unit_def)
    show "distinct (map fst (map (map_prod id string_element) ms))" using assms(2) by (simp add: fst_map_prod o_def)
    show "(name, string_element b) \<in> set (map (map_prod id string_element) ms)"
      using imageI [OF assms(3), of "map_prod id string_element"] by simp
  qed
  ultimately show ?thesis
    using assms(4) by (simp add: GetString_def TryGetProperty_def object_element_def GetString_string_element)
      (simp add: string_element_def)
qed

lemma lit_params: "list_all plain_unit (lit ''query'')" "list_all plain_unit (lit ''id'')"
  by code_simp+

lemma argument_read:
  assumes "list_all plain_unit name" "wf_utf16 name" "wf_utf16 t"
  shows "GetString (object_text [(name, concat (map escape1 t))]) name = Inr t"
  using assms by (intro GetString_object) (auto simp: readable_literal wf_escapes unescape_literal)

lemma nearest_pick: "nearest E q tvs best pick = (b, Some t) \<Longrightarrow> Some t = pick \<or> t \<in> fst ` set tvs"
  by (induction E q tvs best pick rule: nearest.induct) (auto split: if_splits)

lemma Route_call:
  assumes "new_router tools E th gate = Inr R" "Route R query hint = Inr (Some call)"
  shows "\<exists>tool t q. tool \<in> set tools \<and> routed_text R query hint = Inr (t, q) \<and> call = call_of tool t"
proof -
  obtain tvs where R: "R = \<lparr>routed = tvs, encoder = E, threshold = th, hintGate = gate\<rparr>" "embed_tools E tools = Inr tvs"
    using assms(1) by (auto simp: new_router_def split: sum.splits)
  obtain t q b tool where "routed_text R query hint = Inr (t, q)" "nearest E q tvs (f_neginf E) None = (b, Some tool)" "call = call_of tool t"
    using assms(2) R(1) by (auto simp: Route_def split: sum.splits prod.splits option.splits if_splits)
  moreover have "map fst tvs = tools" using embed_tools_result [OF R(2)] by simp
  then have "tool \<in> set tools" using nearest_pick [OF calculation(2)] by (auto simp: rev_image_eqI)
  ultimately show ?thesis by blast
qed

lemma tool_names: "lit ''search_manuals'' \<noteq> (lit ''run_feature'' :: cs_string)" "lit ''search_manuals'' \<noteq> (lit ''engine_stats'' :: cs_string)"
  "lit ''run_feature'' \<noteq> (lit ''engine_stats'' :: cs_string)"
  by code_simp+

lemma foreman_call_cases:
  fixes searchManuals runFeature :: "'s engine_op" and engineStats :: "'s \<Rightarrow> (exn + cs_string) \<times> 's"
  defines "tools \<equiv> ForemanTools_Build searchManuals runFeature engineStats"
  assumes "tool \<in> set tools" "call = call_of tool t"
  obtains (search) d where "call_tool call = lit ''search_manuals''" "FindTool tools (call_tool call) = Some d"
      "Invoke d (ArgsJson call) = with_argument (lit ''query'') searchManuals (object_text [(lit ''query'', concat (map escape1 t))])"
    | (feature) d where "call_tool call = lit ''run_feature''" "FindTool tools (call_tool call) = Some d"
      "Invoke d (ArgsJson call) = with_argument (lit ''id'') runFeature (object_text [(lit ''id'', concat (map escape1 t))])"
    | (stats) d where "call_tool call = lit ''engine_stats''" "FindTool tools (call_tool call) = Some d" "Invoke d (ArgsJson call) = engineStats"
proof -
  have n: "call_tool call = tool_name tool" "ArgsJson call = object_text (case Params tool of p # _ \<Rightarrow> [(param_name p, concat (map escape1 t))] | [] \<Rightarrow> [])"
    using assms(3) by (simp add: call_of_def) (simp add: assms(3) call_of_args)
  have "tool = tools ! 0 \<or> tool = tools ! 1 \<or> tool = tools ! 2" using assms(2) by (auto simp: tools_def ForemanTools_Build_def)
  then show thesis
  proof (elim disjE)
    assume "tool = tools ! 0"
    then show thesis using search [of tool] n tool_names by (simp add: tools_def ForemanTools_Build_def)
  next
    assume "tool = tools ! 1"
    then show thesis using feature [of tool] n tool_names by (simp add: tools_def ForemanTools_Build_def)
  next
    assume "tool = tools ! 2"
    then show thesis using stats [of tool] n tool_names by (simp add: tools_def ForemanTools_Build_def)
  qed
qed

text \<open>C19. The router's call of one of the engine's tools reaches the operation behind it with exactly the text that was routed,
  whatever characters it has, as long as it is well-formed.\<close>

theorem routed_call_delivers:
  assumes "new_router (ForemanTools_Build searchManuals runFeature engineStats) E th gate = Inr R"
    "Route R query hint = Inr (Some call)" "routed_text R query hint = Inr (t, q)" "wf_utf16 t"
  shows "\<exists>tool. FindTool (ForemanTools_Build searchManuals runFeature engineStats) (call_tool call) = Some tool \<and>
    Invoke tool (ArgsJson call) \<in> {searchManuals t, runFeature t, engineStats} \<and>
    (call_tool call = lit ''search_manuals'' \<longrightarrow> Invoke tool (ArgsJson call) = searchManuals t) \<and>
    (call_tool call = lit ''run_feature'' \<longrightarrow> Invoke tool (ArgsJson call) = runFeature t) \<and>
    (call_tool call = lit ''engine_stats'' \<longrightarrow> Invoke tool (ArgsJson call) = engineStats)"
proof -
  obtain tool where t: "tool \<in> set (ForemanTools_Build searchManuals runFeature engineStats)" "call = call_of tool t"
    using Route_call [OF assms(1,2)] assms(3) by auto
  note read = argument_read [OF lit_params(1) wf_lit assms(4)] argument_read [OF lit_params(2) wf_lit assms(4)]
  from t show ?thesis
    by (cases rule: foreman_call_cases) (simp_all add: tool_names tool_names [symmetric] with_argument_def read)
qed

section \<open>What the parser reads\<close>

text \<open>The emissions of the grammar for a tool: the bodies of its string arguments are any units but the quote and the backslash,
  and a backslash followed by any unit.\<close>

fun string_body :: "cs_string \<Rightarrow> bool" where
  "string_body [] = True"
| "string_body (c # s) = (if c = 0x5C then (case s of [] \<Rightarrow> False | e # s' \<Rightarrow> string_body s') else c \<noteq> 0x22 \<and> string_body s)"

definition call_emission :: "'s ToolDefinition \<Rightarrow> cs_string list \<Rightarrow> cs_string" where
  "call_emission t bodies = [0x7B, 0x22] @ lit ''tool'' @ [0x22, 0x3A, 0x22] @ tool_name t @ [0x22, 0x2C, 0x22] @ lit ''args'' @
     [0x22, 0x3A] @ object_text (zip (map param_name (Params t)) bodies) @ [0x7D]"

definition grammar_safe :: "'s ToolDefinition \<Rightarrow> bool" where
  "grammar_safe t \<longleftrightarrow> (\<forall>n \<in> set (tool_name t # map param_name (Params t)). list_all (\<lambda>c. plain_unit c \<and> uint c < 0x80) n) \<and>
     distinct (map param_name (Params t))"

lemma readable_body: "lex_string (b @ [0x22]) = Some (b, []) \<Longrightarrow> string_body b"
proof (induction b rule: string_body.induct)
  case (2 c s)
  show ?case
  proof (cases "c = 0x5C")
    case True
    then obtain e s' where s: "s = e # s'" using 2(3) by (cases s) (auto simp: simple_escape_def split: if_splits)
    then have "lex_string (s' @ [0x22]) = Some (s', [])" using 2(3) True by (auto split: if_splits)
    then show ?thesis using 2(1) True s by simp
  qed (use 2 in \<open>auto split: if_splits\<close>)
qed simp

lemma lit_names: "list_all plain_unit (lit ''tool'')" "list_all plain_unit (lit ''args'')" "list_all plain_unit (lit ''answer'')"
  "0x5C \<notin> set (lit ''tool'' :: cs_string)" "0x5C \<notin> set (lit ''args'' :: cs_string)" "lit ''tool'' \<noteq> (lit ''args'' :: cs_string)"
  by code_simp+

lemma unescape_plain: "0x5C \<notin> set s \<Longrightarrow> unescape s = Some s"
  by (induction s) auto

lemma lex_emission:
  assumes "readable (tool_name t)" "list_all (\<lambda>(n, b). readable n \<and> readable b) (zip (map param_name (Params t)) bodies)"
  shows "lex_json (call_emission t bodies) =
    Some ([Punct 0x7B, Quoted (lit ''tool''), Punct 0x3A, Quoted (tool_name t), Punct 0x2C, Quoted (lit ''args''), Punct 0x3A] @
      Punct 0x7B # member_tokens False (zip (map param_name (Params t)) bodies) @ [Punct 0x7D, Punct 0x7D])"
  using lex_object_text [OF assms(2), of "[0x7D]"]
  by (simp add: call_emission_def lex_object readable_plain lit_names assms(1))

lemma ascii_wf: "list_all (\<lambda>c. plain_unit c \<and> uint c < 0x80) n \<Longrightarrow> list_all plain_unit n \<and> wf_utf16 n"
  by (fastforce simp: list_all_iff intro!: wf_utf16_ascii)

text \<open>An emission of the grammar is the call of the tool with its arguments, as long as the bodies of its strings are JSON.\<close>

theorem grammar_call_read:
  assumes "grammar_safe t" "length bodies = length (Params t)" "\<forall>b \<in> set bodies. readable b \<and> wf_utf16 b"
  shows "ToolCallParser_Parse (call_emission t bodies) =
      Inr (Decide_tool \<lparr>call_tool = tool_name t, ArgsJson = object_text (zip (map param_name (Params t)) bodies)\<rparr>) \<and>
    (\<forall>i < length bodies. \<forall>s. unescape (bodies ! i) = Some s \<longrightarrow>
      GetString (object_text (zip (map param_name (Params t)) bodies)) (param_name (Params t ! i)) = Inr s)"
proof -
  define ms where "ms = zip (map param_name (Params t)) bodies"
  have n: "list_all plain_unit (tool_name t)" "wf_utf16 (tool_name t)" "0x5C \<notin> set (tool_name t)"
    using assms(1) ascii_wf [of "tool_name t"] by (auto simp: grammar_safe_def list_all_iff plain_unit_def)
  have ok: "list_all plain_unit m \<and> readable b \<and> wf_utf16 b \<and> wf_utf16 m" if "(m, b) \<in> set ms" for m b
  proof -
    have "m \<in> set (map param_name (Params t))" "b \<in> set bodies"
      using that by (auto simp: ms_def dest: set_zip_leftD set_zip_rightD)
    then show ?thesis using assms(1,3) ascii_wf [of m] by (auto simp: grammar_safe_def)
  qed
  then have r: "list_all (\<lambda>(n, b). readable n \<and> readable b) ms" "list_all (\<lambda>(n, b). wf_utf16 n \<and> wf_utf16 b) ms"
    and a: "list_all (\<lambda>(n, b). list_all plain_unit n \<and> readable b \<and> wf_utf16 b \<and> wf_utf16 n) ms"
    by (auto simp: list_all_iff readable_plain)
  let ?root = "Json Object (call_emission t bodies) [(lit ''tool'', string_element (tool_name t)), (lit ''args'', object_element ms)]"
  have "wf_utf16 (call_emission t bodies)"
    using n(2) r(2) by (simp add: call_emission_def wf_utf16_append wf_utf16_plain wf_utf16_ascii_end wf_lit wf_object_text ms_def [symmetric]
      del: wf_utf16.simps(2))
  then have "JsonDocument_Parse (call_emission t bodies) = Inr ?root"
    using lex_emission [of t bodies] r(1) n(1) read_object [of Value "[Frame True x y z]" ms "[Punct 0x7D]" for x y z]
    by (simp add: JsonDocument_Parse_def readable_plain ms_def [symmetric] read_defs json_depth_def)
      (simp add: call_emission_def ms_def string_element_def object_element_def)
  then have "ToolCallParser_Parse (call_emission t bodies) = Inr (Decide_tool \<lparr>call_tool = tool_name t, ArgsJson = object_text ms\<rparr>)"
    using n(3) by (simp add: ToolCallParser_Parse_def parse_root_def TryGetProperty_def name_is_def lit_names lit_names(6) [symmetric]
      GetString_string_element unescape_plain) (simp add: string_element_def object_element_def)
  moreover have "GetString (object_text ms) (param_name (Params t ! i)) = Inr s"
    if "i < length bodies" "unescape (bodies ! i) = Some s" for i s
  proof (rule GetString_object [OF a])
    show "distinct (map fst ms)" using assms(1,2) by (simp add: ms_def grammar_safe_def map_fst_zip)
    show "(param_name (Params t ! i), bodies ! i) \<in> set ms" using that assms(2) by (auto simp: ms_def set_zip intro!: exI [of _ i])
  qed (rule that(2))
  ultimately show ?thesis by (simp add: ms_def)
qed

text \<open>The elements of a document are made of the strings of its text: a document whose strings can be unescaped has only names
  and string values that can.\<close>

definition good_member :: "cs_string \<times> json \<Rightarrow> bool" where
  "good_member m \<longleftrightarrow> unescape (fst m) \<noteq> None \<and>
     (element_kind (snd m) = String \<longrightarrow> unescape (butlast (tl (GetRawText (snd m)))) \<noteq> None)"

definition good_element :: "json \<Rightarrow> bool" where
  "good_element v \<longleftrightarrow> (element_kind v = String \<longrightarrow> unescape (butlast (tl (GetRawText v))) \<noteq> None) \<and> list_all good_member (members v)"

fun good_frame :: "frame \<Rightarrow> bool" where
  "good_frame (Frame obj tx ms n) \<longleftrightarrow> list_all good_member ms \<and> unescape n \<noteq> None"

fun good_doc :: "doc_state \<Rightarrow> bool" where
  "good_doc (Reading e fs) \<longleftrightarrow> list_all good_frame fs"
| "good_doc (Complete v) \<longleftrightarrow> good_element v"

lemma good_add_element: "list_all good_frame fs \<Longrightarrow> good_element v \<Longrightarrow> good_doc (add_element v fs)"
  by (induction v fs rule: add_element.induct) (auto simp: good_member_def good_element_def)

lemma good_add_text: "list_all good_frame fs \<Longrightarrow> list_all good_frame (add_text t fs)"
  by (induction t fs rule: add_text.induct) auto

lemma good_read_token:
  assumes "read_token t d = Some d'" "good_doc d" "\<And>q. t = Quoted q \<Longrightarrow> unescape q \<noteq> None" "\<And>k q. t = Scalar k q \<Longrightarrow> k \<noteq> String"
  shows "good_doc d'"
  using assms
proof (induction t d rule: read_token.induct)
  case (3 c e fs)
  then show ?case
    by (auto simp: read_punct_def open_frame_def close_frame_def good_add_text good_add_element good_element_def
      split: if_splits list.splits frame.splits)
next
  case (4 s e fs)
  then have "good_doc (add_element (Json String (token_text (Quoted s)) []) fs)"
    by (intro good_add_element) (auto simp: good_element_def)
  with 4 show ?case
    by (auto simp: read_quoted_def split: if_splits list.splits frame.splits)
next
  case (5 k s e fs)
  then have "good_doc (add_element (Json k s []) fs)" by (intro good_add_element) (auto simp: good_element_def)
  with 5 show ?case by (auto split: if_splits)
qed (auto simp: good_add_text)

lemma good_read_tokens:
  assumes "read_tokens ts d = Some d'" "good_doc d" "\<forall>q. Quoted q \<in> set ts \<longrightarrow> unescape q \<noteq> None" "\<forall>q. Scalar String q \<notin> set ts"
  shows "good_doc d'"
  using assms
proof (induction ts arbitrary: d)
  case (Cons t ts)
  then obtain d1 where "read_token t d = Some d1" "read_tokens ts d1 = Some d'" by (auto simp: bind_eq_Some_conv)
  then show ?case using Cons good_read_token [of t d d1] by auto
qed simp

lemma lex_no_scalar_string: "lex_json s = Some ts \<Longrightarrow> Scalar String q \<notin> set ts"
proof (induction s arbitrary: ts rule: lex_json.induct)
  case (1 s)
  show ?case
  proof (cases "s = []")
    case False
    then obtain t r us where "lex_token s = Some (t, r)" "lex_json r = Some us" "ts = t # us"
      using 1(2) by (subst (asm) lex_json.simps) (auto split: option.splits)
    moreover have "t \<noteq> Scalar String q" using calculation(1) by (auto simp: lex_token_def lex_word_def split: list.splits if_splits)
    ultimately show ?thesis using 1(1) [OF False] by auto
  qed (use 1 in \<open>simp add: lex_json.simps\<close>)
qed

lemma good_find_property:
  assumes "list_all good_member ms"
  shows "\<exists>r. find_property name ms = Inr r \<and> (\<forall>v. r = Some v \<longrightarrow> element_kind v = String \<longrightarrow> (\<exists>s. GetString_element v = Inr (Some s)))"
  using assms
proof (induction ms)
  case (Cons m ms)
  obtain n v where m: "m = (n, v)" by fastforce
  have "unescape n \<noteq> None" using Cons.prems m by (simp add: good_member_def)
  then have "\<exists>b. name_is name n = Inr b" by (auto simp: name_is_def Let_def)
  then obtain b where "name_is name n = Inr b" by blast
  then show ?case using Cons m by (cases b) (auto simp: good_member_def GetString_element_def)
qed simp

lemma good_document:
  assumes "JsonDocument_Parse s = Inr v" "\<forall>ts q. lex_json s = Some ts \<longrightarrow> Quoted q \<in> set ts \<longrightarrow> unescape q \<noteq> None"
  shows "good_element v"
proof -
  obtain ts where ts: "lex_json s = Some ts" "read_tokens ts (Reading Value []) = Some (Complete v)"
    using assms(1) by (auto simp: JsonDocument_Parse_def bind_eq_Some_conv split: if_splits option.splits doc_state.splits)
  show ?thesis
    using good_read_tokens [OF ts(2)] assms(2) ts(1) lex_no_scalar_string [OF ts(1)] by auto
qed

text \<open>The parser returns a decision for every well-formed emission whose strings have no unpaired surrogate among their escapes,
  JSON or not.\<close>

theorem parser_contained:
  assumes "wf_utf16 emission" "\<forall>ts q. lex_json emission = Some ts \<longrightarrow> Quoted q \<in> set ts \<longrightarrow> unescape q \<noteq> None"
  shows "\<exists>d. ToolCallParser_Parse emission = Inr d"
proof (cases "JsonDocument_Parse emission")
  case (Inl x)
  then have "x = JsonException"
    using assms(1) by (auto simp: JsonDocument_Parse_def split: option.splits doc_state.splits)
  then show ?thesis using Inl by (simp add: ToolCallParser_Parse_def)
next
  case (Inr root)
  have g: "list_all good_member (rev (members root))" using good_document [OF Inr assms(2)] by (simp add: good_element_def)
  have "\<exists>d. parse_root root = Inr d"
    using good_find_property [OF g, of "lit ''tool''"] good_find_property [OF g, of "lit ''args''"] good_find_property [OF g, of "lit ''answer''"]
    by (auto simp: parse_root_def answer_or_else_def TryGetProperty_def split: option.splits)
  then show ?thesis using Inr by (auto simp: ToolCallParser_Parse_def)
qed

section \<open>Emissions that are not read\<close>

text \<open>A string of the grammar need not be a string of JSON: a backslash may be followed by a unit that is no escape, and a line
  break may stand in the string. The call is then taken for an answer.\<close>

definition demo_manuals :: "unit ToolDefinition list" where
  "demo_manuals = ForemanTools_Build (\<lambda>q s. (Inr q, s)) (\<lambda>q s. (Inr q, s)) (\<lambda>s. (Inr [], s))"

definition demo_search :: "unit ToolDefinition" where
  "demo_search = demo_manuals ! 0"

theorem grammar_call_lost:
  "grammar_safe demo_search \<and>
   string_body (lit ''C'' @ 0x3A # 0x5C # lit ''pumps'') \<and> string_body (lit ''pump'' @ 0x0A # lit ''P2'') \<and>
   ToolCallParser_Parse (call_emission demo_search [lit ''C'' @ 0x3A # 0x5C # lit ''pumps'']) = Inr Decide_answer \<and>
   ToolCallParser_Parse (call_emission demo_search [lit ''pump'' @ 0x0A # lit ''P2'']) = Inr Decide_answer"
  by code_simp

text \<open>The parser throws on an escaped half of a pair in the name of a tool, in the name of a property, and on an emission that is
  cut inside a pair.\<close>

definition half_escape :: cs_string where "half_escape = 0x5C # lit ''ud83d''"

theorem parser_throws:
  "ToolCallParser_Parse ([0x7B, 0x22] @ lit ''tool'' @ [0x22, 0x3A, 0x22] @ half_escape @ [0x22, 0x2C, 0x22] @ lit ''args'' @
      [0x22, 0x3A, 0x7B, 0x7D, 0x7D]) = Inl InvalidOperationException \<and>
   ToolCallParser_Parse ([0x7B, 0x22] @ half_escape @ [0x22, 0x3A, 0x31, 0x7D]) = Inl InvalidOperationException \<and>
   ToolCallParser_Parse (lit ''ok '' @ [0xD83D]) = Inl ArgumentException"
  by code_simp

section \<open>Witnesses\<close>

definition demo_encoder :: "(unit, int) encoder" where
  "demo_encoder = \<lparr>embed = (\<lambda>_. Inr ()), cosine = (\<lambda>_ _. 1), f_less = (<), f_le = (\<le>), f_neginf = 0\<rparr>"

definition demo_router :: "(unit, unit, int) DeterministicRouter" where
  "demo_router = \<lparr>routed = map (\<lambda>t. (t, ())) (ForemanTools_Build (\<lambda>q s. (Inr q, s)) (\<lambda>q s. (Inr q, s)) (\<lambda>s. (Inr [], s))),
     encoder = demo_encoder, threshold = 1, hintGate = 0\<rparr>"

lemma demo_router_new: "new_router (ForemanTools_Build (\<lambda>q s. (Inr q, s)) (\<lambda>q s. (Inr q, s)) (\<lambda>s. (Inr [], s))) demo_encoder 1 0 = Inr demo_router"
  by (simp add: new_router_def demo_router_def ForemanTools_Build_def demo_encoder_def)

definition demo_text :: "cs_string \<Rightarrow> cs_string option \<Rightarrow> cs_string" where
  "demo_text query hint = (if hint = None \<or> hint = Some [] then query else the hint @ 0x0A # query)"

lemma demo_route:
  "routed_text demo_router query hint = Inr (demo_text query hint, ())"
  "Route demo_router query hint = Inr (Some (call_of demo_search (demo_text query hint)))"
proof -
  show t: "routed_text demo_router query hint = Inr (demo_text query hint, ())"
    by (cases hint; cases "hint = Some []") (simp_all add: routed_text_def demo_router_def demo_encoder_def demo_text_def)
  have "nearest (encoder demo_router) () (routed demo_router) (f_neginf (encoder demo_router)) None = (1, Some demo_search)"
    by (simp add: demo_router_def demo_encoder_def demo_manuals_def ForemanTools_Build_def demo_search_def)
  moreover have "\<not> f_less (encoder demo_router) 1 (threshold demo_router)" by (simp add: demo_router_def demo_encoder_def)
  ultimately show "Route demo_router query hint = Inr (Some (call_of demo_search (demo_text query hint)))"
    by (simp add: Route_def t)
qed

theorem route_nearest_witness:
  "\<exists>us tool v ws. routed demo_router = us @ (tool, v) # ws \<and> call_of demo_search (lit ''fault'') = call_of tool (lit ''fault'') \<and>
     (1::int) \<le> cosine demo_encoder () v"
proof -
  have "ordered demo_encoder" by (simp add: ordered_def demo_encoder_def)
  from route_nearest [OF this demo_router_new demo_route(1) [of "lit ''fault''" None]]
  show ?thesis unfolding demo_route(2) by (simp add: demo_text_def) blast
qed

theorem routed_call_delivers_witness:
  "\<exists>tool. FindTool (ForemanTools_Build (\<lambda>q s. (Inr q, s)) (\<lambda>q s. (Inr q, s)) (\<lambda>s. (Inr [], s))) (lit ''search_manuals'') = Some tool \<and>
     Invoke tool (ArgsJson (call_of demo_search (lit ''say '' @ [0x22, 0xD83D, 0xDE00, 0x0A]))) () =
       (Inr (lit ''say '' @ [0x22, 0xD83D, 0xDE00, 0x0A]), ())"
proof -
  let ?t = "lit ''say '' @ [0x22, 0xD83D, 0xDE00, 0x0A] :: cs_string"
  have "wf_utf16 ?t" by code_simp
  moreover have "call_tool (call_of demo_search ?t) = lit ''search_manuals''"
    by (simp add: call_of_def demo_search_def demo_manuals_def ForemanTools_Build_def)
  ultimately show ?thesis
    using routed_call_delivers [OF demo_router_new, of ?t None "call_of demo_search ?t" ?t "()"] by (auto simp: demo_route demo_text_def)
qed

theorem grammar_call_read_witness:
  "ToolCallParser_Parse (call_emission demo_search [lit ''E3 '' @ [0x5C, 0x22] @ lit ''hot'' @ [0x5C, 0x22]]) =
     Inr (Decide_tool \<lparr>call_tool = lit ''search_manuals'',
       ArgsJson = object_text [(lit ''query'', lit ''E3 '' @ [0x5C, 0x22] @ lit ''hot'' @ [0x5C, 0x22])]\<rparr>)"
proof -
  let ?b = "lit ''E3 '' @ [0x5C, 0x22] @ lit ''hot'' @ [0x5C, 0x22] :: cs_string"
  have "grammar_safe demo_search" "readable ?b" "wf_utf16 ?b" by code_simp+
  moreover have p: "map param_name (Params demo_search) = [lit ''query'']" "tool_name demo_search = lit ''search_manuals''"
    by (simp_all add: demo_search_def demo_manuals_def ForemanTools_Build_def)
  moreover have "length [?b] = length (Params demo_search)" by (simp add: demo_search_def demo_manuals_def ForemanTools_Build_def)
  ultimately show ?thesis using grammar_call_read [of demo_search "[?b]"] by simp
qed

theorem parser_contained_witness: "\<exists>d. ToolCallParser_Parse (lit ''[1, 2'') = Inr d"
proof (rule parser_contained)
  show "wf_utf16 (lit ''[1, 2'')" by code_simp
  have "lex_json (lit ''[1, 2'') = Some [Punct 0x5B, Scalar Number [0x31], Punct 0x2C, Space 0x20, Scalar Number [0x32]]" by code_simp
  then show "\<forall>ts q. lex_json (lit ''[1, 2'') = Some ts \<longrightarrow> Quoted q \<in> set ts \<longrightarrow> unescape q \<noteq> None" by simp
qed

end
