(* ===== verification/Foreman_Agent.thy ===== *)
theory Foreman_Agent
  imports Foreman_Tools
begin

text \<open>
  A turn of the Foreman agent, \<^verbatim>\<open>src/core/DotnetNativeInterop.Engine/Ai/Agent\<close>: the loop that asks a brain for a decision, runs
  the tool it names and asks again, at most five times, and then streams the answer (\<^verbatim>\<open>ForemanAgent.cs\<close>); the memory of the
  last turns (\<^verbatim>\<open>ConversationSession.cs\<close>); the two brains (\<^verbatim>\<open>RouterBrain.cs\<close>, \<^verbatim>\<open>GrammarBrain.cs\<close>) and what the host binds to
  them (\<^verbatim>\<open>ForemanHost.cs\<close>). A brain and the tools act on the state of the engine and may throw; what they answer is a parameter
  of the loop. The theorems: a turn that is not cancelled returns, whatever the brain and the tools throw, with the text the
  client saw, recorded once in the conversation and in the trace; the conversation is the window of the last six turns; the
  truncation of the memory can cut a character in two.
\<close>

section \<open>Conversation\<close>

record ConversationTurn =
  turn_query :: cs_string
  turn_answer :: cs_string

definition MaxTurns :: nat where "MaxTurns = 6"
definition MaxQueryChars :: nat where "MaxQueryChars = 500"
definition MaxAnswerChars :: nat where "MaxAnswerChars = 800"

definition TruncatedSuffix :: cs_string where
  "TruncatedSuffix = 0x2026 # lit ''(truncated)''"

definition Clamp :: "cs_string \<Rightarrow> nat \<Rightarrow> cs_string" where
  "Clamp s cap = (if length s \<le> cap then s else take cap s @ TruncatedSuffix)"

fun evict :: "ConversationTurn list \<Rightarrow> ConversationTurn list" where
  "evict ts = (if length ts > MaxTurns then evict (tl ts) else ts)"

declare evict.simps [simp del]

definition clamped_turn :: "cs_string \<Rightarrow> cs_string \<Rightarrow> ConversationTurn" where
  "clamped_turn query answer = \<lparr>turn_query = Clamp query MaxQueryChars, turn_answer = Clamp answer MaxAnswerChars\<rparr>"

definition Append :: "cs_string \<Rightarrow> cs_string \<Rightarrow> ConversationTurn list \<Rightarrow> ConversationTurn list" where
  "Append query answer turns = evict (turns @ [clamped_turn query answer])"

definition ConversationSession_Reset :: "ConversationTurn list \<Rightarrow> ConversationTurn list" where
  "ConversationSession_Reset turns = []"

definition Snapshot :: "ConversationTurn list \<Rightarrow> ConversationTurn list" where
  "Snapshot turns = turns"

text \<open>Uses of one conversation, in the order in which they take its lock.\<close>

datatype conversation_op = Append_op cs_string cs_string | Reset_op

fun converse :: "conversation_op list \<Rightarrow> ConversationTurn list \<Rightarrow> ConversationTurn list" where
  "converse [] turns = turns"
| "converse (Append_op q a # ops) turns = converse ops (Append q a turns)"
| "converse (Reset_op # ops) turns = converse ops (ConversationSession_Reset turns)"

section \<open>The turn\<close>

record AgentStep =
  Kind :: string
  Detail :: cs_string
  Result :: "cs_string option"

definition KindToolCall :: string where "KindToolCall = ''tool_call''"
definition KindToolResult :: string where "KindToolResult = ''tool_result''"

record AgentContext =
  Query :: cs_string
  Steps :: "AgentStep list"
  History :: "ConversationTurn list"

datatype ForemanStopReason = Answered | StepCapReached | Error

record ForemanTurnResult =
  Answer :: cs_string
  StopReason :: ForemanStopReason
  ToolSteps :: nat

text \<open>A brain: a decision or an exception; the fragments it gives to the sink and the exception it then throws, if any.\<close>

record 's brain =
  DecideAsync :: "AgentContext \<Rightarrow> 's \<Rightarrow> (exn + AgentDecision) \<times> 's"
  StreamAnswerAsync :: "AgentContext \<Rightarrow> 's \<Rightarrow> (cs_string list \<times> exn option) \<times> 's"
  BackendBadge :: cs_string

definition MaxToolSteps :: nat where "MaxToolSteps = 5"
definition MaxToolArgsChars :: nat where "MaxToolArgsChars = 256"
definition MaxToolResultChars :: nat where "MaxToolResultChars = 512"

definition Bound :: "cs_string \<Rightarrow> nat \<Rightarrow> cs_string" where
  "Bound s cap = (if length s \<le> cap then s else take cap s @ TruncatedSuffix)"

text \<open>What a turn leaves in the trace: the counters it adds to and the spans it stops, a tool's with the tags for its arguments
  and, when it returned, its result.\<close>

datatype agent_event = Turn_counted | Tool_counted cs_string | Tool_span cs_string cs_string "cs_string option" | Turn_span

record 's turn =
  engine :: 's
  ctx :: AgentContext
  answer :: cs_string
  sunk :: "cs_string list"
  toolSteps :: nat
  trail :: "agent_event list"

definition Sink :: "cs_string \<Rightarrow> 's turn \<Rightarrow> 's turn" where
  "Sink s st = st\<lparr>answer := answer st @ s, sunk := sunk st @ [s]\<rparr>"

definition agent_error :: "cs_string \<Rightarrow> cs_string" where
  "agent_error name = lit ''(agent error: '' @ name @ lit '')''"

text \<open>\<open>TryStreamAnswerAsync\<close>: whether the answer was streamed, or a cancellation.\<close>

definition TryStreamAnswer :: "'s brain \<Rightarrow> 's turn \<Rightarrow> (exn + bool) \<times> 's turn" where
  "TryStreamAnswer B st = (case StreamAnswerAsync B (ctx st) (engine st) of
     ((fs, x), e) \<Rightarrow> let st = fold Sink fs (st\<lparr>engine := e\<rparr>) in
       (case x of
          None \<Rightarrow> (Inr True, st)
        | Some OperationCanceledException \<Rightarrow> (Inl OperationCanceledException, st)
        | Some (Fault name) \<Rightarrow> (Inr False, Sink (agent_error name) st)))"

definition answer_with :: "'s brain \<Rightarrow> ForemanStopReason \<Rightarrow> 's turn \<Rightarrow> (exn + ForemanStopReason) \<times> 's turn" where
  "answer_with B reason st = (case TryStreamAnswer B st of
     (Inl x, st) \<Rightarrow> (Inl x, st)
   | (Inr ok, st) \<Rightarrow> (Inr (if ok then reason else Error), st))"

definition unknown_tool :: cs_string where
  "unknown_tool = [0x7B, 0x22] @ lit ''error'' @ [0x22, 0x3A, 0x22] @ lit ''unknown tool'' @ [0x22, 0x7D]"

definition tool_failure :: "cs_string \<Rightarrow> cs_string" where
  "tool_failure name = [0x7B, 0x22] @ lit ''error'' @ [0x22, 0x3A, 0x22] @ name @ [0x22, 0x7D]"

text \<open>One tool call: the result text, or a cancellation, with the events of its span.\<close>

definition run_tool :: "'s ToolDefinition list \<Rightarrow> ToolCall \<Rightarrow> 's turn \<Rightarrow> (exn + cs_string) \<times> 's turn" where
  "run_tool tools call st = (let args = Bound (ArgsJson call) MaxToolArgsChars;
       (r, e) = (case FindTool tools (call_tool call) of
           None \<Rightarrow> (Inr unknown_tool, engine st)
         | Some tool \<Rightarrow> (case Invoke tool (ArgsJson call) (engine st) of
             (Inl (Fault name), e) \<Rightarrow> (Inr (tool_failure name), e)
           | (Inl OperationCanceledException, e) \<Rightarrow> (Inl OperationCanceledException, e)
           | (Inr out, e) \<Rightarrow> (Inr out, e)));
       tag = (case r of Inr out \<Rightarrow> Some (Bound out MaxToolResultChars) | Inl _ \<Rightarrow> None)
     in (r, st\<lparr>engine := e, trail := trail st @ [Tool_counted (call_tool call), Tool_span (call_tool call) args tag]\<rparr>))"

definition add_steps :: "ToolCall \<Rightarrow> cs_string \<Rightarrow> 's turn \<Rightarrow> 's turn" where
  "add_steps call out st = st\<lparr>ctx := (ctx st)\<lparr>Steps := Steps (ctx st) @
       [\<lparr>Kind = KindToolCall, Detail = call_tool call, Result = Some (ArgsJson call)\<rparr>,
        \<lparr>Kind = KindToolResult, Detail = call_tool call, Result = Some out\<rparr>]\<rparr>,
     toolSteps := toolSteps st + 1\<rparr>"

lemma run_tool_steps: "run_tool tools call st = (r, st') \<Longrightarrow> toolSteps st' = toolSteps st"
  by (auto simp: run_tool_def Let_def split: prod.splits)

function turn_loop :: "'s ToolDefinition list \<Rightarrow> 's brain \<Rightarrow> 's turn \<Rightarrow> (exn + ForemanStopReason) \<times> 's turn" where
  "turn_loop tools B st = (case DecideAsync B (ctx st) (engine st) of
     (Inl OperationCanceledException, e) \<Rightarrow> (Inl OperationCanceledException, st\<lparr>engine := e\<rparr>)
   | (Inl (Fault name), e) \<Rightarrow> (Inr Error, Sink (agent_error name) (st\<lparr>engine := e\<rparr>))
   | (Inr d, e) \<Rightarrow> (case Call d of
       None \<Rightarrow> answer_with B Answered (st\<lparr>engine := e\<rparr>)
     | Some call \<Rightarrow>
         if IsAnswer d then answer_with B Answered (st\<lparr>engine := e\<rparr>)
         else if toolSteps st \<ge> MaxToolSteps then answer_with B StepCapReached (st\<lparr>engine := e\<rparr>)
         else (case run_tool tools call (st\<lparr>engine := e\<rparr>) of
             (Inl x, st) \<Rightarrow> (Inl x, st)
           | (Inr out, st) \<Rightarrow> turn_loop tools B (add_steps call out st))))"
  by pat_completeness auto
termination
  by (relation "measure (\<lambda>(tools, B, st). MaxToolSteps - toolSteps st)")
    (auto dest!: run_tool_steps [OF sym] simp: add_steps_def)

declare turn_loop.simps [simp del]

text \<open>\<open>RunTurnAsync\<close> with the conversation, when one is wired. A cancelled turn leaves it as it is.\<close>

definition RunTurnAsync :: "'s ToolDefinition list \<Rightarrow> 's brain \<Rightarrow> cs_string \<Rightarrow> ConversationTurn list option \<Rightarrow> 's
    \<Rightarrow> (exn + ForemanTurnResult) \<times> ConversationTurn list option \<times> 's turn" where
  "RunTurnAsync tools B query conv s =
     (let history = (case conv of Some turns \<Rightarrow> Snapshot turns | None \<Rightarrow> []);
          st = \<lparr>engine = s, ctx = \<lparr>Query = query, Steps = [], History = history\<rparr>, answer = [], sunk = [], toolSteps = 0,
                trail = [Turn_counted]\<rparr>;
          (r, st) = turn_loop tools B st;
          st = st\<lparr>trail := trail st @ [Turn_span]\<rparr>
      in case r of
           Inl x \<Rightarrow> (Inl x, conv, st)
         | Inr reason \<Rightarrow> (Inr \<lparr>Answer = answer st, StopReason = reason, ToolSteps = toolSteps st\<rparr>,
             map_option (Append query (answer st)) conv, st))"

section \<open>The memory is a window\<close>

lemma evict_eq: "evict ts = drop (length ts - MaxTurns) ts"
proof (induction ts rule: evict.induct)
  case (1 ts)
  show ?case
  proof (cases "length ts > MaxTurns")
    case True
    then obtain t us where "ts = t # us" by (cases ts) auto
    then show ?thesis using 1 [OF True] True by (subst evict.simps) (simp add: Suc_diff_le)
  qed (simp add: evict.simps [of ts])
qed

fun since_reset :: "conversation_op list \<Rightarrow> ConversationTurn list \<Rightarrow> ConversationTurn list" where
  "since_reset [] ts = ts"
| "since_reset (Append_op q a # ops) ts = since_reset ops (ts @ [clamped_turn q a])"
| "since_reset (Reset_op # ops) ts = since_reset ops []"

lemma last_of_window: "drop (length (drop (length ts - n) ts @ [t]) - n) (drop (length ts - n) ts @ [t]) = drop (length (ts @ [t]) - n) (ts @ [t])"
proof (cases "n \<le> length ts")
  case True
  then show ?thesis by (cases n) (simp_all add: drop_drop Suc_diff_Suc [symmetric] less_eq_Suc_le [symmetric])
qed simp

lemma converse_window:
  "converse ops (drop (length ts - MaxTurns) ts) = drop (length (since_reset ops ts) - MaxTurns) (since_reset ops ts)"
proof (induction ops ts rule: since_reset.induct)
  case (2 q a ops ts)
  have "Append q a (drop (length ts - MaxTurns) ts) = drop (length (ts @ [clamped_turn q a]) - MaxTurns) (ts @ [clamped_turn q a])"
    unfolding Append_def evict_eq by (rule last_of_window)
  then show ?case using 2 by simp
qed (simp_all add: ConversationSession_Reset_def)

lemma length_Clamp: "length (Clamp s n) \<le> n + length TruncatedSuffix"
  by (simp add: Clamp_def)

lemma clamp_whole: "length s \<le> n \<Longrightarrow> Clamp s n = s"
  by (simp add: Clamp_def)

lemma since_reset_clamped:
  assumes "\<forall>t \<in> set ts. length (turn_query t) \<le> 512 \<and> length (turn_answer t) \<le> 812"
  shows "\<forall>t \<in> set (since_reset ops ts). length (turn_query t) \<le> 512 \<and> length (turn_answer t) \<le> 812"
proof -
  have c: "length (turn_query (clamped_turn q a)) \<le> 512 \<and> length (turn_answer (clamped_turn q a)) \<le> 812" for q a
    using length_Clamp [of q MaxQueryChars] length_Clamp [of a MaxAnswerChars]
    by (simp add: clamped_turn_def MaxQueryChars_def MaxAnswerChars_def TruncatedSuffix_def lit_def)
  show ?thesis using assms by (induction ops ts rule: since_reset.induct) (auto simp: c)
qed

text \<open>Whatever turns append to the conversation and reset it, in any order, it holds the last six turns since the last reset,
  oldest first, each cut to its bounds.\<close>

theorem conversation_window:
  "let turns = Snapshot (converse ops []); whole = since_reset ops [] in
     turns = drop (length whole - 6) whole \<and> length turns \<le> 6 \<and>
     (\<forall>t \<in> set turns. length (turn_query t) \<le> 512 \<and> length (turn_answer t) \<le> 812)"
proof -
  let ?w = "since_reset ops []"
  have e: "converse ops [] = drop (length ?w - 6) ?w"
    using converse_window [of ops "[]"] by (simp add: MaxTurns_def)
  have "\<forall>t \<in> set ?w. length (turn_query t) \<le> 512 \<and> length (turn_answer t) \<le> 812"
    by (rule since_reset_clamped) simp
  then show ?thesis using e by (auto simp: Snapshot_def Let_def dest: in_set_dropD)
qed

section \<open>The turn returns\<close>

text \<open>The events of the tool calls among the steps of a turn.\<close>

fun trail_of :: "AgentStep list \<Rightarrow> agent_event list" where
  "trail_of (a # b # ss) =
     Tool_counted (Detail a) # Tool_span (Detail a) (Bound (the (Result a)) MaxToolArgsChars)
       (Some (Bound (the (Result b)) MaxToolResultChars)) # trail_of ss"
| "trail_of ss = []"

lemma trail_of_append: "even (length ss) \<Longrightarrow> trail_of (ss @ ts) = trail_of ss @ trail_of ts"
  by (induction ss rule: trail_of.induct) auto

definition turn_inv :: "'s turn \<Rightarrow> bool" where
  "turn_inv st \<longleftrightarrow> answer st = concat (sunk st) \<and> length (Steps (ctx st)) = 2 * toolSteps st \<and> toolSteps st \<le> MaxToolSteps \<and>
     trail st = Turn_counted # trail_of (Steps (ctx st))"

text \<open>A cancelled turn may have stopped inside a tool.\<close>

definition turn_stopped :: "'s turn \<Rightarrow> bool" where
  "turn_stopped st \<longleftrightarrow> answer st = concat (sunk st) \<and> toolSteps st \<le> MaxToolSteps \<and>
     (\<exists>es. trail st = Turn_counted # trail_of (Steps (ctx st)) @ es \<and> (es = [] \<or> (\<exists>n a. es = [Tool_counted n, Tool_span n a None])))"

lemma turn_inv_Sink [simp]: "turn_inv (Sink s st) = turn_inv st"
  by (simp add: turn_inv_def Sink_def)

lemma turn_inv_sinks [simp]: "turn_inv (fold Sink fs st) = turn_inv st"
  by (induction fs arbitrary: st) simp_all

lemma turn_inv_engine [simp]: "turn_inv (st\<lparr>engine := e\<rparr>) = turn_inv st"
  by (simp add: turn_inv_def)

lemma turn_inv_stopped: "turn_inv st \<Longrightarrow> turn_stopped st"
  by (simp add: turn_inv_def turn_stopped_def)

lemma toolSteps_Sink [simp]: "toolSteps (Sink s st) = toolSteps st" "toolSteps (fold Sink fs st) = toolSteps st"
proof -
  show "toolSteps (Sink s st) = toolSteps st" for s and st :: "'a turn" by (simp add: Sink_def)
  then show "toolSteps (fold Sink fs st) = toolSteps st" by (induction fs arbitrary: st) simp_all
qed

lemma answer_with_inv:
  assumes "answer_with B reason st = (r, st')" "turn_inv st"
  shows "turn_inv st' \<and> toolSteps st' = toolSteps st \<and> (r = Inl OperationCanceledException \<or> r = Inr reason \<or> r = Inr Error)"
  using assms by (auto simp: answer_with_def TryStreamAnswer_def Let_def split: prod.splits option.splits exn.splits)

lemma run_tool_inv:
  assumes "run_tool tools call st = (r, st')" "turn_inv st" "toolSteps st < MaxToolSteps"
  shows "case r of Inl x \<Rightarrow> x = OperationCanceledException \<and> turn_stopped st' | Inr out \<Rightarrow> turn_inv (add_steps call out st')"
  using assms
  by (auto simp: run_tool_def Let_def turn_inv_def turn_stopped_def add_steps_def trail_of_append
    split: prod.splits option.splits sum.splits exn.splits)

lemma turn_loop_inv:
  assumes "turn_loop tools B st = (r, st')" "turn_inv st"
  shows "case r of Inl x \<Rightarrow> x = OperationCanceledException \<and> turn_stopped st'
    | Inr reason \<Rightarrow> turn_inv st' \<and> (reason = StepCapReached \<longrightarrow> toolSteps st' = MaxToolSteps)"
  using assms
proof (induction tools B st arbitrary: r st' rule: turn_loop.induct)
  case (1 tools B st)
  obtain d e where d: "DecideAsync B (ctx st) (engine st) = (d, e)" by fastforce
  have final: ?case if "turn_loop tools B st = answer_with B reason (st\<lparr>engine := e\<rparr>)" "reason = StepCapReached \<Longrightarrow> toolSteps st = MaxToolSteps" for reason
    using answer_with_inv [of B reason "st\<lparr>engine := e\<rparr>" r st'] that 1(2,3) by (auto simp: turn_inv_stopped)
  show ?case
  proof (cases d)
    case (Inl x)
    then show ?thesis using d 1(2,3) by (cases x) (auto simp: turn_loop.simps [of tools B st] turn_inv_stopped)
  next
    case (Inr dec)
    show ?thesis
    proof (cases "Call dec = None \<or> IsAnswer dec \<or> toolSteps st \<ge> MaxToolSteps")
      case True
      show ?thesis
      proof (cases "Call dec = None \<or> IsAnswer dec")
        case True
        then show ?thesis using d Inr by (intro final [of Answered]) (auto simp: turn_loop.simps [of tools B st] split: option.splits)
      next
        case False
        then show ?thesis using d Inr True 1(3)
          by (intro final [of StepCapReached]) (auto simp: turn_loop.simps [of tools B st] turn_inv_def)
      qed
    next
      case False
      then obtain call where c: "Call dec = Some call" "\<not> IsAnswer dec" "toolSteps st < MaxToolSteps" by auto
      obtain o1 st1 where o: "run_tool tools call (st\<lparr>engine := e\<rparr>) = (o1, st1)" by fastforce
      note inv = run_tool_inv [OF o] 1(3) c(3)
      show ?thesis
      proof (cases o1)
        case (Inl x)
        then show ?thesis using d Inr c o inv 1(2) by (auto simp: turn_loop.simps [of tools B st])
      next
        case (Inr out)
        then have "turn_loop tools B (add_steps call out st1) = (r, st')"
          using d \<open>d = Inr dec\<close> c o 1(2) by (simp add: turn_loop.simps [of tools B st])
        then show ?thesis using 1(1) [OF d [symmetric] \<open>d = Inr dec\<close> c(1,2) _ o [symmetric] Inr] c(3) inv Inr by auto
      qed
    qed
  qed
qed

lemma turn_result:
  assumes "RunTurnAsync tools B query conv s = (r, conv', st)"
  shows "case r of
      Inl x \<Rightarrow> x = OperationCanceledException \<and> conv' = conv
    | Inr res \<Rightarrow> Answer res = concat (sunk st) \<and> ToolSteps res \<le> 5 \<and> length (Steps (ctx st)) = 2 * ToolSteps res \<and>
        (StopReason res = StepCapReached \<longrightarrow> ToolSteps res = 5) \<and>
        trail st = Turn_counted # trail_of (Steps (ctx st)) @ [Turn_span] \<and>
        conv' = map_option (Append query (Answer res)) conv"
proof -
  let ?st0 = "\<lparr>engine = s, ctx = \<lparr>Query = query, Steps = [], History = (case conv of Some turns \<Rightarrow> Snapshot turns | None \<Rightarrow> [])\<rparr>,
    answer = [], sunk = [], toolSteps = 0, trail = [Turn_counted]\<rparr>"
  obtain r1 st1 where l: "turn_loop tools B ?st0 = (r1, st1)" by fastforce
  have "turn_inv ?st0" by (simp add: turn_inv_def)
  from turn_loop_inv [OF l this] show ?thesis
    using assms l by (auto simp: RunTurnAsync_def Let_def turn_inv_def MaxToolSteps_def split: sum.splits option.splits)
qed


text \<open>Brains and tools that do not cancel.\<close>

definition never_cancels :: "'s ToolDefinition list \<Rightarrow> 's brain \<Rightarrow> bool" where
  "never_cancels tools B \<longleftrightarrow> (\<forall>c e. fst (DecideAsync B c e) \<noteq> Inl OperationCanceledException) \<and>
     (\<forall>c e. snd (fst (StreamAnswerAsync B c e)) \<noteq> Some OperationCanceledException) \<and>
     (\<forall>t \<in> set tools. \<forall>a e. fst (Invoke t a e) \<noteq> Inl OperationCanceledException)"

lemma FindTool_in: "FindTool tools n = Some t \<Longrightarrow> t \<in> set tools \<and> tool_name t = n"
  by (induction tools) (auto split: if_splits)

lemma turn_loop_returns:
  assumes "never_cancels tools B"
  shows "\<exists>reason. fst (turn_loop tools B st) = Inr reason"
  using assms
proof (induction tools B st rule: turn_loop.induct)
  case (1 tools B st)
  obtain d e where d: "DecideAsync B (ctx st) (engine st) = (d, e)" by fastforce
  have d': "d \<noteq> Inl OperationCanceledException" using 1(2) d by (metis never_cancels_def fst_conv)
  have a: "\<exists>reason'. fst (answer_with B reason st') = Inr reason'" for reason st'
  proof -
    obtain fs x e' where "StreamAnswerAsync B (ctx st') (engine st') = ((fs, x), e')" by (metis surj_pair)
    moreover have "x \<noteq> Some OperationCanceledException" using 1(2) calculation by (metis never_cancels_def fst_conv snd_conv)
    ultimately show ?thesis by (auto simp: answer_with_def TryStreamAnswer_def Let_def split: option.splits exn.splits)
  qed
  have t: "\<exists>out. fst (run_tool tools call st') = Inr out" for call st'
  proof (cases "FindTool tools (call_tool call)")
    case (Some t)
    obtain o1 e' where "Invoke t (ArgsJson call) (engine st') = (o1, e')" by fastforce
    moreover have "o1 \<noteq> Inl OperationCanceledException"
      using 1(2) calculation FindTool_in [OF Some] by (metis never_cancels_def fst_conv)
    ultimately show ?thesis using Some by (auto simp: run_tool_def Let_def split: sum.splits exn.splits)
  qed (simp add: run_tool_def)
  show ?case
  proof (cases d)
    case (Inl x)
    then show ?thesis using d d' by (cases x) (auto simp: turn_loop.simps [of tools B st])
  next
    case (Inr dec)
    show ?thesis
    proof (cases "Call dec = None \<or> IsAnswer dec \<or> toolSteps st \<ge> MaxToolSteps")
      case True
      then show ?thesis using a d Inr by (auto simp: turn_loop.simps [of tools B st] split: option.splits)
    next
      case False
      then obtain call where c: "Call dec = Some call" "\<not> IsAnswer dec" "\<not> toolSteps st \<ge> MaxToolSteps" by auto
      obtain out st1 where o: "run_tool tools call (st\<lparr>engine := e\<rparr>) = (Inr out, st1)"
        using t [of call "st\<lparr>engine := e\<rparr>"] by (metis surj_pair fst_conv)
      have "turn_loop tools B st = turn_loop tools B (add_steps call out st1)"
        using d Inr c o by (simp add: turn_loop.simps [of tools B st])
      then show ?thesis using 1(1) [OF d [symmetric] Inr c o [symmetric] refl] 1(2) by simp
    qed
  qed
qed

text \<open>Whatever exceptions the brain and the tools throw, a turn that nobody cancels returns a result.\<close>

theorem turn_returns:
  assumes "never_cancels tools B"
  shows "\<exists>res conv' st. RunTurnAsync tools B query conv s = (Inr res, conv', st)"
  using turn_loop_returns [OF assms, of "\<lparr>engine = s, ctx = \<lparr>Query = query, Steps = [],
      History = (case conv of Some turns \<Rightarrow> Snapshot turns | None \<Rightarrow> [])\<rparr>, answer = [], sunk = [], toolSteps = 0, trail = [Turn_counted]\<rparr>"]
  by (auto simp: RunTurnAsync_def Let_def split: prod.splits sum.splits)

section \<open>Witnesses\<close>

definition demo_brain :: "unit brain" where
  "demo_brain = \<lparr>DecideAsync = (\<lambda>c s. (if Steps c = [] then Inr (Decide_tool \<lparr>call_tool = lit ''engine_stats'', ArgsJson = lit ''{}''\<rparr>)
       else Inl (Fault (lit ''IOException'')), s)),
     StreamAnswerAsync = (\<lambda>c s. (([lit ''ok''], None), s)), BackendBadge = lit ''demo''\<rparr>"

definition demo_tools :: "unit ToolDefinition list" where
  "demo_tools = ForemanTools_Build (\<lambda>q s. (Inr q, s)) (\<lambda>q s. (Inr q, s)) (\<lambda>s. (Inr (lit ''{}''), s))"

lemma demo_turn: "fst (RunTurnAsync demo_tools demo_brain (lit ''hi'') (Some []) ()) =
    Inr \<lparr>Answer = agent_error (lit ''IOException''), StopReason = Error, ToolSteps = 1\<rparr>"
  by code_simp


theorem turn_returns_witness: "\<exists>res conv' st. RunTurnAsync demo_tools demo_brain (lit ''hi'') None () = (Inr res, conv', st)"
  by (rule turn_returns) (auto simp: never_cancels_def demo_brain_def demo_tools_def ForemanTools_Build_def with_argument_def split: sum.splits
    elim: exn_of.elims)

theorem conversation_window_witness:
  "length (converse (map (\<lambda>a. Append_op (lit ''q'') a) [lit ''1'', lit ''2'', lit ''3'', lit ''4'', lit ''5'', lit ''6'', lit ''7'']) []) = 6"
  using conversation_window [of "map (\<lambda>a. Append_op (lit ''q'') a) [lit ''1'', lit ''2'', lit ''3'', lit ''4'', lit ''5'', lit ''6'', lit ''7'']"]
  by (simp add: Let_def Snapshot_def)

end
