(* ===== verification/Foreman_Brains.thy ===== *)
theory Foreman_Brains
  imports Foreman_Agent
begin

text \<open>
  The two brains of the Foreman agent and what the host binds to them (\<^verbatim>\<open>RouterBrain.cs\<close>, \<^verbatim>\<open>GrammarBrain.cs\<close>, \<^verbatim>\<open>ForemanHost.cs\<close>
  under \<^verbatim>\<open>src/core/DotnetNativeInterop.Engine/Ai/Agent\<close>, \<^verbatim>\<open>Compose\<close> of \<^verbatim>\<open>ExtractiveLanguageModel.cs\<close>). The search of the manuals,
  the features, the telemetry and the chat with the language model are parameters. The theorems: a turn of the router calls at
  most one tool and answers from its result; a memory that was cut inside a character makes the next call fail; a query of
  several lines is quoted as if a tool had said it.
\<close>

section \<open>RouterBrain\<close>

fun join :: "cs_string \<Rightarrow> cs_string list \<Rightarrow> cs_string" where
  "join sep [] = []"
| "join sep [s] = s"
| "join sep (s # ss) = s @ sep @ join sep ss"

definition tool_results :: "AgentContext \<Rightarrow> cs_string list" where
  "tool_results c = map (\<lambda>s. case Result s of Some r \<Rightarrow> r | None \<Rightarrow> []) (filter (\<lambda>s. Kind s = KindToolResult) (Steps c))"

definition LastTurnHint :: "ConversationTurn \<Rightarrow> cs_string" where
  "LastTurnHint t = turn_query t @ lit '' '' @ turn_answer t"

definition router_hint :: "AgentContext \<Rightarrow> cs_string option" where
  "router_hint c = (if History c \<noteq> [] then Some (LastTurnHint (last (History c))) else None)"

definition router_decide :: "('s, 'v, 'f) DeterministicRouter \<Rightarrow> AgentContext \<Rightarrow> exn + AgentDecision" where
  "router_decide R c =
     (if (\<exists>s \<in> set (Steps c). Kind s = KindToolResult) then Inr Decide_answer
      else case Route R (Query c) (router_hint c) of
        Inl x \<Rightarrow> Inl x
      | Inr (Some call) \<Rightarrow> Inr (Decide_tool call)
      | Inr None \<Rightarrow> Inr Decide_answer)"

definition RouterBrain :: "('s, 'v, 'f) DeterministicRouter \<Rightarrow> (cs_string \<Rightarrow> exn + cs_string) \<Rightarrow> 's brain" where
  "RouterBrain R prose = \<lparr>
     DecideAsync = (\<lambda>c s. (router_decide R c, s)),
     StreamAnswerAsync = (\<lambda>c s. case prose (Query c @ 0x0A # join (lit '' '') (tool_results c)) of
        Inl x \<Rightarrow> (([], Some x), s) | Inr t \<Rightarrow> (([t], None), s)),
     BackendBadge = lit ''scripted routing '' @ 0x2014 # lit '' no on-device LLM present''\<rparr>"

section \<open>GrammarBrain\<close>

definition GrammarBrain :: "(AgentContext \<Rightarrow> 's \<Rightarrow> (exn + cs_string) \<times> 's) \<Rightarrow> (AgentContext \<Rightarrow> 's \<Rightarrow> (cs_string list \<times> exn option) \<times> 's)
    \<Rightarrow> cs_string \<Rightarrow> 's brain" where
  "GrammarBrain complete streamAnswer badge = \<lparr>
     DecideAsync = (\<lambda>c s. case complete c s of
        (Inl x, s) \<Rightarrow> (Inl x, s)
      | (Inr emission, s) \<Rightarrow> (case ToolCallParser_Parse emission of Inl x \<Rightarrow> (Inl (exn_of x), s) | Inr d \<Rightarrow> (Inr d, s))),
     StreamAnswerAsync = streamAnswer,
     BackendBadge = badge\<rparr>"

section \<open>Prompts\<close>

definition line :: "cs_string \<Rightarrow> cs_string" where "line s = s @ [0x0A]"

definition quoted :: "string \<Rightarrow> cs_string" where
  "quoted s = 0x22 # lit s @ [0x22]"

definition AppendHistory :: "AgentContext \<Rightarrow> cs_string" where
  "AppendHistory c = (if History c = [] then []
     else line (lit ''Conversation so far (oldest first):'') @
       concat (map (\<lambda>t. line (lit ''User: '' @ turn_query t) @ line (lit ''Foreman: '' @ turn_answer t)) (History c)))"

definition BuildTurnPrompt :: "'s ToolDefinition list \<Rightarrow> AgentContext \<Rightarrow> cs_string" where
  "BuildTurnPrompt tools c =
     line (lit ''You are Foreman, an on-device maintenance assistant. Decide the single next step.'') @
     line (lit ''Reply with EXACTLY one JSON object: {'' @ quoted ''tool'' @ lit '':'' @ quoted ''<name>'' @ lit '','' @ quoted ''args'' @
       lit '':{...}} to call a tool,'') @
     line (lit ''or {'' @ quoted ''answer'' @ lit '':'' @ quoted ''...'' @ lit ''} once you can answer. No other text before or after it.'') @
     line (lit ''Tools:'') @
     concat (map (\<lambda>t. lit ''- '' @ tool_name t @ lit '': '' @ line (Description t)) tools) @
     AppendHistory c @
     (if Steps c = [] then [] else line (lit ''Steps so far:'') @
       concat (map (\<lambda>s. lit ''- '' @ lit (Kind s) @ lit '' '' @ Detail s @
         (case Result s of Some r \<Rightarrow> lit '' -> '' @ r | None \<Rightarrow> []) @ [0x0A]) (Steps c))) @
     lit ''Question: '' @ line (Query c)"

definition BuildAnswerPrompt :: "AgentContext \<Rightarrow> cs_string" where
  "BuildAnswerPrompt c =
     line (lit ''Using only the tool results below, answer the question concisely.'') @
     AppendHistory c @
     concat (map (\<lambda>r. lit ''- '' @ line r) (tool_results c)) @
     lit ''Question: '' @ line (Query c)"

text \<open>The chat with a language model: the fragments of its reply to a prompt, under a grammar or none, and what it throws.\<close>

type_synonym 's chat = "cs_string \<Rightarrow> cs_string option \<Rightarrow> 's \<Rightarrow> (cs_string list \<times> exn option) \<times> 's"

definition chat_prompt :: "cs_string \<Rightarrow> cs_string" where
  "chat_prompt t = lit ''user: '' @ t"

definition BuildGrammarBrain :: "'s ToolDefinition list \<Rightarrow> 's chat \<Rightarrow> 's brain" where
  "BuildGrammarBrain tools chat = GrammarBrain
     (\<lambda>c s. case chat (chat_prompt (BuildTurnPrompt tools c)) (Some (GbnfGrammar_Build tools)) s of
        ((fs, None), s) \<Rightarrow> (Inr (concat fs), s) | ((fs, Some x), s) \<Rightarrow> (Inl x, s))
     (\<lambda>c s. case chat (chat_prompt (BuildAnswerPrompt c)) None s of ((fs, x), s) \<Rightarrow> ((filter (\<lambda>f. f \<noteq> []) fs, x), s))
     (lit ''on-device LLM (Llama-3.2-1B, grammar-constrained)'')"

section \<open>ComposeProse\<close>

definition white_space :: "16 word \<Rightarrow> bool" where
  "white_space c \<longleftrightarrow> (let n = uint c in 9 \<le> n \<and> n \<le> 13 \<or> n = 0x20 \<or> n = 0x85 \<or> n = 0xA0 \<or> n = 0x1680 \<or> 0x2000 \<le> n \<and> n \<le> 0x200A \<or>
     n = 0x2028 \<or> n = 0x2029 \<or> n = 0x202F \<or> n = 0x205F \<or> n = 0x3000)"

definition Trim :: "cs_string \<Rightarrow> cs_string" where
  "Trim s = rev (dropWhile white_space (rev (dropWhile white_space s)))"

definition after_newline :: "cs_string \<Rightarrow> cs_string" where
  "after_newline s = (if 0x0A \<in> set s then tl (dropWhile (\<lambda>c. c \<noteq> 0x0A) s) else s)"

text \<open>The texts of a search result; the scores are read too, since reading them can throw, but nothing uses them.\<close>

definition read_hit :: "json \<Rightarrow> json_exn + cs_string option" where
  "read_hit v =
     (if element_kind v \<noteq> Object then Inr None
      else case TryGetProperty (lit ''text'') v of
        Inl x \<Rightarrow> Inl x
      | Inr None \<Rightarrow> Inr None
      | Inr (Some t) \<Rightarrow>
          if element_kind t \<noteq> String then Inr None
          else case TryGetProperty (lit ''score'') v of
            Inl x \<Rightarrow> Inl x
          | Inr _ \<Rightarrow> (case GetString_element t of
              Inl x \<Rightarrow> Inl x | Inr s \<Rightarrow> Inr (Some (case s of Some u \<Rightarrow> u | None \<Rightarrow> []))))"

fun read_hits :: "json list \<Rightarrow> cs_string list \<Rightarrow> json_exn + cs_string list option" where
  "read_hits [] acc = Inr (Some acc)"
| "read_hits (v # vs) acc = (case read_hit v of
     Inl x \<Rightarrow> Inl x | Inr None \<Rightarrow> Inr None | Inr (Some t) \<Rightarrow> read_hits vs (acc @ [t]))"

definition TryReadSnippets :: "cs_string \<Rightarrow> json_exn + cs_string list option" where
  "TryReadSnippets json = (case JsonDocument_Parse json of
     Inl JsonException \<Rightarrow> Inr None
   | Inl x \<Rightarrow> Inl x
   | Inr v \<Rightarrow>
       if element_kind v \<noteq> Array then Inr None
       else case read_hits (map snd (members v)) [] of
         Inl x \<Rightarrow> Inl x
       | Inr None \<Rightarrow> Inr None
       | Inr (Some hits) \<Rightarrow> Inr (if hits \<noteq> [] then Some hits else None))"

definition Compose :: "cs_string list \<Rightarrow> cs_string" where
  "Compose hits = (case hits of
     [] \<Rightarrow> lit ''I couldn'' @ [0x27] @ lit ''t find anything about that in the manuals.''
   | h # hs \<Rightarrow> lit ''Based on the manuals: '' @ h @ concat (map (\<lambda>t. lit '' Related: '' @ t) hs))"

definition ComposeProse :: "cs_string \<Rightarrow> exn + cs_string" where
  "ComposeProse prompt = (let results = Trim (after_newline prompt) in
     if results = [] then Inr (lit ''I couldn'' @ [0x27] @ lit ''t find anything in the tools to answer that.'')
     else case TryReadSnippets results of
       Inl x \<Rightarrow> Inl (exn_of x)
     | Inr (Some hits) \<Rightarrow> Inr (Compose hits)
     | Inr None \<Rightarrow> Inr (lit ''Based on the tools: '' @ results))"

section \<open>The host\<close>

text \<open>\<open>RunFeatureAsync\<close> refuses the ids of the command grammar.\<close>

definition IsCommand :: "cs_string \<Rightarrow> bool" where "IsCommand ident \<longleftrightarrow> 0x7E \<in> set ident"

definition command_refused :: cs_string where
  "command_refused = [0x7B, 0x22] @ lit ''error'' @ [0x22, 0x3A, 0x22] @ lit ''run_feature only runs catalog demos, not command-grammar ids'' @ [0x22, 0x7D]"

definition RunFeatureAsync :: "'s engine_op \<Rightarrow> 's engine_op" where
  "RunFeatureAsync catalog ident s = (if IsCommand ident then (Inr command_refused, s) else catalog ident s)"

record 's host =
  host_tools :: "'s ToolDefinition list"
  host_brain :: "'s brain"

text \<open>\<open>Build\<close>: the brain is the grammar's when the model file is there and loads, and the router's otherwise. The constructor of
  the router embeds the descriptions of the tools and may throw.\<close>

definition BuildBrain :: "'s ToolDefinition list \<Rightarrow> bool \<Rightarrow> (exn + 's chat) \<Rightarrow> ('v, 'f) encoder \<Rightarrow> 'f \<Rightarrow> 'f \<Rightarrow> exn + 's brain" where
  "BuildBrain tools gguf load E th gate =
     (case (gguf, load) of
        (True, Inr chat) \<Rightarrow> Inr (BuildGrammarBrain tools chat)
      | _ \<Rightarrow> (case new_router tools E th gate of Inl x \<Rightarrow> Inl x | Inr R \<Rightarrow> Inr (RouterBrain R ComposeProse)))"

definition host_Build :: "'s engine_op \<Rightarrow> 's engine_op \<Rightarrow> ('s \<Rightarrow> (exn + cs_string) \<times> 's) \<Rightarrow> bool \<Rightarrow> (exn + 's chat) \<Rightarrow> ('v, 'f) encoder \<Rightarrow> 'f \<Rightarrow> 'f
    \<Rightarrow> exn + 's host" where
  "host_Build search catalog stats gguf load E th gate =
     (let tools = ForemanTools_Build search (RunFeatureAsync catalog) stats in
      case BuildBrain tools gguf load E th gate of Inl x \<Rightarrow> Inl x | Inr B \<Rightarrow> Inr \<lparr>host_tools = tools, host_brain = B\<rparr>)"

text \<open>The process-wide state: the agent once it is built, and its conversation, which is assigned before the brain is built. A
  turn of the shared agent and \<open>ResetConversation\<close> build it first.\<close>

record 's host_state =
  shared :: "'s host option"
  conversation :: "ConversationTurn list option"

definition Agent :: "(exn + 's host) \<Rightarrow> 's host_state \<Rightarrow> (exn + 's host) \<times> 's host_state" where
  "Agent build hs = (case shared hs of
     Some h \<Rightarrow> (Inr h, hs)
   | None \<Rightarrow> (case build of
       Inl x \<Rightarrow> (Inl x, hs\<lparr>conversation := Some []\<rparr>)
     | Inr h \<Rightarrow> (Inr h, \<lparr>shared = Some h, conversation = Some []\<rparr>)))"

definition ResetConversation :: "(exn + 's host) \<Rightarrow> 's host_state \<Rightarrow> (exn + unit) \<times> 's host_state" where
  "ResetConversation build hs = (case Agent build hs of
     (Inl x, hs) \<Rightarrow> (Inl x, hs)
   | (Inr h, hs) \<Rightarrow> (Inr (), hs\<lparr>conversation := map_option ConversationSession_Reset (conversation hs)\<rparr>))"

definition shared_turn :: "(exn + 's host) \<Rightarrow> cs_string \<Rightarrow> 's host_state \<Rightarrow> 's
    \<Rightarrow> (exn + ForemanTurnResult) \<times> 's host_state \<times> 's" where
  "shared_turn build query hs s = (case Agent build hs of
     (Inl x, hs) \<Rightarrow> (Inl x, hs, s)
   | (Inr h, hs) \<Rightarrow> (case RunTurnAsync (host_tools h) (host_brain h) query (conversation hs) s of
       (r, conv, st) \<Rightarrow> (r, hs\<lparr>conversation := conv\<rparr>, engine st)))"

section \<open>A turn of the router\<close>

lemma router_decide_first: "Steps c = [] \<Longrightarrow> router_decide R c = (case Route R (Query c) (router_hint c) of
    Inl x \<Rightarrow> Inl x | Inr (Some call) \<Rightarrow> Inr (Decide_tool call) | Inr None \<Rightarrow> Inr Decide_answer)"
  by (simp add: router_decide_def)

definition fresh_turn :: "cs_string \<Rightarrow> ConversationTurn list \<Rightarrow> 's \<Rightarrow> 's turn" where
  "fresh_turn query history s = \<lparr>engine = s, ctx = \<lparr>Query = query, Steps = [], History = history\<rparr>, answer = [], sunk = [], toolSteps = 0,
     trail = [Turn_counted]\<rparr>"

lemma fresh_turn_fields [simp]:
  "engine (fresh_turn query h s) = s" "ctx (fresh_turn query h s) = \<lparr>Query = query, Steps = [], History = h\<rparr>" "answer (fresh_turn query h s) = []"
  "sunk (fresh_turn query h s) = []" "toolSteps (fresh_turn query h s) = 0" "(fresh_turn query h s)\<lparr>engine := s'\<rparr> = fresh_turn query h s'"
  by (simp_all add: fresh_turn_def)

text \<open>What the router's answer comes to: the prose, or the report of what it threw.\<close>

definition prose_outcome :: "exn + cs_string \<Rightarrow> exn + ForemanStopReason \<times> cs_string" where
  "prose_outcome p = (case p of Inr t \<Rightarrow> Inr (Answered, t) | Inl (Fault n) \<Rightarrow> Inr (Error, agent_error n)
     | Inl OperationCanceledException \<Rightarrow> Inl OperationCanceledException)"

lemma router_answer:
  "answer_with (RouterBrain R prose) Answered st =
     (case prose_outcome (prose (Query (ctx st) @ 0x0A # join (lit '' '') (tool_results (ctx st)))) of
        Inl x \<Rightarrow> (Inl x, st) | Inr (reason, t) \<Rightarrow> (Inr reason, Sink t st))"
  by (auto simp: answer_with_def TryStreamAnswer_def RouterBrain_def prose_outcome_def Let_def split: sum.splits exn.splits)

lemma router_loop_direct:
  assumes "Route R query (router_hint (ctx (fresh_turn query h s))) = Inr None"
  shows "turn_loop tools (RouterBrain R prose) (fresh_turn query h s) = answer_with (RouterBrain R prose) Answered (fresh_turn query h s)"
proof -
  let ?st = "fresh_turn query h s"
  have "DecideAsync (RouterBrain R prose) (ctx ?st) (engine ?st) = (Inr Decide_answer, engine ?st)"
    using assms by (simp add: RouterBrain_def router_decide_first)
  then show ?thesis by (simp add: turn_loop.simps [of tools _ ?st] Decide_answer_def)
qed

lemma router_loop_tool:
  assumes "Route R query (router_hint (ctx (fresh_turn query h s))) = Inr (Some call)" "run_tool tools call (fresh_turn query h s) = (Inr out, st)"
  shows "turn_loop tools (RouterBrain R prose) (fresh_turn query h s) = answer_with (RouterBrain R prose) Answered (add_steps call out st)"
proof -
  let ?B = "RouterBrain R prose" and ?st = "fresh_turn query h s"
  have "DecideAsync ?B (ctx ?st) (engine ?st) = (Inr (Decide_tool call), engine ?st)"
    using assms by (simp add: RouterBrain_def router_decide_first)
  then have "turn_loop tools ?B ?st = turn_loop tools ?B (add_steps call out st)"
    using assms(2) by (simp add: turn_loop.simps [of tools _ ?st] Decide_tool_def MaxToolSteps_def)
  moreover have "DecideAsync ?B (ctx (add_steps call out st)) (engine (add_steps call out st)) = (Inr Decide_answer, engine (add_steps call out st))"
    by (simp add: RouterBrain_def router_decide_def add_steps_def)
  then have "turn_loop tools ?B (add_steps call out st) = answer_with ?B Answered (add_steps call out st)"
    by (simp add: turn_loop.simps [of tools _ "add_steps call out st"] Decide_answer_def)
  ultimately show ?thesis by simp
qed

lemma run_tool_fresh:
  assumes "run_tool tools call (fresh_turn query h s) = (Inr out, st)"
  shows "ctx st = ctx (fresh_turn query h s)" "answer st = []" "sunk st = []" "toolSteps st = 0"
  using assms by (auto simp: run_tool_def Let_def split: prod.splits)

lemma tool_results_one: "tool_results (ctx (add_steps call out st)) = tool_results (ctx st) @ [out]"
  by (simp add: tool_results_def add_steps_def KindToolCall_def KindToolResult_def)

text \<open>A turn of the router: without a tool it answers from the query alone; with one it calls it once, with the text that was
  routed, and answers from its result; an exception of the encoder or of the prose is the answer of a failed turn.\<close>

theorem router_turn:
  assumes "h = (case conv of Some turns \<Rightarrow> turns | None \<Rightarrow> [])" "c = \<lparr>Query = query, Steps = [], History = h\<rparr>"
    "RunTurnAsync tools (RouterBrain R prose) query conv s = (Inr res, conv', st)"
  shows "case Route R query (router_hint c) of
      Inl x \<Rightarrow> \<exists>n. x = Fault n \<and> StopReason res = Error \<and> ToolSteps res = 0 \<and> Answer res = agent_error n
    | Inr None \<Rightarrow> ToolSteps res = 0 \<and> prose_outcome (prose (query @ [0x0A])) = Inr (StopReason res, Answer res)
    | Inr (Some call) \<Rightarrow> \<exists>out st1. run_tool tools call (fresh_turn query h s) = (Inr out, st1) \<and> ToolSteps res = 1 \<and>
        prose_outcome (prose (query @ 0x0A # out)) = Inr (StopReason res, Answer res)"
proof -
  let ?B = "RouterBrain R prose" and ?st = "fresh_turn query h s"
  have c: "ctx ?st = c" using assms(2) by (simp add: fresh_turn_def)
  obtain st1 where l: "turn_loop tools ?B ?st = (Inr (StopReason res), st1)" "Answer res = answer st1" "ToolSteps res = toolSteps st1"
    using assms by (auto simp: RunTurnAsync_def Let_def fresh_turn_def Snapshot_def split: prod.splits sum.splits option.splits)
  show ?thesis
  proof (cases "Route R query (router_hint c)")
    case (Inl x)
    then have "DecideAsync ?B (ctx ?st) (engine ?st) = (Inl x, engine ?st)"
      using assms(2) by (simp add: RouterBrain_def router_decide_first)
    then show ?thesis using l Inl by (cases x) (auto simp: turn_loop.simps [of tools ?B ?st] Sink_def)
  next
    case (Inr o1)
    show ?thesis
    proof (cases o1)
      case None
      then have "turn_loop tools ?B ?st = answer_with ?B Answered ?st" using Inr c by (intro router_loop_direct) simp
      then show ?thesis using l Inr None
        by (auto simp: router_answer tool_results_def Sink_def split: sum.splits)
    next
      case (Some call)
      obtain r1 st2 where r: "run_tool tools call ?st = (r1, st2)" by fastforce
      show ?thesis
      proof (cases r1)
        case (Inl x)
        have "DecideAsync ?B (ctx ?st) (engine ?st) = (Inr (Decide_tool call), engine ?st)"
          using assms(2) Inr Some by (simp add: RouterBrain_def router_decide_first)
        then show ?thesis using l(1) r Inl
          by (simp add: turn_loop.simps [of tools ?B ?st] Decide_tool_def MaxToolSteps_def)
      next
        case (Inr out)
        note r = r [unfolded Inr] and f = run_tool_fresh [OF r [unfolded Inr]]
        have "turn_loop tools ?B ?st = answer_with ?B Answered (add_steps call out st2)"
          using \<open>Route R query (router_hint c) = Inr o1\<close> Some c r by (intro router_loop_tool) simp_all
        moreover have "tool_results (ctx (add_steps call out st2)) = [out]" "Query (ctx (add_steps call out st2)) = query"
          using f(1) by (simp_all add: tool_results_one) (simp_all add: tool_results_def add_steps_def)
        ultimately show ?thesis using l \<open>Route R query (router_hint c) = Inr o1\<close> Some r f
          by (auto simp: router_answer Sink_def add_steps_def split: sum.splits)
      qed
    qed
  qed
qed

section \<open>Turns of the shared agent\<close>

text \<open>A sequence of turns and resets of the shared agent, with the state of the engine.\<close>

datatype host_op = Turn_op cs_string | Reset_host

fun host_run :: "(exn + 's host) \<Rightarrow> host_op list \<Rightarrow> 's host_state \<Rightarrow> 's \<Rightarrow> conversation_op list \<times> 's host_state \<times> 's" where
  "host_run build [] hs s = ([], hs, s)"
| "host_run build (Turn_op q # ops) hs s = (case shared_turn build q hs s of (r, hs', s') \<Rightarrow>
     (case host_run build ops hs' s' of (l, z) \<Rightarrow> ((case r of Inr res \<Rightarrow> Append_op q (Answer res) # l | Inl x \<Rightarrow> l), z)))"
| "host_run build (Reset_host # ops) hs s = (case host_run build ops (snd (ResetConversation build hs)) s of (l, z) \<Rightarrow> (Reset_op # l, z))"

lemma shared_turn_conversation:
  assumes "shared hs = Some h" "conversation hs = Some c" "shared_turn build q hs s = (r, hs', s')"
  shows "shared hs' = Some h \<and> conversation hs' = Some (case r of Inr res \<Rightarrow> Append q (Answer res) c | Inl x \<Rightarrow> c)"
proof -
  obtain r1 conv st where t: "RunTurnAsync (host_tools h) (host_brain h) q (Some c) s = (r1, conv, st)" by (metis surj_pair)
  show ?thesis using turn_result [OF t] assms t by (auto simp: shared_turn_def Agent_def split: sum.splits)
qed

text \<open>C18. The conversation of the shared agent after any sequence of turns and resets is the window of the turns that returned
  since the last reset, each with the answer it returned: a cancelled turn is not remembered.\<close>

theorem host_conversation:
  assumes "shared hs = Some h" "conversation hs = Some []" "host_run build ops hs s = (l, hs', s')"
  shows "conversation hs' = Some (drop (length (since_reset l []) - 6) (since_reset l []))"
proof -
  have "shared hs' = Some h \<and> conversation hs' = Some (converse l c)"
    if "shared hs = Some h" "conversation hs = Some c" "host_run build ops hs s = (l, hs', s')" for hs s c l hs' s'
    using that
  proof (induction ops arbitrary: hs s c l hs' s')
    case (Cons o1 ops)
    show ?case
    proof (cases o1)
      case (Turn_op q)
      obtain r hs1 s1 where t: "shared_turn build q hs s = (r, hs1, s1)" by (metis surj_pair)
      obtain l1 where l1: "host_run build ops hs1 s1 = (l1, hs', s')" "l = (case r of Inr res \<Rightarrow> Append_op q (Answer res) # l1 | Inl x \<Rightarrow> l1)"
        using Cons.prems(3) Turn_op t by (auto split: prod.splits)
      show ?thesis
        using Cons.IH [OF _ _ l1(1)] shared_turn_conversation [OF Cons.prems(1,2) t] l1(2) by (cases r) auto
    next
      case Reset_host
      have "shared (snd (ResetConversation build hs)) = Some h" "conversation (snd (ResetConversation build hs)) = Some []"
        using Cons.prems by (simp_all add: ResetConversation_def Agent_def ConversationSession_Reset_def)
      then show ?thesis using Cons.IH [of "snd (ResetConversation build hs)" "[]"] Cons.prems(3) Reset_host
        by (auto simp: ConversationSession_Reset_def split: prod.splits)
    qed
  qed simp
  from this [OF assms] show ?thesis using converse_window [of l "[]"] by (simp add: MaxTurns_def)
qed

section \<open>A memory cut inside a character\<close>

lemma split_pair: "wf_utf16 (xs @ u # v # ys) \<Longrightarrow> high_surrogate u \<Longrightarrow> low_surrogate v"
proof (induction xs rule: wf_utf16.induct)
  case (2 x xs)
  have n: "\<not> low_surrogate u" using 2(4) by (simp add: high_surrogate_def low_surrogate_def)
  show ?case
  proof (cases "high_surrogate x")
    case True
    then obtain y xs' where "xs = y # xs'" using 2(3) n by (cases xs) auto
    then show ?thesis using 2(1) [OF True] 2(3,4) True by simp
  qed (use 2 in auto)
qed simp

lemma clamp_cuts:
  assumes "n < length s" "0 < n" "high_surrogate (s ! (n - 1))"
  shows "\<not> wf_utf16 (xs @ Clamp s n @ ys)"
proof
  have "take n s = take (n - 1) s @ [s ! (n - 1)]" using assms(1,2) by (metis One_nat_def Suc_diff_1 diff_less less_trans take_Suc_conv_app_nth zero_less_one)
  then have "xs @ Clamp s n @ ys = (xs @ take (n - 1) s) @ s ! (n - 1) # 0x2026 # lit ''(truncated)'' @ ys"
    using assms(1) by (simp add: Clamp_def TruncatedSuffix_def)
  moreover assume "wf_utf16 (xs @ Clamp s n @ ys)"
  ultimately have "low_surrogate 0x2026" using split_pair [OF _ assms(3)] by metis
  then show False by (simp add: low_surrogate_def)
qed

lemma with_argument_fails:
  assumes "\<not> wf_utf16 t"
  shows "with_argument name f (object_text [(n, concat (map escape1 t))]) s = (Inl (Fault (lit ''ArgumentException'')), s)"
  using assms by (simp add: with_argument_def GetString_def JsonDocument_Parse_def wf_object_text wf_escapes)

text \<open>The query of a turn is remembered up to its 500th code unit. When that unit is the first half of a pair, the hint of the
  next turn is not well-formed, and if it is folded into the routed text, the tool the router picks is not run: reading its
  argument throws, and the exception is what the brain gets for a result.\<close>

theorem clamped_hint_fails:
  assumes "500 < length query" "high_surrogate (query ! 499)" "turns = Append query reply []"
    "new_router (ForemanTools_Build searchManuals runFeature engineStats) E th gate = Inr R"
    "routed_text R followup (router_hint \<lparr>Query = followup, Steps = [], History = turns\<rparr>) =
       Inr (LastTurnHint (last turns) @ 0x0A # followup, q)"
    "Route R followup (router_hint \<lparr>Query = followup, Steps = [], History = turns\<rparr>) = Inr (Some call)"
    "call_tool call \<noteq> lit ''engine_stats''"
  shows "fst (run_tool (ForemanTools_Build searchManuals runFeature engineStats) call st) = Inr (tool_failure (lit ''ArgumentException''))"
proof -
  let ?tools = "ForemanTools_Build searchManuals runFeature engineStats"
  let ?t = "LastTurnHint (last turns) @ 0x0A # followup"
  have "turns = [clamped_turn query reply]" using assms(3) by (simp add: Append_def evict_eq MaxTurns_def)
  then have "?t = [] @ Clamp query 500 @ (lit '' '' @ turn_answer (last turns) @ 0x0A # followup)"
    by (simp add: LastTurnHint_def clamped_turn_def MaxQueryChars_def)
  moreover have "\<not> wf_utf16 ([] @ Clamp query 500 @ ys)" for ys
    using assms(1,2) by (intro clamp_cuts) simp_all
  ultimately have ill: "\<not> wf_utf16 ?t" by metis
  then obtain t where t: "t = ?t" "\<not> wf_utf16 t" by blast
  then obtain tool where tool: "tool \<in> set ?tools" "call = call_of tool t"
    using Route_call [OF assms(4,6)] assms(5) by auto
  from tool show ?thesis
    using assms(7) by (cases rule: foreman_call_cases) (simp_all add: run_tool_def with_argument_fails [OF t(2)])
qed

section \<open>A query of several lines\<close>

text \<open>The prose looks for the results after the first line break of the prompt, but a query may have one too: its other lines are
  then quoted as what the tools said, although no tool ran.\<close>

theorem multiline_query_quoted:
  assumes "Route R (lit ''hello'' @ 0x0A # lit ''world'') None = Inr None"
  shows "\<exists>conv' st. RunTurnAsync tools (RouterBrain R ComposeProse) (lit ''hello'' @ 0x0A # lit ''world'') None s =
    (Inr \<lparr>Answer = lit ''Based on the tools: world'', StopReason = Answered, ToolSteps = 0\<rparr>, conv', st)"
proof -
  let ?q = "lit ''hello'' @ 0x0A # lit ''world'' :: cs_string"
  have p: "ComposeProse (?q @ [0x0A]) = Inr (lit ''Based on the tools: world'')" by code_simp
  have "turn_loop tools (RouterBrain R ComposeProse) (fresh_turn ?q [] s) =
      (Inr Answered, Sink (lit ''Based on the tools: world'') (fresh_turn ?q [] s))"
    using assms p by (subst router_loop_direct) (simp_all add: router_hint_def router_answer tool_results_def prose_outcome_def)
  then show ?thesis by (simp add: RunTurnAsync_def fresh_turn_def Sink_def)
qed

section \<open>Witnesses\<close>

definition long_query :: cs_string where
  "long_query = replicate 499 0x61 @ [0xD83D, 0xDE00]"

theorem clamped_hint_fails_witness:
  "wf_utf16 long_query \<and> (\<exists>call. Route demo_router (lit ''and now?'') (router_hint \<lparr>Query = lit ''and now?'', Steps = [],
       History = Append long_query (lit ''ok'') []\<rparr>) = Inr (Some call) \<and>
     fst (run_tool demo_manuals call (fresh_turn (lit ''and now?'') [] ())) = Inr (tool_failure (lit ''ArgumentException'')))"
proof -
  let ?c = "\<lparr>Query = lit ''and now?'', Steps = [], History = Append long_query (lit ''ok'') []\<rparr>"
  have w: "wf_utf16 long_query"
  proof -
    have "wf_utf16 (replicate n 0x61 @ [0xD83D, 0xDE00])" for n
      by (induction n) (simp_all add: high_surrogate_def low_surrogate_def)
    then show ?thesis by (simp add: long_query_def)
  qed
  have l: "500 < length long_query" "high_surrogate (long_query ! 499)"
    by (simp_all add: long_query_def nth_append high_surrogate_def)
  have h: "router_hint ?c = Some (LastTurnHint (last (Append long_query (lit ''ok'') [])))"
    "LastTurnHint (last (Append long_query (lit ''ok'') [])) \<noteq> []"
    by (simp_all add: router_hint_def Append_def evict_eq MaxTurns_def LastTurnHint_def lit_def)
  define t where "t = LastTurnHint (last (Append long_query (lit ''ok'') [])) @ 0x0A # lit ''and now?''"
  have r: "routed_text demo_router (lit ''and now?'') (router_hint ?c) = Inr (t, ())"
    "Route demo_router (lit ''and now?'') (router_hint ?c) = Inr (Some (call_of demo_search t))"
    using h by (simp_all add: demo_route demo_text_def t_def)
  have "call_tool (call_of demo_search t) = lit ''search_manuals''"
    by (simp add: call_of_def demo_search_def demo_manuals_def ForemanTools_Build_def)
  then have "fst (run_tool demo_manuals (call_of demo_search t) (fresh_turn (lit ''and now?'') [] ())) = Inr (tool_failure (lit ''ArgumentException''))"
    using clamped_hint_fails [OF l refl demo_router_new r(1) [unfolded t_def] r(2)] tool_names by (simp add: demo_manuals_def)
  then show ?thesis using w r(2) by blast
qed

lemma demo_router_turn: "fst (RunTurnAsync demo_manuals (RouterBrain demo_router ComposeProse) (lit ''fault'') None ()) =
    Inr \<lparr>Answer = lit ''Based on the tools: fault'', StopReason = Answered, ToolSteps = 1\<rparr>"
  by code_simp

theorem router_turn_witness:
  "\<exists>res conv' st. RunTurnAsync demo_manuals (RouterBrain demo_router ComposeProse) (lit ''fault'') None () = (Inr res, conv', st) \<and> ToolSteps res = 1"
proof -
  let ?r = "RunTurnAsync demo_manuals (RouterBrain demo_router ComposeProse) (lit ''fault'') None ()"
  obtain res conv' st where r: "?r = (Inr res, conv', st)" using demo_router_turn by (metis fst_conv surj_pair)
  have "ToolSteps res = 1" using router_turn [OF refl refl r] by (auto simp: router_hint_def demo_route)
  then show ?thesis using r by blast
qed

definition shy_router :: "(unit, unit, int) DeterministicRouter" where
  "shy_router = demo_router\<lparr>threshold := 2\<rparr>"

theorem multiline_query_quoted_witness:
  "\<exists>conv' st. RunTurnAsync demo_manuals (RouterBrain shy_router ComposeProse) (lit ''hello'' @ 0x0A # lit ''world'') None () =
    (Inr \<lparr>Answer = lit ''Based on the tools: world'', StopReason = Answered, ToolSteps = 0\<rparr>, conv', st)"
  by (rule multiline_query_quoted) code_simp

definition demo_host_state :: "unit host_state" where
  "demo_host_state = \<lparr>shared = Some \<lparr>host_tools = demo_tools, host_brain = demo_brain\<rparr>, conversation = Some []\<rparr>"

theorem host_conversation_witness:
  "\<exists>l hs' s'. host_run (Inl OperationCanceledException) [Turn_op (lit ''a''), Reset_host, Turn_op (lit ''b'')] demo_host_state () = (l, hs', s') \<and>
     conversation hs' = Some (drop (length (since_reset l []) - 6) (since_reset l []))"
proof -
  obtain l hs' s' where r: "host_run (Inl OperationCanceledException) [Turn_op (lit ''a''), Reset_host, Turn_op (lit ''b'')] demo_host_state () = (l, hs', s')"
    by (metis surj_pair)
  have "shared demo_host_state = Some \<lparr>host_tools = demo_tools, host_brain = demo_brain\<rparr>" "conversation demo_host_state = Some []"
    by (simp_all add: demo_host_state_def)
  from host_conversation [OF this r] r show ?thesis by blast
qed

end
