(* ===== verification/Foreman_Stream.thy ===== *)
theory Foreman_Stream
  imports Foreman_Brains
begin

text \<open>
  A turn of the agent as a stream (\<^verbatim>\<open>ForemanLanguageModel.cs\<close>) and its reading by the client (\<^verbatim>\<open>parseAgentFragment\<close> of
  \<^verbatim>\<open>src/android/app/src/main/kotlin/io/dotnetnativeinterop/agent/AgentModels.kt\<close>): the fragments of the answer and then one
  fragment with the status of the turn, a control character, a tag and a JSON object. The client's JSON decoder is a parameter.
  The theorem: the client reads back the stop reason, the number of calls and the badge of the brain that ran.
\<close>

section \<open>The status\<close>

text \<open>The serializer's string encoder: ASCII apart from the characters that matter to HTML, the usual short escapes, and
  hexadecimal escapes for the rest; an unpaired surrogate becomes the replacement character.\<close>

definition hex_digit_upper :: "int \<Rightarrow> 16 word" where
  "hex_digit_upper n = word_of_int (if n < 10 then 0x30 + n else 0x37 + n)"

definition hex_escape :: "16 word \<Rightarrow> cs_string" where
  "hex_escape c = [0x5C, 0x75] @ map hex_digit_upper [uint c div 4096, uint c div 256 mod 16, uint c div 16 mod 16, uint c mod 16]"

definition encoded_as_is :: "16 word \<Rightarrow> bool" where
  "encoded_as_is c \<longleftrightarrow> 0x20 \<le> uint c \<and> uint c \<le> 0x7E \<and> c \<notin> {0x22, 0x26, 0x27, 0x2B, 0x3C, 0x3E, 0x5C, 0x60}"

definition encode1 :: "16 word \<Rightarrow> cs_string" where
  "encode1 c = (if encoded_as_is c then [c] else if c = 0x5C then [0x5C, 0x5C]
     else if c = 0x08 then [0x5C, 0x62] else if c = 0x09 then [0x5C, 0x74] else if c = 0x0A then [0x5C, 0x6E]
     else if c = 0x0C then [0x5C, 0x66] else if c = 0x0D then [0x5C, 0x72] else hex_escape c)"

fun json_encode :: "cs_string \<Rightarrow> cs_string" where
  "json_encode [] = []"
| "json_encode (u # s) =
     (if high_surrogate u then (case s of
          v # s' \<Rightarrow> if low_surrogate v then hex_escape u @ hex_escape v @ json_encode s' else hex_escape 0xFFFD @ json_encode s
        | [] \<Rightarrow> hex_escape 0xFFFD)
      else if low_surrogate u then hex_escape 0xFFFD @ json_encode s
      else encode1 u @ json_encode s)"

fun decimal :: "nat \<Rightarrow> cs_string" where
  "decimal n = (if n < 10 then [word_of_nat (0x30 + n)] else decimal (n div 10) @ [word_of_nat (0x30 + n mod 10)])"

declare decimal.simps [simp del]

fun reason_name :: "ForemanStopReason \<Rightarrow> string" where
  "reason_name Answered = ''Answered''" | "reason_name StepCapReached = ''StepCapReached''" | "reason_name Error = ''Error''"

record AgentSessionStatus =
  status_reason :: ForemanStopReason
  status_steps :: nat
  status_backend :: cs_string

definition status_json :: "AgentSessionStatus \<Rightarrow> cs_string" where
  "status_json st = [0x7B, 0x22] @ lit ''stopReason'' @ [0x22, 0x3A, 0x22] @ lit (reason_name (status_reason st)) @ [0x22, 0x2C, 0x22] @
     lit ''toolSteps'' @ [0x22, 0x3A] @ decimal (status_steps st) @ [0x2C, 0x22] @ lit ''backend'' @ [0x22, 0x3A, 0x22] @
     json_encode (status_backend st) @ [0x22, 0x7D]"

definition StatusTag :: cs_string where "StatusTag = lit ''dni.agent.status''"

definition StatusMarker :: cs_string where "StatusMarker = 0x01 # StatusTag"

text \<open>The fragments written to the channel, which is unbounded, and whether the turn was cancelled: a cancelled turn writes no
  status, and the channel is completed in any case.\<close>

definition Foreman_GenerateAsync :: "'s ToolDefinition list \<Rightarrow> 's brain \<Rightarrow> cs_string \<Rightarrow> ConversationTurn list option \<Rightarrow> 's
    \<Rightarrow> (cs_string list \<times> bool) \<times> ConversationTurn list option \<times> 's" where
  "Foreman_GenerateAsync tools B prompt conv s = (case RunTurnAsync tools B prompt conv s of
     (Inr res, conv', st) \<Rightarrow>
       ((sunk st @ [StatusMarker @ status_json \<lparr>status_reason = StopReason res, status_steps = ToolSteps res, status_backend = BackendBadge B\<rparr>],
         False), conv', engine st)
   | (Inl x, conv', st) \<Rightarrow> ((sunk st, True), conv', engine st))"

section \<open>The client\<close>

datatype AgentFragment = Answer_fragment cs_string | Status_fragment AgentSessionStatus

fun index_of :: "cs_string \<Rightarrow> cs_string \<Rightarrow> nat option" where
  "index_of p [] = (if p = [] then Some 0 else None)"
| "index_of p (c # s) = (if take (length p) (c # s) = p then Some 0 else map_option Suc (index_of p s))"

text \<open>\<open>None\<close> where the source throws: a status fragment without the tag, or a payload that does not decode.\<close>

definition parseAgentFragment :: "(cs_string \<Rightarrow> AgentSessionStatus option) \<Rightarrow> cs_string \<Rightarrow> AgentFragment option" where
  "parseAgentFragment decode t =
     (if t \<noteq> [] \<and> hd t = 0x01 then
        (case index_of StatusTag t of
           None \<Rightarrow> None
         | Some i \<Rightarrow> map_option Status_fragment (decode (drop (i + length StatusTag) t)))
      else Some (Answer_fragment t))"

text \<open>A decoder reads a status from a JSON object with its three properties, the number given by its digits.\<close>

fun digits_value :: "cs_string \<Rightarrow> nat \<Rightarrow> nat option" where
  "digits_value [] acc = Some acc"
| "digits_value (c # s) acc = (if digit c then digits_value s (acc * 10 + unat (c - 0x30)) else None)"

definition reason_of :: "cs_string \<Rightarrow> ForemanStopReason option" where
  "reason_of n = find (\<lambda>r. lit (reason_name r) = n) [Answered, StepCapReached, Error]"

definition read_status :: "json \<Rightarrow> AgentSessionStatus option" where
  "read_status v =
     (case (TryGetProperty (lit ''stopReason'') v, TryGetProperty (lit ''toolSteps'') v, TryGetProperty (lit ''backend'') v) of
        (Inr (Some r), Inr (Some n), Inr (Some b)) \<Rightarrow>
          (case (GetString_element r, GetString_element b) of
             (Inr (Some rs), Inr (Some bs)) \<Rightarrow>
               if element_kind n = Number then
                 Option.bind (reason_of rs) (\<lambda>reason. map_option (\<lambda>k. \<lparr>status_reason = reason, status_steps = k, status_backend = bs\<rparr>)
                   (digits_value (GetRawText n) 0))
               else None
           | _ \<Rightarrow> None)
      | _ \<Rightarrow> None)"

definition json_decoder :: "(cs_string \<Rightarrow> AgentSessionStatus option) \<Rightarrow> bool" where
  "json_decoder decode \<longleftrightarrow> (\<forall>payload v st. JsonDocument_Parse payload = Inr v \<longrightarrow> read_status v = Some st \<longrightarrow> decode payload = Some st)"

section \<open>The status is read back\<close>

lemma uint_hex_upper: "0 \<le> n \<Longrightarrow> n < 16 \<Longrightarrow> uint (hex_digit_upper n) = (if n < 10 then 0x30 + n else 0x37 + n)"
  using uint_unit [of "if n < 10 then 0x30 + n else 0x37 + n"] by (simp only: hex_digit_upper_def) (simp split: if_splits)

lemma hex_value_upper: "0 \<le> n \<Longrightarrow> n < 16 \<Longrightarrow> hex_value (hex_digit_upper n) = Some n"
  by (simp add: hex_value_def uint_hex_upper word_le_def)

lemma hex_escape_digits:
  obtains a b c d where "hex_escape u = [0x5C, 0x75, a, b, c, d]" "hex4 [a, b, c, d] = Some (uint u, [])" "list_all plain_unit [a, b, c, d]"
    "list_all (\<lambda>w. 0x20 \<le> uint w \<and> uint w < 0x80) [a, b, c, d]"
proof -
  let ?ds = "map hex_digit_upper [uint u div 4096, uint u div 256 mod 16, uint u div 16 mod 16, uint u mod 16]"
  have u: "0 \<le> uint u" "uint u < 65536" using uint_bounded [of u] by simp_all
  have p: "plain_unit (hex_digit_upper n) \<and> 0x20 \<le> uint (hex_digit_upper n) \<and> uint (hex_digit_upper n) < 0x80" if "0 \<le> n" "n < 16" for n
    using that by (auto simp: plain_unit_def uint_hex_upper word_uint_eq_iff)
  have "hex4 ?ds = Some (((uint u div 4096 * 16 + uint u div 256 mod 16) * 16 + uint u div 16 mod 16) * 16 + uint u mod 16, [])"
    using u by (simp add: hex_value_upper div_int_pos_iff)
  then have "hex4 ?ds = Some (uint u, [])" unfolding hex_digits_value .
  moreover have "list_all plain_unit ?ds" "list_all (\<lambda>w. 0x20 \<le> uint w \<and> uint w < 0x80) ?ds"
    using u p by (simp_all add: div_int_pos_iff)
  moreover have "hex_escape u = [0x5C, 0x75] @ ?ds" by (simp add: hex_escape_def)
  ultimately show thesis using that by simp
qed

lemma unescape_hex:
  "\<not> high_surrogate u \<Longrightarrow> \<not> low_surrogate u \<Longrightarrow> unescape (hex_escape u @ r) = map_option ((#) u) (unescape r)"
  by (rule hex_escape_digits [of u]) (auto simp: high_surrogate_def low_surrogate_def)

lemma unescape_pair:
  assumes "high_surrogate u" "low_surrogate v"
  shows "unescape (hex_escape u @ hex_escape v @ r) = map_option (\<lambda>t. u # v # t) (unescape r)"
proof -
  obtain a b c d where "hex_escape u = [0x5C, 0x75, a, b, c, d]" "hex4 [a, b, c, d] = Some (uint u, [])" by (rule hex_escape_digits)
  moreover obtain a' b' c' d' where "hex_escape v = [0x5C, 0x75, a', b', c', d']" "hex4 [a', b', c', d'] = Some (uint v, [])"
    by (rule hex_escape_digits)
  ultimately show ?thesis using assms by (simp add: high_surrogate_def low_surrogate_def del: hex4.simps)
qed

lemma unescape_encode1:
  assumes "\<not> high_surrogate c" "\<not> low_surrogate c"
  shows "unescape (encode1 c @ r) = map_option ((#) c) (unescape r)"
  using assms by (auto simp: encode1_def unescape_hex simple_escape_def encoded_as_is_def)

lemma unescape_json_encode: "wf_utf16 s \<Longrightarrow> unescape (json_encode s) = Some s"
proof (induction s rule: json_encode.induct)
  case (2 u s)
  show ?case
  proof (cases "high_surrogate u")
    case True
    with 2(5) obtain v s' where "s = v # s'" "low_surrogate v" "wf_utf16 s'" by (cases s) auto
    then show ?thesis using 2(1) True by (simp add: unescape_pair)
  qed (use 2 in \<open>auto simp: unescape_encode1\<close>)
qed simp

lemma lex_string_hex: "lex_string (hex_escape u @ r) = map_option (map_prod ((@) (hex_escape u)) id) (lex_string r)"
proof -
  obtain a b c d where h: "hex_escape u = [0x5C, 0x75, a, b, c, d]" "hex4 [a, b, c, d] = Some (uint u, [])" "list_all plain_unit [a, b, c, d]"
    by (rule hex_escape_digits)
  have "hex4 (a # b # c # d # r) \<noteq> None" using hex4_front [of "[a, b, c, d]" r] h(2) by simp
  then show ?thesis using h lex_string_plain [OF h(3), of r] by (cases "lex_string r") auto
qed

lemma lex_string_encode1: "lex_string (encode1 c @ r) = map_option (map_prod ((@) (encode1 c)) id) (lex_string r)"
  by (cases "lex_string r") (auto simp: encode1_def lex_string_hex simple_escape_def encoded_as_is_def)

lemma lex_json_encode: "lex_string (json_encode s @ 0x22 # r) = Some (json_encode s, r)"
proof (induction s rule: json_encode.induct)
  case (2 u s)
  show ?case
  proof (cases "high_surrogate u")
    case True
    then show ?thesis using 2(1,2) by (cases s) (auto simp: lex_string_hex)
  qed (use 2 in \<open>auto simp: lex_string_hex lex_string_encode1\<close>)
qed simp

lemma hex_escape_ascii: "w \<in> set (hex_escape u) \<Longrightarrow> 0x20 \<le> uint w \<and> uint w < 0x80"
  by (rule hex_escape_digits [of u]) auto

lemma encode1_ascii: "w \<in> set (encode1 u) \<Longrightarrow> 0x20 \<le> uint w \<and> uint w < 0x80"
  by (auto simp: encode1_def encoded_as_is_def hex_escape_ascii split: if_splits)

lemma json_encode_ascii: "w \<in> set (json_encode s) \<Longrightarrow> 0x20 \<le> uint w \<and> uint w < 0x80"
proof (induction s rule: json_encode.induct)
  case (2 u s)
  then show ?case by (cases s) (auto simp: hex_escape_ascii encode1_ascii split: if_splits)
qed simp

lemma one_digit: "n < 10 \<Longrightarrow> n \<in> {0, 1, 2, 3, 4, 5, 6, 7, 8, 9}" for n :: nat
  by auto

lemma decimal_digit: "n < 10 \<Longrightarrow> decimal n = [word_of_nat (0x30 + n)]"
  by (subst decimal.simps) simp

lemma digit_unit: "n < 10 \<Longrightarrow> 0x30 \<le> uint (word_of_nat (0x30 + n) :: 16 word) \<and> uint (word_of_nat (0x30 + n) :: 16 word) < 0x3A"
  by (simp add: unsigned_of_nat take_bit_nat_eq_self uint_nat del: of_nat_add)

lemma lex_digit:
  assumes "n < 10"
  shows "lex_json (decimal n @ 0x2C # r) = map_option ((#) (Scalar Number (decimal n))) (lex_json (0x2C # r))"
proof -
  have "lex_token (decimal n @ 0x2C # r) = Some (Scalar Number (decimal n), 0x2C # r)"
    using one_digit [OF assms] by (auto simp: decimal_digit lex_token_def json_space_def json_punct_def digit_def lex_number_def
      lex_integer_def lex_digits_def lex_fraction_def lex_exponent_def)
  moreover have "decimal n \<noteq> []" using assms by (simp add: decimal_digit)
  ultimately show ?thesis by (subst lex_json.simps) auto
qed

lemma digit_value: "n < 10 \<Longrightarrow> digits_value (decimal n) 0 = Some n"
  using one_digit [of n] by (auto simp: decimal_digit digit_def)

lemma status_names: "list_all plain_unit (lit ''stopReason'')" "list_all plain_unit (lit ''toolSteps'')" "list_all plain_unit (lit ''backend'')"
  "list_all plain_unit (lit (reason_name r))" "reason_of (lit (reason_name r)) = Some r"
  "lit ''stopReason'' \<noteq> (lit ''toolSteps'' :: cs_string)" "lit ''stopReason'' \<noteq> (lit ''backend'' :: cs_string)" "lit ''toolSteps'' \<noteq> (lit ''backend'' :: cs_string)"
  by (code_simp, code_simp, code_simp, (cases r; simp; code_simp), (cases r; simp; code_simp), code_simp, code_simp, code_simp)

lemma plain_no_backslash: "list_all plain_unit s \<Longrightarrow> 0x5C \<notin> set s"
  by (auto simp: list_all_iff plain_unit_def)

lemma wf_status_json:
  assumes "status_steps st < 10"
  shows "wf_utf16 (status_json st)"
proof -
  have d: "uint w < 0xD800" if "w \<in> set (decimal (status_steps st))" for w
    using that digit_unit [OF assms] by (auto simp: decimal_digit assms)
  have e: "uint w < 0xD800" if "w \<in> set (json_encode (status_backend st))" for w
    using json_encode_ascii [OF that] by simp
  show ?thesis
    using wf_utf16_ascii [of "decimal (status_steps st)"] wf_utf16_ascii [of "json_encode (status_backend st)"] d e
    by (simp add: status_json_def wf_utf16_append wf_utf16_plain wf_lit del: wf_utf16.simps(2))
qed

lemma status_read:
  assumes "status_steps st < 10" "wf_utf16 (status_backend st)"
  shows "\<exists>v. JsonDocument_Parse (status_json st) = Inr v \<and> read_status v = Some st"
proof -
  let ?v = "Json Object (status_json st) [(lit ''stopReason'', string_element (lit (reason_name (status_reason st)))),
    (lit ''toolSteps'', Json Number (decimal (status_steps st)) []), (lit ''backend'', string_element (json_encode (status_backend st)))]"
  have "lex_json (status_json st) = Some [Punct 0x7B, Quoted (lit ''stopReason''), Punct 0x3A, Quoted (lit (reason_name (status_reason st))), Punct 0x2C,
      Quoted (lit ''toolSteps''), Punct 0x3A, Scalar Number (decimal (status_steps st)), Punct 0x2C, Quoted (lit ''backend''), Punct 0x3A,
      Quoted (json_encode (status_backend st)), Punct 0x7D]"
    using assms(1) by (simp add: status_json_def lex_object readable_plain status_names lex_digit lex_quoted [OF lex_json_encode])
  then have "JsonDocument_Parse (status_json st) = Inr ?v"
    using wf_status_json [OF assms(1)] by (simp add: JsonDocument_Parse_def read_defs json_depth_def) (simp add: status_json_def string_element_def)
  moreover have "unescape (lit (reason_name (status_reason st))) = Some (lit (reason_name (status_reason st)))"
    by (rule unescape_plain) (rule plain_no_backslash [OF status_names(4)])
  then have "read_status ?v = Some st"
    using assms by (simp add: read_status_def TryGetProperty_def name_is_def plain_no_backslash status_names status_names(6-8) [symmetric]
      GetString_string_element unescape_json_encode digit_value)
  ultimately show ?thesis by blast
qed

lemma status_fragment_read:
  assumes "json_decoder decode" "status_steps st < 10" "wf_utf16 (status_backend st)"
  shows "parseAgentFragment decode (StatusMarker @ status_json st) = Some (Status_fragment st)"
proof -
  have "index_of StatusTag (StatusMarker @ status_json st) = Some 1"
  proof -
    have "take (length StatusTag) (0x01 # r) \<noteq> StatusTag" for r by (simp add: StatusTag_def lit_def)
    moreover have "index_of StatusTag (StatusTag @ r) = Some 0" for r by (cases "StatusTag @ r") (simp_all add: StatusTag_def lit_def)
    ultimately show ?thesis by (simp add: StatusMarker_def)
  qed
  then show ?thesis
    using status_read [OF assms(2,3)] assms(1) by (auto simp: parseAgentFragment_def StatusMarker_def json_decoder_def)
qed

text \<open>The stream of a turn that is not cancelled, as the client reads it: the fragments of the answer, each as it was given to
  the sink unless it begins with the control character, and then the status of the turn with the badge of its brain. The
  status has no NUL, so it crosses the boundary as a C string.\<close>

theorem agent_stream_read:
  assumes "Foreman_GenerateAsync tools B query conv s = ((fs, False), conv', s')" "json_decoder decode" "wf_utf16 (BackendBadge B)"
  shows "\<exists>frags f res st. fs = frags @ [f] \<and> RunTurnAsync tools B query conv s = (Inr res, conv', st) \<and> Answer res = concat frags \<and> 0 \<notin> set f \<and>
    parseAgentFragment decode f = Some (Status_fragment
      \<lparr>status_reason = StopReason res, status_steps = ToolSteps res, status_backend = BackendBadge B\<rparr>) \<and>
    (\<forall>g \<in> set frags. g = [] \<or> hd g \<noteq> 0x01 \<longrightarrow> parseAgentFragment decode g = Some (Answer_fragment g))"
proof -
  obtain res st where r: "RunTurnAsync tools B query conv s = (Inr res, conv', st)"
    "fs = sunk st @ [StatusMarker @ status_json \<lparr>status_reason = StopReason res, status_steps = ToolSteps res, status_backend = BackendBadge B\<rparr>]"
    using assms(1) by (auto simp: Foreman_GenerateAsync_def split: prod.splits sum.splits)
  let ?s = "\<lparr>status_reason = StopReason res, status_steps = ToolSteps res, status_backend = BackendBadge B\<rparr>"
  have c: "Answer res = concat (sunk st)" "ToolSteps res < 10" using turn_result [OF r(1)] by simp_all
  have nul: "0 \<notin> set (lit t :: cs_string)" if "list_all plain_unit (lit t :: cs_string)" for t
    using that by (auto simp: list_all_iff plain_unit_def)
  have "0 \<notin> set (StatusMarker :: cs_string)" by code_simp
  moreover have "0 \<notin> set (decimal (ToolSteps res))" using digit_unit [OF c(2)] by (auto simp: decimal_digit c(2))
  moreover have "0 \<notin> set (json_encode (BackendBadge B))" using json_encode_ascii by fastforce
  ultimately have "0 \<notin> set (StatusMarker @ status_json ?s)"
    by (simp add: status_json_def nul status_names)
  moreover have "parseAgentFragment decode (StatusMarker @ status_json ?s) = Some (Status_fragment ?s)"
    using status_fragment_read [of decode ?s] assms(2,3) c(2) by simp
  moreover have "g = [] \<or> hd g \<noteq> 0x01 \<Longrightarrow> parseAgentFragment decode g = Some (Answer_fragment g)" for g
    by (auto simp: parseAgentFragment_def)
  ultimately show ?thesis using r c(1) by blast
qed

section \<open>The stream of the router\<close>

text \<open>What every fragment of an answer and every report of an exception satisfies, every fragment of a turn does.\<close>

lemma sinks_all: "(\<forall>g \<in> set (sunk (fold Sink fs st)). P g) \<longleftrightarrow> (\<forall>g \<in> set (sunk st). P g) \<and> (\<forall>g \<in> set fs. P g)"
  by (induction fs arbitrary: st) (auto simp: Sink_def)

lemma answer_with_all:
  assumes "\<And>c e. \<forall>g \<in> set (fst (fst (StreamAnswerAsync B c e))). P g" "\<And>n. P (agent_error n)" "\<forall>g \<in> set (sunk st). P g"
  shows "\<forall>g \<in> set (sunk (snd (answer_with B reason st))). P g"
proof -
  obtain fs x e where a: "StreamAnswerAsync B (ctx st) (engine st) = ((fs, x), e)" by (metis surj_pair)
  then have f: "\<forall>g \<in> set fs. P g" using assms(1) [of "ctx st" "engine st"] by simp
  have s: "\<forall>g \<in> set (sunk (fold Sink fs (st\<lparr>engine := e\<rparr>))). P g" using f assms(3) by (simp add: sinks_all)
  then have "\<forall>g \<in> set (sunk (Sink (agent_error n) (fold Sink fs (st\<lparr>engine := e\<rparr>)))). P g" for n
    using assms(2) by (simp add: Sink_def)
  then show ?thesis using a s by (auto simp: answer_with_def TryStreamAnswer_def Let_def split: option.splits exn.splits)
qed

lemma turn_loop_all:
  assumes "\<And>c e. \<forall>g \<in> set (fst (fst (StreamAnswerAsync B c e))). P g" "\<And>n. P (agent_error n)" "\<forall>g \<in> set (sunk st). P g"
  shows "\<forall>g \<in> set (sunk (snd (turn_loop tools B st))). P g"
  using assms
proof (induction tools B st rule: turn_loop.induct)
  case (1 tools B st)
  obtain d e where d: "DecideAsync B (ctx st) (engine st) = (d, e)" by fastforce
  note final = answer_with_all [of B P "st\<lparr>engine := e\<rparr>", OF 1(2,3)]
  show ?case
  proof (cases d)
    case (Inl x)
    then show ?thesis using d 1(3,4) by (cases x) (auto simp: turn_loop.simps [of tools B st] Sink_def)
  next
    case (Inr dec)
    show ?thesis
    proof (cases "Call dec = None \<or> IsAnswer dec \<or> toolSteps st \<ge> MaxToolSteps")
      case True
      then show ?thesis using final [of Answered] final [of StepCapReached] d Inr 1(4)
        by (cases "Call dec") (auto simp: turn_loop.simps [of tools B st])
    next
      case False
      then obtain call where c: "Call dec = Some call" "\<not> IsAnswer dec" "\<not> toolSteps st \<ge> MaxToolSteps" by auto
      obtain o1 st1 where o: "run_tool tools call (st\<lparr>engine := e\<rparr>) = (o1, st1)" by fastforce
      have s: "sunk st1 = sunk st" using o by (auto simp: run_tool_def Let_def split: prod.splits)
      show ?thesis
      proof (cases o1)
        case (Inl x)
        then show ?thesis using d Inr c o s 1(4) by (simp add: turn_loop.simps [of tools B st])
      next
        case (Inr out)
        have "turn_loop tools B st = turn_loop tools B (add_steps call out st1)"
          using d \<open>d = Inr dec\<close> c o Inr by (simp add: turn_loop.simps [of tools B st])
        moreover have "\<forall>g \<in> set (sunk (add_steps call out st1)). P g" using s 1(4) by (simp add: add_steps_def)
        ultimately show ?thesis using 1(1) [OF d [symmetric] \<open>d = Inr dec\<close> c o [symmetric] Inr 1(2,3)] by simp
      qed
    qed
  qed
qed

lemma prose_front: "ComposeProse p = Inr t \<Longrightarrow> t \<noteq> [] \<and> hd t \<noteq> 0x01"
  by (auto simp: ComposeProse_def Let_def Compose_def lit_def split: if_splits sum.splits option.splits list.splits)

text \<open>The router's own prose never begins with the control character, so its whole stream is read for what it is: the
  answer in one or more fragments, and the status.\<close>

theorem router_stream_read:
  assumes "Foreman_GenerateAsync tools (RouterBrain R ComposeProse) query conv s = ((fs, False), conv', s')" "json_decoder decode"
  shows "\<exists>frags res st. RunTurnAsync tools (RouterBrain R ComposeProse) query conv s = (Inr res, conv', st) \<and> concat frags = Answer res \<and>
    map (parseAgentFragment decode) fs = map (Some \<circ> Answer_fragment) frags @ [Some (Status_fragment \<lparr>status_reason = StopReason res,
      status_steps = ToolSteps res, status_backend = lit ''scripted routing '' @ 0x2014 # lit '' no on-device LLM present''\<rparr>)]"
proof -
  let ?B = "RouterBrain R ComposeProse"
  let ?P = "\<lambda>g :: cs_string. g \<noteq> [] \<and> hd g \<noteq> 0x01"
  obtain res st where r: "RunTurnAsync tools ?B query conv s = (Inr res, conv', st)"
    "fs = sunk st @ [StatusMarker @ status_json \<lparr>status_reason = StopReason res, status_steps = ToolSteps res, status_backend = BackendBadge ?B\<rparr>]"
    using assms(1) by (auto simp: Foreman_GenerateAsync_def split: prod.splits sum.splits)
  have "\<forall>g \<in> set (sunk st). ?P g"
  proof -
    have "\<forall>g \<in> set (fst (fst (StreamAnswerAsync ?B c e))). ?P g" for c e
      by (auto simp: RouterBrain_def prose_front split: sum.splits)
    moreover have "?P (agent_error n)" for n by (simp add: agent_error_def lit_def)
    ultimately have "\<forall>g \<in> set (sunk (snd (turn_loop tools ?B (fresh_turn query (case conv of Some x \<Rightarrow> Snapshot x | None \<Rightarrow> []) s)))). ?P g"
      by (intro turn_loop_all) simp_all
    then show ?thesis using r(1)
      by (auto simp: RunTurnAsync_def Let_def fresh_turn_def split: prod.splits sum.splits)
  qed
  then have "map (parseAgentFragment decode) (sunk st) = map (Some \<circ> Answer_fragment) (sunk st)"
    by (auto simp: parseAgentFragment_def)
  moreover have b: "wf_utf16 (BackendBadge ?B)" "BackendBadge ?B = lit ''scripted routing '' @ 0x2014 # lit '' no on-device LLM present''"
    by (simp_all add: RouterBrain_def wf_utf16_append wf_lit wf_utf16_plain del: wf_utf16.simps(2))
  moreover have c: "Answer res = concat (sunk st)" "ToolSteps res < 10" using turn_result [OF r(1)] by simp_all
  moreover have "parseAgentFragment decode (StatusMarker @ status_json \<lparr>status_reason = StopReason res, status_steps = ToolSteps res, status_backend = BackendBadge ?B\<rparr>) =
      Some (Status_fragment \<lparr>status_reason = StopReason res, status_steps = ToolSteps res, status_backend = BackendBadge ?B\<rparr>)"
    by (rule status_fragment_read) (use assms(2) b(1) c(2) in simp_all)
  ultimately show ?thesis using r by (intro exI [of _ "sunk st"] exI [of _ res] exI [of _ st]) simp
qed

section \<open>Witnesses\<close>

definition demo_decode :: "cs_string \<Rightarrow> AgentSessionStatus option" where
  "demo_decode payload = (case JsonDocument_Parse payload of Inr v \<Rightarrow> read_status v | Inl x \<Rightarrow> None)"

lemma demo_decoder: "json_decoder demo_decode"
  by (simp add: json_decoder_def demo_decode_def)

lemma uncancelled:
  assumes "never_cancels tools B"
  shows "\<exists>fs conv' s'. Foreman_GenerateAsync tools B query conv s = ((fs, False), conv', s')"
  using turn_loop_returns [OF assms, of "fresh_turn query (case conv of Some x \<Rightarrow> Snapshot x | None \<Rightarrow> []) s"]
  by (auto simp: Foreman_GenerateAsync_def RunTurnAsync_def Let_def fresh_turn_def split: prod.splits sum.splits)

theorem agent_stream_read_witness:
  "\<exists>fs conv' s'. Foreman_GenerateAsync demo_tools demo_brain (lit ''hi'') None () = ((fs, False), conv', s') \<and> 0 \<notin> set (last fs)"
proof -
  have "never_cancels demo_tools demo_brain"
    by (auto simp: never_cancels_def demo_brain_def demo_tools_def ForemanTools_Build_def with_argument_def split: sum.splits elim: exn_of.elims)
  then obtain fs conv' s' where g: "Foreman_GenerateAsync demo_tools demo_brain (lit ''hi'') None () = ((fs, False), conv', s')"
    using uncancelled [where query = "lit ''hi''" and conv = None and s = "()"] by blast
  have "wf_utf16 (BackendBadge demo_brain)" by (simp add: demo_brain_def wf_lit)
  from agent_stream_read [OF g demo_decoder this] g show ?thesis by auto
qed

theorem router_stream_read_witness:
  "\<exists>fs conv' s' frags. Foreman_GenerateAsync demo_manuals (RouterBrain demo_router ComposeProse) (lit ''fault'') None () = ((fs, False), conv', s') \<and>
     map (parseAgentFragment demo_decode) (butlast fs) = map (Some \<circ> Answer_fragment) frags"
proof -
  obtain res conv1 st where "RunTurnAsync demo_manuals (RouterBrain demo_router ComposeProse) (lit ''fault'') None () = (Inr res, conv1, st)"
    using demo_router_turn by (metis fst_conv surj_pair)
  then obtain fs conv' s' where g: "Foreman_GenerateAsync demo_manuals (RouterBrain demo_router ComposeProse) (lit ''fault'') None () = ((fs, False), conv', s')"
    by (simp add: Foreman_GenerateAsync_def)
  from router_stream_read [OF g demo_decoder] obtain frags x where
    "map (parseAgentFragment demo_decode) fs = map (Some \<circ> Answer_fragment) frags @ [x]" by blast
  then have "map (parseAgentFragment demo_decode) (butlast fs) = map (Some \<circ> Answer_fragment) frags"
    by (metis butlast_snoc map_butlast)
  then show ?thesis using g by blast
qed

end
