(* ===== verification/Engine_Ring.thy ===== *)
theory Engine_Ring
  imports Main
begin

text \<open>
  The engine's observability buffers under \<^verbatim>\<open>src/core/DotnetNativeInterop.Engine\<close>: the log ring of \<^verbatim>\<open>EngineLog.cs\<close> with its
  logger, the span ring of \<^verbatim>\<open>EngineTrace.cs\<close> and the counters of \<^verbatim>\<open>EngineMetrics.cs\<close> that its instruments feed. Each ring
  is an array with a start, a count and drop counters. The locale \<open>drop_oldest\<close> is the contract of such a buffer against
  the unbounded journal of everything recorded since the last drain; both rings are instances. The theorems: what every
  drain of every sequence of operations reports, that nothing disappears from the accounts, that the logger keeps
  exactly the records of its level, and that the metrics agree with the span ring.
\<close>

section \<open>The contract: a journal that forgets the oldest entries and says so\<close>

datatype 'x ring_event = Put 'x | Drained

text \<open>A sequence of events seen from outside: the entries between consecutive drains, and those since the last.\<close>

fun segments :: "'x list \<Rightarrow> 'x ring_event list \<Rightarrow> 'x list list" where
  "segments ps [] = []"
| "segments ps (Put x # es) = segments (ps @ [x]) es"
| "segments ps (Drained # es) = ps # segments [] es"

fun current :: "'x list \<Rightarrow> 'x ring_event list \<Rightarrow> 'x list" where
  "current ps [] = ps"
| "current ps (Put x # es) = current (ps @ [x]) es"
| "current ps (Drained # es) = current [] es"

text \<open>What a drain reports of the entries since the previous one: the latest \<open>cap\<close> and how many are missing.\<close>

definition report :: "nat \<Rightarrow> 'x list \<Rightarrow> 'x list \<times> int" where
  "report cap ps = (drop (length ps - cap) ps, int (length ps - cap))"

fun puts :: "'x ring_event list \<Rightarrow> 'x list" where
  "puts [] = []"
| "puts (Put x # es) = x # puts es"
| "puts (Drained # es) = puts es"

lemma segments_puts: "concat (segments ps es) @ current ps es = ps @ puts es"
  by (induction ps es rule: segments.induct) auto

locale drop_oldest =
  fixes cap :: nat
    and wf :: "'s \<Rightarrow> bool"
    and put :: "'x \<Rightarrow> 's \<Rightarrow> 's"
    and drain :: "'s \<Rightarrow> ('x list \<times> int) \<times> 's"
    and live :: "'s \<Rightarrow> 'x list"
    and missed :: "'s \<Rightarrow> int"
  assumes cap_pos: "0 < cap"
    and put_wf: "wf s \<Longrightarrow> wf (put x s)"
    and put_live: "wf s \<Longrightarrow> live (put x s) = (if length (live s) = cap then tl (live s) else live s) @ [x]"
    and put_missed: "wf s \<Longrightarrow> missed (put x s) = missed s + (if length (live s) = cap then 1 else 0)"
    and drain_report: "wf s \<Longrightarrow> fst (drain s) = (live s, missed s)"
    and drain_empty: "wf s \<Longrightarrow> wf (snd (drain s)) \<and> live (snd (drain s)) = [] \<and> missed (snd (drain s)) = 0"
begin

definition represents :: "'s \<Rightarrow> 'x list \<Rightarrow> bool" where
  "represents s ps \<longleftrightarrow> wf s \<and> (live s, missed s) = report cap ps"

lemma represents_put: "represents s ps \<Longrightarrow> represents (put x s) (ps @ [x])"
proof -
  assume r: "represents s ps"
  then have s: "wf s" "live s = drop (length ps - cap) ps" "missed s = int (length ps - cap)"
    by (simp_all add: represents_def report_def)
  have "length (live s) = cap \<longleftrightarrow> cap \<le> length ps" using s(2) by auto
  moreover have "cap \<le> length ps \<Longrightarrow> tl (drop (length ps - cap) ps) = drop (Suc (length ps) - cap) ps"
    by (simp add: drop_Suc tl_drop Suc_diff_le)
  ultimately show ?thesis
    using s cap_pos by (auto simp: represents_def report_def put_wf put_live put_missed Suc_diff_le)
qed

lemma represents_drain: "represents s ps \<Longrightarrow> fst (drain s) = report cap ps \<and> represents (snd (drain s)) []"
  by (auto simp: represents_def drain_report drain_empty report_def)

text \<open>Run a sequence of events and collect what the drains report.\<close>

fun journal :: "'s \<Rightarrow> 'x ring_event list \<Rightarrow> ('x list \<times> int) list \<times> 's" where
  "journal s [] = ([], s)"
| "journal s (Put x # es) = journal (put x s) es"
| "journal s (Drained # es) = (let r = journal (snd (drain s)) es in (fst (drain s) # fst r, snd r))"

lemma journal_correct:
  "represents s ps \<Longrightarrow> fst (journal s es) = map (report cap) (segments ps es) \<and>
     represents (snd (journal s es)) (current ps es)"
proof (induction s es arbitrary: ps rule: journal.induct)
  case (3 s es)
  then show ?case using represents_drain [OF 3(2)] by (simp add: Let_def)
qed (use represents_put in auto)

lemma journal_accounts:
  assumes "represents s []" "journal s es = (rs, s')"
  shows "int (length (puts es)) = (\<Sum>(xs, d) \<leftarrow> rs. int (length xs) + d) + int (length (live s')) + missed s'"
proof -
  have l: "int (length xs) + d = int (length ps)" if "report cap ps = (xs, d)" for ps :: "'x list" and xs d
    using that by (auto simp: report_def)
  have j: "rs = map (report cap) (segments [] es)" "represents s' (current [] es)"
    using journal_correct [OF assms(1), of es] assms(2) by simp_all
  have "(\<Sum>(xs, d) \<leftarrow> map (report cap) ss. int (length xs) + d) = int (length (concat ss))" for ss :: "'x list list"
    by (induction ss) (simp, simp add: report_def)
  moreover have "int (length (live s')) + missed s' = int (length (current [] es))"
    using j(2) l [of "current [] es" "live s'" "missed s'"] by (simp add: represents_def)
  moreover have "length (puts es) = length (concat (segments [] es)) + length (current [] es)"
    using segments_puts [of "[]" es] by (metis append_Nil length_append)
  ultimately show ?thesis using j(1) by simp
qed

end

section \<open>The ring\<close>

text \<open>The fields both rings have. \<open>Capacity\<close> is a constant of each class, here a parameter.\<close>

record 'x ring =
  slots :: "'x option list"
  r_start :: nat
  r_count :: nat
  droppedSinceDrain :: int
  droppedTotal :: int
  recordedTotal :: int

definition ring0 :: "nat \<Rightarrow> 'x ring" where
  "ring0 cap = \<lparr>slots = replicate cap None, r_start = 0, r_count = 0, droppedSinceDrain = 0, droppedTotal = 0,
     recordedTotal = 0\<rparr>"

definition drop_one :: "nat \<Rightarrow> 'x ring \<Rightarrow> 'x ring" where
  "drop_one cap r = (if r_count r = cap
     then r\<lparr>r_start := (r_start r + 1) mod cap, r_count := r_count r - 1,
            droppedSinceDrain := droppedSinceDrain r + 1, droppedTotal := droppedTotal r + 1\<rparr>
     else r)"

definition ring_append :: "nat \<Rightarrow> 'x \<Rightarrow> 'x ring \<Rightarrow> 'x ring" where
  "ring_append cap x r = (let r = r\<lparr>recordedTotal := recordedTotal r + 1\<rparr>; r = drop_one cap r in
     r\<lparr>slots := (slots r)[(r_start r + r_count r) mod cap := Some x], r_count := r_count r + 1\<rparr>)"

definition ring_live :: "nat \<Rightarrow> 'x ring \<Rightarrow> 'x list" where
  "ring_live cap r = map (\<lambda>i. the (slots r ! ((r_start r + i) mod cap))) [0..<r_count r]"

definition ring_drain :: "nat \<Rightarrow> 'x ring \<Rightarrow> ('x list \<times> int) \<times> 'x ring" where
  "ring_drain cap r = ((ring_live cap r, droppedSinceDrain r),
     r\<lparr>slots := replicate cap None, r_start := 0, r_count := 0, droppedSinceDrain := 0\<rparr>)"

definition ring_wf :: "nat \<Rightarrow> 'x ring \<Rightarrow> bool" where
  "ring_wf cap r \<longleftrightarrow> length (slots r) = cap \<and> r_start r < cap \<and> r_count r \<le> cap"

lemma mod_neq: "i < j \<Longrightarrow> j < cap \<Longrightarrow> (s + i) mod cap \<noteq> (s + j) mod (cap :: nat)"
proof
  assume ij: "i < j" "j < cap" and e: "(s + i) mod cap = (s + j) mod cap"
  then have "cap dvd (s + j) - (s + i)" by (metis mod_eq_dvd_iff_nat add_le_mono less_imp_le order_refl)
  then have "cap \<le> j - i" using ij by (simp add: dvd_imp_le)
  then show False using ij by simp
qed

lemma ring_append_wf: "0 < cap \<Longrightarrow> ring_wf cap r \<Longrightarrow> ring_wf cap (ring_append cap x r)"
  by (auto simp: ring_wf_def ring_append_def drop_one_def Let_def)

lemma live_append_room:
  assumes "0 < cap" "ring_wf cap r" "r_count r < cap"
  shows "ring_live cap (r\<lparr>slots := (slots r)[(r_start r + r_count r) mod cap := Some x], r_count := r_count r + 1\<rparr>) =
    ring_live cap r @ [x]"
proof -
  have "(slots r)[(r_start r + r_count r) mod cap := Some x] ! ((r_start r + i) mod cap) = slots r ! ((r_start r + i) mod cap)"
    if "i < r_count r" for i using mod_neq [OF that assms(3)] by (metis nth_list_update_neq)
  then show ?thesis using assms by (simp add: ring_live_def ring_wf_def)
qed

lemma live_drop_one:
  assumes "0 < cap" "ring_wf cap r" "r_count r = cap"
  shows "ring_live cap (drop_one cap r) = tl (ring_live cap r)" "r_count (drop_one cap r) < cap" "ring_wf cap (drop_one cap r)"
proof -
  have "[0..<cap] = 0 # map Suc [0..<cap - 1]" using assms(1) by (metis Suc_pred map_Suc_upt upt_conv_Cons One_nat_def)
  moreover have "((r_start r + 1) mod cap + i) mod cap = (r_start r + Suc i) mod cap" for i
    by (simp add: mod_add_left_eq)
  ultimately show "ring_live cap (drop_one cap r) = tl (ring_live cap r)"
    using assms by (simp add: ring_live_def drop_one_def comp_def)
qed (use assms in \<open>auto simp: drop_one_def ring_wf_def\<close>)

lemma length_live [simp]: "length (ring_live cap r) = r_count r"
  by (simp add: ring_live_def)

lemma ring_append_live:
  assumes "0 < cap" "ring_wf cap r"
  shows "ring_live cap (ring_append cap x r) =
    (if length (ring_live cap r) = cap then tl (ring_live cap r) else ring_live cap r) @ [x]"
proof -
  let ?r = "r\<lparr>recordedTotal := recordedTotal r + 1\<rparr>"
  have w: "ring_wf cap ?r" "ring_live cap ?r = ring_live cap r" "r_count ?r = r_count r"
    using assms(2) by (simp_all add: ring_wf_def ring_live_def)
  show ?thesis
  proof (cases "r_count r = cap")
    case True
    then show ?thesis using live_append_room [OF assms(1) live_drop_one(3,2) [OF assms(1) w(1)], of x]
        live_drop_one(1) [OF assms(1) w(1)] w by (simp add: ring_append_def Let_def)
  next
    case False
    then have "r_count ?r < cap" "drop_one cap ?r = ?r" using w(1) by (simp_all add: ring_wf_def drop_one_def)
    then show ?thesis using live_append_room [OF assms(1) w(1), of x] w False
      by (simp add: ring_append_def Let_def)
  qed
qed

lemma ring_append_missed:
  "droppedSinceDrain (ring_append cap x r) = droppedSinceDrain r + (if length (ring_live cap r) = cap then 1 else 0)"
  by (simp add: ring_append_def drop_one_def Let_def ring_live_def)

lemma ring_drop_oldest: "0 < cap \<Longrightarrow> drop_oldest cap (ring_wf cap) (ring_append cap) (ring_drain cap) (ring_live cap) droppedSinceDrain"
  by unfold_locales (simp_all add: ring_append_wf ring_append_live ring_append_missed ring_drain_def,
      simp add: ring_wf_def ring_live_def)

lemma represents_ring0: "0 < cap \<Longrightarrow> drop_oldest.represents cap (ring_wf cap) (ring_live cap) droppedSinceDrain (ring0 cap) []"
  by (simp add: drop_oldest.represents_def [OF ring_drop_oldest] report_def ring_wf_def ring0_def ring_live_def)

text \<open>The totals: everything recorded is accounted for by what the ring holds and what it dropped since the last drain.\<close>

lemma ring_append_totals:
  "recordedTotal (ring_append cap x r) = recordedTotal r + 1"
  "droppedTotal (ring_append cap x r) = droppedTotal r + (if r_count r = cap then 1 else 0)"
  by (simp_all add: ring_append_def drop_one_def Let_def)

section \<open>EngineLog\<close>

datatype LogLevel = Trace | Debug | Information | Warning | Error | Critical | None_level

fun level_value :: "LogLevel \<Rightarrow> nat" where
  "level_value Trace = 0" | "level_value Debug = 1" | "level_value Information = 2" | "level_value Warning = 3"
| "level_value Error = 4" | "level_value Critical = 5" | "level_value None_level = 6"

fun level_name :: "LogLevel \<Rightarrow> string" where
  "level_name Trace = ''Trace''" | "level_name Debug = ''Debug''" | "level_name Information = ''Information''"
| "level_name Warning = ''Warning''" | "level_name Error = ''Error''" | "level_name Critical = ''Critical''"
| "level_name None_level = ''None''"

text \<open>A timestamp is a value of the engine's clock, of a type the ring does not look at.\<close>

record 'd LogRecord =
  Level :: string
  Category :: string
  Message :: string
  TimestampUs :: 'd
  LogRequestId :: "string option"
  LogException :: "string option"

definition log_capacity :: nat where "log_capacity = 256"
definition MinLevel :: LogLevel where "MinLevel = Information"

definition log_Append :: "'d LogRecord \<Rightarrow> 'd LogRecord ring \<Rightarrow> 'd LogRecord ring" where
  "log_Append record1 r = ring_append log_capacity record1 r"

definition log_Drain :: "'d LogRecord ring \<Rightarrow> ('d LogRecord list \<times> int) \<times> 'd LogRecord ring" where
  "log_Drain r = ring_drain log_capacity r"

record ring_stats =
  st_capacity :: nat
  st_occupancy :: nat
  st_droppedSinceDrain :: int
  st_recordedTotal :: int
  st_droppedTotal :: int

definition log_Stats :: "'d LogRecord ring \<Rightarrow> ring_stats" where
  "log_Stats r = \<lparr>st_capacity = log_capacity, st_occupancy = r_count r, st_droppedSinceDrain = droppedSinceDrain r,
     st_recordedTotal = recordedTotal r, st_droppedTotal = droppedTotal r\<rparr>"

definition IsEnabled :: "LogLevel \<Rightarrow> LogLevel \<Rightarrow> bool" where
  "IsEnabled minLevel l \<longleftrightarrow> level_value minLevel \<le> level_value l \<and> l \<noteq> None_level"

text \<open>An exception of the .NET runtime: its type's name and its message.\<close>

type_synonym clr_exception = "string \<times> string"

definition make_record :: "string \<Rightarrow> LogLevel \<Rightarrow> string \<Rightarrow> clr_exception option \<Rightarrow> 'd \<Rightarrow> 'd LogRecord" where
  "make_record category l message ex now = \<lparr>Level = level_name l, Category = category, Message = message,
     TimestampUs = now, LogRequestId = None, LogException = map_option (\<lambda>(t, m). t @ '': '' @ m) ex\<rparr>"

definition Log :: "string \<Rightarrow> LogLevel \<Rightarrow> string \<Rightarrow> clr_exception option \<Rightarrow> 'd \<Rightarrow> 'd LogRecord ring \<Rightarrow> 'd LogRecord ring" where
  "Log category l message ex now r =
     (if \<not> IsEnabled MinLevel l then r else log_Append (make_record category l message ex now) r)"

interpretation log_ring: drop_oldest log_capacity "ring_wf log_capacity" log_Append log_Drain "ring_live log_capacity"
    droppedSinceDrain
  using ring_drop_oldest [of log_capacity]
  by (simp add: drop_oldest_def log_Append_def log_Drain_def log_capacity_def)

text \<open>A use of the log: a call of a logger, or a drain.\<close>

datatype 'd log_op = Log_call string LogLevel string "clr_exception option" 'd | Log_drain

fun log_run :: "'d log_op list \<Rightarrow> 'd LogRecord ring \<Rightarrow> ('d LogRecord list \<times> int) list \<times> 'd LogRecord ring" where
  "log_run [] r = ([], r)"
| "log_run (Log_call c l m ex now # ops) r = log_run ops (Log c l m ex now r)"
| "log_run (Log_drain # ops) r = (let (d, r) = log_Drain r; (ds, r) = log_run ops r in (d # ds, r))"

fun log_events :: "'d log_op list \<Rightarrow> 'd LogRecord ring_event list" where
  "log_events [] = []"
| "log_events (Log_call c l m ex now # ops) =
     (if IsEnabled MinLevel l then [Put (make_record c l m ex now)] else []) @ log_events ops"
| "log_events (Log_drain # ops) = Drained # log_events ops"

lemma log_run_journal: "log_run ops r = log_ring.journal r (log_events ops)"
proof (induction ops arbitrary: r)
  case (Cons o1 ops)
  then show ?case by (cases o1) (auto simp: Log_def Let_def split_beta)
qed simp

text \<open>C31. Whatever is logged and however often the ring is drained, each drain returns the latest 256 records of level
  Information or above since the drain before it, in order, and the number of the older ones it had to drop.\<close>

theorem log_drains_exact:
  "fst (log_run ops (ring0 256)) = map (report 256) (segments [] (log_events ops))"
proof -
  have "log_ring.represents (ring0 256) []"
    using represents_ring0 [of log_capacity] by (simp add: log_capacity_def)
  from log_ring.journal_correct [OF this, of "log_events ops"] show ?thesis
    by (simp add: log_run_journal log_capacity_def)
qed

lemma level_enabled: "IsEnabled MinLevel l \<longleftrightarrow> l \<in> {Information, Warning, Error, Critical}"
  by (cases l) (simp_all add: IsEnabled_def MinLevel_def)

lemma log_events_puts: "puts (log_events ops) =
    concat (map (\<lambda>o1. case o1 of Log_call c l m ex now \<Rightarrow>
      if l \<in> {Information, Warning, Error, Critical} then [make_record c l m ex now] else [] | Log_drain \<Rightarrow> []) ops)"
  by (induction ops rule: log_events.induct) (auto simp: level_enabled)

text \<open>Nothing vanishes without a count: the records of the enabled levels are the ones drained, the ones reported dropped,
  the ones in the ring and the drops not yet reported.\<close>

theorem log_accounts:
  "case log_run ops (ring0 256) of (ds, r) \<Rightarrow>
     int (length (puts (log_events ops))) =
       (\<Sum>(xs, d) \<leftarrow> ds. int (length xs) + d) + int (st_occupancy (log_Stats r)) + st_droppedSinceDrain (log_Stats r)"
proof -
  have "log_ring.represents (ring0 256) []"
    using represents_ring0 [of log_capacity] by (simp add: log_capacity_def)
  moreover obtain ds r where "log_ring.journal (ring0 256) (log_events ops) = (ds, r)" by fastforce
  ultimately show ?thesis
    using log_ring.journal_accounts [of "ring0 256" "log_events ops" ds r] by (simp add: log_run_journal log_Stats_def)
qed

section \<open>EngineMetrics\<close>

text \<open>Doubles enter through the operations the code uses on them.\<close>

record 'd double_ops =
  d_add :: "'d \<Rightarrow> 'd \<Rightarrow> 'd"
  d_sub :: "'d \<Rightarrow> 'd \<Rightarrow> 'd"
  d_less :: "'d \<Rightarrow> 'd \<Rightarrow> bool"
  d_round1 :: "'d \<Rightarrow> 'd"
  d_zero :: 'd
  d_posinf :: 'd
  d_neginf :: 'd

record 'd DurationAccumulator =
  Count :: int
  Sum :: 'd
  Min :: 'd
  Max :: 'd

record 'd metrics =
  spansRecorded :: int
  spansDropped :: int
  requestsFfi :: int
  requestsHttp :: int
  requestsSqlite :: int
  requestsPb :: int
  agentTurns :: int
  agentToolCalls :: "string \<rightharpoonup> int"
  operationDurations :: "string \<rightharpoonup> 'd DurationAccumulator"

definition metrics0 :: "'d metrics" where
  "metrics0 = \<lparr>spansRecorded = 0, spansDropped = 0, requestsFfi = 0, requestsHttp = 0, requestsSqlite = 0, requestsPb = 0,
     agentTurns = 0, agentToolCalls = Map.empty, operationDurations = Map.empty\<rparr>"

type_synonym tags = "(string \<times> string option) list"

fun TagValue :: "tags \<Rightarrow> string \<Rightarrow> string option" where
  "TagValue [] key = None"
| "TagValue ((k, v) # kvs) key = (if k = key then v else TagValue kvs key)"

definition AddRequest :: "string option \<Rightarrow> int \<Rightarrow> 'd metrics \<Rightarrow> 'd metrics" where
  "AddRequest transport delta m =
     (if transport = Some ''ffi'' then m\<lparr>requestsFfi := requestsFfi m + delta\<rparr>
      else if transport = Some ''http'' then m\<lparr>requestsHttp := requestsHttp m + delta\<rparr>
      else if transport = Some ''sqlite'' then m\<lparr>requestsSqlite := requestsSqlite m + delta\<rparr>
      else if transport = Some ''pb'' then m\<lparr>requestsPb := requestsPb m + delta\<rparr>
      else m)"

definition OnLongMeasurement :: "string \<Rightarrow> int \<Rightarrow> tags \<Rightarrow> 'd metrics \<Rightarrow> 'd metrics" where
  "OnLongMeasurement instrument measurement ts m =
     (if instrument = ''dni.spans.recorded'' then m\<lparr>spansRecorded := spansRecorded m + measurement\<rparr>
      else if instrument = ''dni.spans.dropped'' then m\<lparr>spansDropped := spansDropped m + measurement\<rparr>
      else if instrument = ''dni.requests'' then AddRequest (TagValue ts ''dni.transport'') measurement m
      else if instrument = ''dni.agent.turns'' then m\<lparr>agentTurns := agentTurns m + measurement\<rparr>
      else if instrument = ''dni.agent.tool_calls'' then
        (let tool = (case TagValue ts ''dni.tool'' of Some t \<Rightarrow> t | None \<Rightarrow> ''(unknown)'') in
         m\<lparr>agentToolCalls := (agentToolCalls m)(tool \<mapsto> (case agentToolCalls m tool of Some n \<Rightarrow> n | None \<Rightarrow> 0) + measurement)\<rparr>)
      else m)"

definition OnDoubleMeasurement :: "'d double_ops \<Rightarrow> string \<Rightarrow> 'd \<Rightarrow> tags \<Rightarrow> 'd metrics \<Rightarrow> 'd metrics" where
  "OnDoubleMeasurement D instrument measurement ts m =
     (if instrument \<noteq> ''dni.span.duration'' then m else
      let op = (case TagValue ts ''dni.op'' of Some t \<Rightarrow> t | None \<Rightarrow> ''(unknown)'');
          acc = (case operationDurations m op of Some a \<Rightarrow> a
                 | None \<Rightarrow> \<lparr>Count = 0, Sum = d_zero D, Min = d_posinf D, Max = d_neginf D\<rparr>);
          acc = acc\<lparr>Count := Count acc + 1, Sum := d_add D (Sum acc) measurement\<rparr>;
          acc = (if d_less D measurement (Min acc) then acc\<lparr>Min := measurement\<rparr> else acc);
          acc = (if d_less D (Max acc) measurement then acc\<lparr>Max := measurement\<rparr> else acc)
      in m\<lparr>operationDurations := (operationDurations m)(op \<mapsto> acc)\<rparr>)"

section \<open>EngineTrace\<close>

datatype ActivityStatus = Status_Unset | Status_Ok | Status_Error

record 'd activity =
  OperationName :: string
  Duration :: 'd
  activity_status :: ActivityStatus
  tag_request_id :: "string option"
  tag_tool_args :: "string option"
  tag_tool_result :: "string option"

record 'd TraceSpan =
  Name :: string
  StartUs :: 'd
  DurUs :: 'd
  SpanRequestId :: "string option"
  SpanStatus :: "string option"
  ToolArgs :: "string option"
  ToolResult :: "string option"

record 'd trace =
  spans :: "'d TraceSpan ring"
  meter :: "'d metrics"

definition trace_capacity :: nat where "trace_capacity = 512"

fun status_name :: "ActivityStatus \<Rightarrow> string option" where
  "status_name Status_Unset = None" | "status_name Status_Ok = Some ''Ok''" | "status_name Status_Error = Some ''Error''"

definition StartSpan :: "string \<Rightarrow> string option \<Rightarrow> 'd \<Rightarrow> 'd activity" where
  "StartSpan name requestId dur = \<lparr>OperationName = name, Duration = dur, activity_status = Status_Unset,
     tag_request_id = (case requestId of Some r \<Rightarrow> if r = '''' then None else Some r | None \<Rightarrow> None),
     tag_tool_args = None, tag_tool_result = None\<rparr>"

definition RecordRequest :: "string \<Rightarrow> 'd trace \<Rightarrow> 'd trace" where
  "RecordRequest transport t = t\<lparr>meter := OnLongMeasurement ''dni.requests'' 1 [(''dni.transport'', Some transport)] (meter t)\<rparr>"

definition RecordAgentTurn :: "'d trace \<Rightarrow> 'd trace" where
  "RecordAgentTurn t = t\<lparr>meter := OnLongMeasurement ''dni.agent.turns'' 1 [] (meter t)\<rparr>"

definition RecordAgentToolCall :: "string \<Rightarrow> 'd trace \<Rightarrow> 'd trace" where
  "RecordAgentToolCall tool t = t\<lparr>meter := OnLongMeasurement ''dni.agent.tool_calls'' 1 [(''dni.tool'', Some tool)] (meter t)\<rparr>"

definition make_span :: "'d double_ops \<Rightarrow> 'd \<Rightarrow> 'd activity \<Rightarrow> 'd TraceSpan" where
  "make_span D now a = \<lparr>Name = OperationName a, StartUs = d_round1 D (d_sub D now (Duration a)),
     DurUs = d_round1 D (Duration a), SpanRequestId = tag_request_id a, SpanStatus = status_name (activity_status a),
     ToolArgs = tag_tool_args a, ToolResult = tag_tool_result a\<rparr>"

text \<open>\<open>Record\<close>, called when an activity stops: two instruments, then the ring; an overflow also feeds an instrument.\<close>

definition Record :: "'d double_ops \<Rightarrow> 'd \<Rightarrow> 'd activity \<Rightarrow> 'd trace \<Rightarrow> 'd trace" where
  "Record D now a t = (let
     m = OnLongMeasurement ''dni.spans.recorded'' 1 [] (meter t);
     m = OnDoubleMeasurement D ''dni.span.duration'' (Duration a) [(''dni.op'', Some (OperationName a))] m;
     m = (if r_count (spans t) = trace_capacity then OnLongMeasurement ''dni.spans.dropped'' 1 [] m else m)
   in \<lparr>spans = ring_append trace_capacity (make_span D now a) (spans t), meter = m\<rparr>)"

definition trace_Drain :: "'d trace \<Rightarrow> ('d TraceSpan list \<times> int) \<times> 'd trace" where
  "trace_Drain t = (case ring_drain trace_capacity (spans t) of (d, r) \<Rightarrow> (d, t\<lparr>spans := r\<rparr>))"

definition trace_Stats :: "'d trace \<Rightarrow> ring_stats" where
  "trace_Stats t = \<lparr>st_capacity = trace_capacity, st_occupancy = r_count (spans t),
     st_droppedSinceDrain = droppedSinceDrain (spans t), st_recordedTotal = recordedTotal (spans t),
     st_droppedTotal = droppedTotal (spans t)\<rparr>"

definition trace0 :: "'d trace" where
  "trace0 = \<lparr>spans = ring0 trace_capacity, meter = metrics0\<rparr>"

text \<open>The ring of the tracer, fed with finished spans.\<close>

interpretation trace_ring: drop_oldest trace_capacity "ring_wf trace_capacity" "ring_append trace_capacity"
    "ring_drain trace_capacity" "ring_live trace_capacity" droppedSinceDrain
  by (rule ring_drop_oldest) (simp add: trace_capacity_def)

text \<open>A use of the tracer: a stopped activity with the clock at that moment, a request or agent count, or a drain.\<close>

datatype 'd trace_op = Stop 'd "'d activity" | Request string | Turn | Tool_call string | Trace_drain

fun trace_run :: "'d double_ops \<Rightarrow> 'd trace_op list \<Rightarrow> 'd trace \<Rightarrow> ('d TraceSpan list \<times> int) list \<times> 'd trace" where
  "trace_run D [] t = ([], t)"
| "trace_run D (Stop now a # ops) t = trace_run D ops (Record D now a t)"
| "trace_run D (Request tr # ops) t = trace_run D ops (RecordRequest tr t)"
| "trace_run D (Turn # ops) t = trace_run D ops (RecordAgentTurn t)"
| "trace_run D (Tool_call x # ops) t = trace_run D ops (RecordAgentToolCall x t)"
| "trace_run D (Trace_drain # ops) t = (let (d, t) = trace_Drain t; (ds, t) = trace_run D ops t in (d # ds, t))"

fun trace_events :: "'d double_ops \<Rightarrow> 'd trace_op list \<Rightarrow> 'd TraceSpan ring_event list" where
  "trace_events D [] = []"
| "trace_events D (Stop now a # ops) = Put (make_span D now a) # trace_events D ops"
| "trace_events D (Request tr # ops) = trace_events D ops"
| "trace_events D (Turn # ops) = trace_events D ops"
| "trace_events D (Tool_call x # ops) = trace_events D ops"
| "trace_events D (Trace_drain # ops) = Drained # trace_events D ops"

lemmas record_defs = RecordRequest_def RecordAgentTurn_def RecordAgentToolCall_def OnLongMeasurement_def

lemma trace_run_journal:
  "fst (trace_run D ops t) = fst (trace_ring.journal (spans t) (trace_events D ops)) \<and>
   spans (snd (trace_run D ops t)) = snd (trace_ring.journal (spans t) (trace_events D ops))"
proof (induction ops arbitrary: t)
  case (Cons o1 ops)
  then show ?case by (cases o1) (auto simp: Record_def Let_def split_beta trace_Drain_def record_defs)
qed simp

text \<open>Each drain of the tracer returns the latest 512 spans stopped since the drain before it, in order, with the number of
  spans it had to drop.\<close>

theorem trace_drains_exact:
  "fst (trace_run D ops trace0) = map (report 512) (segments [] (trace_events D ops))"
proof -
  have "trace_ring.represents (ring0 trace_capacity) []"
    using represents_ring0 [of trace_capacity] by (simp add: trace_capacity_def)
  from trace_ring.journal_correct [OF this, of "trace_events D ops"] show ?thesis
    using trace_run_journal [of D ops trace0] by (simp add: trace0_def trace_capacity_def)
qed

text \<open>The durations recorded per operation.\<close>

definition op_count :: "'d metrics \<Rightarrow> string \<Rightarrow> int" where
  "op_count m op = (case operationDurations m op of None \<Rightarrow> 0 | Some a \<Rightarrow> Count a)"

definition stops :: "string \<Rightarrow> 'd trace_op list \<Rightarrow> nat" where
  "stops op ops = length (filter (\<lambda>o1. case o1 of Stop now a \<Rightarrow> OperationName a = op | _ \<Rightarrow> False) ops)"

definition requests :: "string \<Rightarrow> 'd trace_op list \<Rightarrow> nat" where
  "requests tr ops = length (filter (\<lambda>o1. o1 = Request tr) ops)"

definition turns :: "'d trace_op list \<Rightarrow> nat" where
  "turns ops = length (filter (\<lambda>o1. o1 = Turn) ops)"

definition tool_calls :: "string \<Rightarrow> 'd trace_op list \<Rightarrow> nat" where
  "tool_calls tool ops = length (filter (\<lambda>o1. o1 = Tool_call tool) ops)"

lemmas op_counts = stops_def requests_def turns_def tool_calls_def

text \<open>The counters the exports read, by name.\<close>

definition counters :: "'d metrics \<Rightarrow> int list" where
  "counters m = [requestsFfi m, requestsHttp m, requestsSqlite m, requestsPb m, agentTurns m]"

definition calls_made :: "'d trace_op list \<Rightarrow> int list" where
  "calls_made ops = map (\<lambda>tr. int (requests tr ops)) [''ffi'', ''http'', ''sqlite'', ''pb''] @ [int (turns ops)]"

definition tool_count :: "'d metrics \<Rightarrow> string \<Rightarrow> int" where
  "tool_count m tool = (case agentToolCalls m tool of None \<Rightarrow> 0 | Some n \<Rightarrow> n)"

lemma op_count_Record: "op_count (meter (Record D now a t)) op = op_count (meter t) op + of_bool (OperationName a = op)"
  by (simp add: Record_def Let_def OnLongMeasurement_def OnDoubleMeasurement_def op_count_def split: option.splits)

lemma Record_totals:
  "spansRecorded (meter (Record D now a t)) = spansRecorded (meter t) + 1"
  "spansDropped (meter (Record D now a t)) = spansDropped (meter t) + of_bool (r_count (spans t) = trace_capacity)"
  "counters (meter (Record D now a t)) = counters (meter t)" "tool_count (meter (Record D now a t)) = tool_count (meter t)"
  "recordedTotal (spans (Record D now a t)) = recordedTotal (spans t) + 1"
  "droppedTotal (spans (Record D now a t)) = droppedTotal (spans t) + of_bool (r_count (spans t) = trace_capacity)"
  by (simp_all add: Record_def Let_def OnLongMeasurement_def OnDoubleMeasurement_def ring_append_totals counters_def tool_count_def
    fun_eq_iff)

lemma metrics_run:
  assumes "spansRecorded (meter t) = recordedTotal (spans t)" "spansDropped (meter t) = droppedTotal (spans t)"
  shows "let t' = snd (trace_run D ops t) in
    spansRecorded (meter t') = recordedTotal (spans t') \<and> spansDropped (meter t') = droppedTotal (spans t') \<and>
    op_count (meter t') op = op_count (meter t) op + int (stops op ops) \<and>
    counters (meter t') = map2 (+) (counters (meter t)) (calls_made ops) \<and>
    tool_count (meter t') tool = tool_count (meter t) tool + int (tool_calls tool ops)"
  using assms
proof (induction ops arbitrary: t)
  case Nil
  then show ?case by (simp add: op_counts counters_def calls_made_def)
next
  case (Cons o1 ops)
  show ?case
  proof (cases o1)
    case (Stop now a)
    then show ?thesis using Cons.IH [of "Record D now a t"] Cons.prems
      by (simp add: Record_totals op_count_Record Let_def op_counts calls_made_def)
  next
    case Trace_drain
    then show ?thesis using Cons.IH [of "snd (trace_Drain t)"] Cons.prems
      by (simp add: trace_Drain_def ring_drain_def Let_def op_counts calls_made_def split_beta)
  next
    case (Request x2)
    then show ?thesis using Cons.IH [of "RecordRequest x2 t"] Cons.prems
      by (auto simp: record_defs AddRequest_def op_count_def tool_count_def Let_def op_counts calls_made_def counters_def)
  next
    case Turn
    then show ?thesis using Cons.IH [of "RecordAgentTurn t"] Cons.prems
      by (simp add: record_defs op_count_def tool_count_def Let_def op_counts calls_made_def counters_def)
  next
    case (Tool_call x)
    then show ?thesis using Cons.IH [of "RecordAgentToolCall x t"] Cons.prems
      by (auto simp: record_defs op_count_def tool_count_def Let_def op_counts calls_made_def counters_def split: option.splits)
  qed
qed

text \<open>C32. The metrics agree with the tracer and with the calls that were made: the counters of recorded and dropped spans are
  the totals of the ring, each operation's duration count is the number of its stopped spans, and the requests of each
  transport, the agent's turns and the calls of each tool are counted once each.\<close>

theorem metrics_agree:
  "let t = snd (trace_run D ops trace0) in
     spansRecorded (meter t) = st_recordedTotal (trace_Stats t) \<and> spansDropped (meter t) = st_droppedTotal (trace_Stats t) \<and>
     op_count (meter t) op = int (stops op ops) \<and> counters (meter t) = calls_made ops \<and>
     tool_count (meter t) tool = int (tool_calls tool ops)"
  using metrics_run [of trace0 D ops op tool]
  by (simp add: trace0_def metrics0_def ring0_def op_count_def tool_count_def counters_def calls_made_def trace_Stats_def Let_def)

end
