(* ===== verification/Foreman_Trace.thy ===== *)
theory Foreman_Trace
  imports Foreman_Agent Engine_Ring
begin

text \<open>
  The trace of an agent's turn through the engine's tracer: the events a turn leaves (\<^verbatim>\<open>ForemanAgent.cs\<close>) are calls of
  \<^verbatim>\<open>EngineTrace.cs\<close>, with the clock and the duration of each span. The tracer keeps strings as they are sent to a client, so the
  encoding of a C# string is a parameter. The theorem: a drain after a turn returns the spans of that turn, all of them and
  nothing else, and the counters have grown by the turn and its calls.
\<close>

section \<open>The calls a turn makes\<close>

fun trace_op_of :: "(cs_string \<Rightarrow> string) \<Rightarrow> 'd \<times> 'd \<Rightarrow> agent_event \<Rightarrow> 'd trace_op" where
  "trace_op_of enc t Turn_counted = Turn"
| "trace_op_of enc t (Tool_counted n) = Tool_call (enc n)"
| "trace_op_of enc (now, dur) (Tool_span n args out) =
     Stop now ((StartSpan (''agent.tool.'' @ enc n) None dur)\<lparr>tag_tool_args := Some (enc args), tag_tool_result := map_option enc out\<rparr>)"
| "trace_op_of enc (now, dur) Turn_span = Stop now (StartSpan ''agent.turn'' None dur)"

definition turn_ops :: "(cs_string \<Rightarrow> string) \<Rightarrow> ('d \<times> 'd) list \<Rightarrow> agent_event list \<Rightarrow> 'd trace_op list" where
  "turn_ops enc ts es = map2 (trace_op_of enc) ts es"

text \<open>The span that an event leaves in the ring, if it leaves one.\<close>

fun span_of :: "'d double_ops \<Rightarrow> (cs_string \<Rightarrow> string) \<Rightarrow> ('d \<times> 'd) \<times> agent_event \<Rightarrow> 'd TraceSpan option" where
  "span_of D enc ((now, dur), Tool_span n args out) = Some \<lparr>Name = ''agent.tool.'' @ enc n, StartUs = d_round1 D (d_sub D now dur),
     DurUs = d_round1 D dur, SpanRequestId = None, SpanStatus = None, ToolArgs = Some (enc args), ToolResult = map_option enc out\<rparr>"
| "span_of D enc ((now, dur), Turn_span) = Some \<lparr>Name = ''agent.turn'', StartUs = d_round1 D (d_sub D now dur),
     DurUs = d_round1 D dur, SpanRequestId = None, SpanStatus = None, ToolArgs = None, ToolResult = None\<rparr>"
| "span_of D enc (t, e) = None"

section \<open>What a drain returns\<close>

lemma segments_Puts: "segments ps (map Put xs) = []" "current ps (map Put xs) = ps @ xs"
  by (induction xs arbitrary: ps) simp_all

lemma segments_drained: "segments ps (es @ Drained # fs) = segments ps es @ current ps es # segments [] fs"
  by (induction ps es rule: segments.induct) simp_all

lemma trace_events_append: "trace_events D (ops @ ops') = trace_events D ops @ trace_events D ops'"
  by (induction D ops rule: trace_events.induct) simp_all

lemma turn_events: "trace_events D (turn_ops enc ts es) = map Put (List.map_filter (span_of D enc) (zip ts es))"
proof -
  have "trace_events D (map2 (trace_op_of enc) ts es) = map Put (List.map_filter (span_of D enc) (zip ts es))"
  proof (induction ts es rule: list_induct2')
    case (4 t ts e es)
    then show ?case
      by (cases t; cases e) (simp_all add: List.map_filter_simps make_span_def StartSpan_def)
  qed (simp_all add: List.map_filter_simps)
  then show ?thesis by (simp add: turn_ops_def)
qed

lemma length_map_filter: "length (List.map_filter f xs) \<le> length xs"
  by (simp add: List.map_filter_def)

lemma length_trail_of: "even (length ss) \<Longrightarrow> length (trail_of ss) = length ss"
  by (induction ss rule: trail_of.induct) auto

lemma turn_ops_counts:
  assumes "length ts = length es"
  shows "turns (turn_ops enc ts es) = length (filter (\<lambda>e. e = Turn_counted) es)"
    "tool_calls x (turn_ops enc ts es) = length (filter (\<lambda>e. case e of Tool_counted n \<Rightarrow> enc n = x | _ \<Rightarrow> False) es)"
proof -
  have *: "turns (map2 (trace_op_of enc) ts es) = length (filter (\<lambda>e. e = Turn_counted) es) \<and>
    tool_calls x (map2 (trace_op_of enc) ts es) = length (filter (\<lambda>e. case e of Tool_counted n \<Rightarrow> enc n = x | _ \<Rightarrow> False) es)"
    using assms
  proof (induction ts es rule: list_induct2)
    case (Cons t ts e es)
    then show ?case by (cases t; cases e) (simp_all add: turns_def tool_calls_def)
  qed (simp add: turns_def tool_calls_def)
  show "turns (turn_ops enc ts es) = length (filter (\<lambda>e. e = Turn_counted) es)"
    "tool_calls x (turn_ops enc ts es) = length (filter (\<lambda>e. case e of Tool_counted n \<Rightarrow> enc n = x | _ \<Rightarrow> False) es)"
    using * by (simp_all add: turn_ops_def)
qed

lemma trail_of_turns: "filter (\<lambda>e. e = Turn_counted) (trail_of ss) = []"
  by (induction ss rule: trail_of.induct) simp_all

text \<open>C17. A turn between two drains: the second returns the spans of the turn's calls, in their order and with their bounded
  arguments and results, and then the turn's own, and reports nothing dropped; the turn is counted once and each call once
  under the name of its tool.\<close>

theorem turn_traced:
  assumes "RunTurnAsync tools B query conv s = (Inr res, conv', st)" "length ts = length (trail st)"
  shows "let ops = before @ Trace_drain # turn_ops enc ts (trail st) @ [Trace_drain];
             m0 = meter (snd (trace_run D before trace0)); m = meter (snd (trace_run D ops trace0)) in
     last (fst (trace_run D ops trace0)) = (List.map_filter (span_of D enc) (zip ts (trail st)), 0) \<and>
     trail st = Turn_counted # trail_of (Steps (ctx st)) @ [Turn_span] \<and>
     agentTurns m = agentTurns m0 + 1 \<and>
     tool_count m x = tool_count m0 x + int (length (filter (\<lambda>e. case e of Tool_counted n \<Rightarrow> enc n = x | _ \<Rightarrow> False) (trail st)))"
proof -
  define es where "es = trail st"
  define ops where "ops = before @ Trace_drain # turn_ops enc ts es @ [Trace_drain]"
  have t: "es = Turn_counted # trail_of (Steps (ctx st)) @ [Turn_span]" "length (Steps (ctx st)) \<le> 10" "even (length (Steps (ctx st)))"
    using turn_result [OF assms(1)] by (auto simp: es_def)
  let ?xs = "List.map_filter (span_of D enc) (zip ts es)"
  have "length ?xs \<le> 512"
    using length_map_filter [of "span_of D enc" "zip ts es"] t length_trail_of [OF t(3)] by simp
  moreover have "segments [] (trace_events D ops) = segments [] (trace_events D before) @ current [] (trace_events D before) # [?xs]"
    by (simp add: ops_def trace_events_append turn_events segments_drained segments_Puts)
  ultimately have d: "last (fst (trace_run D ops trace0)) = (?xs, 0)"
    by (simp add: trace_drains_exact report_def)
  define m m0 where "m = meter (snd (trace_run D ops trace0))" "m0 = meter (snd (trace_run D before trace0))"
  have run: "counters m = calls_made ops" "tool_count m x = int (tool_calls x ops)"
    "counters m0 = calls_made before" "tool_count m0 x = int (tool_calls x before)"
    using metrics_run [of trace0 D ops _ x] metrics_run [of trace0 D before _ x]
    by (simp_all add: trace0_def metrics0_def ring0_def Let_def m_m0_def counters_def calls_made_def tool_count_def)
  note c = turn_ops_counts [OF assms(2) [folded es_def], where enc = enc]
  have "turns ops = turns before + 1"
    using c(1) t(1) by (simp add: ops_def turns_def trail_of_turns)
  then have "agentTurns m = agentTurns m0 + 1" using run(1,3) by (simp add: counters_def calls_made_def)
  moreover have "tool_count m x = tool_count m0 x + int (length (filter (\<lambda>e. case e of Tool_counted n \<Rightarrow> enc n = x | _ \<Rightarrow> False) es))"
    using c(2) [where x = x] run(2,4) by (simp add: ops_def tool_calls_def)
  ultimately show ?thesis using d t(1) by (simp add: Let_def m_m0_def ops_def es_def)
qed

definition demo_doubles :: "int double_ops" where
  "demo_doubles = \<lparr>d_add = (+), d_sub = (-), d_less = (<), d_round1 = id, d_zero = 0, d_posinf = 1000, d_neginf = - 1000\<rparr>"

theorem turn_traced_witness:
  "\<exists>res conv' st. RunTurnAsync demo_tools demo_brain (lit ''hi'') (Some []) () = (Inr res, conv', st) \<and>
     agentTurns (meter (snd (trace_run demo_doubles ([Request ''ffi''] @ Trace_drain #
       turn_ops (\<lambda>s. ''tool'') (replicate (length (trail st)) (5, 2)) (trail st) @ [Trace_drain]) trace0))) = 1"
proof -
  obtain r conv' st where "RunTurnAsync demo_tools demo_brain (lit ''hi'') (Some []) () = (r, conv', st)" by (metis surj_pair)
  then obtain res where r: "RunTurnAsync demo_tools demo_brain (lit ''hi'') (Some []) () = (Inr res, conv', st)" using demo_turn by auto
  have "agentTurns (meter (snd (trace_run demo_doubles [Request ''ffi''] trace0))) = 0"
    by (simp add: trace0_def metrics0_def record_defs AddRequest_def)
  moreover have "length (replicate (length (trail st)) (5 :: int, 2 :: int)) = length (trail st)" by simp
  note t = turn_traced [OF r this, of "[Request ''ffi'']" "\<lambda>s. ''tool''" demo_doubles "''tool''", unfolded Let_def]
  ultimately show ?thesis using r t [THEN conjunct2, THEN conjunct2, THEN conjunct1] by (simp del: trace_run.simps append.simps)
qed

end
