(* ===== verification/Ort_Types.thy ===== *)
theory Ort_Types
  imports Prelude
begin

text \<open>
  The data types of the vendored ONNX Runtime headers: the enumerations of \<^verbatim>\<open>onnxruntime_c_api.h\<close> with
  their numeric values, the execution provider option structs with the defaults of their constructors,
  the Core ML flags of \<^verbatim>\<open>coreml_provider_factory.h\<close>, and from the C++ headers the 8-bit float types
  and the template \<open>TypeToTensorType\<close> that gives a C++ element type its tensor element type.
\<close>

section \<open>Enumerations\<close>

datatype ONNXTensorElementDataType =
    ONNX_TENSOR_ELEMENT_DATA_TYPE_UNDEFINED
  | ONNX_TENSOR_ELEMENT_DATA_TYPE_FLOAT
  | ONNX_TENSOR_ELEMENT_DATA_TYPE_UINT8
  | ONNX_TENSOR_ELEMENT_DATA_TYPE_INT8
  | ONNX_TENSOR_ELEMENT_DATA_TYPE_UINT16
  | ONNX_TENSOR_ELEMENT_DATA_TYPE_INT16
  | ONNX_TENSOR_ELEMENT_DATA_TYPE_INT32
  | ONNX_TENSOR_ELEMENT_DATA_TYPE_INT64
  | ONNX_TENSOR_ELEMENT_DATA_TYPE_STRING
  | ONNX_TENSOR_ELEMENT_DATA_TYPE_BOOL
  | ONNX_TENSOR_ELEMENT_DATA_TYPE_FLOAT16
  | ONNX_TENSOR_ELEMENT_DATA_TYPE_DOUBLE
  | ONNX_TENSOR_ELEMENT_DATA_TYPE_UINT32
  | ONNX_TENSOR_ELEMENT_DATA_TYPE_UINT64
  | ONNX_TENSOR_ELEMENT_DATA_TYPE_COMPLEX64
  | ONNX_TENSOR_ELEMENT_DATA_TYPE_COMPLEX128
  | ONNX_TENSOR_ELEMENT_DATA_TYPE_BFLOAT16
  | ONNX_TENSOR_ELEMENT_DATA_TYPE_FLOAT8E4M3FN
  | ONNX_TENSOR_ELEMENT_DATA_TYPE_FLOAT8E4M3FNUZ
  | ONNX_TENSOR_ELEMENT_DATA_TYPE_FLOAT8E5M2
  | ONNX_TENSOR_ELEMENT_DATA_TYPE_FLOAT8E5M2FNUZ
  | ONNX_TENSOR_ELEMENT_DATA_TYPE_UINT4
  | ONNX_TENSOR_ELEMENT_DATA_TYPE_INT4

primrec ONNXTensorElementDataType_value :: "ONNXTensorElementDataType \<Rightarrow> int" where
  "ONNXTensorElementDataType_value ONNX_TENSOR_ELEMENT_DATA_TYPE_UNDEFINED = 0"
| "ONNXTensorElementDataType_value ONNX_TENSOR_ELEMENT_DATA_TYPE_FLOAT = 1"
| "ONNXTensorElementDataType_value ONNX_TENSOR_ELEMENT_DATA_TYPE_UINT8 = 2"
| "ONNXTensorElementDataType_value ONNX_TENSOR_ELEMENT_DATA_TYPE_INT8 = 3"
| "ONNXTensorElementDataType_value ONNX_TENSOR_ELEMENT_DATA_TYPE_UINT16 = 4"
| "ONNXTensorElementDataType_value ONNX_TENSOR_ELEMENT_DATA_TYPE_INT16 = 5"
| "ONNXTensorElementDataType_value ONNX_TENSOR_ELEMENT_DATA_TYPE_INT32 = 6"
| "ONNXTensorElementDataType_value ONNX_TENSOR_ELEMENT_DATA_TYPE_INT64 = 7"
| "ONNXTensorElementDataType_value ONNX_TENSOR_ELEMENT_DATA_TYPE_STRING = 8"
| "ONNXTensorElementDataType_value ONNX_TENSOR_ELEMENT_DATA_TYPE_BOOL = 9"
| "ONNXTensorElementDataType_value ONNX_TENSOR_ELEMENT_DATA_TYPE_FLOAT16 = 10"
| "ONNXTensorElementDataType_value ONNX_TENSOR_ELEMENT_DATA_TYPE_DOUBLE = 11"
| "ONNXTensorElementDataType_value ONNX_TENSOR_ELEMENT_DATA_TYPE_UINT32 = 12"
| "ONNXTensorElementDataType_value ONNX_TENSOR_ELEMENT_DATA_TYPE_UINT64 = 13"
| "ONNXTensorElementDataType_value ONNX_TENSOR_ELEMENT_DATA_TYPE_COMPLEX64 = 14"
| "ONNXTensorElementDataType_value ONNX_TENSOR_ELEMENT_DATA_TYPE_COMPLEX128 = 15"
| "ONNXTensorElementDataType_value ONNX_TENSOR_ELEMENT_DATA_TYPE_BFLOAT16 = 16"
| "ONNXTensorElementDataType_value ONNX_TENSOR_ELEMENT_DATA_TYPE_FLOAT8E4M3FN = 17"
| "ONNXTensorElementDataType_value ONNX_TENSOR_ELEMENT_DATA_TYPE_FLOAT8E4M3FNUZ = 18"
| "ONNXTensorElementDataType_value ONNX_TENSOR_ELEMENT_DATA_TYPE_FLOAT8E5M2 = 19"
| "ONNXTensorElementDataType_value ONNX_TENSOR_ELEMENT_DATA_TYPE_FLOAT8E5M2FNUZ = 20"
| "ONNXTensorElementDataType_value ONNX_TENSOR_ELEMENT_DATA_TYPE_UINT4 = 21"
| "ONNXTensorElementDataType_value ONNX_TENSOR_ELEMENT_DATA_TYPE_INT4 = 22"

datatype ONNXType =
    ONNX_TYPE_UNKNOWN
  | ONNX_TYPE_TENSOR
  | ONNX_TYPE_SEQUENCE
  | ONNX_TYPE_MAP
  | ONNX_TYPE_OPAQUE
  | ONNX_TYPE_SPARSETENSOR
  | ONNX_TYPE_OPTIONAL

primrec ONNXType_value :: "ONNXType \<Rightarrow> int" where
  "ONNXType_value ONNX_TYPE_UNKNOWN = 0"
| "ONNXType_value ONNX_TYPE_TENSOR = 1"
| "ONNXType_value ONNX_TYPE_SEQUENCE = 2"
| "ONNXType_value ONNX_TYPE_MAP = 3"
| "ONNXType_value ONNX_TYPE_OPAQUE = 4"
| "ONNXType_value ONNX_TYPE_SPARSETENSOR = 5"
| "ONNXType_value ONNX_TYPE_OPTIONAL = 6"

datatype OrtSparseFormat =
    ORT_SPARSE_UNDEFINED
  | ORT_SPARSE_COO
  | ORT_SPARSE_CSRC
  | ORT_SPARSE_BLOCK_SPARSE

primrec OrtSparseFormat_value :: "OrtSparseFormat \<Rightarrow> int" where
  "OrtSparseFormat_value ORT_SPARSE_UNDEFINED = 0"
| "OrtSparseFormat_value ORT_SPARSE_COO = 1"
| "OrtSparseFormat_value ORT_SPARSE_CSRC = 2"
| "OrtSparseFormat_value ORT_SPARSE_BLOCK_SPARSE = 4"

datatype OrtSparseIndicesFormat =
    ORT_SPARSE_COO_INDICES
  | ORT_SPARSE_CSR_INNER_INDICES
  | ORT_SPARSE_CSR_OUTER_INDICES
  | ORT_SPARSE_BLOCK_SPARSE_INDICES

primrec OrtSparseIndicesFormat_value :: "OrtSparseIndicesFormat \<Rightarrow> int" where
  "OrtSparseIndicesFormat_value ORT_SPARSE_COO_INDICES = 0"
| "OrtSparseIndicesFormat_value ORT_SPARSE_CSR_INNER_INDICES = 1"
| "OrtSparseIndicesFormat_value ORT_SPARSE_CSR_OUTER_INDICES = 2"
| "OrtSparseIndicesFormat_value ORT_SPARSE_BLOCK_SPARSE_INDICES = 3"

datatype OrtLoggingLevel =
    ORT_LOGGING_LEVEL_VERBOSE
  | ORT_LOGGING_LEVEL_INFO
  | ORT_LOGGING_LEVEL_WARNING
  | ORT_LOGGING_LEVEL_ERROR
  | ORT_LOGGING_LEVEL_FATAL

primrec OrtLoggingLevel_value :: "OrtLoggingLevel \<Rightarrow> int" where
  "OrtLoggingLevel_value ORT_LOGGING_LEVEL_VERBOSE = 0"
| "OrtLoggingLevel_value ORT_LOGGING_LEVEL_INFO = 1"
| "OrtLoggingLevel_value ORT_LOGGING_LEVEL_WARNING = 2"
| "OrtLoggingLevel_value ORT_LOGGING_LEVEL_ERROR = 3"
| "OrtLoggingLevel_value ORT_LOGGING_LEVEL_FATAL = 4"

datatype OrtErrorCode =
    ORT_OK
  | ORT_FAIL
  | ORT_INVALID_ARGUMENT
  | ORT_NO_SUCHFILE
  | ORT_NO_MODEL
  | ORT_ENGINE_ERROR
  | ORT_RUNTIME_EXCEPTION
  | ORT_INVALID_PROTOBUF
  | ORT_MODEL_LOADED
  | ORT_NOT_IMPLEMENTED
  | ORT_INVALID_GRAPH
  | ORT_EP_FAIL

primrec OrtErrorCode_value :: "OrtErrorCode \<Rightarrow> int" where
  "OrtErrorCode_value ORT_OK = 0"
| "OrtErrorCode_value ORT_FAIL = 1"
| "OrtErrorCode_value ORT_INVALID_ARGUMENT = 2"
| "OrtErrorCode_value ORT_NO_SUCHFILE = 3"
| "OrtErrorCode_value ORT_NO_MODEL = 4"
| "OrtErrorCode_value ORT_ENGINE_ERROR = 5"
| "OrtErrorCode_value ORT_RUNTIME_EXCEPTION = 6"
| "OrtErrorCode_value ORT_INVALID_PROTOBUF = 7"
| "OrtErrorCode_value ORT_MODEL_LOADED = 8"
| "OrtErrorCode_value ORT_NOT_IMPLEMENTED = 9"
| "OrtErrorCode_value ORT_INVALID_GRAPH = 10"
| "OrtErrorCode_value ORT_EP_FAIL = 11"

datatype OrtOpAttrType =
    ORT_OP_ATTR_UNDEFINED
  | ORT_OP_ATTR_INT
  | ORT_OP_ATTR_INTS
  | ORT_OP_ATTR_FLOAT
  | ORT_OP_ATTR_FLOATS
  | ORT_OP_ATTR_STRING
  | ORT_OP_ATTR_STRINGS

primrec OrtOpAttrType_value :: "OrtOpAttrType \<Rightarrow> int" where
  "OrtOpAttrType_value ORT_OP_ATTR_UNDEFINED = 0"
| "OrtOpAttrType_value ORT_OP_ATTR_INT = 1"
| "OrtOpAttrType_value ORT_OP_ATTR_INTS = 2"
| "OrtOpAttrType_value ORT_OP_ATTR_FLOAT = 3"
| "OrtOpAttrType_value ORT_OP_ATTR_FLOATS = 4"
| "OrtOpAttrType_value ORT_OP_ATTR_STRING = 5"
| "OrtOpAttrType_value ORT_OP_ATTR_STRINGS = 6"

datatype GraphOptimizationLevel =
    ORT_DISABLE_ALL
  | ORT_ENABLE_BASIC
  | ORT_ENABLE_EXTENDED
  | ORT_ENABLE_ALL

primrec GraphOptimizationLevel_value :: "GraphOptimizationLevel \<Rightarrow> int" where
  "GraphOptimizationLevel_value ORT_DISABLE_ALL = 0"
| "GraphOptimizationLevel_value ORT_ENABLE_BASIC = 1"
| "GraphOptimizationLevel_value ORT_ENABLE_EXTENDED = 2"
| "GraphOptimizationLevel_value ORT_ENABLE_ALL = 99"

datatype ExecutionMode =
    ORT_SEQUENTIAL
  | ORT_PARALLEL

primrec ExecutionMode_value :: "ExecutionMode \<Rightarrow> int" where
  "ExecutionMode_value ORT_SEQUENTIAL = 0"
| "ExecutionMode_value ORT_PARALLEL = 1"

datatype OrtLanguageProjection =
    ORT_PROJECTION_C
  | ORT_PROJECTION_CPLUSPLUS
  | ORT_PROJECTION_CSHARP
  | ORT_PROJECTION_PYTHON
  | ORT_PROJECTION_JAVA
  | ORT_PROJECTION_WINML
  | ORT_PROJECTION_NODEJS

primrec OrtLanguageProjection_value :: "OrtLanguageProjection \<Rightarrow> int" where
  "OrtLanguageProjection_value ORT_PROJECTION_C = 0"
| "OrtLanguageProjection_value ORT_PROJECTION_CPLUSPLUS = 1"
| "OrtLanguageProjection_value ORT_PROJECTION_CSHARP = 2"
| "OrtLanguageProjection_value ORT_PROJECTION_PYTHON = 3"
| "OrtLanguageProjection_value ORT_PROJECTION_JAVA = 4"
| "OrtLanguageProjection_value ORT_PROJECTION_WINML = 5"
| "OrtLanguageProjection_value ORT_PROJECTION_NODEJS = 6"

datatype OrtAllocatorType =
    OrtInvalidAllocator
  | OrtDeviceAllocator
  | OrtArenaAllocator

primrec OrtAllocatorType_value :: "OrtAllocatorType \<Rightarrow> int" where
  "OrtAllocatorType_value OrtInvalidAllocator = - 1"
| "OrtAllocatorType_value OrtDeviceAllocator = 0"
| "OrtAllocatorType_value OrtArenaAllocator = 1"

datatype OrtMemType =
    OrtMemTypeCPUInput
  | OrtMemTypeCPUOutput
  | OrtMemTypeDefault

primrec OrtMemType_value :: "OrtMemType \<Rightarrow> int" where
  "OrtMemType_value OrtMemTypeCPUInput = - 2"
| "OrtMemType_value OrtMemTypeCPUOutput = - 1"
| "OrtMemType_value OrtMemTypeDefault = 0"

definition OrtMemTypeCPU :: OrtMemType where "OrtMemTypeCPU = OrtMemTypeCPUOutput"

datatype OrtMemoryInfoDeviceType =
    OrtMemoryInfoDeviceType_CPU
  | OrtMemoryInfoDeviceType_GPU
  | OrtMemoryInfoDeviceType_FPGA

primrec OrtMemoryInfoDeviceType_value :: "OrtMemoryInfoDeviceType \<Rightarrow> int" where
  "OrtMemoryInfoDeviceType_value OrtMemoryInfoDeviceType_CPU = 0"
| "OrtMemoryInfoDeviceType_value OrtMemoryInfoDeviceType_GPU = 1"
| "OrtMemoryInfoDeviceType_value OrtMemoryInfoDeviceType_FPGA = 2"

datatype OrtCudnnConvAlgoSearch =
    OrtCudnnConvAlgoSearchExhaustive
  | OrtCudnnConvAlgoSearchHeuristic
  | OrtCudnnConvAlgoSearchDefault

primrec OrtCudnnConvAlgoSearch_value :: "OrtCudnnConvAlgoSearch \<Rightarrow> int" where
  "OrtCudnnConvAlgoSearch_value OrtCudnnConvAlgoSearchExhaustive = 0"
| "OrtCudnnConvAlgoSearch_value OrtCudnnConvAlgoSearchHeuristic = 1"
| "OrtCudnnConvAlgoSearch_value OrtCudnnConvAlgoSearchDefault = 2"

datatype OrtCustomOpInputOutputCharacteristic =
    INPUT_OUTPUT_REQUIRED
  | INPUT_OUTPUT_OPTIONAL
  | INPUT_OUTPUT_VARIADIC

primrec OrtCustomOpInputOutputCharacteristic_value :: "OrtCustomOpInputOutputCharacteristic \<Rightarrow> int" where
  "OrtCustomOpInputOutputCharacteristic_value INPUT_OUTPUT_REQUIRED = 0"
| "OrtCustomOpInputOutputCharacteristic_value INPUT_OUTPUT_OPTIONAL = 1"
| "OrtCustomOpInputOutputCharacteristic_value INPUT_OUTPUT_VARIADIC = 2"

text \<open>The Core ML flags are bits that are or-ed into one word.\<close>

definition COREML_FLAG_USE_NONE :: "32 word" where "COREML_FLAG_USE_NONE = 0x000"
definition COREML_FLAG_USE_CPU_ONLY :: "32 word" where "COREML_FLAG_USE_CPU_ONLY = 0x001"
definition COREML_FLAG_ENABLE_ON_SUBGRAPH :: "32 word" where "COREML_FLAG_ENABLE_ON_SUBGRAPH = 0x002"
definition COREML_FLAG_ONLY_ENABLE_DEVICE_WITH_ANE :: "32 word" where
  "COREML_FLAG_ONLY_ENABLE_DEVICE_WITH_ANE = 0x004"
definition COREML_FLAG_ONLY_ALLOW_STATIC_INPUT_SHAPES :: "32 word" where
  "COREML_FLAG_ONLY_ALLOW_STATIC_INPUT_SHAPES = 0x008"
definition COREML_FLAG_CREATE_MLPROGRAM :: "32 word" where "COREML_FLAG_CREATE_MLPROGRAM = 0x010"
definition COREML_FLAG_USE_CPU_AND_GPU :: "32 word" where "COREML_FLAG_USE_CPU_AND_GPU = 0x020"
definition COREML_FLAG_LAST :: "32 word" where "COREML_FLAG_LAST = COREML_FLAG_USE_CPU_AND_GPU"

definition coreml_flags :: "32 word list" where
  "coreml_flags = [COREML_FLAG_USE_CPU_ONLY, COREML_FLAG_ENABLE_ON_SUBGRAPH,
     COREML_FLAG_ONLY_ENABLE_DEVICE_WITH_ANE, COREML_FLAG_ONLY_ALLOW_STATIC_INPUT_SHAPES,
     COREML_FLAG_CREATE_MLPROGRAM, COREML_FLAG_USE_CPU_AND_GPU]"

lemmas coreml_flag_defs = COREML_FLAG_USE_NONE_def COREML_FLAG_USE_CPU_ONLY_def
  COREML_FLAG_ENABLE_ON_SUBGRAPH_def COREML_FLAG_ONLY_ENABLE_DEVICE_WITH_ANE_def
  COREML_FLAG_ONLY_ALLOW_STATIC_INPUT_SHAPES_def COREML_FLAG_CREATE_MLPROGRAM_def
  COREML_FLAG_USE_CPU_AND_GPU_def COREML_FLAG_LAST_def

section \<open>Execution provider options\<close>

definition SIZE_MAX :: "64 word" where "SIZE_MAX = - 1"

record OrtCUDAProviderOptions =
  cuda_device_id :: int
  cuda_cudnn_conv_algo_search :: OrtCudnnConvAlgoSearch
  cuda_gpu_mem_limit :: "64 word"
  cuda_arena_extend_strategy :: int
  cuda_do_copy_in_default_stream :: int
  cuda_has_user_compute_stream :: int
  cuda_user_compute_stream :: ref
  cuda_default_memory_arena_cfg :: ref
  cuda_tunable_op_enable :: int
  cuda_tunable_op_tuning_enable :: int
  cuda_tunable_op_max_tuning_duration_ms :: int

definition OrtCUDAProviderOptions_ctor :: OrtCUDAProviderOptions where
  "OrtCUDAProviderOptions_ctor = \<lparr>cuda_device_id = 0,
     cuda_cudnn_conv_algo_search = OrtCudnnConvAlgoSearchExhaustive, cuda_gpu_mem_limit = SIZE_MAX,
     cuda_arena_extend_strategy = 0, cuda_do_copy_in_default_stream = 1,
     cuda_has_user_compute_stream = 0, cuda_user_compute_stream = NULL,
     cuda_default_memory_arena_cfg = NULL, cuda_tunable_op_enable = 0,
     cuda_tunable_op_tuning_enable = 0, cuda_tunable_op_max_tuning_duration_ms = 0\<rparr>"

record OrtROCMProviderOptions =
  rocm_device_id :: int
  rocm_miopen_conv_exhaustive_search :: int
  rocm_gpu_mem_limit :: "64 word"
  rocm_arena_extend_strategy :: int
  rocm_do_copy_in_default_stream :: int
  rocm_has_user_compute_stream :: int
  rocm_user_compute_stream :: ref
  rocm_default_memory_arena_cfg :: ref
  rocm_enable_hip_graph :: int
  rocm_tunable_op_enable :: int
  rocm_tunable_op_tuning_enable :: int
  rocm_tunable_op_max_tuning_duration_ms :: int

definition OrtROCMProviderOptions_ctor :: OrtROCMProviderOptions where
  "OrtROCMProviderOptions_ctor = \<lparr>rocm_device_id = 0, rocm_miopen_conv_exhaustive_search = 0,
     rocm_gpu_mem_limit = SIZE_MAX, rocm_arena_extend_strategy = 0,
     rocm_do_copy_in_default_stream = 1, rocm_has_user_compute_stream = 0,
     rocm_user_compute_stream = NULL, rocm_default_memory_arena_cfg = NULL, rocm_enable_hip_graph = 0,
     rocm_tunable_op_enable = 0, rocm_tunable_op_tuning_enable = 0,
     rocm_tunable_op_max_tuning_duration_ms = 0\<rparr>"

record OrtTensorRTProviderOptions =
  trt_device_id :: int
  trt_has_user_compute_stream :: int
  trt_user_compute_stream :: ref
  trt_max_partition_iterations :: int
  trt_min_subgraph_size :: int
  trt_max_workspace_size :: "64 word"
  trt_fp16_enable :: int
  trt_int8_enable :: int
  trt_int8_calibration_table_name :: char_ptr
  trt_int8_use_native_calibration_table :: int
  trt_dla_enable :: int
  trt_dla_core :: int
  trt_dump_subgraphs :: int
  trt_engine_cache_enable :: int
  trt_engine_cache_path :: char_ptr
  trt_engine_decryption_enable :: int
  trt_engine_decryption_lib_path :: char_ptr
  trt_force_sequential_engine_build :: int

record OrtMIGraphXProviderOptions =
  migraphx_device_id :: int
  migraphx_fp16_enable :: int
  migraphx_int8_enable :: int
  migraphx_use_native_calibration_table :: int
  migraphx_int8_calibration_table_name :: char_ptr
  migraphx_save_compiled_model :: int
  migraphx_save_model_path :: char_ptr
  migraphx_load_compiled_model :: int
  migraphx_load_model_path :: char_ptr
  migraphx_exhaustive_tune :: bool

record OrtOpenVINOProviderOptions =
  openvino_device_type :: char_ptr
  openvino_enable_npu_fast_compile :: "8 word"
  openvino_device_id :: char_ptr
  openvino_num_of_threads :: "64 word"
  openvino_cache_dir :: char_ptr
  openvino_context :: ref
  openvino_enable_opencl_throttling :: "8 word"
  openvino_enable_dynamic_shapes :: "8 word"

definition OrtOpenVINOProviderOptions_ctor :: OrtOpenVINOProviderOptions where
  "OrtOpenVINOProviderOptions_ctor = \<lparr>openvino_device_type = None,
     openvino_enable_npu_fast_compile = 0, openvino_device_id = None, openvino_num_of_threads = 0,
     openvino_cache_dir = None, openvino_context = NULL, openvino_enable_opencl_throttling = 0,
     openvino_enable_dynamic_shapes = 0\<rparr>"

section \<open>Element types\<close>

record Float8E4M3FN_t = Float8E4M3FN_value :: "8 word"

definition Float8E4M3FN_t_eq :: "Float8E4M3FN_t \<Rightarrow> Float8E4M3FN_t \<Rightarrow> bool" where
  "Float8E4M3FN_t_eq a rhs = (Float8E4M3FN_value a = Float8E4M3FN_value rhs)"

record Float8E4M3FNUZ_t = Float8E4M3FNUZ_value :: "8 word"

definition Float8E4M3FNUZ_t_eq :: "Float8E4M3FNUZ_t \<Rightarrow> Float8E4M3FNUZ_t \<Rightarrow> bool" where
  "Float8E4M3FNUZ_t_eq a rhs = (Float8E4M3FNUZ_value a = Float8E4M3FNUZ_value rhs)"

record Float8E5M2_t = Float8E5M2_value :: "8 word"

definition Float8E5M2_t_eq :: "Float8E5M2_t \<Rightarrow> Float8E5M2_t \<Rightarrow> bool" where
  "Float8E5M2_t_eq a rhs = (Float8E5M2_value a = Float8E5M2_value rhs)"

record Float8E5M2FNUZ_t = Float8E5M2FNUZ_value :: "8 word"

definition Float8E5M2FNUZ_t_eq :: "Float8E5M2FNUZ_t \<Rightarrow> Float8E5M2FNUZ_t \<Rightarrow> bool" where
  "Float8E5M2FNUZ_t_eq a rhs = (Float8E5M2FNUZ_value a = Float8E5M2FNUZ_value rhs)"

datatype cxx_type =
    Cxx_float
  | Cxx_Float16_t
  | Cxx_BFloat16_t
  | Cxx_double
  | Cxx_int8_t
  | Cxx_int16_t
  | Cxx_int32_t
  | Cxx_int64_t
  | Cxx_uint8_t
  | Cxx_uint16_t
  | Cxx_uint32_t
  | Cxx_uint64_t
  | Cxx_bool
  | Cxx_Float8E4M3FN_t
  | Cxx_Float8E4M3FNUZ_t
  | Cxx_Float8E5M2_t
  | Cxx_Float8E5M2FNUZ_t

text \<open>\<open>sizeof\<close> of the types, on every platform the framework is built for.\<close>

primrec sizeof_cxx :: "cxx_type \<Rightarrow> 64 word" where
  "sizeof_cxx Cxx_float = 4"
| "sizeof_cxx Cxx_Float16_t = 2"
| "sizeof_cxx Cxx_BFloat16_t = 2"
| "sizeof_cxx Cxx_double = 8"
| "sizeof_cxx Cxx_int8_t = 1"
| "sizeof_cxx Cxx_int16_t = 2"
| "sizeof_cxx Cxx_int32_t = 4"
| "sizeof_cxx Cxx_int64_t = 8"
| "sizeof_cxx Cxx_uint8_t = 1"
| "sizeof_cxx Cxx_uint16_t = 2"
| "sizeof_cxx Cxx_uint32_t = 4"
| "sizeof_cxx Cxx_uint64_t = 8"
| "sizeof_cxx Cxx_bool = 1"
| "sizeof_cxx Cxx_Float8E4M3FN_t = 1"
| "sizeof_cxx Cxx_Float8E4M3FNUZ_t = 1"
| "sizeof_cxx Cxx_Float8E5M2_t = 1"
| "sizeof_cxx Cxx_Float8E5M2FNUZ_t = 1"

primrec TypeToTensorType :: "cxx_type \<Rightarrow> ONNXTensorElementDataType" where
  "TypeToTensorType Cxx_float = ONNX_TENSOR_ELEMENT_DATA_TYPE_FLOAT"
| "TypeToTensorType Cxx_Float16_t = ONNX_TENSOR_ELEMENT_DATA_TYPE_FLOAT16"
| "TypeToTensorType Cxx_BFloat16_t = ONNX_TENSOR_ELEMENT_DATA_TYPE_BFLOAT16"
| "TypeToTensorType Cxx_double = ONNX_TENSOR_ELEMENT_DATA_TYPE_DOUBLE"
| "TypeToTensorType Cxx_int8_t = ONNX_TENSOR_ELEMENT_DATA_TYPE_INT8"
| "TypeToTensorType Cxx_int16_t = ONNX_TENSOR_ELEMENT_DATA_TYPE_INT16"
| "TypeToTensorType Cxx_int32_t = ONNX_TENSOR_ELEMENT_DATA_TYPE_INT32"
| "TypeToTensorType Cxx_int64_t = ONNX_TENSOR_ELEMENT_DATA_TYPE_INT64"
| "TypeToTensorType Cxx_uint8_t = ONNX_TENSOR_ELEMENT_DATA_TYPE_UINT8"
| "TypeToTensorType Cxx_uint16_t = ONNX_TENSOR_ELEMENT_DATA_TYPE_UINT16"
| "TypeToTensorType Cxx_uint32_t = ONNX_TENSOR_ELEMENT_DATA_TYPE_UINT32"
| "TypeToTensorType Cxx_uint64_t = ONNX_TENSOR_ELEMENT_DATA_TYPE_UINT64"
| "TypeToTensorType Cxx_bool = ONNX_TENSOR_ELEMENT_DATA_TYPE_BOOL"
| "TypeToTensorType Cxx_Float8E4M3FN_t = ONNX_TENSOR_ELEMENT_DATA_TYPE_FLOAT8E4M3FN"
| "TypeToTensorType Cxx_Float8E4M3FNUZ_t = ONNX_TENSOR_ELEMENT_DATA_TYPE_FLOAT8E4M3FNUZ"
| "TypeToTensorType Cxx_Float8E5M2_t = ONNX_TENSOR_ELEMENT_DATA_TYPE_FLOAT8E5M2"
| "TypeToTensorType Cxx_Float8E5M2FNUZ_t = ONNX_TENSOR_ELEMENT_DATA_TYPE_FLOAT8E5M2FNUZ"

section \<open>Theorems\<close>

lemma cxx_type_UNIV: "UNIV = {Cxx_float, Cxx_Float16_t, Cxx_BFloat16_t, Cxx_double, Cxx_int8_t, Cxx_int16_t, Cxx_int32_t, Cxx_int64_t, Cxx_uint8_t, Cxx_uint16_t, Cxx_uint32_t, Cxx_uint64_t, Cxx_bool, Cxx_Float8E4M3FN_t, Cxx_Float8E4M3FNUZ_t, Cxx_Float8E5M2_t, Cxx_Float8E5M2FNUZ_t}"
proof -
  have "c \<in> {Cxx_float, Cxx_Float16_t, Cxx_BFloat16_t, Cxx_double, Cxx_int8_t, Cxx_int16_t, Cxx_int32_t, Cxx_int64_t, Cxx_uint8_t, Cxx_uint16_t, Cxx_uint32_t, Cxx_uint64_t, Cxx_bool, Cxx_Float8E4M3FN_t, Cxx_Float8E4M3FNUZ_t, Cxx_Float8E5M2_t, Cxx_Float8E5M2FNUZ_t}" for c by (cases c) simp_all
  then show ?thesis by blast
qed

text \<open>No two C++ element types share a tensor element type, and the tensor element types the
  template does not reach are exactly the undefined one, strings, the complex types and the packed
  4-bit integers.\<close>

theorem TypeToTensorType_faithful:
  "inj TypeToTensorType \<and>
   - range TypeToTensorType = {ONNX_TENSOR_ELEMENT_DATA_TYPE_UNDEFINED,
     ONNX_TENSOR_ELEMENT_DATA_TYPE_STRING, ONNX_TENSOR_ELEMENT_DATA_TYPE_COMPLEX64,
     ONNX_TENSOR_ELEMENT_DATA_TYPE_COMPLEX128, ONNX_TENSOR_ELEMENT_DATA_TYPE_UINT4,
     ONNX_TENSOR_ELEMENT_DATA_TYPE_INT4}"
proof
  show "inj TypeToTensorType"
  proof (rule injI)
    fix a b assume "TypeToTensorType a = TypeToTensorType b"
    then show "a = b" by (cases a; cases b; simp)
  qed
  show "- range TypeToTensorType = {ONNX_TENSOR_ELEMENT_DATA_TYPE_UNDEFINED,
     ONNX_TENSOR_ELEMENT_DATA_TYPE_STRING, ONNX_TENSOR_ELEMENT_DATA_TYPE_COMPLEX64,
     ONNX_TENSOR_ELEMENT_DATA_TYPE_COMPLEX128, ONNX_TENSOR_ELEMENT_DATA_TYPE_UINT4,
     ONNX_TENSOR_ELEMENT_DATA_TYPE_INT4}" (is "- ?R = ?S")
  proof (rule set_eqI)
    fix e
    show "e \<in> - ?R \<longleftrightarrow> e \<in> ?S" unfolding cxx_type_UNIV by (cases e) simp_all
  qed
qed

end
