(* ===== verification/Ort_Api.thy ===== *)
theory Ort_Api
  imports Ort_Types Resources
begin

text \<open>
  The calling convention of the ONNX Runtime C API and the foundation of its C++ wrapper
  (\<^verbatim>\<open>onnxruntime_cxx_api.h\<close>, \<^verbatim>\<open>onnxruntime_cxx_inline.h\<close>): statuses and \<open>ThrowOnError\<close>, exceptions,
  the owning pointer \<open>Base\<close> and the allocator's memory blocks. The library behind the \<open>OrtApi\<close> table is
  a parameter. A call names the table entry and its arguments, without the out parameters, which are in
  the answer. The policy says what each entry hands to the caller, as its documentation in
  \<^verbatim>\<open>onnxruntime_c_api.h\<close> states it.
\<close>

section \<open>Calls\<close>

text \<open>The classes with a \<open>Release\<close> function, blocks allocated with an \<open>OrtAllocator\<close>, the list of providers, and
  blocks of the C heap.\<close>

datatype ort_kind =
    KAllocator | KMemoryInfo | KCustomOpDomain | KThreadingOptions | KEnv | KRunOptions | KLoraAdapter
  | KSession | KSessionOptions | KTensorTypeAndShapeInfo | KSequenceTypeInfo | KMapTypeInfo | KTypeInfo
  | KValue | KModelMetadata | KIoBinding | KArenaCfg | KStatus | KOpAttr | KOp | KKernelInfo
  | KBlock | KProviders | KHeap

datatype ort_arg =
    ARef ref | AInt int | AStr string | ARefs "ref list" | AInts "int list" | AStrs "string list"

text \<open>The entries of the \<open>OrtApi\<close> table: those that hand objects over to the caller, the two that take
  memory back, and all others by name.\<close>

datatype ort_new =
    New_CreateEnv | New_CreateEnvWithCustomLogger | New_CreateEnvWithGlobalThreadPools
  | New_CreateEnvWithCustomLoggerAndGlobalThreadPools | New_CreateThreadingOptions
  | New_CreateArenaCfg | New_CreateCustomOpDomain | New_CreateRunOptions | New_CreateLoraAdapter
  | New_CreateLoraAdapterFromArray | New_CreateSessionOptions | New_CloneSessionOptions
  | New_CreateSession | New_CreateSessionFromArray
  | New_CreateSessionWithPrepackedWeightsContainer
  | New_CreateSessionFromArrayWithPrepackedWeightsContainer | New_CreateIoBinding
  | New_CreateAllocator | New_CreateMemoryInfo | New_CreateCpuMemoryInfo
  | New_SessionGetModelMetadata | New_SessionGetInputTypeInfo | New_SessionGetOutputTypeInfo
  | New_SessionGetOverridableInitializerTypeInfo | New_GetTypeInfo | New_GetSequenceElementType
  | New_GetMapValueType | New_KernelInfo_GetInputTypeInfo | New_KernelInfo_GetOutputTypeInfo
  | New_GetTensorTypeAndShape | New_GetSparseTensorValuesTypeAndShape
  | New_GetSparseTensorIndicesTypeShape | New_CreateTensorTypeAndShapeInfo | New_GetValue
  | New_CreateTensorWithDataAsOrtValue | New_CreateTensorAsOrtValue
  | New_CreateSparseTensorWithValuesAsOrtValue | New_CreateSparseTensorAsOrtValue
  | New_CreateValue | New_CreateOpaqueValue | New_KernelInfoGetAttribute_tensor
  | New_CreateOpAttr | New_CreateOp | New_CopyKernelInfo | New_AllocatorAlloc
  | New_SessionGetInputName | New_SessionGetOutputName
  | New_SessionGetOverridableInitializerName | New_SessionEndProfiling
  | New_ModelMetadataGetProducerName | New_ModelMetadataGetGraphName
  | New_ModelMetadataGetDomain | New_ModelMetadataGetDescription
  | New_ModelMetadataGetGraphDescription | New_ModelMetadataLookupCustomMetadataMap
  | New_GetBoundOutputNames | New_GetBoundOutputValues
  | New_ModelMetadataGetCustomMetadataMapKeys | New_GetAvailableProviders | New_Run

datatype ort_fn = New ort_new | Fn string | Fn_AllocatorFree | Fn_ReleaseAvailableProviders

text \<open>
  \<open>Api\<close> is an entry of the table that returns an \<open>OrtStatus*\<close>, \<open>Api_void\<close> one that does not,
  \<open>Release\<close> an entry \<open>ReleaseX\<close>, \<open>Alloc_Free\<close> the allocator's own \<open>Free\<close> member; then come the
  C library's heap and the C++ one (\<open>new\<close> of a class, which throws when it fails). \<open>Custom_op\<close> and
  \<open>Custom_op_status\<close> are calls of functions that the author of a custom operator supplies, the second of those
  that return a \<open>Status\<close>; an answer with a nonzero \<open>o_int\<close> stands for an exception the function throws.
\<close>

datatype ort_call =
    Api ort_fn "ort_arg list"
  | Api_void string "ort_arg list"
  | CreateStatus int string
  | GetErrorMessage ref
  | GetErrorCode ref
  | Release ort_kind ref
  | Alloc_Free ref ref
  | Libc_calloc "64 word" "64 word"
  | Libc_free ref
  | Cxx_new string
  | Cxx_delete ref
  | Custom_op string ref "ort_arg list"
  | Custom_op_status string ref "ort_arg list"

text \<open>The out parameters of a call; floats are represented by their bit patterns.\<close>

record ort_reply =
  o_status :: ref
  o_ref :: ref
  o_int :: int
  o_str :: string
  o_refs :: "ref list"
  o_ints :: "int list"
  o_strs :: "string list"

type_synonym 's ort = "('s, ort_call, ort_reply) world"
type_synonym 's ort_lib = "('s, ort_call, ort_reply) extern"

section \<open>Exceptions\<close>

datatype cxx_exn = Ort_Exception string int | Std_length_error | Std_bad_alloc | Std_out_of_range | Undefined_behaviour
  | Custom_op_exn string

type_synonym ('s, 'a) cxx = "('s ort, cxx_exn + 'a) state"

definition okx :: "'a \<Rightarrow> ('s, 'a) cxx" where
  "okx x = State_Monad.return (Inr x)"

definition throwx :: "cxx_exn \<Rightarrow> ('s, 'a) cxx" where
  "throwx e = State_Monad.return (Inl e)"

definition bindx :: "('s, 'a) cxx \<Rightarrow> ('a \<Rightarrow> ('s, 'b) cxx) \<Rightarrow> ('s, 'b) cxx" where
  "bindx m f = State_Monad.bind m (\<lambda>r. case r of Inl e \<Rightarrow> State_Monad.return (Inl e) | Inr x \<Rightarrow> f x)"

text \<open>A scope with a local object whose destructor runs \<open>d\<close> on every way out.\<close>

definition scopex :: "('s ort, unit) state \<Rightarrow> ('s, 'a) cxx \<Rightarrow> ('s, 'a) cxx" where
  "scopex d m = State_Monad.bind m (\<lambda>r. State_Monad.bind d (\<lambda>_. State_Monad.return r))"

text \<open>A constructor: if its body throws, the base class destructor runs \<open>d\<close>.\<close>

definition on_throw :: "('s ort, unit) state \<Rightarrow> ('s, 'a) cxx \<Rightarrow> ('s, 'a) cxx" where
  "on_throw d m = State_Monad.bind m (\<lambda>r. case r of
     Inl e \<Rightarrow> State_Monad.bind d (\<lambda>_. State_Monad.return (Inl e)) | Inr x \<Rightarrow> State_Monad.return (Inr x))"

primrec mapx :: "('a \<Rightarrow> ('s, 'b) cxx) \<Rightarrow> 'a list \<Rightarrow> ('s, 'b list) cxx" where
  "mapx f [] = okx []"
| "mapx f (x # xs) = bindx (f x) (\<lambda>y. bindx (mapx f xs) (\<lambda>ys. okx (y # ys)))"

section \<open>Status\<close>

definition Status_from_exception :: "'s ort_lib \<Rightarrow> string \<Rightarrow> int \<Rightarrow> ('s ort, ref) state" where
  "Status_from_exception A what code = do { r \<leftarrow> perform A (CreateStatus code what); State_Monad.return (o_ref r) }"

definition Status_from_std_exception :: "'s ort_lib \<Rightarrow> string \<Rightarrow> ('s ort, ref) state" where
  "Status_from_std_exception A what = do {
     r \<leftarrow> perform A (CreateStatus (OrtErrorCode_value ORT_FAIL) what); State_Monad.return (o_ref r) }"

definition Status_from_message :: "'s ort_lib \<Rightarrow> string \<Rightarrow> int \<Rightarrow> ('s ort, ref) state" where
  "Status_from_message A message code = do {
     r \<leftarrow> perform A (CreateStatus code message); State_Monad.return (o_ref r) }"

definition Status_GetErrorMessage :: "'s ort_lib \<Rightarrow> ref \<Rightarrow> ('s ort, string) state" where
  "Status_GetErrorMessage A p = do { r \<leftarrow> perform A (GetErrorMessage p); State_Monad.return (o_str r) }"

definition Status_GetErrorCode :: "'s ort_lib \<Rightarrow> ref \<Rightarrow> ('s ort, int) state" where
  "Status_GetErrorCode A p = do { r \<leftarrow> perform A (GetErrorCode p); State_Monad.return (o_int r) }"

definition Status_IsOK :: "ref \<Rightarrow> bool" where
  "Status_IsOK p = (p = NULL)"

definition ThrowStatus :: "'s ort_lib \<Rightarrow> ref \<Rightarrow> ('s, unit) cxx" where
  "ThrowStatus A st = do {
     error_message \<leftarrow> Status_GetErrorMessage A st;
     error_code \<leftarrow> Status_GetErrorCode A st;
     throwx (Ort_Exception error_message error_code) }"

text \<open>\<open>ThrowOnError(OrtStatus*)\<close> takes ownership of the status; the overload for \<open>Status\<close> does not.\<close>

definition OrtRelease :: "'s ort_lib \<Rightarrow> ort_kind \<Rightarrow> ref \<Rightarrow> ('s ort, unit) state" where
  "OrtRelease A k ptr = performs A (Release k ptr)"

definition ThrowOnError :: "'s ort_lib \<Rightarrow> ref \<Rightarrow> ('s, unit) cxx" where
  "ThrowOnError A ort_status =
     (if ort_status \<noteq> NULL then scopex (OrtRelease A KStatus ort_status) (ThrowStatus A ort_status) else okx ())"

definition ThrowOnError_Status :: "'s ort_lib \<Rightarrow> ref \<Rightarrow> ('s, unit) cxx" where
  "ThrowOnError_Status A st = (if \<not> Status_IsOK st then ThrowStatus A st else okx ())"

text \<open>\<open>ThrowOnError(GetApi().fn(args, ...))\<close>, with the out parameters of the call.\<close>

definition checked :: "'s ort_lib \<Rightarrow> ort_fn \<Rightarrow> ort_arg list \<Rightarrow> ('s, ort_reply) cxx" where
  "checked A fn args = do {
     r \<leftarrow> perform A (Api fn args);
     bindx (ThrowOnError A (o_status r)) (\<lambda>_. okx r) }"

text \<open>The body of a constructor that passes \<open>&p_\<close> to the API. When it throws, \<open>~Base\<close> releases \<open>p_\<close>,
  which is what the call wrote there.\<close>

definition construct :: "'s ort_lib \<Rightarrow> ort_kind \<Rightarrow> ort_fn \<Rightarrow> ort_arg list \<Rightarrow> ('s, ref) cxx" where
  "construct A k fn args = do {
     r \<leftarrow> perform A (Api fn args);
     on_throw (OrtRelease A k (o_ref r)) (bindx (ThrowOnError A (o_status r)) (\<lambda>_. okx (o_ref r))) }"

text \<open>A \<open>size_t\<close> converted to \<open>int\<close>.\<close>

definition as_int :: "int \<Rightarrow> int" where
  "as_int n = (n + 2 ^ 31) mod 2 ^ 32 - 2 ^ 31"

section \<open>Ownership\<close>

datatype ort_res = Own ort_kind ref

text \<open>The entries whose out parameter the caller must release.\<close>

primrec creates :: "ort_new \<Rightarrow> ort_kind option" where
  "creates New_CreateEnv = Some KEnv"
| "creates New_CreateEnvWithCustomLogger = Some KEnv"
| "creates New_CreateEnvWithGlobalThreadPools = Some KEnv"
| "creates New_CreateEnvWithCustomLoggerAndGlobalThreadPools = Some KEnv"
| "creates New_CreateThreadingOptions = Some KThreadingOptions"
| "creates New_CreateArenaCfg = Some KArenaCfg"
| "creates New_CreateCustomOpDomain = Some KCustomOpDomain"
| "creates New_CreateRunOptions = Some KRunOptions"
| "creates New_CreateLoraAdapter = Some KLoraAdapter"
| "creates New_CreateLoraAdapterFromArray = Some KLoraAdapter"
| "creates New_CreateSessionOptions = Some KSessionOptions"
| "creates New_CloneSessionOptions = Some KSessionOptions"
| "creates New_CreateSession = Some KSession"
| "creates New_CreateSessionFromArray = Some KSession"
| "creates New_CreateSessionWithPrepackedWeightsContainer = Some KSession"
| "creates New_CreateSessionFromArrayWithPrepackedWeightsContainer = Some KSession"
| "creates New_CreateIoBinding = Some KIoBinding"
| "creates New_CreateAllocator = Some KAllocator"
| "creates New_CreateMemoryInfo = Some KMemoryInfo"
| "creates New_CreateCpuMemoryInfo = Some KMemoryInfo"
| "creates New_SessionGetModelMetadata = Some KModelMetadata"
| "creates New_SessionGetInputTypeInfo = Some KTypeInfo"
| "creates New_SessionGetOutputTypeInfo = Some KTypeInfo"
| "creates New_SessionGetOverridableInitializerTypeInfo = Some KTypeInfo"
| "creates New_GetTypeInfo = Some KTypeInfo"
| "creates New_GetSequenceElementType = Some KTypeInfo"
| "creates New_GetMapValueType = Some KTypeInfo"
| "creates New_KernelInfo_GetInputTypeInfo = Some KTypeInfo"
| "creates New_KernelInfo_GetOutputTypeInfo = Some KTypeInfo"
| "creates New_GetTensorTypeAndShape = Some KTensorTypeAndShapeInfo"
| "creates New_GetSparseTensorValuesTypeAndShape = Some KTensorTypeAndShapeInfo"
| "creates New_GetSparseTensorIndicesTypeShape = Some KTensorTypeAndShapeInfo"
| "creates New_CreateTensorTypeAndShapeInfo = Some KTensorTypeAndShapeInfo"
| "creates New_GetValue = Some KValue"
| "creates New_CreateTensorWithDataAsOrtValue = Some KValue"
| "creates New_CreateTensorAsOrtValue = Some KValue"
| "creates New_CreateSparseTensorWithValuesAsOrtValue = Some KValue"
| "creates New_CreateSparseTensorAsOrtValue = Some KValue"
| "creates New_CreateValue = Some KValue"
| "creates New_CreateOpaqueValue = Some KValue"
| "creates New_KernelInfoGetAttribute_tensor = Some KValue"
| "creates New_CreateOpAttr = Some KOpAttr"
| "creates New_CreateOp = Some KOp"
| "creates New_CopyKernelInfo = Some KKernelInfo"
| "creates New_AllocatorAlloc = Some KBlock"
| "creates New_SessionGetInputName = Some KBlock"
| "creates New_SessionGetOutputName = Some KBlock"
| "creates New_SessionGetOverridableInitializerName = Some KBlock"
| "creates New_SessionEndProfiling = Some KBlock"
| "creates New_ModelMetadataGetProducerName = Some KBlock"
| "creates New_ModelMetadataGetGraphName = Some KBlock"
| "creates New_ModelMetadataGetDomain = Some KBlock"
| "creates New_ModelMetadataGetDescription = Some KBlock"
| "creates New_ModelMetadataGetGraphDescription = Some KBlock"
| "creates New_ModelMetadataLookupCustomMetadataMap = Some KBlock"
| "creates New_GetBoundOutputNames = Some KBlock"
| "creates New_GetBoundOutputValues = Some KBlock"
| "creates New_ModelMetadataGetCustomMetadataMapKeys = Some KBlock"
| "creates New_GetAvailableProviders = Some KProviders"
| "creates New_Run = None"

text \<open>The entries that also hand over an array of objects.\<close>

definition creates_array :: "ort_new \<Rightarrow> ort_kind option" where
  "creates_array = map_of [(New_Run, KValue), (New_GetBoundOutputValues, KValue),
     (New_GetBoundOutputNames, KBlock), (New_ModelMetadataGetCustomMetadataMapKeys, KBlock)]"

definition own :: "ort_kind \<Rightarrow> ref \<Rightarrow> ort_res multiset" where
  "own k p = (if p = NULL then {#} else {#Own k p#})"

definition own_all :: "ort_kind \<Rightarrow> ref list \<Rightarrow> ort_res multiset" where
  "own_all k ps = mset (map (Own k) (filter (\<lambda>p. p \<noteq> NULL) ps))"

fun created :: "ort_fn \<Rightarrow> ort_reply \<Rightarrow> ort_res multiset" where
  "created (New f) r = (case creates f of None \<Rightarrow> {#} | Some k \<Rightarrow> own k (o_ref r)) +
     (case creates_array f of None \<Rightarrow> {#} | Some k \<Rightarrow> own_all k (o_refs r))"
| "created _ r = {#}"

fun ort_gives :: "ort_call \<Rightarrow> ort_reply \<Rightarrow> ort_res multiset" where
  "ort_gives (Api fn args) r = (if o_status r \<noteq> NULL then {#Own KStatus (o_status r)#} else created fn r)"
| "ort_gives (CreateStatus code m) r = own KStatus (o_ref r)"
| "ort_gives (Libc_calloc n sz) r = own KHeap (o_ref r)"
| "ort_gives (Cxx_new cls) r = own KHeap (o_ref r)"
| "ort_gives (Custom_op_status f p args) r = (if o_int r = 0 then own KStatus (o_status r) else {#})"
| "ort_gives _ r = {#}"

fun ort_needs :: "ort_call \<Rightarrow> ort_res multiset" where
  "ort_needs (GetErrorMessage p) = {#Own KStatus p#}"
| "ort_needs (GetErrorCode p) = {#Own KStatus p#}"
| "ort_needs _ = {#}"

fun freed_by_api :: "ort_fn \<Rightarrow> ort_arg list \<Rightarrow> ort_res multiset" where
  "freed_by_api Fn_AllocatorFree [ARef a, ARef p] = own KBlock p"
| "freed_by_api Fn_ReleaseAvailableProviders [ARef p, AInt n] = own KProviders p"
| "freed_by_api fn args = {#}"

fun ort_takes :: "ort_call \<Rightarrow> ort_res multiset" where
  "ort_takes (Api fn args) = freed_by_api fn args"
| "ort_takes (Release k p) = own k p"
| "ort_takes (Alloc_Free a p) = own KBlock p"
| "ort_takes (Libc_free p) = own KHeap p"
| "ort_takes (Cxx_delete p) = own KHeap p"
| "ort_takes _ = {#}"

definition ort_policy :: "(ort_call, ort_reply, ort_res) policy" where
  "ort_policy = \<lparr>needs = ort_needs, takes = ort_takes, gives = ort_gives\<rparr>"

abbreviation ort_held :: "'s ort \<Rightarrow> ort_res multiset option" where
  "ort_held w \<equiv> held ort_policy w"

text \<open>
  \<open>raii own m w\<close>: the run of \<open>m\<close> from \<open>w\<close> respects ownership; if it throws it holds exactly what it
  held before, and if it returns \<open>x\<close> it holds \<open>own x\<close> more.
\<close>

definition raii :: "('a \<Rightarrow> ort_res multiset) \<Rightarrow> ('s, 'a) cxx \<Rightarrow> 's ort \<Rightarrow> bool" where
  "raii own_of m w \<longleftrightarrow> (\<forall>M. ort_held w = Some M \<longrightarrow>
     ort_held (exec m w) = Some (M + (case result m w of Inl e \<Rightarrow> {#} | Inr x \<Rightarrow> own_of x)))"

text \<open>What the API documents: an entry that fails leaves its out pointers null and fills in no array.\<close>

definition null_on_error :: "'s ort_lib \<Rightarrow> bool" where
  "null_on_error A \<longleftrightarrow> (\<forall>fn args s. o_status (fst (A (Api fn args) s)) \<noteq> NULL \<longrightarrow>
     o_ref (fst (A (Api fn args) s)) = NULL \<and> o_refs (fst (A (Api fn args) s)) = [])"

section \<open>Running the wrappers\<close>

lemma ort_policy_simps [simp]:
  "needs ort_policy = ort_needs" "takes ort_policy = ort_takes" "gives ort_policy = ort_gives"
  by (simp_all add: ort_policy_def)

lemma own_null [simp]: "own k 0 = {#}"
  by (simp add: own_def)

lemma own_single: "p \<noteq> NULL \<Longrightarrow> own k p = {#Own k p#}"
  by (simp add: own_def)

lemma ok_run [run_simps]: "exec (okx x) w = w" "result (okx x) w = Inr x"
  by (simp_all add: okx_def run_simps)

lemma throw_run [run_simps]: "exec (throwx e) w = w" "result (throwx e) w = Inl e"
  by (simp_all add: throwx_def run_simps)

lemma bindx_run [run_simps]:
  "exec (bindx m f) w = (case result m w of Inl e \<Rightarrow> exec m w | Inr x \<Rightarrow> exec (f x) (exec m w))"
  "result (bindx m f) w = (case result m w of Inl e \<Rightarrow> Inl e | Inr x \<Rightarrow> result (f x) (exec m w))"
  by (simp_all add: bindx_def run_simps split: sum.splits)

lemma scopex_run [run_simps]:
  "exec (scopex d m) w = exec d (exec m w)" "result (scopex d m) w = result m w"
  by (simp_all add: scopex_def run_simps)

lemma on_throw_run [run_simps]:
  "exec (on_throw d m) w = (case result m w of Inl e \<Rightarrow> exec d (exec m w) | Inr x \<Rightarrow> exec m w)"
  "result (on_throw d m) w = result m w"
  by (simp_all add: on_throw_def run_simps split: sum.splits)

lemmas cxx_run = ok_run throw_run bindx_run scopex_run on_throw_run step_simps

lemma ThrowOnError_run:
  "result (ThrowOnError A st) w = (if st = NULL then Inr () else
     Inl (Ort_Exception (o_str (result (perform A (GetErrorMessage st)) w))
       (o_int (result (perform A (GetErrorCode st)) (exec (perform A (GetErrorMessage st)) w)))))"
  "exec (ThrowOnError A st) w = (if st = NULL then w else
     exec (perform A (Release KStatus st)) (exec (perform A (GetErrorCode st)) (exec (perform A (GetErrorMessage st)) w)))"
  by (simp_all add: ThrowOnError_def ThrowStatus_def Status_GetErrorMessage_def Status_GetErrorCode_def
      OrtRelease_def cxx_run)

lemma ThrowOnError_null [simp]: "ThrowOnError A 0 = okx ()"
  by (simp add: ThrowOnError_def)

lemma ThrowOnError_held:
  assumes "ort_held w = Some (M + own KStatus st)"
  shows "ort_held (exec (ThrowOnError A st) w) = Some M"
  using assms by (cases "st = NULL") (simp_all add: ThrowOnError_run ok_run held_perform track_step_def own_single)

lemma checked_run:
  "result (checked A fn args) w = (let r = result (perform A (Api fn args)) w; w1 = exec (perform A (Api fn args)) w in
     if o_status r = NULL then Inr r else
     Inl (Ort_Exception (o_str (result (perform A (GetErrorMessage (o_status r))) w1))
       (o_int (result (perform A (GetErrorCode (o_status r))) (exec (perform A (GetErrorMessage (o_status r))) w1)))))"
  by (simp add: checked_def cxx_run ThrowOnError_run Let_def)

lemma checked_status:
  "result (checked A fn args) w = Inr r \<Longrightarrow> o_status r = NULL \<and> r = result (perform A (Api fn args)) w \<and>
     exec (checked A fn args) w = exec (perform A (Api fn args)) w"
  by (simp add: checked_def cxx_run ThrowOnError_run split: if_splits)

lemma checked_raii: "freed_by_api fn args = {#} \<Longrightarrow> raii (created fn) (checked A fn args) w"
proof -
  let ?r = "result (perform A (Api fn args)) w" and ?w = "exec (perform A (Api fn args)) w"
  assume f: "freed_by_api fn args = {#}"
  have "ort_held (exec (ThrowOnError A (o_status ?r)) ?w) = Some M"
    if "ort_held w = Some M" "o_status ?r \<noteq> NULL" for M
    by (rule ThrowOnError_held) (use that f in \<open>simp add: held_perform track_step_def own_single\<close>)
  then show ?thesis
    using f
    by (cases "o_status ?r = NULL")
      (auto simp: raii_def checked_def ok_run bindx_run step_simps ThrowOnError_run(1) track_step_def)
qed

lemma construct_raii:
  assumes "null_on_error A" "freed_by_api fn args = {#}" "\<And>r. created fn r = own k (o_ref r)"
  shows "raii (own k) (construct A k fn args) w"
proof -
  let ?r = "result (perform A (Api fn args)) w" and ?w = "exec (perform A (Api fn args)) w"
  have n: "o_status ?r \<noteq> 0 \<Longrightarrow> o_ref ?r = 0"
    using assms(1) by (simp add: null_on_error_def result_perform)
  have "ort_held (exec (ThrowOnError A (o_status ?r)) ?w) = Some M"
    if "ort_held w = Some M" "o_status ?r \<noteq> NULL" for M
    by (rule ThrowOnError_held) (use that assms(2) in \<open>simp add: held_perform track_step_def own_single\<close>)
  then show ?thesis
    using assms(2,3) n
    by (cases "o_status ?r = NULL")
      (auto simp: raii_def construct_def ok_run bindx_run on_throw_run step_simps ThrowOnError_run(1)
        OrtRelease_def track_step_def)
qed

lemma raii_bind:
  assumes "raii o1 m w" "\<And>x. result m w = Inr x \<Longrightarrow> raii o2 (f x) (exec m w)" "\<And>x. result m w = Inr x \<Longrightarrow> o1 x = {#}"
  shows "raii o2 (bindx m f) w"
  using assms by (auto simp: raii_def bindx_run split: sum.splits)

lemma raii_return:
  assumes "raii o1 m w" "\<And>x. o2 (f x) = o1 x"
  shows "raii o2 (bindx m (\<lambda>x. okx (f x))) w"
  using assms by (auto simp: raii_def bindx_run ok_run split: sum.splits)

lemma raii_ok: "o1 x = {#} \<Longrightarrow> raii o1 (okx x) w"
  by (simp add: raii_def ok_run)

text \<open>A scope that owns what its destructor releases, and one that runs over objects held elsewhere.\<close>

lemma raii_scope:
  assumes "raii (own k) m w" "\<And>p. result m w = Inr p \<Longrightarrow> raii o2 (f p) (exec m w)"
  shows "raii o2 (bindx m (\<lambda>p. scopex (OrtRelease A k p) (f p))) w"
proof (cases "result m w")
  case (Inl e)
  then show ?thesis using assms(1) by (auto simp: raii_def bindx_run)
next
  case (Inr p)
  have "ort_held (exec (OrtRelease A k p) w') = Some N" if "ort_held w' = Some (own k p + N)" for w' N
    using that by (simp add: OrtRelease_def step_simps track_step_def)
  then show ?thesis using assms Inr
    by (auto simp: raii_def bindx_run scopex_run ac_simps)
qed

lemma raii_throw: "raii o1 (throwx e) w"
  by (simp add: raii_def throw_run)

text \<open>The three shapes of a wrapper: a call that hands over nothing, one whose result the caller owns, a
  constructor.\<close>

lemma wrap_plain: "raii (\<lambda>_. {#}) (bindx (checked A (Fn fn) args) (\<lambda>r. okx (f r))) w"
  by (rule raii_return [OF checked_raii]) simp_all

lemma wrap_owned:
  assumes "creates f = Some k" "creates_array f = None"
  shows "raii (own k) (bindx (checked A (New f) args) (\<lambda>r. okx (o_ref r))) w"
  by (rule raii_return [OF checked_raii]) (simp_all add: assms)

lemma wrap_ctor:
  assumes "null_on_error A" "creates f = Some k" "creates_array f = None"
  shows "raii (own k) (construct A k (New f) args) w"
  using assms by (intro construct_raii) simp_all

lemmas wrap_rules = wrap_plain wrap_owned wrap_ctor

end
