(* ===== verification/Ort_Env.thy ===== *)
theory Ort_Env
  imports Ort_Api
begin

text \<open>
  The C++ wrapper classes of \<^verbatim>\<open>onnxruntime_cxx_inline.h\<close> for memory, bindings, environments and run
  options, each method as it is written there: which entry of the C API it calls with which arguments,
  what it returns, what it releases. The theorems: no method leaks or releases twice, on the paths that
  throw included; a constructor that throws leaves nothing behind.
\<close>

section \<open>Allocators and memory info\<close>

definition Allocator_Alloc :: "'s ort_lib \<Rightarrow> ref \<Rightarrow> int \<Rightarrow> ('s, ref) cxx" where
  "Allocator_Alloc A p sz =
     bindx (checked A (New New_AllocatorAlloc) [ARef p, AInt sz]) (\<lambda>r. okx (o_ref r))"

definition Allocator_GetInfo :: "'s ort_lib \<Rightarrow> ref \<Rightarrow> ('s, ref) cxx" where
  "Allocator_GetInfo A p =
     bindx (checked A (Fn ''AllocatorGetInfo'') [ARef p]) (\<lambda>r. okx (o_ref r))"

definition AllocatorWithDefaultOptions_ctor :: "'s ort_lib \<Rightarrow> ('s, ref) cxx" where
  "AllocatorWithDefaultOptions_ctor A =
     bindx (checked A (Fn ''GetAllocatorWithDefaultOptions'') []) (\<lambda>r. okx (o_ref r))"

definition Allocator_ctor :: "'s ort_lib \<Rightarrow> ref \<Rightarrow> ref \<Rightarrow> ('s, ref) cxx" where
  "Allocator_ctor A sess mem_info =
     construct A KAllocator (New New_CreateAllocator) [ARef sess, ARef mem_info]"

definition MemoryInfo_GetAllocatorName :: "'s ort_lib \<Rightarrow> ref \<Rightarrow> ('s, string) cxx" where
  "MemoryInfo_GetAllocatorName A p =
     bindx (checked A (Fn ''MemoryInfoGetName'') [ARef p]) (\<lambda>r. okx (o_str r))"

definition MemoryInfo_GetAllocatorType :: "'s ort_lib \<Rightarrow> ref \<Rightarrow> ('s, int) cxx" where
  "MemoryInfo_GetAllocatorType A p =
     bindx (checked A (Fn ''MemoryInfoGetType'') [ARef p]) (\<lambda>r. okx (o_int r))"

definition MemoryInfo_GetDeviceId :: "'s ort_lib \<Rightarrow> ref \<Rightarrow> ('s, int) cxx" where
  "MemoryInfo_GetDeviceId A p =
     bindx (checked A (Fn ''MemoryInfoGetId'') [ARef p]) (\<lambda>r. okx (o_int r))"

definition MemoryInfo_GetMemoryType :: "'s ort_lib \<Rightarrow> ref \<Rightarrow> ('s, int) cxx" where
  "MemoryInfo_GetMemoryType A p =
     bindx (checked A (Fn ''MemoryInfoGetMemType'') [ARef p]) (\<lambda>r. okx (o_int r))"

definition MemoryInfo_eq :: "'s ort_lib \<Rightarrow> ref \<Rightarrow> ref \<Rightarrow> ('s, bool) cxx" where
  "MemoryInfo_eq A p other =
     bindx (checked A (Fn ''CompareMemoryInfo'') [ARef p, ARef other]) (\<lambda>r. okx (o_int r = 0))"

definition MemoryInfo_CreateCpu :: "'s ort_lib \<Rightarrow> OrtAllocatorType \<Rightarrow> OrtMemType \<Rightarrow> ('s, ref) cxx" where
  "MemoryInfo_CreateCpu A ty mem_type =
     bindx (checked A (New New_CreateCpuMemoryInfo) [AInt (OrtAllocatorType_value ty), AInt (OrtMemType_value mem_type)]) (\<lambda>r. okx (o_ref r))"

definition MemoryInfo_ctor :: "'s ort_lib \<Rightarrow> string \<Rightarrow> OrtAllocatorType \<Rightarrow> int \<Rightarrow> OrtMemType \<Rightarrow> ('s, ref) cxx" where
  "MemoryInfo_ctor A nm ty dev_id mem_type =
     construct A KMemoryInfo (New New_CreateMemoryInfo) [AStr nm, AInt (OrtAllocatorType_value ty), AInt dev_id, AInt (OrtMemType_value mem_type)]"

section \<open>Memory owned through an allocator\<close>

text \<open>
  \<open>MemoryAllocation\<close> objects live in variables; \<open>operator=\<close> takes two of them, which may be the same.
  The destructor ignores the status of \<open>AllocatorFree\<close>.
\<close>

record MemoryAllocation =
  ma_allocator :: ref
  ma_p :: ref
  ma_size :: int

definition MemoryAllocation_empty :: MemoryAllocation where
  "MemoryAllocation_empty = \<lparr>ma_allocator = NULL, ma_p = NULL, ma_size = 0\<rparr>"

definition MemoryAllocation_ctor :: "ref \<Rightarrow> ref \<Rightarrow> int \<Rightarrow> MemoryAllocation" where
  "MemoryAllocation_ctor allocator q sz = \<lparr>ma_allocator = allocator, ma_p = q, ma_size = sz\<rparr>"

definition MemoryAllocation_dtor :: "'s ort_lib \<Rightarrow> MemoryAllocation \<Rightarrow> ('s ort, unit) state" where
  "MemoryAllocation_dtor A m =
     when_m (ma_p m \<noteq> NULL) (performs A (Api Fn_AllocatorFree [ARef (ma_allocator m), ARef (ma_p m)]))"

definition MemoryAllocation_move_assign :: "'s ort_lib \<Rightarrow> nat \<Rightarrow> nat \<Rightarrow> (nat \<Rightarrow> MemoryAllocation)
    \<Rightarrow> ('s ort, nat \<Rightarrow> MemoryAllocation) state" where
  "MemoryAllocation_move_assign A this1 other vars = (let
     old = vars this1;
     vars1 = vars(this1 := MemoryAllocation_empty);
     t = vars1 this1; u = vars1 other;
     vars2 = (vars1(this1 := u))(other := t)
   in do { MemoryAllocation_dtor A old; State_Monad.return vars2 })"

definition MemoryAllocation_move_ctor :: "'s ort_lib \<Rightarrow> nat \<Rightarrow> nat \<Rightarrow> (nat \<Rightarrow> MemoryAllocation)
    \<Rightarrow> ('s ort, nat \<Rightarrow> MemoryAllocation) state" where
  "MemoryAllocation_move_ctor A this1 other vars =
     MemoryAllocation_move_assign A this1 other (vars(this1 := MemoryAllocation_empty))"

definition Allocator_GetAllocation :: "'s ort_lib \<Rightarrow> ref \<Rightarrow> int \<Rightarrow> ('s, MemoryAllocation) cxx" where
  "Allocator_GetAllocation A p sz =
     bindx (checked A (New New_AllocatorAlloc) [ARef p, AInt sz]) (\<lambda>r. okx (MemoryAllocation_ctor p (o_ref r) sz))"

definition Allocator_Free :: "'s ort_lib \<Rightarrow> ref \<Rightarrow> ref \<Rightarrow> ('s, unit) cxx" where
  "Allocator_Free A p q = bindx (checked A Fn_AllocatorFree [ARef p, ARef q]) (\<lambda>_. okx ())"

definition MemoryInfo_GetDeviceType :: "'s ort_lib \<Rightarrow> ref \<Rightarrow> ('s ort, int) state" where
  "MemoryInfo_GetDeviceType A p = do {
     r \<leftarrow> perform A (Api_void ''MemoryInfoGetDeviceType'' [ARef p]); State_Monad.return (o_int r) }"

section \<open>The owning pointer Base\<close>

text \<open>
  A \<open>Base\<close> object is a variable that holds a pointer. \<open>operator=\<close> releases what the target holds and
  then takes the source's pointer; target and source may be the same variable.
\<close>

definition Base_dtor :: "'s ort_lib \<Rightarrow> ort_kind \<Rightarrow> nat \<Rightarrow> (nat \<Rightarrow> ref) \<Rightarrow> ('s ort, unit) state" where
  "Base_dtor A k this1 vars = OrtRelease A k (vars this1)"

definition Base_release :: "nat \<Rightarrow> (nat \<Rightarrow> ref) \<Rightarrow> ref \<times> (nat \<Rightarrow> ref)" where
  "Base_release this1 vars = (vars this1, vars(this1 := NULL))"

definition Base_move_ctor :: "nat \<Rightarrow> nat \<Rightarrow> (nat \<Rightarrow> ref) \<Rightarrow> (nat \<Rightarrow> ref)" where
  "Base_move_ctor this1 v vars = (vars(this1 := vars v))(v := NULL)"

definition Base_move_assign :: "'s ort_lib \<Rightarrow> ort_kind \<Rightarrow> nat \<Rightarrow> nat \<Rightarrow> (nat \<Rightarrow> ref) \<Rightarrow> ('s ort, nat \<Rightarrow> ref) state" where
  "Base_move_assign A k this1 v vars = do {
     OrtRelease A k (vars this1);
     (case Base_release v vars of (q, vars1) \<Rightarrow> State_Monad.return (vars1(this1 := q))) }"

definition Unowned_move_assign :: "nat \<Rightarrow> nat \<Rightarrow> (nat \<Rightarrow> ref) \<Rightarrow> (nat \<Rightarrow> ref)" where
  "Unowned_move_assign this1 v vars = (let vars1 = vars(this1 := NULL) in
     (vars1(this1 := vars1 v))(v := vars1 this1))"

definition AllocatedFree_call :: "'s ort_lib \<Rightarrow> ref \<Rightarrow> ref \<Rightarrow> ('s ort, unit) state" where
  "AllocatedFree_call A allocator ptr = when_m (ptr \<noteq> NULL) (performs A (Alloc_Free allocator ptr))"

section \<open>IoBinding\<close>

text \<open>The names come as one buffer and an array of lengths.\<close>

fun split_names :: "nat \<Rightarrow> int list \<Rightarrow> string \<Rightarrow> string list" where
  "split_names 0 lengths buffer = []"
| "split_names (Suc n) [] buffer = []"
| "split_names (Suc n) (sz # lengths) buffer = take (nat sz) buffer # split_names n lengths (drop (nat sz) buffer)"

definition GetOutputNamesHelper :: "'s ort_lib \<Rightarrow> ref \<Rightarrow> ref \<Rightarrow> ('s, string list) cxx" where
  "GetOutputNamesHelper A binding allocator =
     bindx (checked A (New New_GetBoundOutputNames) [ARef binding, ARef allocator]) (\<lambda>r.
       if o_int r = 0 then okx [] else
       scopex (AllocatedFree_call A allocator (o_ref r))
         (scopex (AllocatedFree_call A allocator (hd (o_refs r)))
           (okx (split_names (nat (o_int r)) (o_ints r) (o_str r)))))"

definition GetOutputValuesHelper :: "'s ort_lib \<Rightarrow> ref \<Rightarrow> ref \<Rightarrow> ('s, ref list) cxx" where
  "GetOutputValuesHelper A binding allocator =
     bindx (checked A (New New_GetBoundOutputValues) [ARef binding, ARef allocator]) (\<lambda>r.
       if o_int r = 0 then okx [] else
       scopex (AllocatedFree_call A allocator (o_ref r)) (okx (o_refs r)))"

definition IoBinding_GetOutputNames :: "'s ort_lib \<Rightarrow> ref \<Rightarrow> ('s, string list) cxx" where
  "IoBinding_GetOutputNames A p =
     bindx (AllocatorWithDefaultOptions_ctor A) (\<lambda>allocator. GetOutputNamesHelper A p allocator)"

definition IoBinding_GetOutputNames_with :: "'s ort_lib \<Rightarrow> ref \<Rightarrow> ref \<Rightarrow> ('s, string list) cxx" where
  "IoBinding_GetOutputNames_with A p allocator = GetOutputNamesHelper A p allocator"

definition IoBinding_GetOutputValues :: "'s ort_lib \<Rightarrow> ref \<Rightarrow> ('s, ref list) cxx" where
  "IoBinding_GetOutputValues A p =
     bindx (AllocatorWithDefaultOptions_ctor A) (\<lambda>allocator. GetOutputValuesHelper A p allocator)"

definition IoBinding_GetOutputValues_with :: "'s ort_lib \<Rightarrow> ref \<Rightarrow> ref \<Rightarrow> ('s, ref list) cxx" where
  "IoBinding_GetOutputValues_with A p allocator = GetOutputValuesHelper A p allocator"

definition IoBinding_ClearBoundInputs :: "'s ort_lib \<Rightarrow> ref \<Rightarrow> ('s ort, unit) state" where
  "IoBinding_ClearBoundInputs A p = performs A (Api_void ''ClearBoundInputs'' [ARef p])"

definition IoBinding_ClearBoundOutputs :: "'s ort_lib \<Rightarrow> ref \<Rightarrow> ('s ort, unit) state" where
  "IoBinding_ClearBoundOutputs A p = performs A (Api_void ''ClearBoundOutputs'' [ARef p])"

definition IoBinding_BindInput :: "'s ort_lib \<Rightarrow> ref \<Rightarrow> string \<Rightarrow> ref \<Rightarrow> ('s, unit) cxx" where
  "IoBinding_BindInput A p nm val =
     bindx (checked A (Fn ''BindInput'') [ARef p, AStr nm, ARef val]) (\<lambda>_. okx ())"

definition IoBinding_BindOutput :: "'s ort_lib \<Rightarrow> ref \<Rightarrow> string \<Rightarrow> ref \<Rightarrow> ('s, unit) cxx" where
  "IoBinding_BindOutput A p nm val =
     bindx (checked A (Fn ''BindOutput'') [ARef p, AStr nm, ARef val]) (\<lambda>_. okx ())"

definition IoBinding_BindOutput_to_device :: "'s ort_lib \<Rightarrow> ref \<Rightarrow> string \<Rightarrow> ref \<Rightarrow> ('s, unit) cxx" where
  "IoBinding_BindOutput_to_device A p nm mem_info =
     bindx (checked A (Fn ''BindOutputToDevice'') [ARef p, AStr nm, ARef mem_info]) (\<lambda>_. okx ())"

definition IoBinding_SynchronizeInputs :: "'s ort_lib \<Rightarrow> ref \<Rightarrow> ('s, unit) cxx" where
  "IoBinding_SynchronizeInputs A p =
     bindx (checked A (Fn ''SynchronizeBoundInputs'') [ARef p]) (\<lambda>_. okx ())"

definition IoBinding_SynchronizeOutputs :: "'s ort_lib \<Rightarrow> ref \<Rightarrow> ('s, unit) cxx" where
  "IoBinding_SynchronizeOutputs A p =
     bindx (checked A (Fn ''SynchronizeBoundOutputs'') [ARef p]) (\<lambda>_. okx ())"

definition IoBinding_ctor :: "'s ort_lib \<Rightarrow> ref \<Rightarrow> ('s, ref) cxx" where
  "IoBinding_ctor A session =
     construct A KIoBinding (New New_CreateIoBinding) [ARef session]"

section \<open>Arena configuration and threading options\<close>

definition ArenaCfg_ctor :: "'s ort_lib \<Rightarrow> int \<Rightarrow> int \<Rightarrow> int \<Rightarrow> int \<Rightarrow> ('s, ref) cxx" where
  "ArenaCfg_ctor A max_mem arena_extend_strategy initial_chunk_size_bytes max_dead_bytes_per_chunk =
     construct A KArenaCfg (New New_CreateArenaCfg) [AInt max_mem, AInt arena_extend_strategy, AInt initial_chunk_size_bytes, AInt max_dead_bytes_per_chunk]"

definition ThreadingOptions_ctor :: "'s ort_lib \<Rightarrow> ('s, ref) cxx" where
  "ThreadingOptions_ctor A =
     construct A KThreadingOptions (New New_CreateThreadingOptions) []"

definition ThreadingOptions_SetGlobalIntraOpNumThreads :: "'s ort_lib \<Rightarrow> ref \<Rightarrow> int \<Rightarrow> ('s, ref) cxx" where
  "ThreadingOptions_SetGlobalIntraOpNumThreads A p intra_op_num_threads =
     bindx (checked A (Fn ''SetGlobalIntraOpNumThreads'') [ARef p, AInt intra_op_num_threads]) (\<lambda>_. okx p)"

definition ThreadingOptions_SetGlobalInterOpNumThreads :: "'s ort_lib \<Rightarrow> ref \<Rightarrow> int \<Rightarrow> ('s, ref) cxx" where
  "ThreadingOptions_SetGlobalInterOpNumThreads A p inter_op_num_threads =
     bindx (checked A (Fn ''SetGlobalInterOpNumThreads'') [ARef p, AInt inter_op_num_threads]) (\<lambda>_. okx p)"

definition ThreadingOptions_SetGlobalSpinControl :: "'s ort_lib \<Rightarrow> ref \<Rightarrow> int \<Rightarrow> ('s, ref) cxx" where
  "ThreadingOptions_SetGlobalSpinControl A p allow_spinning =
     bindx (checked A (Fn ''SetGlobalSpinControl'') [ARef p, AInt allow_spinning]) (\<lambda>_. okx p)"

definition ThreadingOptions_SetGlobalDenormalAsZero :: "'s ort_lib \<Rightarrow> ref \<Rightarrow> ('s, ref) cxx" where
  "ThreadingOptions_SetGlobalDenormalAsZero A p =
     bindx (checked A (Fn ''SetGlobalDenormalAsZero'') [ARef p]) (\<lambda>_. okx p)"

definition ThreadingOptions_SetGlobalCustomCreateThreadFn :: "'s ort_lib \<Rightarrow> ref \<Rightarrow> ref \<Rightarrow> ('s, ref) cxx" where
  "ThreadingOptions_SetGlobalCustomCreateThreadFn A p ort_custom_create_thread_fn =
     bindx (checked A (Fn ''SetGlobalCustomCreateThreadFn'') [ARef p, ARef ort_custom_create_thread_fn]) (\<lambda>_. okx p)"

definition ThreadingOptions_SetGlobalCustomThreadCreationOptions :: "'s ort_lib \<Rightarrow> ref \<Rightarrow> ref \<Rightarrow> ('s, ref) cxx" where
  "ThreadingOptions_SetGlobalCustomThreadCreationOptions A p ort_custom_thread_creation_options =
     bindx (checked A (Fn ''SetGlobalCustomThreadCreationOptions'') [ARef p, ARef ort_custom_thread_creation_options]) (\<lambda>_. okx p)"

definition ThreadingOptions_SetGlobalCustomJoinThreadFn :: "'s ort_lib \<Rightarrow> ref \<Rightarrow> ref \<Rightarrow> ('s, ref) cxx" where
  "ThreadingOptions_SetGlobalCustomJoinThreadFn A p ort_custom_join_thread_fn =
     bindx (checked A (Fn ''SetGlobalCustomJoinThreadFn'') [ARef p, ARef ort_custom_join_thread_fn]) (\<lambda>_. okx p)"

section \<open>Env\<close>

text \<open>All four constructors create the environment and then tell it which language projection is in use;
  if that second call fails the environment is released by the base class.\<close>

definition env_projection :: "string \<Rightarrow> OrtLanguageProjection" where
  "env_projection logid = (if logid = ''onnxruntime-node'' then ORT_PROJECTION_NODEJS else ORT_PROJECTION_CPLUSPLUS)"

definition env_body :: "'s ort_lib \<Rightarrow> ort_fn \<Rightarrow> ort_arg list \<Rightarrow> string \<Rightarrow> ('s, ref) cxx" where
  "env_body A fn args logid = do {
     r \<leftarrow> perform A (Api fn args);
     on_throw (OrtRelease A KEnv (o_ref r))
       (bindx (ThrowOnError A (o_status r)) (\<lambda>_.
        bindx (checked A (Fn ''SetLanguageProjection'') [ARef (o_ref r), AInt (OrtLanguageProjection_value (env_projection logid))])
          (\<lambda>_. okx (o_ref r)))) }"

definition Env_ctor :: "'s ort_lib \<Rightarrow> OrtLoggingLevel \<Rightarrow> string \<Rightarrow> ('s, ref) cxx" where
  "Env_ctor A logging_level logid =
     env_body A (New New_CreateEnv) [AInt (OrtLoggingLevel_value logging_level), AStr logid] logid"

definition Env_ctor_logger :: "'s ort_lib \<Rightarrow> OrtLoggingLevel \<Rightarrow> string \<Rightarrow> ref \<Rightarrow> ref \<Rightarrow> ('s, ref) cxx" where
  "Env_ctor_logger A logging_level logid logging_function logger_param =
     env_body A (New New_CreateEnvWithCustomLogger) [ARef logging_function, ARef logger_param,
       AInt (OrtLoggingLevel_value logging_level), AStr logid] logid"

definition Env_ctor_threads :: "'s ort_lib \<Rightarrow> ref \<Rightarrow> OrtLoggingLevel \<Rightarrow> string \<Rightarrow> ('s, ref) cxx" where
  "Env_ctor_threads A tp_options logging_level logid =
     env_body A (New New_CreateEnvWithGlobalThreadPools) [AInt (OrtLoggingLevel_value logging_level), AStr logid,
       ARef tp_options] logid"

definition Env_ctor_logger_threads :: "'s ort_lib \<Rightarrow> ref \<Rightarrow> ref \<Rightarrow> ref \<Rightarrow> OrtLoggingLevel \<Rightarrow> string \<Rightarrow> ('s, ref) cxx" where
  "Env_ctor_logger_threads A tp_options logging_function logger_param logging_level logid =
     env_body A (New New_CreateEnvWithCustomLoggerAndGlobalThreadPools) [ARef logging_function, ARef logger_param,
       AInt (OrtLoggingLevel_value logging_level), AStr logid, ARef tp_options] logid"

text \<open>The entries of an \<open>unordered_map\<close> are listed in its iteration order.\<close>

definition Env_CreateAndRegisterAllocatorV2 :: "'s ort_lib \<Rightarrow> ref \<Rightarrow> string \<Rightarrow> ref \<Rightarrow> (string \<times> string) list \<Rightarrow> ref
    \<Rightarrow> ('s, ref) cxx" where
  "Env_CreateAndRegisterAllocatorV2 A p provider_type mem_info options arena_cfg =
     bindx (checked A (Fn ''CreateAndRegisterAllocatorV2'') [ARef p, AStr provider_type, ARef mem_info, ARef arena_cfg,
       AStrs (map fst options), AStrs (map snd options), AInt (int (length options))]) (\<lambda>_. okx p)"

definition Env_EnableTelemetryEvents :: "'s ort_lib \<Rightarrow> ref \<Rightarrow> ('s, ref) cxx" where
  "Env_EnableTelemetryEvents A p =
     bindx (checked A (Fn ''EnableTelemetryEvents'') [ARef p]) (\<lambda>_. okx p)"

definition Env_DisableTelemetryEvents :: "'s ort_lib \<Rightarrow> ref \<Rightarrow> ('s, ref) cxx" where
  "Env_DisableTelemetryEvents A p =
     bindx (checked A (Fn ''DisableTelemetryEvents'') [ARef p]) (\<lambda>_. okx p)"

definition Env_UpdateEnvWithCustomLogLevel :: "'s ort_lib \<Rightarrow> ref \<Rightarrow> OrtLoggingLevel \<Rightarrow> ('s, ref) cxx" where
  "Env_UpdateEnvWithCustomLogLevel A p log_severity_level =
     bindx (checked A (Fn ''UpdateEnvWithCustomLogLevel'') [ARef p, AInt (OrtLoggingLevel_value log_severity_level)]) (\<lambda>_. okx p)"

definition Env_CreateAndRegisterAllocator :: "'s ort_lib \<Rightarrow> ref \<Rightarrow> ref \<Rightarrow> ref \<Rightarrow> ('s, ref) cxx" where
  "Env_CreateAndRegisterAllocator A p mem_info arena_cfg =
     bindx (checked A (Fn ''CreateAndRegisterAllocator'') [ARef p, ARef mem_info, ARef arena_cfg]) (\<lambda>_. okx p)"

section \<open>Custom op domains, adapters, run options\<close>

definition CustomOpDomain_ctor :: "'s ort_lib \<Rightarrow> string \<Rightarrow> ('s, ref) cxx" where
  "CustomOpDomain_ctor A dom_name =
     construct A KCustomOpDomain (New New_CreateCustomOpDomain) [AStr dom_name]"

definition CustomOpDomain_Add :: "'s ort_lib \<Rightarrow> ref \<Rightarrow> ref \<Rightarrow> ('s, unit) cxx" where
  "CustomOpDomain_Add A p custom_op =
     bindx (checked A (Fn ''CustomOpDomain_Add'') [ARef p, ARef custom_op]) (\<lambda>_. okx ())"

definition LoraAdapter_CreateLoraAdapter :: "'s ort_lib \<Rightarrow> string \<Rightarrow> ref \<Rightarrow> ('s, ref) cxx" where
  "LoraAdapter_CreateLoraAdapter A adapter_path allocator =
     bindx (checked A (New New_CreateLoraAdapter) [AStr adapter_path, ARef allocator]) (\<lambda>r. okx (o_ref r))"

definition LoraAdapter_CreateLoraAdapterFromArray :: "'s ort_lib \<Rightarrow> ref \<Rightarrow> int \<Rightarrow> ref \<Rightarrow> ('s, ref) cxx" where
  "LoraAdapter_CreateLoraAdapterFromArray A bytes num_bytes allocator =
     bindx (checked A (New New_CreateLoraAdapterFromArray) [ARef bytes, AInt num_bytes, ARef allocator]) (\<lambda>r. okx (o_ref r))"

definition RunOptions_ctor :: "'s ort_lib \<Rightarrow> ('s, ref) cxx" where
  "RunOptions_ctor A =
     construct A KRunOptions (New New_CreateRunOptions) []"

definition RunOptions_SetRunLogVerbosityLevel :: "'s ort_lib \<Rightarrow> ref \<Rightarrow> int \<Rightarrow> ('s, ref) cxx" where
  "RunOptions_SetRunLogVerbosityLevel A p level =
     bindx (checked A (Fn ''RunOptionsSetRunLogVerbosityLevel'') [ARef p, AInt level]) (\<lambda>_. okx p)"

definition RunOptions_SetRunLogSeverityLevel :: "'s ort_lib \<Rightarrow> ref \<Rightarrow> int \<Rightarrow> ('s, ref) cxx" where
  "RunOptions_SetRunLogSeverityLevel A p level =
     bindx (checked A (Fn ''RunOptionsSetRunLogSeverityLevel'') [ARef p, AInt level]) (\<lambda>_. okx p)"

definition RunOptions_GetRunLogVerbosityLevel :: "'s ort_lib \<Rightarrow> ref \<Rightarrow> ('s, int) cxx" where
  "RunOptions_GetRunLogVerbosityLevel A p =
     bindx (checked A (Fn ''RunOptionsGetRunLogVerbosityLevel'') [ARef p]) (\<lambda>r. okx (o_int r))"

definition RunOptions_GetRunLogSeverityLevel :: "'s ort_lib \<Rightarrow> ref \<Rightarrow> ('s, int) cxx" where
  "RunOptions_GetRunLogSeverityLevel A p =
     bindx (checked A (Fn ''RunOptionsGetRunLogSeverityLevel'') [ARef p]) (\<lambda>r. okx (o_int r))"

definition RunOptions_SetRunTag :: "'s ort_lib \<Rightarrow> ref \<Rightarrow> string \<Rightarrow> ('s, ref) cxx" where
  "RunOptions_SetRunTag A p run_tag =
     bindx (checked A (Fn ''RunOptionsSetRunTag'') [ARef p, AStr run_tag]) (\<lambda>_. okx p)"

definition RunOptions_GetRunTag :: "'s ort_lib \<Rightarrow> ref \<Rightarrow> ('s, string) cxx" where
  "RunOptions_GetRunTag A p =
     bindx (checked A (Fn ''RunOptionsGetRunTag'') [ARef p]) (\<lambda>r. okx (o_str r))"

definition RunOptions_AddConfigEntry :: "'s ort_lib \<Rightarrow> ref \<Rightarrow> string \<Rightarrow> string \<Rightarrow> ('s, ref) cxx" where
  "RunOptions_AddConfigEntry A p config_key config_value =
     bindx (checked A (Fn ''AddRunConfigEntry'') [ARef p, AStr config_key, AStr config_value]) (\<lambda>_. okx p)"

definition RunOptions_SetTerminate :: "'s ort_lib \<Rightarrow> ref \<Rightarrow> ('s, ref) cxx" where
  "RunOptions_SetTerminate A p =
     bindx (checked A (Fn ''RunOptionsSetTerminate'') [ARef p]) (\<lambda>_. okx p)"

definition RunOptions_UnsetTerminate :: "'s ort_lib \<Rightarrow> ref \<Rightarrow> ('s, ref) cxx" where
  "RunOptions_UnsetTerminate A p =
     bindx (checked A (Fn ''RunOptionsUnsetTerminate'') [ARef p]) (\<lambda>_. okx p)"

definition RunOptions_AddActiveLoraAdapter :: "'s ort_lib \<Rightarrow> ref \<Rightarrow> ref \<Rightarrow> ('s, ref) cxx" where
  "RunOptions_AddActiveLoraAdapter A p adapter =
     bindx (checked A (Fn ''RunOptionsAddActiveLoraAdapter'') [ARef p, ARef adapter]) (\<lambda>_. okx p)"

section \<open>Ownership\<close>

lemma own_release: "ort_held w = Some (M + own k p) \<Longrightarrow> ort_held (exec (OrtRelease A k p) w) = Some M"
  by (simp add: OrtRelease_def step_simps track_step_def)

lemma release_guard:
  "ort_held w = Some (M + own k q) \<Longrightarrow> ort_held (exec (when_m (q \<noteq> NULL) (OrtRelease A k q)) w) = Some M"
  by (cases "q = NULL") (simp_all add: exec_when own_release)

lemma env_body_raii:
  assumes "null_on_error A" "creates f = Some KEnv" "creates_array f = None"
  shows "raii (own KEnv) (env_body A (New f) args logid) w"
proof -
  let ?r = "result (perform A (Api (New f) args)) w" and ?w = "exec (perform A (Api (New f) args)) w"
  let ?c = "checked A (Fn ''SetLanguageProjection'')
    [ARef (o_ref ?r), AInt (OrtLanguageProjection_value (env_projection logid))]"
  have n: "o_status ?r \<noteq> 0 \<Longrightarrow> o_ref ?r = 0"
    using assms(1) by (simp add: null_on_error_def result_perform)
  show ?thesis
  proof (cases "o_status ?r = NULL")
    case True
    have h: "ort_held ?w = Some (M + own KEnv (o_ref ?r))" if "ort_held w = Some M" for M
      using that True assms by (simp add: held_perform track_step_def)
    have "raii (\<lambda>_. {#}) (bindx ?c (\<lambda>_. okx ())) ?w" by (rule wrap_plain)
    then have "ort_held (exec ?c ?w) = Some (M + own KEnv (o_ref ?r))" if "ort_held w = Some M" for M
      using h [OF that] by (auto simp: raii_def bindx_run ok_run split: sum.splits)
    then show ?thesis
      using True own_release [of "exec ?c ?w" _ KEnv "o_ref ?r" A]
      by (auto simp: raii_def env_body_def bindx_run ok_run on_throw_run step_simps split: sum.splits)
  next
    case False
    have "ort_held (exec (ThrowOnError A (o_status ?r)) ?w) = Some M" if "ort_held w = Some M" for M
      by (rule ThrowOnError_held) (use that False in \<open>simp add: held_perform track_step_def own_single\<close>)
    then show ?thesis
      using False n
      by (auto simp: raii_def env_body_def bindx_run on_throw_run step_simps ThrowOnError_run(1)
          OrtRelease_def track_step_def)
  qed
qed

lemma Allocator_GetAllocation_raii: "raii (\<lambda>m. own KBlock (ma_p m)) (Allocator_GetAllocation A p sz) w"
  unfolding Allocator_GetAllocation_def
  by (rule raii_return [OF checked_raii]) (simp_all add: MemoryAllocation_ctor_def creates_array_def)

lemmas env_wrapper_defs = Allocator_Alloc_def Allocator_GetInfo_def AllocatorWithDefaultOptions_ctor_def Allocator_ctor_def
  MemoryInfo_GetAllocatorName_def MemoryInfo_GetAllocatorType_def MemoryInfo_GetDeviceId_def
  MemoryInfo_GetMemoryType_def MemoryInfo_eq_def MemoryInfo_CreateCpu_def MemoryInfo_ctor_def
  IoBinding_BindInput_def IoBinding_BindOutput_def IoBinding_BindOutput_to_device_def
  IoBinding_SynchronizeInputs_def IoBinding_SynchronizeOutputs_def IoBinding_ctor_def ArenaCfg_ctor_def
  ThreadingOptions_ctor_def ThreadingOptions_SetGlobalIntraOpNumThreads_def
  ThreadingOptions_SetGlobalInterOpNumThreads_def ThreadingOptions_SetGlobalSpinControl_def
  ThreadingOptions_SetGlobalDenormalAsZero_def ThreadingOptions_SetGlobalCustomCreateThreadFn_def
  ThreadingOptions_SetGlobalCustomThreadCreationOptions_def ThreadingOptions_SetGlobalCustomJoinThreadFn_def
  Env_EnableTelemetryEvents_def Env_DisableTelemetryEvents_def Env_UpdateEnvWithCustomLogLevel_def
  Env_CreateAndRegisterAllocator_def CustomOpDomain_ctor_def CustomOpDomain_Add_def
  LoraAdapter_CreateLoraAdapter_def LoraAdapter_CreateLoraAdapterFromArray_def RunOptions_ctor_def
  RunOptions_SetRunLogVerbosityLevel_def RunOptions_SetRunLogSeverityLevel_def
  RunOptions_GetRunLogVerbosityLevel_def RunOptions_GetRunLogSeverityLevel_def RunOptions_SetRunTag_def
  RunOptions_GetRunTag_def RunOptions_AddConfigEntry_def RunOptions_SetTerminate_def
  RunOptions_UnsetTerminate_def RunOptions_AddActiveLoraAdapter_def Env_ctor_def Env_ctor_logger_def
  Env_ctor_threads_def Env_ctor_logger_threads_def Env_CreateAndRegisterAllocatorV2_def

text \<open>Every method of the environment, threading, run option, adapter, custom op domain, memory and
  binding classes is exception safe: a status the API returns is released exactly once, a method that
  throws leaves nothing allocated (a constructor releases what it had created, also when only the second
  call of the \<open>Env\<close> constructors fails), and a method that returns hands over exactly the object in its
  result.\<close>

theorem env_classes_raii:
  assumes "null_on_error A"
  shows "raii (own KBlock) (Allocator_Alloc A p sz) w \<and>
   raii (\<lambda>_. {#}) (Allocator_GetInfo A p) w \<and>
   raii (\<lambda>_. {#}) (AllocatorWithDefaultOptions_ctor A) w \<and>
   raii (own KAllocator) (Allocator_ctor A sess mem_info) w \<and>
   raii (\<lambda>_. {#}) (MemoryInfo_GetAllocatorName A p) w \<and>
   raii (\<lambda>_. {#}) (MemoryInfo_GetAllocatorType A p) w \<and>
   raii (\<lambda>_. {#}) (MemoryInfo_GetDeviceId A p) w \<and>
   raii (\<lambda>_. {#}) (MemoryInfo_GetMemoryType A p) w \<and>
   raii (\<lambda>_. {#}) (MemoryInfo_eq A p other) w \<and>
   raii (own KMemoryInfo) (MemoryInfo_CreateCpu A ty mem_type) w \<and>
   raii (own KMemoryInfo) (MemoryInfo_ctor A nm ty dev_id mem_type) w \<and>
   raii (\<lambda>_. {#}) (IoBinding_BindInput A p nm val) w \<and>
   raii (\<lambda>_. {#}) (IoBinding_BindOutput A p nm val) w \<and>
   raii (\<lambda>_. {#}) (IoBinding_BindOutput_to_device A p nm mem_info) w \<and>
   raii (\<lambda>_. {#}) (IoBinding_SynchronizeInputs A p) w \<and>
   raii (\<lambda>_. {#}) (IoBinding_SynchronizeOutputs A p) w \<and>
   raii (own KIoBinding) (IoBinding_ctor A session) w \<and>
   raii (own KArenaCfg) (ArenaCfg_ctor A max_mem arena_extend_strategy initial_chunk_size_bytes max_dead_bytes_per_chunk) w \<and>
   raii (own KThreadingOptions) (ThreadingOptions_ctor A) w \<and>
   raii (\<lambda>_. {#}) (ThreadingOptions_SetGlobalIntraOpNumThreads A p intra_op_num_threads) w \<and>
   raii (\<lambda>_. {#}) (ThreadingOptions_SetGlobalInterOpNumThreads A p inter_op_num_threads) w \<and>
   raii (\<lambda>_. {#}) (ThreadingOptions_SetGlobalSpinControl A p allow_spinning) w \<and>
   raii (\<lambda>_. {#}) (ThreadingOptions_SetGlobalDenormalAsZero A p) w \<and>
   raii (\<lambda>_. {#}) (ThreadingOptions_SetGlobalCustomCreateThreadFn A p ort_custom_create_thread_fn) w \<and>
   raii (\<lambda>_. {#}) (ThreadingOptions_SetGlobalCustomThreadCreationOptions A p ort_custom_thread_creation_options) w \<and>
   raii (\<lambda>_. {#}) (ThreadingOptions_SetGlobalCustomJoinThreadFn A p ort_custom_join_thread_fn) w \<and>
   raii (\<lambda>_. {#}) (Env_EnableTelemetryEvents A p) w \<and>
   raii (\<lambda>_. {#}) (Env_DisableTelemetryEvents A p) w \<and>
   raii (\<lambda>_. {#}) (Env_UpdateEnvWithCustomLogLevel A p log_severity_level) w \<and>
   raii (\<lambda>_. {#}) (Env_CreateAndRegisterAllocator A p mem_info arena_cfg) w \<and>
   raii (own KCustomOpDomain) (CustomOpDomain_ctor A dom_name) w \<and>
   raii (\<lambda>_. {#}) (CustomOpDomain_Add A p custom_op) w \<and>
   raii (own KLoraAdapter) (LoraAdapter_CreateLoraAdapter A adapter_path allocator) w \<and>
   raii (own KLoraAdapter) (LoraAdapter_CreateLoraAdapterFromArray A bytes num_bytes allocator) w \<and>
   raii (own KRunOptions) (RunOptions_ctor A) w \<and>
   raii (\<lambda>_. {#}) (RunOptions_SetRunLogVerbosityLevel A p level) w \<and>
   raii (\<lambda>_. {#}) (RunOptions_SetRunLogSeverityLevel A p level) w \<and>
   raii (\<lambda>_. {#}) (RunOptions_GetRunLogVerbosityLevel A p) w \<and>
   raii (\<lambda>_. {#}) (RunOptions_GetRunLogSeverityLevel A p) w \<and>
   raii (\<lambda>_. {#}) (RunOptions_SetRunTag A p run_tag) w \<and>
   raii (\<lambda>_. {#}) (RunOptions_GetRunTag A p) w \<and>
   raii (\<lambda>_. {#}) (RunOptions_AddConfigEntry A p config_key config_value) w \<and>
   raii (\<lambda>_. {#}) (RunOptions_SetTerminate A p) w \<and>
   raii (\<lambda>_. {#}) (RunOptions_UnsetTerminate A p) w \<and>
   raii (\<lambda>_. {#}) (RunOptions_AddActiveLoraAdapter A p adapter) w \<and>
   raii (\<lambda>m. own KBlock (ma_p m)) (Allocator_GetAllocation A p sz) w \<and>
   raii (own KEnv) (Env_ctor A logging_level logid) w \<and>
   raii (own KEnv) (Env_ctor_logger A logging_level logid logging_function logger_param) w \<and>
   raii (own KEnv) (Env_ctor_threads A tp_options logging_level logid) w \<and>
   raii (own KEnv) (Env_ctor_logger_threads A tp_options logging_function logger_param logging_level logid) w \<and>
   raii (\<lambda>_. {#}) (Env_CreateAndRegisterAllocatorV2 A p provider_type mem_info options arena_cfg) w"
  by (intro conjI) (simp_all add: assms wrap_rules creates_array_def env_body_raii Allocator_GetAllocation_raii
    env_wrapper_defs)

text \<open>The documented shape of the answers about bound outputs: without bound outputs nothing is allocated;
  otherwise there is one buffer and, for the names, one array of lengths.\<close>

definition bound_outputs_doc :: "'s ort_lib \<Rightarrow> bool" where
  "bound_outputs_doc A \<longleftrightarrow> (\<forall>args s.
     (let r = fst (A (Api (New New_GetBoundOutputNames) args) s) in
       if o_int r = 0 then o_ref r = NULL \<and> o_refs r = [] else length (o_refs r) = 1) \<and>
     (let r = fst (A (Api (New New_GetBoundOutputValues) args) s) in
       o_int r = 0 \<longrightarrow> o_ref r = NULL \<and> o_refs r = []))"

lemma AllocatedFree_held: "ort_held w = Some (M + own KBlock p) \<Longrightarrow> ort_held (exec (AllocatedFree_call A a p) w) = Some M"
  by (auto simp: AllocatedFree_call_def step_simps track_step_def own_def)

lemma own_all_single: "length ps = 1 \<Longrightarrow> own_all k ps = own k (hd ps)"
  by (cases ps) (auto simp: own_all_def own_def)

lemma GetOutputNamesHelper_raii:
  assumes "bound_outputs_doc A" shows "raii (\<lambda>_. {#}) (GetOutputNamesHelper A b a) w"
proof -
  let ?c = "checked A (New New_GetBoundOutputNames) [ARef b, ARef a]"
  have c: "raii (\<lambda>r. own KBlock (o_ref r) + own_all KBlock (o_refs r)) ?c w"
    using checked_raii [of "New New_GetBoundOutputNames" "[ARef b, ARef a]" A w]
    by (simp add: creates_array_def raii_def split: sum.splits)
  show ?thesis unfolding raii_def
  proof (intro allI impI)
    fix M assume M: "ort_held w = Some M"
    show "ort_held (exec (GetOutputNamesHelper A b a) w) =
      Some (M + (case result (GetOutputNamesHelper A b a) w of Inl e \<Rightarrow> {#} | Inr x \<Rightarrow> {#}))"
    proof (cases "result ?c w")
      case (Inl e)
      with c M show ?thesis by (simp add: GetOutputNamesHelper_def bindx_run raii_def)
    next
      case (Inr r)
      have r: "r = fst (A (Api (New New_GetBoundOutputNames) [ARef b, ARef a]) (ext_state w))"
        using checked_status [OF Inr] by (simp add: result_perform)
      have h: "ort_held (exec ?c w) = Some (M + (own KBlock (o_ref r) + own_all KBlock (o_refs r)))"
        using c M Inr by (simp add: raii_def)
      have d: "if o_int r = 0 then o_ref r = NULL \<and> o_refs r = [] else length (o_refs r) = 1"
        using assms unfolding bound_outputs_doc_def Let_def r by blast
      show ?thesis
      proof (cases "o_int r = 0")
        case True
        with Inr h d show ?thesis
          by (simp add: GetOutputNamesHelper_def bindx_run ok_run own_all_def)
      next
        case False
        with d have "ort_held (exec ?c w) = Some ((M + own KBlock (o_ref r)) + own KBlock (hd (o_refs r)))"
          using h by (simp add: own_all_single ac_simps)
        note f = AllocatedFree_held [OF AllocatedFree_held [OF this]]
        from False Inr f show ?thesis
          by (simp add: GetOutputNamesHelper_def bindx_run ok_run scopex_run)
      qed
    qed
  qed
qed

lemma GetOutputValuesHelper_raii:
  assumes "bound_outputs_doc A" shows "raii (own_all KValue) (GetOutputValuesHelper A b a) w"
proof -
  let ?c = "checked A (New New_GetBoundOutputValues) [ARef b, ARef a]"
  have c: "raii (\<lambda>r. own_all KValue (o_refs r) + own KBlock (o_ref r)) ?c w"
    using checked_raii [of "New New_GetBoundOutputValues" "[ARef b, ARef a]" A w]
    by (simp add: creates_array_def raii_def add.commute split: sum.splits)
  show ?thesis unfolding raii_def
  proof (intro allI impI)
    fix M assume M: "ort_held w = Some M"
    show "ort_held (exec (GetOutputValuesHelper A b a) w) =
      Some (M + (case result (GetOutputValuesHelper A b a) w of Inl e \<Rightarrow> {#} | Inr x \<Rightarrow> own_all KValue x))"
    proof (cases "result ?c w")
      case (Inl e)
      with c M show ?thesis by (simp add: GetOutputValuesHelper_def bindx_run raii_def)
    next
      case (Inr r)
      have r: "r = fst (A (Api (New New_GetBoundOutputValues) [ARef b, ARef a]) (ext_state w))"
        using checked_status [OF Inr] by (simp add: result_perform)
      have h: "ort_held (exec ?c w) = Some ((M + own_all KValue (o_refs r)) + own KBlock (o_ref r))"
        using c M Inr by (simp add: raii_def add.assoc)
      have d: "o_int r = 0 \<longrightarrow> o_ref r = NULL \<and> o_refs r = []"
        using assms unfolding bound_outputs_doc_def Let_def r by blast
      show ?thesis
        using Inr h d AllocatedFree_held [OF h]
        by (simp add: GetOutputValuesHelper_def bindx_run ok_run scopex_run own_all_def)
    qed
  qed
qed

lemma default_allocator_plain: "raii (\<lambda>_. {#}) (AllocatorWithDefaultOptions_ctor A) w"
  by (simp add: AllocatorWithDefaultOptions_ctor_def wrap_plain)

lemma split_names_concat: "split_names (length names) (map (\<lambda>s. int (length s)) names) (concat names) = names"
  by (induction names) simp_all

text \<open>\<open>GetOutputNames\<close> and \<open>GetOutputValues\<close> free the buffers they receive on every path and hand over
  exactly the values, for the default allocator and for one the caller passes.\<close>

theorem bound_outputs_raii:
  assumes "bound_outputs_doc A"
  shows "raii (\<lambda>_. {#}) (IoBinding_GetOutputNames A p) w \<and>
    raii (\<lambda>_. {#}) (IoBinding_GetOutputNames_with A p a) w \<and>
    raii (own_all KValue) (IoBinding_GetOutputValues A p) w \<and>
    raii (own_all KValue) (IoBinding_GetOutputValues_with A p a) w"
  using assms unfolding IoBinding_GetOutputNames_def IoBinding_GetOutputNames_with_def
    IoBinding_GetOutputValues_def IoBinding_GetOutputValues_with_def
  by (auto intro: raii_bind [OF default_allocator_plain] GetOutputNamesHelper_raii GetOutputValuesHelper_raii)

text \<open>The names are recovered from the buffer: if the API packs the names one after the other and
  reports their lengths, the result is the list of names.\<close>

theorem bound_output_names:
  assumes "r = result (perform A (Api (New New_GetBoundOutputNames) [ARef b, ARef a])) w"
    "o_status r = NULL" "o_int r = int (length names)" "o_ints r = map (\<lambda>s. int (length s)) names"
    "o_str r = concat names"
  shows "result (GetOutputNamesHelper A b a) w = Inr names"
  using assms split_names_concat [of names]
  by (auto simp: GetOutputNamesHelper_def bindx_run ok_run scopex_run checked_run Let_def)

section \<open>Moves\<close>

text \<open>Move assignment of an owning pointer releases what the target held, exactly once, and moves the
  source's object into the target. This needs the two variables to be different: assigning a variable to
  itself leaves it holding the object that was just released, so that its destructor releases it again.\<close>

theorem Base_move_assign_ownership:
  assumes "vars y \<noteq> NULL" "ort_held w = Some (M + own k (vars x) + (if x = y then {#} else own k (vars y)))"
  shows "let m = Base_move_assign A k x y vars; vars' = result m w in
    ort_held (exec m w) = Some (M + (if x = y then {#} else own k (vars y))) \<and>
    vars' x = vars y \<and> (if x = y then Own k (vars x) \<notin># M \<longrightarrow> ort_held (exec (Base_dtor A k x vars') (exec m w)) = None
      else vars' y = NULL)"
proof -
  have h: "ort_held (exec (OrtRelease A k (vars x)) w) = Some (M + (if x = y then {#} else own k (vars y)))"
    using assms(2) by (intro own_release) (simp add: ac_simps)
  have run: "exec (Base_move_assign A k x y vars) w = exec (OrtRelease A k (vars x)) w"
    "result (Base_move_assign A k x y vars) w = (vars(y := NULL))(x := vars y)" for x
    by (simp_all add: Base_move_assign_def Base_release_def step_simps)
  have "ort_held (exec (OrtRelease A k (vars y)) w') = None"
    if "ort_held w' = Some M" "Own k (vars y) \<notin># M" for w' :: "'a ort"
    using that assms(1) by (simp add: OrtRelease_def step_simps track_step_def own_single)
  then show ?thesis
    using h by (cases "x = y") (simp_all add: run Let_def Base_dtor_def)
qed

text \<open>Move assignment of a \<open>MemoryAllocation\<close> frees what the target held exactly once and leaves the
  source empty, also when both are the same variable.\<close>

theorem MemoryAllocation_move_assign_ownership:
  assumes "ort_held w = Some (M + own KBlock (ma_p (vars x)))"
    "o_status (result (perform A (Api Fn_AllocatorFree [ARef (ma_allocator (vars x)), ARef (ma_p (vars x))])) w) = NULL"
  shows "let m = MemoryAllocation_move_assign A x y vars; vars' = result m w in
    ort_held (exec m w) = Some M \<and> vars' y = MemoryAllocation_empty \<and>
    (if x = y then vars' x = MemoryAllocation_empty else vars' x = vars y)"
  using assms
  by (auto simp: MemoryAllocation_move_assign_def MemoryAllocation_dtor_def Let_def step_simps track_step_def own_def)

section \<open>Witnesses\<close>

text \<open>A library that answers every call with object 5 and succeeds, except that \<open>SetLanguageProjection\<close>
  fails with status 9; it reports two bound outputs named \<open>ab\<close> and \<open>c\<close>.\<close>

definition demo_ort :: "unit ort_lib" where
  "demo_ort c s = (let bad = (case c of Api (Fn f) args \<Rightarrow> f = ''SetLanguageProjection'' | _ \<Rightarrow> False) in
     (\<lparr>o_status = (if bad then 9 else 0), o_ref = (if bad then 0 else 5), o_int = 2, o_str = ''abc'',
       o_refs = (if bad then [] else [6]), o_ints = [2, 1], o_strs = []\<rparr>, s))"

definition demo_ort_world :: "unit ort" where
  "demo_ort_world = \<lparr>ext_state = (), log = []\<rparr>"

lemma demo_ort_doc: "null_on_error demo_ort" "bound_outputs_doc demo_ort" "ort_held demo_ort_world = Some {#}"
  by (simp_all add: null_on_error_def bound_outputs_doc_def demo_ort_def demo_ort_world_def held_def Let_def)

theorem env_classes_raii_witness:
  "raii (own KEnv) (Env_ctor demo_ort ORT_LOGGING_LEVEL_WARNING ''evs'') demo_ort_world \<and>
   result (Env_ctor demo_ort ORT_LOGGING_LEVEL_WARNING ''evs'') demo_ort_world = Inl (Ort_Exception ''abc'' 2)"
proof
  show "raii (own KEnv) (Env_ctor demo_ort ORT_LOGGING_LEVEL_WARNING ''evs'') demo_ort_world"
    using env_classes_raii [OF demo_ort_doc(1), where w = demo_ort_world and logid = "''evs''"
        and logging_level = ORT_LOGGING_LEVEL_WARNING] by simp
  show "result (Env_ctor demo_ort ORT_LOGGING_LEVEL_WARNING ''evs'') demo_ort_world = Inl (Ort_Exception ''abc'' 2)"
    by (simp add: Env_ctor_def env_body_def checked_def bindx_run ok_run on_throw_run exec_bind result_bind
        ThrowOnError_run result_perform exec_perform demo_ort_def Let_def)
qed

theorem bound_outputs_raii_witness:
  "raii (own_all KValue) (IoBinding_GetOutputValues demo_ort 4) demo_ort_world"
  using bound_outputs_raii [OF demo_ort_doc(2), of 4 demo_ort_world 0] by simp

theorem bound_output_names_witness:
  "result (GetOutputNamesHelper demo_ort 4 0) demo_ort_world = Inr [''ab'', ''c'']"
  by (rule bound_output_names [OF refl]) (simp_all add: result_perform demo_ort_def Let_def)

definition demo_store :: "nat \<Rightarrow> ref" where "demo_store = (\<lambda>_. 5)"

lemma demo_env_held: "ort_held (exec (perform demo_ort (Api (New New_CreateEnv) [])) demo_ort_world) = Some {#Own KEnv 5#}"
  by (simp add: held_perform demo_ort_doc track_step_def result_perform demo_ort_def Let_def creates_array_def own_def)

theorem Base_move_assign_ownership_witness:
  "ort_held (exec (Base_dtor demo_ort KEnv 1 (result (Base_move_assign demo_ort KEnv 1 1 demo_store)
      (exec (perform demo_ort (Api (New New_CreateEnv) [])) demo_ort_world)))
    (exec (Base_move_assign demo_ort KEnv 1 1 demo_store)
      (exec (perform demo_ort (Api (New New_CreateEnv) [])) demo_ort_world))) = None"
  using Base_move_assign_ownership [of demo_store 1 "exec (perform demo_ort (Api (New New_CreateEnv) [])) demo_ort_world"
      "{#}" KEnv 1 demo_ort] demo_env_held
  by (simp add: demo_store_def own_def Let_def)

theorem MemoryAllocation_move_assign_ownership_witness:
  "ort_held (exec (MemoryAllocation_move_assign demo_ort 1 1 (\<lambda>_. \<lparr>ma_allocator = 3, ma_p = 5, ma_size = 8\<rparr>))
    (exec (perform demo_ort (Api (New New_AllocatorAlloc) [])) demo_ort_world)) = Some {#}"
proof -
  let ?w = "exec (perform demo_ort (Api (New New_AllocatorAlloc) [])) demo_ort_world"
  have "ort_held ?w = Some ({#} + own KBlock 5)"
    by (simp add: held_perform demo_ort_doc track_step_def result_perform demo_ort_def Let_def creates_array_def own_def)
  then show ?thesis
    using MemoryAllocation_move_assign_ownership [of ?w "{#}" "\<lambda>_. \<lparr>ma_allocator = 3, ma_p = 5, ma_size = 8\<rparr>" 1 demo_ort 1]
    by (simp add: result_perform demo_ort_def Let_def)
qed

end
