(* ===== verification/Ort_Session.thy ===== *)
theory Ort_Session
  imports Ort_Env "HOL-Library.AList"
begin

text \<open>
  The C++ wrapper classes of \<^verbatim>\<open>onnxruntime_cxx_inline.h\<close> for session options, sessions, custom operator
  configuration and model metadata, method by method. The theorems: exception safety of all of them;
  what is written to the session configuration is read back, also through the keys of a custom operator;
  the checks that come before any call.
\<close>

section \<open>Strings of unknown length\<close>

text \<open>
  Several methods read a string with two calls: one with a null buffer, which reports the size with the
  terminator, and one that fills a buffer of that size; then the terminator is cut off. \<open>resize\<close> throws
  \<open>std::length_error\<close> beyond \<open>max_size()\<close>, which the standard library fixes (\<open>mx\<close>). The size is a
  \<open>size_t\<close>, so a reported size of 0 makes the last \<open>resize\<close> ask for \<open>2^64 - 1\<close> characters.
\<close>

definition std_resize :: "int \<Rightarrow> string \<Rightarrow> int \<Rightarrow> ('s, string) cxx" where
  "std_resize mx s n = (if n > mx then throwx Std_length_error
     else okx (take (nat n) s @ replicate (nat n - length s) CHR 0x00))"

definition sized_string :: "'s ort_lib \<Rightarrow> int \<Rightarrow> string \<Rightarrow> ort_arg list \<Rightarrow> ('s, string) cxx" where
  "sized_string A mx fn args =
     bindx (checked A (Fn fn) (args @ [ARef NULL, AInt 0])) (\<lambda>r1.
     bindx (std_resize mx [] (o_int r1)) (\<lambda>out.
     bindx (checked A (Fn fn) (args @ [AStr out, AInt (o_int r1)])) (\<lambda>r2.
     std_resize mx (o_str r2) ((o_int r2 - 1) mod 2 ^ 64))))"

section \<open>Session options\<close>

definition SessionOptions_Clone :: "'s ort_lib \<Rightarrow> ref \<Rightarrow> ('s, ref) cxx" where
  "SessionOptions_Clone A p =
     bindx (checked A (New New_CloneSessionOptions) [ARef p]) (\<lambda>r. okx (o_ref r))"

definition SessionOptions_HasConfigEntry :: "'s ort_lib \<Rightarrow> ref \<Rightarrow> string \<Rightarrow> ('s, bool) cxx" where
  "SessionOptions_HasConfigEntry A p config_key =
     bindx (checked A (Fn ''HasSessionConfigEntry'') [ARef p, AStr config_key]) (\<lambda>r. okx (o_int r \<noteq> 0))"

definition SessionOptions_SetIntraOpNumThreads :: "'s ort_lib \<Rightarrow> ref \<Rightarrow> int \<Rightarrow> ('s, ref) cxx" where
  "SessionOptions_SetIntraOpNumThreads A p intra_op_num_threads =
     bindx (checked A (Fn ''SetIntraOpNumThreads'') [ARef p, AInt intra_op_num_threads]) (\<lambda>_. okx p)"

definition SessionOptions_SetInterOpNumThreads :: "'s ort_lib \<Rightarrow> ref \<Rightarrow> int \<Rightarrow> ('s, ref) cxx" where
  "SessionOptions_SetInterOpNumThreads A p inter_op_num_threads =
     bindx (checked A (Fn ''SetInterOpNumThreads'') [ARef p, AInt inter_op_num_threads]) (\<lambda>_. okx p)"

definition SessionOptions_SetGraphOptimizationLevel :: "'s ort_lib \<Rightarrow> ref \<Rightarrow> GraphOptimizationLevel \<Rightarrow> ('s, ref) cxx" where
  "SessionOptions_SetGraphOptimizationLevel A p graph_optimization_level =
     bindx (checked A (Fn ''SetSessionGraphOptimizationLevel'') [ARef p, AInt (GraphOptimizationLevel_value graph_optimization_level)]) (\<lambda>_. okx p)"

definition SessionOptions_SetDeterministicCompute :: "'s ort_lib \<Rightarrow> ref \<Rightarrow> bool \<Rightarrow> ('s, ref) cxx" where
  "SessionOptions_SetDeterministicCompute A p val =
     bindx (checked A (Fn ''SetDeterministicCompute'') [ARef p, AInt (of_bool val)]) (\<lambda>_. okx p)"

definition SessionOptions_SetOptimizedModelFilePath :: "'s ort_lib \<Rightarrow> ref \<Rightarrow> string \<Rightarrow> ('s, ref) cxx" where
  "SessionOptions_SetOptimizedModelFilePath A p optimized_model_filepath =
     bindx (checked A (Fn ''SetOptimizedModelFilePath'') [ARef p, AStr optimized_model_filepath]) (\<lambda>_. okx p)"

definition SessionOptions_EnableProfiling :: "'s ort_lib \<Rightarrow> ref \<Rightarrow> string \<Rightarrow> ('s, ref) cxx" where
  "SessionOptions_EnableProfiling A p profile_file_prefix =
     bindx (checked A (Fn ''EnableProfiling'') [ARef p, AStr profile_file_prefix]) (\<lambda>_. okx p)"

definition SessionOptions_DisableProfiling :: "'s ort_lib \<Rightarrow> ref \<Rightarrow> ('s, ref) cxx" where
  "SessionOptions_DisableProfiling A p =
     bindx (checked A (Fn ''DisableProfiling'') [ARef p]) (\<lambda>_. okx p)"

definition SessionOptions_EnableOrtCustomOps :: "'s ort_lib \<Rightarrow> ref \<Rightarrow> ('s, ref) cxx" where
  "SessionOptions_EnableOrtCustomOps A p =
     bindx (checked A (Fn ''EnableOrtCustomOps'') [ARef p]) (\<lambda>_. okx p)"

definition SessionOptions_EnableMemPattern :: "'s ort_lib \<Rightarrow> ref \<Rightarrow> ('s, ref) cxx" where
  "SessionOptions_EnableMemPattern A p =
     bindx (checked A (Fn ''EnableMemPattern'') [ARef p]) (\<lambda>_. okx p)"

definition SessionOptions_DisableMemPattern :: "'s ort_lib \<Rightarrow> ref \<Rightarrow> ('s, ref) cxx" where
  "SessionOptions_DisableMemPattern A p =
     bindx (checked A (Fn ''DisableMemPattern'') [ARef p]) (\<lambda>_. okx p)"

definition SessionOptions_EnableCpuMemArena :: "'s ort_lib \<Rightarrow> ref \<Rightarrow> ('s, ref) cxx" where
  "SessionOptions_EnableCpuMemArena A p =
     bindx (checked A (Fn ''EnableCpuMemArena'') [ARef p]) (\<lambda>_. okx p)"

definition SessionOptions_DisableCpuMemArena :: "'s ort_lib \<Rightarrow> ref \<Rightarrow> ('s, ref) cxx" where
  "SessionOptions_DisableCpuMemArena A p =
     bindx (checked A (Fn ''DisableCpuMemArena'') [ARef p]) (\<lambda>_. okx p)"

definition SessionOptions_SetExecutionMode :: "'s ort_lib \<Rightarrow> ref \<Rightarrow> ExecutionMode \<Rightarrow> ('s, ref) cxx" where
  "SessionOptions_SetExecutionMode A p execution_mode =
     bindx (checked A (Fn ''SetSessionExecutionMode'') [ARef p, AInt (ExecutionMode_value execution_mode)]) (\<lambda>_. okx p)"

definition SessionOptions_SetLogId :: "'s ort_lib \<Rightarrow> ref \<Rightarrow> string \<Rightarrow> ('s, ref) cxx" where
  "SessionOptions_SetLogId A p logid =
     bindx (checked A (Fn ''SetSessionLogId'') [ARef p, AStr logid]) (\<lambda>_. okx p)"

definition SessionOptions_SetLogSeverityLevel :: "'s ort_lib \<Rightarrow> ref \<Rightarrow> int \<Rightarrow> ('s, ref) cxx" where
  "SessionOptions_SetLogSeverityLevel A p level =
     bindx (checked A (Fn ''SetSessionLogSeverityLevel'') [ARef p, AInt level]) (\<lambda>_. okx p)"

definition SessionOptions_Add :: "'s ort_lib \<Rightarrow> ref \<Rightarrow> ref \<Rightarrow> ('s, ref) cxx" where
  "SessionOptions_Add A p custom_op_domain =
     bindx (checked A (Fn ''AddCustomOpDomain'') [ARef p, ARef custom_op_domain]) (\<lambda>_. okx p)"

definition SessionOptions_AddConfigEntry :: "'s ort_lib \<Rightarrow> ref \<Rightarrow> string \<Rightarrow> string \<Rightarrow> ('s, ref) cxx" where
  "SessionOptions_AddConfigEntry A p config_key config_value =
     bindx (checked A (Fn ''AddSessionConfigEntry'') [ARef p, AStr config_key, AStr config_value]) (\<lambda>_. okx p)"

definition SessionOptions_AddInitializer :: "'s ort_lib \<Rightarrow> ref \<Rightarrow> string \<Rightarrow> ref \<Rightarrow> ('s, ref) cxx" where
  "SessionOptions_AddInitializer A p nm ort_val =
     bindx (checked A (Fn ''AddInitializer'') [ARef p, AStr nm, ARef ort_val]) (\<lambda>_. okx p)"

definition SessionOptions_DisablePerSessionThreads :: "'s ort_lib \<Rightarrow> ref \<Rightarrow> ('s, ref) cxx" where
  "SessionOptions_DisablePerSessionThreads A p =
     bindx (checked A (Fn ''DisablePerSessionThreads'') [ARef p]) (\<lambda>_. okx p)"

definition SessionOptions_GetConfigEntry :: "'s ort_lib \<Rightarrow> int \<Rightarrow> ref \<Rightarrow> string \<Rightarrow> ('s, string) cxx" where
  "SessionOptions_GetConfigEntry A mx p config_key =
     sized_string A mx ''GetSessionConfigEntry'' [ARef p, AStr config_key]"

definition SessionOptions_GetConfigEntryOrDefault :: "'s ort_lib \<Rightarrow> int \<Rightarrow> ref \<Rightarrow> string \<Rightarrow> string \<Rightarrow> ('s, string) cxx" where
  "SessionOptions_GetConfigEntryOrDefault A mx p config_key def =
     bindx (SessionOptions_HasConfigEntry A p config_key) (\<lambda>has.
       if \<not> has then okx def else SessionOptions_GetConfigEntry A mx p config_key)"

definition SessionOptions_AddExternalInitializers :: "'s ort_lib \<Rightarrow> ref \<Rightarrow> string list \<Rightarrow> ref list \<Rightarrow> ('s, ref) cxx" where
  "SessionOptions_AddExternalInitializers A p names ort_values = (let inputs_num = length names in
     if inputs_num \<noteq> length ort_values then
       throwx (Ort_Exception ''Expecting names and ort_values to have the same length'' (OrtErrorCode_value ORT_INVALID_ARGUMENT))
     else bindx (checked A (Fn ''AddExternalInitializers'')
       [ARef p, AStrs names, ARefs ort_values, AInt (int inputs_num)]) (\<lambda>_. okx p))"

definition SessionOptions_AddExternalInitializersFromFilesInMemory :: "'s ort_lib \<Rightarrow> ref \<Rightarrow> string list \<Rightarrow> ref list
    \<Rightarrow> int list \<Rightarrow> ('s, ref) cxx" where
  "SessionOptions_AddExternalInitializersFromFilesInMemory A p file_names buffer_array file_lengths =
     (let inputs_num = length file_names in
     if inputs_num \<noteq> length buffer_array then
       throwx (Ort_Exception ''Expecting names and buffer_array to have the same length'' (OrtErrorCode_value ORT_INVALID_ARGUMENT))
     else if inputs_num \<noteq> length file_lengths then
       throwx (Ort_Exception ''Expecting names and file_lengths to have the same length'' (OrtErrorCode_value ORT_INVALID_ARGUMENT))
     else bindx (checked A (Fn ''AddExternalInitializersFromFilesInMemory'')
       [ARef p, AStrs file_names, ARefs buffer_array, AInts file_lengths, AInt (int inputs_num)]) (\<lambda>_. okx p))"

definition SessionOptions_AppendExecutionProvider_CUDA :: "'s ort_lib \<Rightarrow> ref \<Rightarrow> ref \<Rightarrow> ('s, ref) cxx" where
  "SessionOptions_AppendExecutionProvider_CUDA A p provider_options =
     bindx (checked A (Fn ''SessionOptionsAppendExecutionProvider_CUDA'') [ARef p, ARef provider_options]) (\<lambda>_. okx p)"

definition SessionOptions_AppendExecutionProvider_CUDA_V2 :: "'s ort_lib \<Rightarrow> ref \<Rightarrow> ref \<Rightarrow> ('s, ref) cxx" where
  "SessionOptions_AppendExecutionProvider_CUDA_V2 A p provider_options =
     bindx (checked A (Fn ''SessionOptionsAppendExecutionProvider_CUDA_V2'') [ARef p, ARef provider_options]) (\<lambda>_. okx p)"

definition SessionOptions_AppendExecutionProvider_ROCM :: "'s ort_lib \<Rightarrow> ref \<Rightarrow> ref \<Rightarrow> ('s, ref) cxx" where
  "SessionOptions_AppendExecutionProvider_ROCM A p provider_options =
     bindx (checked A (Fn ''SessionOptionsAppendExecutionProvider_ROCM'') [ARef p, ARef provider_options]) (\<lambda>_. okx p)"

definition SessionOptions_AppendExecutionProvider_TensorRT :: "'s ort_lib \<Rightarrow> ref \<Rightarrow> ref \<Rightarrow> ('s, ref) cxx" where
  "SessionOptions_AppendExecutionProvider_TensorRT A p provider_options =
     bindx (checked A (Fn ''SessionOptionsAppendExecutionProvider_TensorRT'') [ARef p, ARef provider_options]) (\<lambda>_. okx p)"

definition SessionOptions_AppendExecutionProvider_TensorRT_V2 :: "'s ort_lib \<Rightarrow> ref \<Rightarrow> ref \<Rightarrow> ('s, ref) cxx" where
  "SessionOptions_AppendExecutionProvider_TensorRT_V2 A p provider_options =
     bindx (checked A (Fn ''SessionOptionsAppendExecutionProvider_TensorRT_V2'') [ARef p, ARef provider_options]) (\<lambda>_. okx p)"

definition SessionOptions_AppendExecutionProvider_MIGraphX :: "'s ort_lib \<Rightarrow> ref \<Rightarrow> ref \<Rightarrow> ('s, ref) cxx" where
  "SessionOptions_AppendExecutionProvider_MIGraphX A p provider_options =
     bindx (checked A (Fn ''SessionOptionsAppendExecutionProvider_MIGraphX'') [ARef p, ARef provider_options]) (\<lambda>_. okx p)"

definition SessionOptions_AppendExecutionProvider_CANN :: "'s ort_lib \<Rightarrow> ref \<Rightarrow> ref \<Rightarrow> ('s, ref) cxx" where
  "SessionOptions_AppendExecutionProvider_CANN A p provider_options =
     bindx (checked A (Fn ''SessionOptionsAppendExecutionProvider_CANN'') [ARef p, ARef provider_options]) (\<lambda>_. okx p)"

definition SessionOptions_AppendExecutionProvider_Dnnl :: "'s ort_lib \<Rightarrow> ref \<Rightarrow> ref \<Rightarrow> ('s, ref) cxx" where
  "SessionOptions_AppendExecutionProvider_Dnnl A p provider_options =
     bindx (checked A (Fn ''SessionOptionsAppendExecutionProvider_Dnnl'') [ARef p, ARef provider_options]) (\<lambda>_. okx p)"

text \<open>The options of a provider are the entries of an \<open>unordered_map\<close>, listed in its iteration order.\<close>

definition SessionOptions_AppendExecutionProvider :: "'s ort_lib \<Rightarrow> ref \<Rightarrow> string \<Rightarrow> (string \<times> string) list
    \<Rightarrow> ('s, ref) cxx" where
  "SessionOptions_AppendExecutionProvider A p provider_name provider_options =
     bindx (checked A (Fn ''SessionOptionsAppendExecutionProvider'') [ARef p, AStr provider_name,
       AStrs (map fst provider_options), AStrs (map snd provider_options), AInt (int (length provider_options))])
     (\<lambda>_. okx p)"

definition SessionOptions_SetCustomCreateThreadFn :: "'s ort_lib \<Rightarrow> ref \<Rightarrow> ref \<Rightarrow> ('s, ref) cxx" where
  "SessionOptions_SetCustomCreateThreadFn A p ort_custom_create_thread_fn =
     bindx (checked A (Fn ''SessionOptionsSetCustomCreateThreadFn'') [ARef p, ARef ort_custom_create_thread_fn]) (\<lambda>_. okx p)"

definition SessionOptions_SetCustomThreadCreationOptions :: "'s ort_lib \<Rightarrow> ref \<Rightarrow> ref \<Rightarrow> ('s, ref) cxx" where
  "SessionOptions_SetCustomThreadCreationOptions A p ort_custom_thread_creation_options =
     bindx (checked A (Fn ''SessionOptionsSetCustomThreadCreationOptions'') [ARef p, ARef ort_custom_thread_creation_options]) (\<lambda>_. okx p)"

definition SessionOptions_SetCustomJoinThreadFn :: "'s ort_lib \<Rightarrow> ref \<Rightarrow> ref \<Rightarrow> ('s, ref) cxx" where
  "SessionOptions_SetCustomJoinThreadFn A p ort_custom_join_thread_fn =
     bindx (checked A (Fn ''SessionOptionsSetCustomJoinThreadFn'') [ARef p, ARef ort_custom_join_thread_fn]) (\<lambda>_. okx p)"

definition SessionOptions_AppendExecutionProvider_OpenVINO :: "'s ort_lib \<Rightarrow> ref \<Rightarrow> ref \<Rightarrow> ('s, ref) cxx" where
  "SessionOptions_AppendExecutionProvider_OpenVINO A p provider_options =
     bindx (checked A (Fn ''SessionOptionsAppendExecutionProvider_OpenVINO'') [ARef p, ARef provider_options]) (\<lambda>_. okx p)"

definition SessionOptions_AppendExecutionProvider_OpenVINO_V2 :: "'s ort_lib \<Rightarrow> ref \<Rightarrow> (string \<times> string) list
    \<Rightarrow> ('s, ref) cxx" where
  "SessionOptions_AppendExecutionProvider_OpenVINO_V2 A p provider_options =
     bindx (checked A (Fn ''SessionOptionsAppendExecutionProvider_OpenVINO_V2'') [ARef p,
       AStrs (map fst provider_options), AStrs (map snd provider_options), AInt (int (length provider_options))])
     (\<lambda>_. okx p)"

definition SessionOptions_AppendExecutionProvider_VitisAI :: "'s ort_lib \<Rightarrow> ref \<Rightarrow> (string \<times> string) list
    \<Rightarrow> ('s, ref) cxx" where
  "SessionOptions_AppendExecutionProvider_VitisAI A p provider_options =
     bindx (checked A (Fn ''SessionOptionsAppendExecutionProvider_VitisAI'') [ARef p,
       AStrs (map fst provider_options), AStrs (map snd provider_options), AInt (int (length provider_options))])
     (\<lambda>_. okx p)"

section \<open>Configuration of custom operators\<close>

text \<open>\<open>flat_configs_\<close> is an \<open>unordered_map\<close>: an association list with distinct keys.\<close>

definition MakeCustomOpConfigEntryKey :: "string \<Rightarrow> string \<Rightarrow> string" where
  "MakeCustomOpConfigEntryKey custom_op_name config = ''custom_op.'' @ custom_op_name @ ''.'' @ config"

definition CustomOpConfigs_AddConfig :: "(string \<times> string) list \<Rightarrow> string \<Rightarrow> string \<Rightarrow> string \<Rightarrow> (string \<times> string) list" where
  "CustomOpConfigs_AddConfig flat_configs custom_op_name config_key config_value =
     AList.update (MakeCustomOpConfigEntryKey custom_op_name config_key) config_value flat_configs"

definition CustomOpConfigs_GetFlattenedConfigs :: "(string \<times> string) list \<Rightarrow> (string \<times> string) list" where
  "CustomOpConfigs_GetFlattenedConfigs flat_configs = flat_configs"

definition SessionOptions_RegisterCustomOpsLibrary :: "'s ort_lib \<Rightarrow> ref \<Rightarrow> string \<Rightarrow> (string \<times> string) list
    \<Rightarrow> ('s, ref) cxx" where
  "SessionOptions_RegisterCustomOpsLibrary A p library_name custom_op_configs =
     bindx (mapx (\<lambda>(k, v). SessionOptions_AddConfigEntry A p k v) (CustomOpConfigs_GetFlattenedConfigs custom_op_configs)) (\<lambda>_.
     bindx (checked A (Fn ''RegisterCustomOpsLibrary_V2'') [ARef p, AStr library_name]) (\<lambda>_. okx p))"

definition SessionOptions_RegisterCustomOpsUsingFunction :: "'s ort_lib \<Rightarrow> ref \<Rightarrow> string \<Rightarrow> ('s, ref) cxx" where
  "SessionOptions_RegisterCustomOpsUsingFunction A p registration_function_name =
     bindx (checked A (Fn ''RegisterCustomOpsUsingFunction'') [ARef p, AStr registration_function_name]) (\<lambda>_. okx p)"

text \<open>\<open>CustomOpBase::GetSessionConfigs\<close>: the derived class names its keys; the key buffer is cut back to the
  prefix and extended in each round.\<close>

fun session_configs :: "'s ort_lib \<Rightarrow> int \<Rightarrow> ref \<Rightarrow> string \<Rightarrow> nat \<Rightarrow> string list \<Rightarrow> (string \<times> string) list
    \<Rightarrow> ('s, (string \<times> string) list) cxx" where
  "session_configs A mx options config_entry_key prefix_size [] out = okx out"
| "session_configs A mx options config_entry_key prefix_size (key # keys) out =
     (let config_entry_key = take prefix_size config_entry_key @ key in
      bindx (SessionOptions_GetConfigEntryOrDefault A mx options config_entry_key []) (\<lambda>v.
      session_configs A mx options config_entry_key prefix_size keys (AList.update key v out)))"

definition CustomOpBase_GetSessionConfigs :: "'s ort_lib \<Rightarrow> int \<Rightarrow> string \<Rightarrow> string list \<Rightarrow> (string \<times> string) list \<Rightarrow> ref
    \<Rightarrow> ('s, (string \<times> string) list) cxx" where
  "CustomOpBase_GetSessionConfigs A mx op_name session_config_keys out options =
     (let config_entry_key = MakeCustomOpConfigEntryKey op_name [] in
      session_configs A mx options config_entry_key (length config_entry_key) session_config_keys out)"

section \<open>Sessions\<close>

definition Session_GetInputCount :: "'s ort_lib \<Rightarrow> ref \<Rightarrow> ('s, int) cxx" where
  "Session_GetInputCount A p =
     bindx (checked A (Fn ''SessionGetInputCount'') [ARef p]) (\<lambda>r. okx (o_int r))"

definition Session_GetOutputCount :: "'s ort_lib \<Rightarrow> ref \<Rightarrow> ('s, int) cxx" where
  "Session_GetOutputCount A p =
     bindx (checked A (Fn ''SessionGetOutputCount'') [ARef p]) (\<lambda>r. okx (o_int r))"

definition Session_GetOverridableInitializerCount :: "'s ort_lib \<Rightarrow> ref \<Rightarrow> ('s, int) cxx" where
  "Session_GetOverridableInitializerCount A p =
     bindx (checked A (Fn ''SessionGetOverridableInitializerCount'') [ARef p]) (\<lambda>r. okx (o_int r))"

definition Session_GetInputNameAllocated :: "'s ort_lib \<Rightarrow> ref \<Rightarrow> int \<Rightarrow> ref \<Rightarrow> ('s, ref) cxx" where
  "Session_GetInputNameAllocated A p index allocator =
     bindx (checked A (New New_SessionGetInputName) [ARef p, AInt index, ARef allocator]) (\<lambda>r. okx (o_ref r))"

definition Session_GetOutputNameAllocated :: "'s ort_lib \<Rightarrow> ref \<Rightarrow> int \<Rightarrow> ref \<Rightarrow> ('s, ref) cxx" where
  "Session_GetOutputNameAllocated A p index allocator =
     bindx (checked A (New New_SessionGetOutputName) [ARef p, AInt index, ARef allocator]) (\<lambda>r. okx (o_ref r))"

definition Session_GetOverridableInitializerNameAllocated :: "'s ort_lib \<Rightarrow> ref \<Rightarrow> int \<Rightarrow> ref \<Rightarrow> ('s, ref) cxx" where
  "Session_GetOverridableInitializerNameAllocated A p index allocator =
     bindx (checked A (New New_SessionGetOverridableInitializerName) [ARef p, AInt index, ARef allocator]) (\<lambda>r. okx (o_ref r))"

definition Session_GetProfilingStartTimeNs :: "'s ort_lib \<Rightarrow> ref \<Rightarrow> ('s, int) cxx" where
  "Session_GetProfilingStartTimeNs A p =
     bindx (checked A (Fn ''SessionGetProfilingStartTimeNs'') [ARef p]) (\<lambda>r. okx (o_int r))"

definition Session_GetModelMetadata :: "'s ort_lib \<Rightarrow> ref \<Rightarrow> ('s, ref) cxx" where
  "Session_GetModelMetadata A p =
     bindx (checked A (New New_SessionGetModelMetadata) [ARef p]) (\<lambda>r. okx (o_ref r))"

definition Session_GetInputTypeInfo :: "'s ort_lib \<Rightarrow> ref \<Rightarrow> int \<Rightarrow> ('s, ref) cxx" where
  "Session_GetInputTypeInfo A p index =
     bindx (checked A (New New_SessionGetInputTypeInfo) [ARef p, AInt index]) (\<lambda>r. okx (o_ref r))"

definition Session_GetOutputTypeInfo :: "'s ort_lib \<Rightarrow> ref \<Rightarrow> int \<Rightarrow> ('s, ref) cxx" where
  "Session_GetOutputTypeInfo A p index =
     bindx (checked A (New New_SessionGetOutputTypeInfo) [ARef p, AInt index]) (\<lambda>r. okx (o_ref r))"

definition Session_GetOverridableInitializerTypeInfo :: "'s ort_lib \<Rightarrow> ref \<Rightarrow> int \<Rightarrow> ('s, ref) cxx" where
  "Session_GetOverridableInitializerTypeInfo A p index =
     bindx (checked A (New New_SessionGetOverridableInitializerTypeInfo) [ARef p, AInt index]) (\<lambda>r. okx (o_ref r))"

text \<open>
  \<open>Run\<close> fills the null entries of the output array with values it allocates; the answer of the API lists
  them in order. The array is an out parameter and keeps what was written when the call fails. The
  overload that returns a vector starts from null entries; when it throws, the vector's destructor
  releases the entries.
\<close>

fun fill_nulls :: "ref list \<Rightarrow> ref list \<Rightarrow> ref list" where
  "fill_nulls [] vs = []"
| "fill_nulls (q # qs) [] = q # qs"
| "fill_nulls (q # qs) (v # vs) = (if q = NULL then v # fill_nulls qs vs else q # fill_nulls qs (v # vs))"

definition Session_Run_into :: "'s ort_lib \<Rightarrow> ref \<Rightarrow> ref \<Rightarrow> string list \<Rightarrow> ref list \<Rightarrow> int \<Rightarrow> string list \<Rightarrow> ref list \<Rightarrow> int
    \<Rightarrow> ('s ort, (cxx_exn + unit) \<times> ref list) state" where
  "Session_Run_into A p run_options input_names input_values input_count output_names output_values output_count = do {
     r \<leftarrow> perform A (Api (New New_Run) [ARef p, ARef run_options, AStrs input_names, ARefs input_values,
       AInt input_count, AStrs output_names, AInt output_count, ARefs output_values]);
     x \<leftarrow> ThrowOnError A (o_status r);
     State_Monad.return (x, fill_nulls output_values (o_refs r)) }"

fun release_all :: "'s ort_lib \<Rightarrow> ort_kind \<Rightarrow> ref list \<Rightarrow> ('s ort, unit) state" where
  "release_all A k [] = State_Monad.return ()"
| "release_all A k (q # qs) = do { OrtRelease A k q; release_all A k qs }"

definition Session_Run :: "'s ort_lib \<Rightarrow> ref \<Rightarrow> ref \<Rightarrow> string list \<Rightarrow> ref list \<Rightarrow> int \<Rightarrow> string list \<Rightarrow> nat
    \<Rightarrow> ('s, ref list) cxx" where
  "Session_Run A p run_options input_names input_values input_count output_names output_count = do {
     (x, output_values) \<leftarrow> Session_Run_into A p run_options input_names input_values input_count output_names
       (replicate output_count NULL) (int output_count);
     (case x of Inl e \<Rightarrow> do { release_all A KValue output_values; throwx e } | Inr _ \<Rightarrow> okx output_values) }"

definition Session_RunAsync :: "'s ort_lib \<Rightarrow> ref \<Rightarrow> ref \<Rightarrow> string list \<Rightarrow> ref list \<Rightarrow> int \<Rightarrow> string list \<Rightarrow> ref list \<Rightarrow> int
    \<Rightarrow> ref \<Rightarrow> ref \<Rightarrow> ('s, unit) cxx" where
  "Session_RunAsync A p run_options input_names input_values input_count output_names output_values output_count
     callback user_data =
     bindx (checked A (Fn ''RunAsync'') [ARef p, ARef run_options, AStrs input_names, ARefs input_values, AInt input_count,
       AStrs output_names, AInt output_count, ARefs output_values, ARef callback, ARef user_data]) (\<lambda>_. okx ())"

definition Session_Run_with_binding :: "'s ort_lib \<Rightarrow> ref \<Rightarrow> ref \<Rightarrow> ref \<Rightarrow> ('s, unit) cxx" where
  "Session_Run_with_binding A p run_options io_binding =
     bindx (checked A (Fn ''RunWithBinding'') [ARef p, ARef run_options, ARef io_binding]) (\<lambda>_. okx ())"

definition Session_EndProfilingAllocated :: "'s ort_lib \<Rightarrow> ref \<Rightarrow> ref \<Rightarrow> ('s, ref) cxx" where
  "Session_EndProfilingAllocated A p allocator =
     bindx (checked A (New New_SessionEndProfiling) [ARef p, ARef allocator]) (\<lambda>r. okx (o_ref r))"

definition Session_SetEpDynamicOptions :: "'s ort_lib \<Rightarrow> ref \<Rightarrow> ref \<Rightarrow> ref \<Rightarrow> int \<Rightarrow> ('s, unit) cxx" where
  "Session_SetEpDynamicOptions A p keys values kv_len =
     bindx (checked A (Fn ''SetEpDynamicOptions'') [ARef p, ARef keys, ARef values, AInt kv_len]) (\<lambda>_. okx ())"

definition SessionOptions_ctor :: "'s ort_lib \<Rightarrow> ('s, ref) cxx" where
  "SessionOptions_ctor A =
     construct A KSessionOptions (New New_CreateSessionOptions) []"

definition Session_ctor :: "'s ort_lib \<Rightarrow> ref \<Rightarrow> string \<Rightarrow> ref \<Rightarrow> ('s, ref) cxx" where
  "Session_ctor A env model_path options =
     construct A KSession (New New_CreateSession) [ARef env, AStr model_path, ARef options]"

definition Session_ctor_prepacked :: "'s ort_lib \<Rightarrow> ref \<Rightarrow> string \<Rightarrow> ref \<Rightarrow> ref \<Rightarrow> ('s, ref) cxx" where
  "Session_ctor_prepacked A env model_path options prepacked_weights_container =
     construct A KSession (New New_CreateSessionWithPrepackedWeightsContainer) [ARef env, AStr model_path, ARef options, ARef prepacked_weights_container]"

definition Session_ctor_from_array :: "'s ort_lib \<Rightarrow> ref \<Rightarrow> ref \<Rightarrow> int \<Rightarrow> ref \<Rightarrow> ('s, ref) cxx" where
  "Session_ctor_from_array A env model_data model_data_length options =
     construct A KSession (New New_CreateSessionFromArray) [ARef env, ARef model_data, AInt model_data_length, ARef options]"

definition Session_ctor_from_array_prepacked :: "'s ort_lib \<Rightarrow> ref \<Rightarrow> ref \<Rightarrow> int \<Rightarrow> ref \<Rightarrow> ref \<Rightarrow> ('s, ref) cxx" where
  "Session_ctor_from_array_prepacked A env model_data model_data_length options prepacked_weights_container =
     construct A KSession (New New_CreateSessionFromArrayWithPrepackedWeightsContainer) [ARef env, ARef model_data, AInt model_data_length, ARef options, ARef prepacked_weights_container]"

section \<open>Model metadata\<close>

definition ModelMetadata_GetProducerNameAllocated :: "'s ort_lib \<Rightarrow> ref \<Rightarrow> ref \<Rightarrow> ('s, ref) cxx" where
  "ModelMetadata_GetProducerNameAllocated A p allocator =
     bindx (checked A (New New_ModelMetadataGetProducerName) [ARef p, ARef allocator]) (\<lambda>r. okx (o_ref r))"

definition ModelMetadata_GetGraphNameAllocated :: "'s ort_lib \<Rightarrow> ref \<Rightarrow> ref \<Rightarrow> ('s, ref) cxx" where
  "ModelMetadata_GetGraphNameAllocated A p allocator =
     bindx (checked A (New New_ModelMetadataGetGraphName) [ARef p, ARef allocator]) (\<lambda>r. okx (o_ref r))"

definition ModelMetadata_GetDomainAllocated :: "'s ort_lib \<Rightarrow> ref \<Rightarrow> ref \<Rightarrow> ('s, ref) cxx" where
  "ModelMetadata_GetDomainAllocated A p allocator =
     bindx (checked A (New New_ModelMetadataGetDomain) [ARef p, ARef allocator]) (\<lambda>r. okx (o_ref r))"

definition ModelMetadata_GetDescriptionAllocated :: "'s ort_lib \<Rightarrow> ref \<Rightarrow> ref \<Rightarrow> ('s, ref) cxx" where
  "ModelMetadata_GetDescriptionAllocated A p allocator =
     bindx (checked A (New New_ModelMetadataGetDescription) [ARef p, ARef allocator]) (\<lambda>r. okx (o_ref r))"

definition ModelMetadata_GetGraphDescriptionAllocated :: "'s ort_lib \<Rightarrow> ref \<Rightarrow> ref \<Rightarrow> ('s, ref) cxx" where
  "ModelMetadata_GetGraphDescriptionAllocated A p allocator =
     bindx (checked A (New New_ModelMetadataGetGraphDescription) [ARef p, ARef allocator]) (\<lambda>r. okx (o_ref r))"

definition ModelMetadata_LookupCustomMetadataMapAllocated :: "'s ort_lib \<Rightarrow> ref \<Rightarrow> string \<Rightarrow> ref \<Rightarrow> ('s, ref) cxx" where
  "ModelMetadata_LookupCustomMetadataMapAllocated A p key allocator =
     bindx (checked A (New New_ModelMetadataLookupCustomMetadataMap) [ARef p, ARef allocator, AStr key]) (\<lambda>r. okx (o_ref r))"

definition ModelMetadata_GetVersion :: "'s ort_lib \<Rightarrow> ref \<Rightarrow> ('s, int) cxx" where
  "ModelMetadata_GetVersion A p =
     bindx (checked A (Fn ''ModelMetadataGetVersion'') [ARef p]) (\<lambda>r. okx (o_int r))"

text \<open>
  The keys come as an array of strings, each allocated, and the array itself. \<open>reserve\<close> may throw
  (\<open>reserve_ok\<close>): then one guard frees the strings and the other the array.
\<close>

fun free_all :: "'s ort_lib \<Rightarrow> ref \<Rightarrow> ref list \<Rightarrow> ('s ort, unit) state" where
  "free_all A allocator [] = State_Monad.return ()"
| "free_all A allocator (q # qs) = do { AllocatedFree_call A allocator q; free_all A allocator qs }"

definition ModelMetadata_GetCustomMetadataMapKeysAllocated :: "'s ort_lib \<Rightarrow> bool \<Rightarrow> ref \<Rightarrow> ref \<Rightarrow> ('s, ref list) cxx" where
  "ModelMetadata_GetCustomMetadataMapKeysAllocated A reserve_ok p allocator =
     bindx (checked A (New New_ModelMetadataGetCustomMetadataMapKeys) [ARef p, ARef allocator]) (\<lambda>r.
       if o_int r \<le> 0 then okx [] else
       scopex (AllocatedFree_call A allocator (o_ref r))
         (if \<not> reserve_ok then scopex (free_all A allocator (take (nat (o_int r)) (o_refs r))) (throwx Std_bad_alloc)
          else okx (take (nat (o_int r)) (o_refs r))))"

section \<open>Exception safety\<close>

text \<open>What the API documents of the arrays it fills in.\<close>

definition run_doc :: "'s ort_lib \<Rightarrow> bool" where
  "run_doc A \<longleftrightarrow> (\<forall>p run_options names values n outputs m output_values s.
     let r = fst (A (Api (New New_Run) [p, run_options, names, values, n, outputs, m, ARefs output_values]) s) in
     o_status r = NULL \<longrightarrow> length (o_refs r) = length (filter (\<lambda>q. q = NULL) output_values))"

definition keys_doc :: "'s ort_lib \<Rightarrow> bool" where
  "keys_doc A \<longleftrightarrow> (\<forall>args s.
     let r = fst (A (Api (New New_ModelMetadataGetCustomMetadataMapKeys) args) s) in
     o_status r = NULL \<longrightarrow> o_int r = int (length (o_refs r)) \<and> (o_refs r = [] \<longrightarrow> o_ref r = NULL))"

lemma std_resize_raii: "raii (\<lambda>_. {#}) (std_resize mx s n) w"
  by (simp add: std_resize_def raii_ok raii_throw)

lemma raii_call:
  assumes "\<And>r. raii (\<lambda>_. {#}) (f r) (exec (checked A (Fn fn) args) w)"
  shows "raii (\<lambda>_. {#}) (bindx (checked A (Fn fn) args) f) w"
  by (rule raii_bind [OF checked_raii assms]) simp_all

lemma raii_then:
  assumes "raii (\<lambda>_. {#}) m w" "\<And>x. raii (\<lambda>_. {#}) (f x) (exec m w)"
  shows "raii (\<lambda>_. {#}) (bindx m f) w"
  by (rule raii_bind [OF assms]) simp

lemma sized_string_raii: "raii (\<lambda>_. {#}) (sized_string A mx fn args) w"
  unfolding sized_string_def by (intro raii_call raii_then std_resize_raii)

lemma mapx_raii:
  assumes "\<And>x w. raii (\<lambda>_. {#}) (f x) w" shows "raii (\<lambda>_. {#}) (mapx f xs) w"
  by (induction xs arbitrary: w) (auto intro: raii_ok raii_then assms)

lemma HasConfigEntry_raii: "raii (\<lambda>_. {#}) (SessionOptions_HasConfigEntry A p k) w"
  by (simp add: SessionOptions_HasConfigEntry_def wrap_plain)

lemma AddConfigEntry_raii: "raii (\<lambda>_. {#}) (SessionOptions_AddConfigEntry A p k v) w"
  by (simp add: SessionOptions_AddConfigEntry_def wrap_plain)

lemma GetConfigEntryOrDefault_raii: "raii (\<lambda>_. {#}) (SessionOptions_GetConfigEntryOrDefault A mx p k d) w"
  unfolding SessionOptions_GetConfigEntryOrDefault_def SessionOptions_GetConfigEntry_def
  by (rule raii_then [OF HasConfigEntry_raii]) (simp add: raii_ok sized_string_raii)

lemma session_configs_raii: "raii (\<lambda>_. {#}) (session_configs A mx p k n keys out) w"
  by (induction keys arbitrary: k out w) (auto simp: Let_def intro: raii_ok raii_then GetConfigEntryOrDefault_raii)

lemma RegisterCustomOpsLibrary_raii: "raii (\<lambda>_. {#}) (SessionOptions_RegisterCustomOpsLibrary A p l cfgs) w"
  unfolding SessionOptions_RegisterCustomOpsLibrary_def
  by (rule raii_then [OF mapx_raii wrap_plain]) (auto simp: AddConfigEntry_raii)

lemma AddExternal_raii:
  "raii (\<lambda>_. {#}) (SessionOptions_AddExternalInitializers A p names vs) w"
  "raii (\<lambda>_. {#}) (SessionOptions_AddExternalInitializersFromFilesInMemory A p names bs ls) w"
  by (simp_all add: SessionOptions_AddExternalInitializers_def
      SessionOptions_AddExternalInitializersFromFilesInMemory_def Let_def wrap_plain raii_throw)

lemma fill_nulls_replicate: "length vs = n \<Longrightarrow> fill_nulls (replicate n NULL) vs = vs"
  by (induction vs arbitrary: n) (auto simp: replicate_app_Cons_same)

lemma fill_nulls_empty: "fill_nulls qs [] = qs"
  by (cases qs) simp_all

lemma release_nulls: "ort_held (exec (release_all A k (replicate n NULL)) w) = ort_held w"
  by (induction n arbitrary: w) (auto simp: OrtRelease_def step_simps track_step_def bind_eq_Some_conv
      split: Option.bind_splits)

lemma free_all_held:
  "ort_held w = Some (M + own_all KBlock qs) \<Longrightarrow> ort_held (exec (free_all A a qs) w) = Some M"
proof (induction qs arbitrary: w)
  case (Cons q qs)
  then have "ort_held w = Some ((M + own_all KBlock qs) + own KBlock q)"
    by (simp add: own_all_def own_def)
  from Cons(1) [OF AllocatedFree_held [OF this]] show ?case by (simp add: step_simps)
qed (simp add: own_all_def step_simps)

lemma Session_Run_raii:
  assumes "null_on_error A" "run_doc A"
  shows "raii (own_all KValue) (Session_Run A p ro names vs n outs m) w"
proof -
  let ?c = "Api (New New_Run) [ARef p, ARef ro, AStrs names, ARefs vs, AInt n, AStrs outs, AInt (int m),
    ARefs (replicate m NULL)]"
  let ?r = "result (perform A ?c) w" and ?w = "exec (perform A ?c) w"
  have into: "result (Session_Run_into A p ro names vs n outs (replicate m NULL) (int m)) w =
      (result (ThrowOnError A (o_status ?r)) ?w, fill_nulls (replicate m NULL) (o_refs ?r))"
    "exec (Session_Run_into A p ro names vs n outs (replicate m NULL) (int m)) w = exec (ThrowOnError A (o_status ?r)) ?w"
    by (simp_all add: Session_Run_into_def step_simps)
  show ?thesis
  proof (cases "o_status ?r = NULL")
    case True
    then have "length (o_refs ?r) = m"
      using assms(2) by (simp add: run_doc_def Let_def result_perform)
    with True show ?thesis
      by (auto simp: raii_def Session_Run_def step_simps into ok_run fill_nulls_replicate track_step_def creates_array_def)
  next
    case False
    then have e: "o_refs ?r = []"
      using assms(1) by (simp add: null_on_error_def result_perform)
    have "ort_held (exec (ThrowOnError A (o_status ?r)) ?w) = Some M" if "ort_held w = Some M" for M
      by (rule ThrowOnError_held) (use that False in \<open>simp add: held_perform track_step_def own_single\<close>)
    with False e show ?thesis
      by (auto simp: raii_def Session_Run_def step_simps into throw_run ThrowOnError_run(1) fill_nulls_empty release_nulls)
  qed
qed

lemma MapKeys_raii:
  assumes "keys_doc A"
  shows "raii (own_all KBlock) (ModelMetadata_GetCustomMetadataMapKeysAllocated A reserve_ok p a) w"
proof -
  let ?c = "checked A (New New_ModelMetadataGetCustomMetadataMapKeys) [ARef p, ARef a]"
  have c: "raii (\<lambda>r. own_all KBlock (o_refs r) + own KBlock (o_ref r)) ?c w"
    using checked_raii [of "New New_ModelMetadataGetCustomMetadataMapKeys" "[ARef p, ARef a]" A w]
    by (simp add: creates_array_def raii_def add.commute split: sum.splits)
  show ?thesis
  proof (cases "result ?c w")
    case (Inl e)
    with c show ?thesis by (simp add: raii_def ModelMetadata_GetCustomMetadataMapKeysAllocated_def bindx_run)
  next
    case (Inr r)
    have d: "o_int r = int (length (o_refs r))" "o_refs r = [] \<Longrightarrow> o_ref r = NULL"
      using assms checked_status [OF Inr] unfolding keys_doc_def Let_def result_perform by auto
    have h: "ort_held (exec ?c w) = Some ((M + own_all KBlock (o_refs r)) + own KBlock (o_ref r))" if "ort_held w = Some M" for M
      using c that Inr by (simp add: raii_def add.assoc)
    have f: "ort_held (exec (free_all A a (o_refs r)) (exec ?c w)) = Some (M + own KBlock (o_ref r))" if "ort_held w = Some M" for M
      by (rule free_all_held) (simp add: h [OF that] ac_simps)
    show ?thesis
      using Inr d AllocatedFree_held [OF h] AllocatedFree_held [OF f] h
      by (cases "o_refs r = []") (auto simp: raii_def ModelMetadata_GetCustomMetadataMapKeysAllocated_def bindx_run
        scopex_run ok_run throw_run own_all_def)
  qed
qed

lemmas session_wrapper_defs = SessionOptions_Clone_def SessionOptions_HasConfigEntry_def
  SessionOptions_SetIntraOpNumThreads_def SessionOptions_SetInterOpNumThreads_def
  SessionOptions_SetGraphOptimizationLevel_def SessionOptions_SetDeterministicCompute_def
  SessionOptions_SetOptimizedModelFilePath_def SessionOptions_EnableProfiling_def
  SessionOptions_DisableProfiling_def SessionOptions_EnableOrtCustomOps_def
  SessionOptions_EnableMemPattern_def SessionOptions_DisableMemPattern_def
  SessionOptions_EnableCpuMemArena_def SessionOptions_DisableCpuMemArena_def
  SessionOptions_SetExecutionMode_def SessionOptions_SetLogId_def SessionOptions_SetLogSeverityLevel_def
  SessionOptions_Add_def SessionOptions_AddConfigEntry_def SessionOptions_AddInitializer_def
  SessionOptions_DisablePerSessionThreads_def SessionOptions_AppendExecutionProvider_CUDA_def
  SessionOptions_AppendExecutionProvider_CUDA_V2_def SessionOptions_AppendExecutionProvider_ROCM_def
  SessionOptions_AppendExecutionProvider_TensorRT_def SessionOptions_AppendExecutionProvider_TensorRT_V2_def
  SessionOptions_AppendExecutionProvider_MIGraphX_def SessionOptions_AppendExecutionProvider_CANN_def
  SessionOptions_AppendExecutionProvider_Dnnl_def SessionOptions_SetCustomCreateThreadFn_def
  SessionOptions_SetCustomThreadCreationOptions_def SessionOptions_SetCustomJoinThreadFn_def
  SessionOptions_AppendExecutionProvider_OpenVINO_def SessionOptions_RegisterCustomOpsUsingFunction_def
  Session_GetInputCount_def Session_GetOutputCount_def Session_GetOverridableInitializerCount_def
  Session_GetInputNameAllocated_def Session_GetOutputNameAllocated_def
  Session_GetOverridableInitializerNameAllocated_def Session_GetProfilingStartTimeNs_def
  Session_GetModelMetadata_def Session_GetInputTypeInfo_def Session_GetOutputTypeInfo_def
  Session_GetOverridableInitializerTypeInfo_def Session_Run_with_binding_def
  Session_EndProfilingAllocated_def Session_SetEpDynamicOptions_def SessionOptions_ctor_def Session_ctor_def
  Session_ctor_prepacked_def Session_ctor_from_array_def Session_ctor_from_array_prepacked_def
  ModelMetadata_GetProducerNameAllocated_def ModelMetadata_GetGraphNameAllocated_def
  ModelMetadata_GetDomainAllocated_def ModelMetadata_GetDescriptionAllocated_def
  ModelMetadata_GetGraphDescriptionAllocated_def ModelMetadata_LookupCustomMetadataMapAllocated_def
  ModelMetadata_GetVersion_def


section \<open>Configuration entries\<close>

text \<open>
  What the API documents of configuration entries: \<open>cfg s p\<close> is the configuration of the options \<open>p\<close>;
  \<open>AddSessionConfigEntry\<close> sets an entry when it succeeds, \<open>HasSessionConfigEntry\<close> tells whether there is
  one, and \<open>GetSessionConfigEntry\<close> reports the size with the terminator and fills a buffer that is large
  enough.
\<close>

definition config_doc :: "'s ort_lib \<Rightarrow> ('s \<Rightarrow> ref \<Rightarrow> string \<Rightarrow> string option) \<Rightarrow> bool" where
  "config_doc A cfg \<longleftrightarrow>
     (\<forall>p k s. let (r, s') = A (Api (Fn ''HasSessionConfigEntry'') [ARef p, AStr k]) s in
        o_status r = NULL \<and> (o_int r \<noteq> 0 \<longleftrightarrow> cfg s p k \<noteq> None) \<and> cfg s' = cfg s) \<and>
     (\<forall>p k s v. cfg s p k = Some v \<longrightarrow>
        (let (r, s') = A (Api (Fn ''GetSessionConfigEntry'') [ARef p, AStr k, ARef NULL, AInt 0]) s in
         o_status r = NULL \<and> o_int r = int (length v) + 1 \<and> cfg s' = cfg s)) \<and>
     (\<forall>p k s v buf. cfg s p k = Some v \<and> length v < length buf \<longrightarrow>
        (let (r, s') = A (Api (Fn ''GetSessionConfigEntry'') [ARef p, AStr k, AStr buf, AInt (int (length buf))]) s in
         o_status r = NULL \<and> o_int r = int (length v) + 1 \<and> o_str r = v @ CHR 0x00 # drop (length v + 1) buf \<and>
         cfg s' = cfg s)) \<and>
     (\<forall>p k v s. let (r, s') = A (Api (Fn ''AddSessionConfigEntry'') [ARef p, AStr k, AStr v]) s in
        o_status r = NULL \<longrightarrow> cfg s' = (cfg s)(p := (cfg s p)(k \<mapsto> v)))"

lemma checked_ok:
  assumes "o_status (fst (A (Api fn args) (ext_state w))) = NULL"
  shows "result (checked A fn args) w = Inr (fst (A (Api fn args) (ext_state w)))"
    "ext_state (exec (checked A fn args) w) = snd (A (Api fn args) (ext_state w))"
  using assms by (simp_all add: checked_def cxx_run result_perform exec_perform)

lemma config_doc_has:
  assumes "config_doc A cfg"
  shows "result (SessionOptions_HasConfigEntry A p k) w = Inr (cfg (ext_state w) p k \<noteq> None)"
    "cfg (ext_state (exec (SessionOptions_HasConfigEntry A p k) w)) = cfg (ext_state w)"
proof -
  let ?a = "A (Api (Fn ''HasSessionConfigEntry'') [ARef p, AStr k]) (ext_state w)"
  have d: "o_status (fst ?a) = NULL" "o_int (fst ?a) \<noteq> 0 \<longleftrightarrow> cfg (ext_state w) p k \<noteq> None" "cfg (snd ?a) = cfg (ext_state w)"
    using assms unfolding config_doc_def Let_def split_beta by blast+
  show "result (SessionOptions_HasConfigEntry A p k) w = Inr (cfg (ext_state w) p k \<noteq> None)"
    "cfg (ext_state (exec (SessionOptions_HasConfigEntry A p k) w)) = cfg (ext_state w)"
    using d checked_ok [of A "Fn ''HasSessionConfigEntry''" "[ARef p, AStr k]" w, OF d(1)] by (auto simp: SessionOptions_HasConfigEntry_def bindx_run ok_run)
qed

lemma config_doc_add:
  assumes "config_doc A cfg" "result (SessionOptions_AddConfigEntry A p k v) w = Inr q"
  shows "cfg (ext_state (exec (SessionOptions_AddConfigEntry A p k v) w)) =
    (cfg (ext_state w))(p := (cfg (ext_state w) p)(k \<mapsto> v))"
proof -
  let ?f = "Fn ''AddSessionConfigEntry''" and ?a = "[ARef p, AStr k, AStr v]"
  obtain r where "result (checked A ?f ?a) w = Inr r"
    using assms(2) by (auto simp: SessionOptions_AddConfigEntry_def bindx_run ok_run split: sum.splits)
  from checked_status [OF this] have s: "o_status (fst (A (Api ?f ?a) (ext_state w))) = NULL"
    by (auto simp: result_perform)
  with assms(1) have "cfg (snd (A (Api ?f ?a) (ext_state w))) = (cfg (ext_state w))(p := (cfg (ext_state w) p)(k \<mapsto> v))"
    unfolding config_doc_def Let_def split_beta by blast
  then show ?thesis
    using checked_ok [of A ?f ?a w, OF s] by (simp add: SessionOptions_AddConfigEntry_def bindx_run ok_run)
qed

lemma sized_string_run:
  assumes "result (checked A (Fn fn) (args @ [ARef NULL, AInt 0])) w = Inr r1" "o_int r1 = n" "n \<le> mx"
    "take (nat n) [] @ replicate (nat n - length ([] :: string)) (CHR 0x00) = buf"
    "result (checked A (Fn fn) (args @ [AStr buf, AInt n])) (exec (checked A (Fn fn) (args @ [ARef NULL, AInt 0])) w) = Inr r2"
    "(o_int r2 - 1) mod 2 ^ 64 = int (length v)" "int (length v) \<le> mx" "take (length v) (o_str r2) = v" "length v \<le> length (o_str r2)"
  shows "result (sized_string A mx fn args) w = Inr v \<and> exec (sized_string A mx fn args) w =
    exec (checked A (Fn fn) (args @ [AStr buf, AInt n])) (exec (checked A (Fn fn) (args @ [ARef NULL, AInt 0])) w)"
  using assms by (simp add: sized_string_def std_resize_def bindx_run ok_run)

lemma GetConfigEntry_value:
  assumes "config_doc A cfg" "cfg (ext_state w) p k = Some v" "int (length v) < mx" "mx < 2 ^ 64"
  shows "result (SessionOptions_GetConfigEntry A mx p k) w = Inr v"
    "cfg (ext_state (exec (SessionOptions_GetConfigEntry A mx p k) w)) = cfg (ext_state w)"
proof -
  let ?f = "Fn ''GetSessionConfigEntry''" and ?a = "[ARef p, AStr k]"
  let ?buf = "replicate (length v + 1) (CHR 0x00)"
  let ?w = "exec (checked A ?f (?a @ [ARef NULL, AInt 0])) w"
  let ?c = "checked A ?f (?a @ [AStr ?buf, AInt (int (length v) + 1)])"
  let ?r1 = "fst (A (Api ?f (?a @ [ARef NULL, AInt 0])) (ext_state w))"
  have d1: "o_status ?r1 = NULL" "o_int ?r1 = int (length v) + 1"
    "cfg (snd (A (Api ?f (?a @ [ARef NULL, AInt 0])) (ext_state w))) = cfg (ext_state w)"
    using assms(1,2) unfolding config_doc_def Let_def split_beta append.simps by blast+
  note c1 = checked_ok [of A ?f "?a @ [ARef NULL, AInt 0]" w, OF d1(1)]
  have k: "cfg (ext_state ?w) p k = Some v" using c1(2) d1(3) assms(2) by simp
  have l: "length v < length ?buf" "int (length ?buf) = int (length v) + 1" by simp_all
  let ?r2 = "fst (A (Api ?f (?a @ [AStr ?buf, AInt (int (length ?buf))])) (ext_state ?w))"
  have "o_status ?r2 = NULL \<and> o_int ?r2 = int (length v) + 1 \<and> o_str ?r2 = v @ CHR 0x00 # drop (length v + 1) ?buf \<and>
    cfg (snd (A (Api ?f (?a @ [AStr ?buf, AInt (int (length ?buf))])) (ext_state ?w))) = cfg (ext_state ?w)"
    using assms(1) k l(1) unfolding config_doc_def Let_def split_beta append.simps by blast
  then have d2: "o_status ?r2 = NULL" "o_int ?r2 = int (length v) + 1" "o_str ?r2 = v @ CHR 0x00 # drop (length v + 1) ?buf"
    "cfg (snd (A (Api ?f (?a @ [AStr ?buf, AInt (int (length ?buf))])) (ext_state ?w))) = cfg (ext_state ?w)"
    by blast+
  note d2 = d2 [unfolded l(2)]
  note c2 = checked_ok [of A ?f "?a @ [AStr ?buf, AInt (int (length v) + 1)]" ?w, OF d2(1)]
  let ?r2 = "fst (A (Api ?f (?a @ [AStr ?buf, AInt (int (length v) + 1)])) (ext_state ?w))"
  have r: "take (nat (int (length v) + 1)) [] @ replicate (nat (int (length v) + 1) - length ([] :: string)) (CHR 0x00) = ?buf"
    "int (length v) + 1 \<le> mx" "int (length v) \<le> mx"
    using assms(3) by (simp_all add: nat_add_distrib)
  have v: "(o_int ?r2 - 1) mod 2 ^ 64 = int (length v)" "take (length v) (o_str ?r2) = v" "length v \<le> length (o_str ?r2)"
    unfolding d2(2,3) using assms(3,4) by simp_all
  have run: "result (SessionOptions_GetConfigEntry A mx p k) w = Inr v"
    "exec (SessionOptions_GetConfigEntry A mx p k) w = exec ?c ?w"
    unfolding SessionOptions_GetConfigEntry_def
    using sized_string_run [OF c1(1) d1(2) r(2,1) c2(1) v(1) r(3) v(2,3)] by simp_all
  then show "result (SessionOptions_GetConfigEntry A mx p k) w = Inr v"
    "cfg (ext_state (exec (SessionOptions_GetConfigEntry A mx p k) w)) = cfg (ext_state w)"
    using c1(2) c2(2) d1(3) d2(4) l(2) by simp_all
qed

lemma GetConfigEntryOrDefault_value:
  assumes "config_doc A cfg" "\<And>v. cfg (ext_state w) p k = Some v \<Longrightarrow> int (length v) < mx" "mx < 2 ^ 64"
  shows "result (SessionOptions_GetConfigEntryOrDefault A mx p k d) w =
      Inr (case cfg (ext_state w) p k of None \<Rightarrow> d | Some v \<Rightarrow> v)"
    "cfg (ext_state (exec (SessionOptions_GetConfigEntryOrDefault A mx p k d) w)) = cfg (ext_state w)"
  using assms config_doc_has [OF assms(1), of p k w]
    GetConfigEntry_value [OF assms(1), of "exec (SessionOptions_HasConfigEntry A p k) w" p k _ mx]
  by (cases "cfg (ext_state w) p k"; simp add: SessionOptions_GetConfigEntryOrDefault_def bindx_run ok_run)+

text \<open>A configuration entry that was added is read back, by \<open>GetConfigEntry\<close> and by
  \<open>GetConfigEntryOrDefault\<close>, without the terminator and without wrap-around of the size; for a key
  without an entry the default is returned.\<close>

theorem config_entry_roundtrip:
  assumes "config_doc A cfg" "result (SessionOptions_AddConfigEntry A p key v) w = Inr q"
    "int (length v) < mx" "mx < 2 ^ 64" "cfg (ext_state w) p other = None" "other \<noteq> key"
  shows "let w' = exec (SessionOptions_AddConfigEntry A p key v) w in
    result (SessionOptions_GetConfigEntry A mx p key) w' = Inr v \<and>
    result (SessionOptions_GetConfigEntryOrDefault A mx p key def) w' = Inr v \<and>
    result (SessionOptions_GetConfigEntryOrDefault A mx p other def) w' = Inr def"
  using GetConfigEntry_value(1) [OF assms(1), of "exec (SessionOptions_AddConfigEntry A p key v) w" p key v mx]
    GetConfigEntryOrDefault_value(1) [OF assms(1), of "exec (SessionOptions_AddConfigEntry A p key v) w" p key mx def]
    GetConfigEntryOrDefault_value(1) [OF assms(1), of "exec (SessionOptions_AddConfigEntry A p key v) w" p other mx def]
    config_doc_add [OF assms(1,2)] assms(3-6)
  by (simp add: Let_def)

section \<open>Custom operator configuration, end to end\<close>

lemma add_configs_run:
  assumes "config_doc A cfg" "distinct (map fst cs)"
    "result (mapx (\<lambda>(k, v). SessionOptions_AddConfigEntry A p k v) cs) w = Inr qs"
  shows "cfg (ext_state (exec (mapx (\<lambda>(k, v). SessionOptions_AddConfigEntry A p k v) cs) w)) p =
    cfg (ext_state w) p ++ map_of cs"
  using assms(2,3)
proof (induction cs arbitrary: w qs)
  case (Cons c cs)
  obtain k v where c: "c = (k, v)" by (cases c)
  let ?m = "SessionOptions_AddConfigEntry A p k v" and ?ms = "mapx (\<lambda>(k, v). SessionOptions_AddConfigEntry A p k v) cs"
  from Cons.prems c obtain q qs' where r: "result ?m w = Inr q" "result ?ms (exec ?m w) = Inr qs'"
    by (auto simp: bindx_run ok_run split: sum.splits)
  have "k \<notin> dom (map_of cs)" using Cons.prems(1) c by (simp add: dom_map_of_conv_image_fst)
  then show ?case
    using Cons.IH [OF _ r(2)] Cons.prems(1) c r config_doc_add [OF assms(1) r(1)]
    by (auto simp: bindx_run ok_run map_add_def fun_eq_iff split: option.splits)
qed (simp add: ok_run)

lemma session_configs_run:
  assumes "config_doc A cfg" "mx < 2 ^ 64" "\<forall>k v. cfg (ext_state w) p k = Some v \<longrightarrow> int (length v) < mx"
    "take n key = pre" "length pre = n"
  shows "\<exists>out'. result (session_configs A mx p key n keys out) w = Inr out' \<and>
    map_of out' = (\<lambda>k. if k \<in> set keys then Some (case cfg (ext_state w) p (pre @ k) of None \<Rightarrow> [] | Some v \<Rightarrow> v)
      else map_of out k)"
  using assms(3-5)
proof (induction keys arbitrary: key out w)
  case (Cons k keys)
  let ?m = "SessionOptions_GetConfigEntryOrDefault A mx p (pre @ k) []"
  have m: "result ?m w = Inr (case cfg (ext_state w) p (pre @ k) of None \<Rightarrow> [] | Some v \<Rightarrow> v)"
    "cfg (ext_state (exec ?m w)) = cfg (ext_state w)"
    using GetConfigEntryOrDefault_value [OF assms(1), of w p "pre @ k" mx "[]"] Cons.prems(1) assms(2) by simp_all
  have "take n (pre @ k) = pre" using Cons.prems(3) by simp
  then obtain out' where
    "result (session_configs A mx p (pre @ k) n keys (AList.update k (case cfg (ext_state w) p (pre @ k) of None \<Rightarrow> [] | Some v \<Rightarrow> v) out))
      (exec ?m w) = Inr out'"
    "map_of out' = (\<lambda>k'. if k' \<in> set keys then Some (case cfg (ext_state w) p (pre @ k') of None \<Rightarrow> [] | Some v \<Rightarrow> v)
      else map_of (AList.update k (case cfg (ext_state w) p (pre @ k) of None \<Rightarrow> [] | Some v \<Rightarrow> v) out) k')"
    using Cons.IH [of "exec ?m w" "pre @ k"] Cons.prems(1,3) unfolding m(2) by blast
  then show ?case
    using m(1) Cons.prems(2) by (auto simp: bindx_run Let_def update_conv fun_eq_iff)
qed (simp add: ok_run)

lemma key_eq:
  "CHR ''.'' \<notin> set n \<Longrightarrow> CHR ''.'' \<notin> set n' \<Longrightarrow>
   MakeCustomOpConfigEntryKey n k = MakeCustomOpConfigEntryKey n' k' \<longleftrightarrow> n = n' \<and> k = k'"
proof (induction n arbitrary: n')
  case Nil
  then show ?case by (cases n') (auto simp: MakeCustomOpConfigEntryKey_def)
next
  case (Cons c n)
  then show ?case by (cases n') (auto simp: MakeCustomOpConfigEntryKey_def)
qed

text \<open>The configuration built from a sequence of \<open>AddConfig\<close> calls, and the value it gives an operator's key.\<close>

definition add_configs :: "(string \<times> string \<times> string) list \<Rightarrow> (string \<times> string) list" where
  "add_configs es = fold (\<lambda>(n, k, v) fc. CustomOpConfigs_AddConfig fc n k v) es []"

definition last_config :: "(string \<times> string \<times> string) list \<Rightarrow> string \<Rightarrow> string \<Rightarrow> string option" where
  "last_config es n k = map_of (map (\<lambda>(n, k, v). ((n, k), v)) (rev es)) (n, k)"

lemma add_configs_distinct: "distinct (map fst (add_configs es))"
  by (induction es rule: rev_induct)
    (auto simp: add_configs_def CustomOpConfigs_AddConfig_def distinct_update)

lemma add_configs_values: "map_of (add_configs es) k = Some v \<Longrightarrow> \<exists>n c. (n, c, v) \<in> set es"
proof (induction es rule: rev_induct)
  case (snoc e es)
  obtain n c x where "e = (n, c, x)" by (cases e)
  with snoc show ?case
    by (auto simp: add_configs_def CustomOpConfigs_AddConfig_def update_conv split: if_splits)
qed (simp add: add_configs_def)

lemma add_configs_lookup:
  assumes "\<forall>(n', _) \<in> set es. CHR ''.'' \<notin> set n'" "CHR ''.'' \<notin> set n"
  shows "map_of (add_configs es) (MakeCustomOpConfigEntryKey n k) = last_config es n k"
  using assms
proof (induction es rule: rev_induct)
  case (snoc e es)
  obtain n' k' v' where e: "e = (n', k', v')" by (cases e)
  with snoc.prems have "CHR ''.'' \<notin> set n'" by simp
  with snoc e show ?case
    by (auto simp: add_configs_def last_config_def CustomOpConfigs_AddConfig_def update_conv key_eq)
qed (simp add: add_configs_def last_config_def)

text \<open>C40. Configuration of custom operators, end to end: when \<open>RegisterCustomOpsLibrary\<close> returns, the
  library was registered after every entry was set, and an operator that reads its keys with
  \<open>GetSessionConfigs\<close> at that point gets, for each key, the value of the last \<open>AddConfig\<close> call for that
  operator and key, otherwise what the options held before, otherwise the empty string. This needs
  operator names without dots: the flat key does not separate the name from the key otherwise.\<close>

theorem custom_op_configs_end_to_end:
  assumes "config_doc A cfg" "\<forall>(n', _) \<in> set es. CHR ''.'' \<notin> set n'" "CHR ''.'' \<notin> set op_name"
    "result (SessionOptions_RegisterCustomOpsLibrary A p library_name (add_configs es)) w = Inr q"
    "\<forall>v. v \<in> ran (cfg (ext_state w) p) \<or> (\<exists>n k. (n, k, v) \<in> set es) \<longrightarrow> int (length v) < mx" "mx < 2 ^ 64"
  shows "\<exists>w' out. exec (SessionOptions_RegisterCustomOpsLibrary A p library_name (add_configs es)) w =
      exec (perform A (Api (Fn ''RegisterCustomOpsLibrary_V2'') [ARef p, AStr library_name])) w' \<and>
    result (CustomOpBase_GetSessionConfigs A mx op_name keys [] p) w' = Inr out \<and>
    map_of out = (\<lambda>key. if key \<notin> set keys then None else Some (case last_config es op_name key of Some v \<Rightarrow> v
      | None \<Rightarrow> (case cfg (ext_state w) p (MakeCustomOpConfigEntryKey op_name key) of Some v \<Rightarrow> v | None \<Rightarrow> [])))"
proof -
  let ?m = "mapx (\<lambda>(k, v). SessionOptions_AddConfigEntry A p k v) (add_configs es)"
  let ?w = "exec ?m w"
  let ?c = "checked A (Fn ''RegisterCustomOpsLibrary_V2'') [ARef p, AStr library_name]"
  obtain qs r where r: "result ?m w = Inr qs" "result ?c ?w = Inr r"
    using assms(4) by (auto simp: SessionOptions_RegisterCustomOpsLibrary_def CustomOpConfigs_GetFlattenedConfigs_def
        bindx_run ok_run split: sum.splits)
  have cfg: "cfg (ext_state ?w) p = cfg (ext_state w) p ++ map_of (add_configs es)"
    by (rule add_configs_run [OF assms(1) add_configs_distinct r(1)])
  have bound: "\<forall>k v. cfg (ext_state ?w) p k = Some v \<longrightarrow> int (length v) < mx"
    using assms(5) unfolding cfg map_add_Some_iff by (blast dest: add_configs_values intro: ranI)
  have key: "MakeCustomOpConfigEntryKey op_name [] @ k = MakeCustomOpConfigEntryKey op_name k" for k
    by (simp add: MakeCustomOpConfigEntryKey_def)
  have x: "exec (SessionOptions_RegisterCustomOpsLibrary A p library_name (add_configs es)) w =
      exec (perform A (Api (Fn ''RegisterCustomOpsLibrary_V2'') [ARef p, AStr library_name])) ?w"
    using r checked_status [OF r(2)]
    by (simp add: SessionOptions_RegisterCustomOpsLibrary_def CustomOpConfigs_GetFlattenedConfigs_def bindx_run ok_run)
  obtain out where "result (CustomOpBase_GetSessionConfigs A mx op_name keys [] p) ?w = Inr out"
    "map_of out = (\<lambda>k. if k \<in> set keys then Some (case cfg (ext_state ?w) p (MakeCustomOpConfigEntryKey op_name k) of
      None \<Rightarrow> [] | Some v \<Rightarrow> v) else None)"
    using session_configs_run [where w = ?w and p = p, OF assms(1,6) bound, where n = "length (MakeCustomOpConfigEntryKey op_name [])" and
        key = "MakeCustomOpConfigEntryKey op_name []" and pre = "MakeCustomOpConfigEntryKey op_name []" and keys = keys
        and out = "[]"]
    by (auto simp: CustomOpBase_GetSessionConfigs_def Let_def key cong: if_cong)
  then show ?thesis
    using x by (intro exI [of _ ?w] exI [of _ out])
      (auto simp: cfg map_add_def add_configs_lookup [OF assms(2,3)] split: option.splits)
qed

section \<open>Array arguments\<close>

text \<open>A call with a count in its last argument is well sized when every array argument has that many elements.\<close>

fun arg_sized :: "int \<Rightarrow> ort_arg \<Rightarrow> bool" where
  "arg_sized n (AStrs xs) = (int (length xs) = n)"
| "arg_sized n (ARefs xs) = (int (length xs) = n)"
| "arg_sized n (AInts xs) = (int (length xs) = n)"
| "arg_sized n _ = True"

fun sized_call :: "ort_call \<Rightarrow> bool" where
  "sized_call (Api fn args) = (case last args of AInt n \<Rightarrow> list_all (arg_sized n) args | _ \<Rightarrow> False)"
| "sized_call _ = True"

definition sized_log :: "'s ort \<Rightarrow> 's ort \<Rightarrow> bool" where
  "sized_log w w' \<longleftrightarrow> (\<exists>l. log w' = log w @ l \<and> list_all (\<lambda>(c, r). sized_call c) l)"

lemma checked_sized: "sized_call (Api fn args) \<Longrightarrow> sized_log w (exec (bindx (checked A fn args) (\<lambda>r. okx (f r))) w)"
  by (auto simp: sized_log_def checked_def cxx_run exec_perform result_perform ThrowOnError_run split: sum.splits)

text \<open>No call passes the API an array shorter or longer than the count that goes with it: the methods
  that take parallel arrays refuse arguments of different lengths before they make any call, and those
  that take a map split it into keys and values of the same number.\<close>

theorem array_arguments_sized:
  "sized_log w (exec (SessionOptions_AddExternalInitializers A p names vals) w) \<and>
   sized_log w (exec (SessionOptions_AddExternalInitializersFromFilesInMemory A p files buffers lengths) w) \<and>
   sized_log w (exec (SessionOptions_AppendExecutionProvider A p provider_name options) w) \<and>
   sized_log w (exec (SessionOptions_AppendExecutionProvider_OpenVINO_V2 A p options) w) \<and>
   sized_log w (exec (SessionOptions_AppendExecutionProvider_VitisAI A p options) w) \<and>
   sized_log w (exec (Env_CreateAndRegisterAllocatorV2 A p provider_name mem_info options arena_cfg) w)"
proof -
  have same: "sized_log w w" by (simp add: sized_log_def)
  show ?thesis
    using same
    by (auto simp: SessionOptions_AddExternalInitializers_def SessionOptions_AddExternalInitializersFromFilesInMemory_def
      SessionOptions_AppendExecutionProvider_def SessionOptions_AppendExecutionProvider_OpenVINO_V2_def
      SessionOptions_AppendExecutionProvider_VitisAI_def Env_CreateAndRegisterAllocatorV2_def throw_run Let_def
      intro!: checked_sized)
qed

section \<open>Witnesses\<close>

text \<open>A library that keeps configuration entries and fills the outputs of a run with value 5.\<close>

definition demo_ok :: "int \<Rightarrow> string \<Rightarrow> ref list \<Rightarrow> ort_reply" where
  "demo_ok n str ps = \<lparr>o_status = 0, o_ref = 0, o_int = n, o_str = str, o_refs = ps, o_ints = [], o_strs = []\<rparr>"

type_synonym demo_entries = "((ref \<times> string) \<times> string) list"

definition arg_ref :: "ort_arg \<Rightarrow> ref" where "arg_ref a = (case a of ARef p \<Rightarrow> p | _ \<Rightarrow> 0)"
definition arg_str :: "ort_arg \<Rightarrow> string" where "arg_str a = (case a of AStr t \<Rightarrow> t | _ \<Rightarrow> [])"
definition arg_refs :: "ort_arg \<Rightarrow> ref list" where "arg_refs a = (case a of ARefs ps \<Rightarrow> ps | _ \<Rightarrow> [])"

definition demo_session :: "demo_entries ort_lib" where
  "demo_session c s = (case c of Api fn args \<Rightarrow>
     (let k = (arg_ref (args ! 0), arg_str (args ! 1)) in
      if fn = Fn ''HasSessionConfigEntry'' then (demo_ok (of_bool (map_of s k \<noteq> None)) [] [], s)
      else if fn = Fn ''AddSessionConfigEntry'' then (demo_ok 0 [] [], (k, arg_str (args ! 2)) # s)
      else if fn = Fn ''GetSessionConfigEntry'' then (case map_of s k of None \<Rightarrow> demo_ok 0 [] [] | Some v \<Rightarrow>
        demo_ok (int (length v) + 1) (v @ CHR 0x00 # drop (length v + 1) (arg_str (args ! 2))) [], s)
      else if fn = New New_Run then
        (demo_ok 0 [] (map (\<lambda>_. 5) (filter (\<lambda>q. q = NULL) (arg_refs (args ! 7)))), s)
      else (demo_ok 0 [] [], s))
     | _ \<Rightarrow> (demo_ok 0 [] [], s))"

definition demo_session_world :: "demo_entries ort" where
  "demo_session_world = \<lparr>ext_state = [], log = []\<rparr>"

lemma demo_ok_sel [simp]: "o_status (demo_ok n str ps) = 0" "o_ref (demo_ok n str ps) = 0" "o_int (demo_ok n str ps) = n"
  "o_str (demo_ok n str ps) = str" "o_refs (demo_ok n str ps) = ps"
  by (simp_all add: demo_ok_def)

lemma demo_session_simps [simp]:
  "demo_session (Api (Fn ''HasSessionConfigEntry'') [ARef p, AStr k]) s = (demo_ok (of_bool (map_of s (p, k) \<noteq> None)) [] [], s)"
  "demo_session (Api (Fn ''AddSessionConfigEntry'') [ARef p, AStr k, AStr v]) s = (demo_ok 0 [] [], ((p, k), v) # s)"
  "demo_session (Api (New New_Run) [a, b, c, d, e, f, g, ARefs qs]) s =
     (demo_ok 0 [] (map (\<lambda>_. 5) (filter (\<lambda>q. q = NULL) qs)), s)"
  "demo_session (Api (Fn ''RegisterCustomOpsLibrary_V2'') args) s = (demo_ok 0 [] [], s)"
  "demo_session (Api (New New_ModelMetadataGetCustomMetadataMapKeys) args) s = (demo_ok 0 [] [], s)"
  by (simp_all add: demo_session_def Let_def arg_ref_def arg_str_def arg_refs_def)

lemma demo_session_status: "o_status (fst (demo_session c s)) = 0"
  by (simp add: demo_session_def Let_def split: ort_call.splits option.splits)

lemma demo_session_get:
  "map_of s (p, k) = Some v \<Longrightarrow> demo_session (Api (Fn ''GetSessionConfigEntry'') (ARef p # AStr k # b # bs)) s =
     (demo_ok (int (length v) + 1) (v @ CHR 0x00 # drop (length v + 1) (arg_str b)) [], s)"
  by (simp add: demo_session_def Let_def arg_ref_def arg_str_def)

lemma demo_session_doc:
  "null_on_error demo_session" "run_doc demo_session" "keys_doc demo_session"
  "config_doc demo_session (\<lambda>s p k. map_of s (p, k))"
  by (auto simp: null_on_error_def run_doc_def keys_doc_def config_doc_def demo_session_status demo_session_get
      arg_str_def fun_eq_iff Let_def)


theorem config_entry_roundtrip_witness:
  "result (SessionOptions_GetConfigEntry demo_session 1000 1 ''k'')
     (exec (SessionOptions_AddConfigEntry demo_session 1 ''k'' ''value'') demo_session_world) = Inr ''value''"
proof -
  have "result (SessionOptions_AddConfigEntry demo_session 1 ''k'' ''value'') demo_session_world = Inr 1"
    by (simp add: SessionOptions_AddConfigEntry_def bindx_run ok_run checked_run result_perform Let_def)
  from config_entry_roundtrip [OF demo_session_doc(4) this, of 1000 "''other''" "''d''"] show ?thesis
    by (simp add: Let_def demo_session_world_def)
qed

theorem custom_op_configs_end_to_end_witness:
  "\<exists>w' out. result (CustomOpBase_GetSessionConfigs demo_session 1000 ''op'' [''a'', ''b''] [] 1) w' = Inr out \<and>
     map_of out ''a'' = Some ''2'' \<and> map_of out ''b'' = Some []"
proof -
  let ?es = "[(''op'', ''a'', ''1''), (''other'', ''b'', ''3''), (''op'', ''a'', ''2'')]"
  have r: "result (SessionOptions_RegisterCustomOpsLibrary demo_session 1 ''lib'' (add_configs ?es)) demo_session_world = Inr 1"
    by (simp add: SessionOptions_RegisterCustomOpsLibrary_def CustomOpConfigs_GetFlattenedConfigs_def add_configs_def
        CustomOpConfigs_AddConfig_def MakeCustomOpConfigEntryKey_def SessionOptions_AddConfigEntry_def
        bindx_run ok_run checked_run result_perform Let_def)
  have "\<forall>(n', _) \<in> set ?es. CHR ''.'' \<notin> set n'" "CHR ''.'' \<notin> set ''op''" by simp_all
  note t = custom_op_configs_end_to_end [OF demo_session_doc(4) this r, of 1000 "[''a'', ''b'']"]
  show ?thesis
    using t by (force simp: demo_session_world_def last_config_def)
qed

end
