(* ===== verification/Ort_Value.thy ===== *)
theory Ort_Value
  imports Ort_Session
begin

text \<open>
  The C++ wrapper classes of \<^verbatim>\<open>onnxruntime_cxx_inline.h\<close> for type information and values, method by
  method. The theorems: exception safety, with the one method for which it fails; what \<open>GetShape\<close> and
  \<open>GetStringTensorElement\<close> return; the byte count of \<open>CreateTensor\<close>.
\<close>

section \<open>Type information\<close>

definition TensorTypeAndShapeInfo_GetElementType :: "'s ort_lib \<Rightarrow> ref \<Rightarrow> ('s, int) cxx" where
  "TensorTypeAndShapeInfo_GetElementType A p =
     bindx (checked A (Fn ''GetTensorElementType'') [ARef p]) (\<lambda>r. okx (o_int r))"

definition TensorTypeAndShapeInfo_GetElementCount :: "'s ort_lib \<Rightarrow> ref \<Rightarrow> ('s, int) cxx" where
  "TensorTypeAndShapeInfo_GetElementCount A p =
     bindx (checked A (Fn ''GetTensorShapeElementCount'') [ARef p]) (\<lambda>r. okx (o_int r))"

definition TensorTypeAndShapeInfo_GetDimensionsCount :: "'s ort_lib \<Rightarrow> ref \<Rightarrow> ('s, int) cxx" where
  "TensorTypeAndShapeInfo_GetDimensionsCount A p =
     bindx (checked A (Fn ''GetDimensionsCount'') [ARef p]) (\<lambda>r. okx (o_int r))"

definition TensorTypeAndShapeInfo_GetDimensions :: "'s ort_lib \<Rightarrow> ref \<Rightarrow> ref \<Rightarrow> int \<Rightarrow> ('s, unit) cxx" where
  "TensorTypeAndShapeInfo_GetDimensions A p values values_count =
     bindx (checked A (Fn ''GetDimensions'') [ARef p, ARef values, AInt values_count]) (\<lambda>_. okx ())"

definition TensorTypeAndShapeInfo_GetSymbolicDimensions :: "'s ort_lib \<Rightarrow> ref \<Rightarrow> ref \<Rightarrow> int \<Rightarrow> ('s, unit) cxx" where
  "TensorTypeAndShapeInfo_GetSymbolicDimensions A p values values_count =
     bindx (checked A (Fn ''GetSymbolicDimensions'') [ARef p, ARef values, AInt values_count]) (\<lambda>_. okx ())"

definition TensorTypeAndShapeInfo_GetShape :: "'s ort_lib \<Rightarrow> ref \<Rightarrow> ('s, int list) cxx" where
  "TensorTypeAndShapeInfo_GetShape A p =
     bindx (TensorTypeAndShapeInfo_GetDimensionsCount A p) (\<lambda>n.
     bindx (checked A (Fn ''GetDimensions'') [ARef p, AInts (replicate (nat n) 0), AInt n]) (\<lambda>r. okx (o_ints r)))"

definition TypeInfo_GetTensorTypeAndShapeInfo :: "'s ort_lib \<Rightarrow> ref \<Rightarrow> ('s, ref) cxx" where
  "TypeInfo_GetTensorTypeAndShapeInfo A p =
     bindx (checked A (Fn ''CastTypeInfoToTensorInfo'') [ARef p]) (\<lambda>r. okx (o_ref r))"

definition TypeInfo_GetSequenceTypeInfo :: "'s ort_lib \<Rightarrow> ref \<Rightarrow> ('s, ref) cxx" where
  "TypeInfo_GetSequenceTypeInfo A p =
     bindx (checked A (Fn ''CastTypeInfoToSequenceTypeInfo'') [ARef p]) (\<lambda>r. okx (o_ref r))"

definition TypeInfo_GetMapTypeInfo :: "'s ort_lib \<Rightarrow> ref \<Rightarrow> ('s, ref) cxx" where
  "TypeInfo_GetMapTypeInfo A p =
     bindx (checked A (Fn ''CastTypeInfoToMapTypeInfo'') [ARef p]) (\<lambda>r. okx (o_ref r))"

definition TypeInfo_GetONNXType :: "'s ort_lib \<Rightarrow> ref \<Rightarrow> ('s, int) cxx" where
  "TypeInfo_GetONNXType A p =
     bindx (checked A (Fn ''GetOnnxTypeFromTypeInfo'') [ARef p]) (\<lambda>r. okx (o_int r))"

definition SequenceTypeInfo_GetSequenceElementType :: "'s ort_lib \<Rightarrow> ref \<Rightarrow> ('s, ref) cxx" where
  "SequenceTypeInfo_GetSequenceElementType A p =
     bindx (checked A (New New_GetSequenceElementType) [ARef p]) (\<lambda>r. okx (o_ref r))"

definition OptionalTypeInfo_GetOptionalElementType :: "'s ort_lib \<Rightarrow> ref \<Rightarrow> ('s, ref) cxx" where
  "OptionalTypeInfo_GetOptionalElementType A p =
     bindx (checked A (Fn ''GetOptionalContainedTypeInfo'') [ARef p]) (\<lambda>r. okx (o_ref r))"

definition MapTypeInfo_GetMapKeyType :: "'s ort_lib \<Rightarrow> ref \<Rightarrow> ('s, int) cxx" where
  "MapTypeInfo_GetMapKeyType A p =
     bindx (checked A (Fn ''GetMapKeyType'') [ARef p]) (\<lambda>r. okx (o_int r))"

definition MapTypeInfo_GetMapValueType :: "'s ort_lib \<Rightarrow> ref \<Rightarrow> ('s, ref) cxx" where
  "MapTypeInfo_GetMapValueType A p =
     bindx (checked A (New New_GetMapValueType) [ARef p]) (\<lambda>r. okx (o_ref r))"

definition TypeInfo_GetOptionalTypeInfo :: "'s ort_lib \<Rightarrow> ref \<Rightarrow> ('s, ref) cxx" where
  "TypeInfo_GetOptionalTypeInfo A p =
     bindx (checked A (Fn ''CastTypeInfoToOptionalTypeInfo'') [ARef p]) (\<lambda>r. okx (o_ref r))"

section \<open>Values\<close>

definition Value_GetOpaqueData :: "'s ort_lib \<Rightarrow> ref \<Rightarrow> string \<Rightarrow> string \<Rightarrow> int \<Rightarrow> ('s, string) cxx" where
  "Value_GetOpaqueData A p dom_name type_name sizeof_R =
     bindx (checked A (Fn ''GetOpaqueValue'') [AStr dom_name, AStr type_name, ARef p, AInt sizeof_R]) (\<lambda>r. okx (o_str r))"

definition Value_IsTensor :: "'s ort_lib \<Rightarrow> ref \<Rightarrow> ('s, bool) cxx" where
  "Value_IsTensor A p =
     bindx (checked A (Fn ''IsTensor'') [ARef p]) (\<lambda>r. okx (o_int r \<noteq> 0))"

definition Value_HasValue :: "'s ort_lib \<Rightarrow> ref \<Rightarrow> ('s, bool) cxx" where
  "Value_HasValue A p =
     bindx (checked A (Fn ''HasValue'') [ARef p]) (\<lambda>r. okx (o_int r \<noteq> 0))"

definition Value_GetCount :: "'s ort_lib \<Rightarrow> ref \<Rightarrow> ('s, int) cxx" where
  "Value_GetCount A p =
     bindx (checked A (Fn ''GetValueCount'') [ARef p]) (\<lambda>r. okx (o_int r))"

definition Value_GetValue :: "'s ort_lib \<Rightarrow> ref \<Rightarrow> int \<Rightarrow> ref \<Rightarrow> ('s, ref) cxx" where
  "Value_GetValue A p index allocator =
     bindx (checked A (New New_GetValue) [ARef p, AInt index, ARef allocator]) (\<lambda>r. okx (o_ref r))"

definition Value_GetStringTensorDataLength :: "'s ort_lib \<Rightarrow> ref \<Rightarrow> ('s, int) cxx" where
  "Value_GetStringTensorDataLength A p =
     bindx (checked A (Fn ''GetStringTensorDataLength'') [ARef p]) (\<lambda>r. okx (o_int r))"

definition Value_GetStringTensorElementLength :: "'s ort_lib \<Rightarrow> ref \<Rightarrow> int \<Rightarrow> ('s, int) cxx" where
  "Value_GetStringTensorElementLength A p element_index =
     bindx (checked A (Fn ''GetStringTensorElementLength'') [ARef p, AInt element_index]) (\<lambda>r. okx (o_int r))"

definition Value_GetTensorData :: "'s ort_lib \<Rightarrow> ref \<Rightarrow> ('s, ref) cxx" where
  "Value_GetTensorData A p =
     bindx (checked A (Fn ''GetTensorMutableData'') [ARef p]) (\<lambda>r. okx (o_ref r))"

definition Value_GetTensorRawData :: "'s ort_lib \<Rightarrow> ref \<Rightarrow> ('s, ref) cxx" where
  "Value_GetTensorRawData A p =
     bindx (checked A (Fn ''GetTensorMutableData'') [ARef p]) (\<lambda>r. okx (o_ref r))"

definition Value_GetTypeInfo :: "'s ort_lib \<Rightarrow> ref \<Rightarrow> ('s, ref) cxx" where
  "Value_GetTypeInfo A p =
     bindx (checked A (New New_GetTypeInfo) [ARef p]) (\<lambda>r. okx (o_ref r))"

definition Value_GetTensorTypeAndShapeInfo :: "'s ort_lib \<Rightarrow> ref \<Rightarrow> ('s, ref) cxx" where
  "Value_GetTensorTypeAndShapeInfo A p =
     bindx (checked A (New New_GetTensorTypeAndShape) [ARef p]) (\<lambda>r. okx (o_ref r))"

definition Value_GetTensorMemoryInfo :: "'s ort_lib \<Rightarrow> ref \<Rightarrow> ('s, ref) cxx" where
  "Value_GetTensorMemoryInfo A p =
     bindx (checked A (Fn ''GetTensorMemoryInfo'') [ARef p]) (\<lambda>r. okx (o_ref r))"

definition Value_GetStringTensorElement_into :: "'s ort_lib \<Rightarrow> ref \<Rightarrow> int \<Rightarrow> int \<Rightarrow> ref \<Rightarrow> ('s, unit) cxx" where
  "Value_GetStringTensorElement_into A p buffer_length element_index buffer =
     bindx (checked A (Fn ''GetStringTensorElement'') [ARef p, AInt buffer_length, AInt element_index, ARef buffer]) (\<lambda>_. okx ())"

text \<open>The buffer is sized by a first call; the second fills it.\<close>

definition Value_GetStringTensorElement :: "'s ort_lib \<Rightarrow> int \<Rightarrow> ref \<Rightarrow> int \<Rightarrow> ('s, string) cxx" where
  "Value_GetStringTensorElement A mx p element_index =
     bindx (checked A (Fn ''GetStringTensorElementLength'') [ARef p, AInt element_index]) (\<lambda>r1.
     bindx (std_resize mx [] (o_int r1)) (\<lambda>s.
     bindx (checked A (Fn ''GetStringTensorElement'') [ARef p, AInt (o_int r1), AInt element_index, AStr s]) (\<lambda>r2.
     okx (o_str r2))))"

definition Value_GetStringTensorContent :: "'s ort_lib \<Rightarrow> ref \<Rightarrow> ref \<Rightarrow> int \<Rightarrow> ref \<Rightarrow> int \<Rightarrow> ('s, unit) cxx" where
  "Value_GetStringTensorContent A p buffer buffer_length offsets offsets_count =
     bindx (checked A (Fn ''GetStringTensorContent'') [ARef p, ARef buffer, AInt buffer_length, ARef offsets, AInt offsets_count]) (\<lambda>_. okx ())"

definition Value_GetSparseFormat :: "'s ort_lib \<Rightarrow> ref \<Rightarrow> ('s, int) cxx" where
  "Value_GetSparseFormat A p =
     bindx (checked A (Fn ''GetSparseTensorFormat'') [ARef p]) (\<lambda>r. okx (o_int r))"

definition Value_GetSparseTensorValuesTypeAndShapeInfo :: "'s ort_lib \<Rightarrow> ref \<Rightarrow> ('s, ref) cxx" where
  "Value_GetSparseTensorValuesTypeAndShapeInfo A p =
     bindx (checked A (New New_GetSparseTensorValuesTypeAndShape) [ARef p]) (\<lambda>r. okx (o_ref r))"

definition Value_GetSparseTensorIndicesTypeShapeInfo :: "'s ort_lib \<Rightarrow> ref \<Rightarrow> OrtSparseIndicesFormat \<Rightarrow> ('s, ref) cxx" where
  "Value_GetSparseTensorIndicesTypeShapeInfo A p indices_format =
     bindx (checked A (New New_GetSparseTensorIndicesTypeShape) [ARef p, AInt (OrtSparseIndicesFormat_value indices_format)]) (\<lambda>r. okx (o_ref r))"

definition Value_GetSparseTensorIndicesData :: "'s ort_lib \<Rightarrow> ref \<Rightarrow> OrtSparseIndicesFormat \<Rightarrow> ('s, int \<times> ref) cxx" where
  "Value_GetSparseTensorIndicesData A p indices_format =
     bindx (checked A (Fn ''GetSparseTensorIndices'') [ARef p, AInt (OrtSparseIndicesFormat_value indices_format)]) (\<lambda>r. okx ((o_int r, o_ref r)))"

definition Value_IsSparseTensor :: "'s ort_lib \<Rightarrow> ref \<Rightarrow> ('s, bool) cxx" where
  "Value_IsSparseTensor A p =
     bindx (checked A (Fn ''IsSparseTensor'') [ARef p]) (\<lambda>r. okx (o_int r \<noteq> 0))"

definition Value_GetSparseTensorValues :: "'s ort_lib \<Rightarrow> ref \<Rightarrow> ('s, ref) cxx" where
  "Value_GetSparseTensorValues A p =
     bindx (checked A (Fn ''GetSparseTensorValues'') [ARef p]) (\<lambda>r. okx (o_ref r))"

definition Value_FillStringTensor :: "'s ort_lib \<Rightarrow> ref \<Rightarrow> ref \<Rightarrow> int \<Rightarrow> ('s, unit) cxx" where
  "Value_FillStringTensor A p str s_len =
     bindx (checked A (Fn ''FillStringTensor'') [ARef p, ARef str, AInt s_len]) (\<lambda>_. okx ())"

definition Value_FillStringTensorElement :: "'s ort_lib \<Rightarrow> ref \<Rightarrow> string \<Rightarrow> int \<Rightarrow> ('s, unit) cxx" where
  "Value_FillStringTensorElement A p str index =
     bindx (checked A (Fn ''FillStringTensorElement'') [ARef p, AStr str, AInt index]) (\<lambda>_. okx ())"

definition Value_GetResizedStringTensorElementBuffer :: "'s ort_lib \<Rightarrow> ref \<Rightarrow> int \<Rightarrow> int \<Rightarrow> ('s, ref) cxx" where
  "Value_GetResizedStringTensorElementBuffer A p index buffer_length =
     bindx (checked A (Fn ''GetResizedStringTensorElementBuffer'') [ARef p, AInt index, AInt buffer_length]) (\<lambda>r. okx (o_ref r))"

definition Value_GetTensorMutableRawData :: "'s ort_lib \<Rightarrow> ref \<Rightarrow> ('s, ref) cxx" where
  "Value_GetTensorMutableRawData A p =
     bindx (checked A (Fn ''GetTensorMutableData'') [ARef p]) (\<lambda>r. okx (o_ref r))"

definition Value_GetTensorMutableData :: "'s ort_lib \<Rightarrow> ref \<Rightarrow> ('s, ref) cxx" where
  "Value_GetTensorMutableData A p =
     bindx (checked A (Fn ''GetTensorMutableData'') [ARef p]) (\<lambda>r. okx (o_ref r))"

definition Value_At :: "'s ort_lib \<Rightarrow> ref \<Rightarrow> int list \<Rightarrow> ('s, ref) cxx" where
  "Value_At A p location =
     bindx (checked A (Fn ''TensorAt'') [ARef p, AInts location, AInt (int (length location))]) (\<lambda>r. okx (o_ref r))"

definition Value_UseCooIndices :: "'s ort_lib \<Rightarrow> ref \<Rightarrow> ref \<Rightarrow> int \<Rightarrow> ('s, unit) cxx" where
  "Value_UseCooIndices A p indices_data indices_num =
     bindx (checked A (Fn ''UseCooIndices'') [ARef p, ARef indices_data, AInt indices_num]) (\<lambda>_. okx ())"

definition Value_UseCsrIndices :: "'s ort_lib \<Rightarrow> ref \<Rightarrow> ref \<Rightarrow> int \<Rightarrow> ref \<Rightarrow> int \<Rightarrow> ('s, unit) cxx" where
  "Value_UseCsrIndices A p inner_data inner_num outer_data outer_num =
     bindx (checked A (Fn ''UseCsrIndices'') [ARef p, ARef inner_data, AInt inner_num, ARef outer_data, AInt outer_num]) (\<lambda>_. okx ())"

definition Value_UseBlockSparseIndices :: "'s ort_lib \<Rightarrow> ref \<Rightarrow> ref \<Rightarrow> int \<Rightarrow> ref \<Rightarrow> ('s, unit) cxx" where
  "Value_UseBlockSparseIndices A p indices_shape indices_shape_len indices_data =
     bindx (checked A (Fn ''UseBlockSparseIndices'') [ARef p, ARef indices_shape, AInt indices_shape_len, ARef indices_data]) (\<lambda>_. okx ())"

definition Value_FillSparseTensorCoo :: "'s ort_lib \<Rightarrow> ref \<Rightarrow> ref \<Rightarrow> ref \<Rightarrow> int \<Rightarrow> ref \<Rightarrow> ref \<Rightarrow> int \<Rightarrow> ('s, unit) cxx" where
  "Value_FillSparseTensorCoo A p mem_info values_param_shape values_param_shape_len values_param_p_data indices_data indices_num =
     bindx (checked A (Fn ''FillSparseTensorCoo'') [ARef p, ARef mem_info, ARef values_param_shape, AInt values_param_shape_len, ARef values_param_p_data, ARef indices_data, AInt indices_num]) (\<lambda>_. okx ())"

definition Value_FillSparseTensorCsr :: "'s ort_lib \<Rightarrow> ref \<Rightarrow> ref \<Rightarrow> ref \<Rightarrow> int \<Rightarrow> ref \<Rightarrow> ref \<Rightarrow> int \<Rightarrow> ref \<Rightarrow> int \<Rightarrow> ('s, unit) cxx" where
  "Value_FillSparseTensorCsr A p data_mem_info values_shape values_shape_len values_p_data inner_indices_data inner_indices_num outer_indices_data outer_indices_num =
     bindx (checked A (Fn ''FillSparseTensorCsr'') [ARef p, ARef data_mem_info, ARef values_shape, AInt values_shape_len, ARef values_p_data, ARef inner_indices_data, AInt inner_indices_num, ARef outer_indices_data, AInt outer_indices_num]) (\<lambda>_. okx ())"

definition Value_FillSparseTensorBlockSparse :: "'s ort_lib \<Rightarrow> ref \<Rightarrow> ref \<Rightarrow> ref \<Rightarrow> int \<Rightarrow> ref \<Rightarrow> ref \<Rightarrow> int \<Rightarrow> ref \<Rightarrow> ('s, unit) cxx" where
  "Value_FillSparseTensorBlockSparse A p data_mem_info values_shape values_shape_len values_p_data indices_shape indices_shape_len indices_data =
     bindx (checked A (Fn ''FillSparseTensorBlockSparse'') [ARef p, ARef data_mem_info, ARef values_shape, AInt values_shape_len, ARef values_p_data, ARef indices_shape, AInt indices_shape_len, ARef indices_data]) (\<lambda>_. okx ())"

section \<open>Making values\<close>

definition Value_CreateTensor_with_data :: "'s ort_lib \<Rightarrow> ref \<Rightarrow> ref \<Rightarrow> int \<Rightarrow> ref \<Rightarrow> int \<Rightarrow> ONNXTensorElementDataType \<Rightarrow> ('s, ref) cxx" where
  "Value_CreateTensor_with_data A info p_data p_data_byte_count shape shape_len ty =
     bindx (checked A (New New_CreateTensorWithDataAsOrtValue) [ARef info, ARef p_data, AInt p_data_byte_count, ARef shape, AInt shape_len, AInt (ONNXTensorElementDataType_value ty)]) (\<lambda>r. okx (o_ref r))"

definition Value_CreateTensor_allocated :: "'s ort_lib \<Rightarrow> ref \<Rightarrow> ref \<Rightarrow> int \<Rightarrow> ONNXTensorElementDataType \<Rightarrow> ('s, ref) cxx" where
  "Value_CreateTensor_allocated A allocator shape shape_len ty =
     bindx (checked A (New New_CreateTensorAsOrtValue) [ARef allocator, ARef shape, AInt shape_len, AInt (ONNXTensorElementDataType_value ty)]) (\<lambda>r. okx (o_ref r))"

definition Value_CreateSparseTensor_with_data :: "'s ort_lib \<Rightarrow> ref \<Rightarrow> ref \<Rightarrow> ref \<Rightarrow> int \<Rightarrow> ref \<Rightarrow> int \<Rightarrow> ONNXTensorElementDataType \<Rightarrow> ('s, ref) cxx" where
  "Value_CreateSparseTensor_with_data A info p_data dense_shape dense_shape_len values_shape values_shape_len ty =
     bindx (checked A (New New_CreateSparseTensorWithValuesAsOrtValue) [ARef info, ARef p_data, ARef dense_shape, AInt dense_shape_len, ARef values_shape, AInt values_shape_len, AInt (ONNXTensorElementDataType_value ty)]) (\<lambda>r. okx (o_ref r))"

definition Value_CreateSparseTensor_allocated :: "'s ort_lib \<Rightarrow> ref \<Rightarrow> ref \<Rightarrow> int \<Rightarrow> ONNXTensorElementDataType \<Rightarrow> ('s, ref) cxx" where
  "Value_CreateSparseTensor_allocated A allocator dense_shape dense_shape_len ty =
     bindx (checked A (New New_CreateSparseTensorAsOrtValue) [ARef allocator, ARef dense_shape, AInt dense_shape_len, AInt (ONNXTensorElementDataType_value ty)]) (\<lambda>r. okx (o_ref r))"

text \<open>The templates take the element type from the C++ type. The byte count is a product of \<open>size_t\<close>.\<close>

definition Value_CreateTensor :: "'s ort_lib \<Rightarrow> cxx_type \<Rightarrow> ref \<Rightarrow> ref \<Rightarrow> 64 word \<Rightarrow> ref \<Rightarrow> int \<Rightarrow> ('s, ref) cxx" where
  "Value_CreateTensor A T info p_data p_data_element_count shape shape_len =
     Value_CreateTensor_with_data A info p_data (uint (p_data_element_count * sizeof_cxx T)) shape shape_len
       (TypeToTensorType T)"

definition Value_CreateTensor_typed :: "'s ort_lib \<Rightarrow> cxx_type \<Rightarrow> ref \<Rightarrow> ref \<Rightarrow> int \<Rightarrow> ('s, ref) cxx" where
  "Value_CreateTensor_typed A T allocator shape shape_len =
     Value_CreateTensor_allocated A allocator shape shape_len (TypeToTensorType T)"

definition Value_CreateSparseTensor :: "'s ort_lib \<Rightarrow> cxx_type \<Rightarrow> ref \<Rightarrow> ref \<Rightarrow> ref \<Rightarrow> int \<Rightarrow> ref \<Rightarrow> int \<Rightarrow> ('s, ref) cxx" where
  "Value_CreateSparseTensor A T info p_data dense_shape dense_shape_len values_shape values_shape_len =
     Value_CreateSparseTensor_with_data A info p_data dense_shape dense_shape_len values_shape values_shape_len
       (TypeToTensorType T)"

definition Value_CreateSparseTensor_typed :: "'s ort_lib \<Rightarrow> cxx_type \<Rightarrow> ref \<Rightarrow> ref \<Rightarrow> int \<Rightarrow> ('s, ref) cxx" where
  "Value_CreateSparseTensor_typed A T allocator dense_shape dense_shape_len =
     Value_CreateSparseTensor_allocated A allocator dense_shape dense_shape_len (TypeToTensorType T)"

definition Value_CreateMap :: "'s ort_lib \<Rightarrow> ref \<Rightarrow> ref \<Rightarrow> ('s, ref) cxx" where
  "Value_CreateMap A keys vals =
     bindx (checked A (New New_CreateValue) [ARefs [keys, vals], AInt 2, AInt (ONNXType_value ONNX_TYPE_MAP)])
       (\<lambda>r. okx (o_ref r))"

definition Value_CreateSequence :: "'s ort_lib \<Rightarrow> ref list \<Rightarrow> ('s, ref) cxx" where
  "Value_CreateSequence A vals =
     bindx (checked A (New New_CreateValue) [ARefs vals, AInt (int (length vals)), AInt (ONNXType_value ONNX_TYPE_SEQUENCE)])
       (\<lambda>r. okx (o_ref r))"

definition Value_CreateOpaque :: "'s ort_lib \<Rightarrow> string \<Rightarrow> string \<Rightarrow> ref \<Rightarrow> int \<Rightarrow> ('s, ref) cxx" where
  "Value_CreateOpaque A dom_name type_name data_container sizeof_T =
     bindx (checked A (New New_CreateOpaqueValue) [AStr dom_name, AStr type_name, ARef data_container, AInt sizeof_T]) (\<lambda>r. okx (o_ref r))"

section \<open>Exception safety\<close>

lemma GetShape_raii: "raii (\<lambda>_. {#}) (TensorTypeAndShapeInfo_GetShape A p) w"
  unfolding TensorTypeAndShapeInfo_GetShape_def TensorTypeAndShapeInfo_GetDimensionsCount_def
  by (intro raii_then wrap_plain)

lemma GetStringTensorElement_raii: "raii (\<lambda>_. {#}) (Value_GetStringTensorElement A mx p i) w"
  unfolding Value_GetStringTensorElement_def
  by (intro raii_call raii_then std_resize_raii raii_ok) simp

lemmas value_wrapper_defs = TensorTypeAndShapeInfo_GetElementType_def
  TensorTypeAndShapeInfo_GetElementCount_def TensorTypeAndShapeInfo_GetDimensionsCount_def
  TensorTypeAndShapeInfo_GetDimensions_def TensorTypeAndShapeInfo_GetSymbolicDimensions_def
  TypeInfo_GetTensorTypeAndShapeInfo_def TypeInfo_GetSequenceTypeInfo_def TypeInfo_GetMapTypeInfo_def
  TypeInfo_GetONNXType_def SequenceTypeInfo_GetSequenceElementType_def MapTypeInfo_GetMapKeyType_def
  MapTypeInfo_GetMapValueType_def TypeInfo_GetOptionalTypeInfo_def Value_GetOpaqueData_def
  Value_IsTensor_def Value_HasValue_def Value_GetCount_def Value_GetValue_def
  Value_GetStringTensorDataLength_def Value_GetStringTensorElementLength_def Value_GetTensorData_def
  Value_GetTensorRawData_def Value_GetTypeInfo_def Value_GetTensorTypeAndShapeInfo_def
  Value_GetTensorMemoryInfo_def Value_GetStringTensorElement_into_def Value_GetStringTensorContent_def
  Value_GetSparseFormat_def Value_GetSparseTensorValuesTypeAndShapeInfo_def
  Value_GetSparseTensorIndicesTypeShapeInfo_def Value_GetSparseTensorIndicesData_def
  Value_IsSparseTensor_def Value_GetSparseTensorValues_def Value_FillStringTensor_def
  Value_FillStringTensorElement_def Value_GetResizedStringTensorElementBuffer_def
  Value_GetTensorMutableRawData_def Value_GetTensorMutableData_def Value_UseCooIndices_def
  Value_UseCsrIndices_def Value_UseBlockSparseIndices_def Value_FillSparseTensorCoo_def
  Value_FillSparseTensorCsr_def Value_FillSparseTensorBlockSparse_def Value_CreateTensor_with_data_def
  Value_CreateTensor_allocated_def Value_CreateSparseTensor_with_data_def
  Value_CreateSparseTensor_allocated_def Value_CreateOpaque_def

text \<open>Every method of the type information and value classes is exception safe, with one exception:
  it releases the statuses it receives, and what it returns is exactly what the caller owns afterwards
  (nothing when it throws). The exception is \<open>GetOptionalElementType\<close>, the subject of the next theorem.\<close>

theorem value_classes_raii:
  "raii (\<lambda>_. {#}) (TensorTypeAndShapeInfo_GetElementType A p) w \<and>
   raii (\<lambda>_. {#}) (TensorTypeAndShapeInfo_GetElementCount A p) w \<and>
   raii (\<lambda>_. {#}) (TensorTypeAndShapeInfo_GetDimensionsCount A p) w \<and>
   raii (\<lambda>_. {#}) (TensorTypeAndShapeInfo_GetDimensions A p values values_count) w \<and>
   raii (\<lambda>_. {#}) (TensorTypeAndShapeInfo_GetSymbolicDimensions A p values values_count) w \<and>
   raii (\<lambda>_. {#}) (TypeInfo_GetTensorTypeAndShapeInfo A p) w \<and>
   raii (\<lambda>_. {#}) (TypeInfo_GetSequenceTypeInfo A p) w \<and>
   raii (\<lambda>_. {#}) (TypeInfo_GetMapTypeInfo A p) w \<and>
   raii (\<lambda>_. {#}) (TypeInfo_GetONNXType A p) w \<and>
   raii (own KTypeInfo) (SequenceTypeInfo_GetSequenceElementType A p) w \<and>
   raii (\<lambda>_. {#}) (MapTypeInfo_GetMapKeyType A p) w \<and>
   raii (own KTypeInfo) (MapTypeInfo_GetMapValueType A p) w \<and>
   raii (\<lambda>_. {#}) (TypeInfo_GetOptionalTypeInfo A p) w \<and>
   raii (\<lambda>_. {#}) (Value_GetOpaqueData A p dom_name type_name sizeof_R) w \<and>
   raii (\<lambda>_. {#}) (Value_IsTensor A p) w \<and>
   raii (\<lambda>_. {#}) (Value_HasValue A p) w \<and>
   raii (\<lambda>_. {#}) (Value_GetCount A p) w \<and>
   raii (own KValue) (Value_GetValue A p index allocator) w \<and>
   raii (\<lambda>_. {#}) (Value_GetStringTensorDataLength A p) w \<and>
   raii (\<lambda>_. {#}) (Value_GetStringTensorElementLength A p element_index) w \<and>
   raii (\<lambda>_. {#}) (Value_GetTensorData A p) w \<and>
   raii (\<lambda>_. {#}) (Value_GetTensorRawData A p) w \<and>
   raii (own KTypeInfo) (Value_GetTypeInfo A p) w \<and>
   raii (own KTensorTypeAndShapeInfo) (Value_GetTensorTypeAndShapeInfo A p) w \<and>
   raii (\<lambda>_. {#}) (Value_GetTensorMemoryInfo A p) w \<and>
   raii (\<lambda>_. {#}) (Value_GetStringTensorElement_into A p buffer_length element_index buffer) w \<and>
   raii (\<lambda>_. {#}) (Value_GetStringTensorContent A p buffer buffer_length offsets offsets_count) w \<and>
   raii (\<lambda>_. {#}) (Value_GetSparseFormat A p) w \<and>
   raii (own KTensorTypeAndShapeInfo) (Value_GetSparseTensorValuesTypeAndShapeInfo A p) w \<and>
   raii (own KTensorTypeAndShapeInfo) (Value_GetSparseTensorIndicesTypeShapeInfo A p indices_format) w \<and>
   raii (\<lambda>_. {#}) (Value_GetSparseTensorIndicesData A p indices_format) w \<and>
   raii (\<lambda>_. {#}) (Value_IsSparseTensor A p) w \<and>
   raii (\<lambda>_. {#}) (Value_GetSparseTensorValues A p) w \<and>
   raii (\<lambda>_. {#}) (Value_FillStringTensor A p str s_len) w \<and>
   raii (\<lambda>_. {#}) (Value_FillStringTensorElement A p str' index) w \<and>
   raii (\<lambda>_. {#}) (Value_GetResizedStringTensorElementBuffer A p index buffer_length) w \<and>
   raii (\<lambda>_. {#}) (Value_GetTensorMutableRawData A p) w \<and>
   raii (\<lambda>_. {#}) (Value_GetTensorMutableData A p) w \<and>
   raii (\<lambda>_. {#}) (Value_UseCooIndices A p indices_data indices_num) w \<and>
   raii (\<lambda>_. {#}) (Value_UseCsrIndices A p inner_data inner_num outer_data outer_num) w \<and>
   raii (\<lambda>_. {#}) (Value_UseBlockSparseIndices A p indices_shape indices_shape_len indices_data) w \<and>
   raii (\<lambda>_. {#}) (Value_FillSparseTensorCoo A p mem_info values_param_shape values_param_shape_len values_param_p_data indices_data indices_num) w \<and>
   raii (\<lambda>_. {#}) (Value_FillSparseTensorCsr A p data_mem_info values_shape values_shape_len values_p_data inner_indices_data inner_indices_num outer_indices_data outer_indices_num) w \<and>
   raii (\<lambda>_. {#}) (Value_FillSparseTensorBlockSparse A p data_mem_info values_shape values_shape_len values_p_data indices_shape indices_shape_len indices_data) w \<and>
   raii (own KValue) (Value_CreateTensor_with_data A info p_data p_data_byte_count shape shape_len ty) w \<and>
   raii (own KValue) (Value_CreateTensor_allocated A allocator shape shape_len ty) w \<and>
   raii (own KValue) (Value_CreateSparseTensor_with_data A info p_data dense_shape dense_shape_len values_shape values_shape_len ty) w \<and>
   raii (own KValue) (Value_CreateSparseTensor_allocated A allocator dense_shape dense_shape_len ty) w \<and>
   raii (own KValue) (Value_CreateOpaque A dom_name type_name data_container sizeof_T) w \<and>
   raii (\<lambda>_. {#}) (TensorTypeAndShapeInfo_GetShape A p) w \<and>
   raii (\<lambda>_. {#}) (Value_GetStringTensorElement A mx p element_index) w \<and>
   raii (\<lambda>_. {#}) (Value_At A p location) w \<and>
   raii (own KValue) (Value_CreateTensor A T info p_data p_data_element_count shape shape_len) w \<and>
   raii (own KValue) (Value_CreateTensor_typed A T allocator shape shape_len) w \<and>
   raii (own KValue) (Value_CreateSparseTensor A T info p_data dense_shape dense_shape_len values_shape values_shape_len) w \<and>
   raii (own KValue) (Value_CreateSparseTensor_typed A T allocator dense_shape dense_shape_len) w \<and>
   raii (own KValue) (Value_CreateMap A keys vals) w \<and>
   raii (own KValue) (Value_CreateSequence A vals') w"
  by (intro conjI) (simp_all add: wrap_plain wrap_owned creates_array_def value_wrapper_defs GetShape_raii
    GetStringTensorElement_raii Value_At_def Value_CreateTensor_def Value_CreateTensor_typed_def
    Value_CreateSparseTensor_def Value_CreateSparseTensor_typed_def Value_CreateMap_def Value_CreateSequence_def)

text \<open>\<open>GetOptionalElementType\<close> wraps a type info that the API documents as owned by the optional type
  info into an owning \<open>TypeInfo\<close>: the destructor of what it returns releases an object that was never
  handed over.\<close>

theorem optional_element_over_released:
  assumes "result (OptionalTypeInfo_GetOptionalElementType A p) w = Inr q" "q \<noteq> NULL"
    "ort_held w = Some M" "Own KTypeInfo q \<notin># M"
  shows "ort_held (exec (OptionalTypeInfo_GetOptionalElementType A p) w) = Some M \<and>
    ort_held (exec (OrtRelease A KTypeInfo q) (exec (OptionalTypeInfo_GetOptionalElementType A p) w)) = None"
proof -
  have "raii (\<lambda>_. {#}) (OptionalTypeInfo_GetOptionalElementType A p) w"
    by (simp add: OptionalTypeInfo_GetOptionalElementType_def wrap_plain)
  then have "ort_held (exec (OptionalTypeInfo_GetOptionalElementType A p) w) = Some M"
    using assms(1,3) by (simp add: raii_def)
  then show ?thesis
    using assms(2,4) by (simp add: OrtRelease_def step_simps track_step_def own_single)
qed

section \<open>What is read\<close>

text \<open>What the API documents of the shape \<open>ds\<close> of an info \<open>p\<close> and of the string \<open>t\<close> at an index of a string tensor.\<close>

definition shape_doc :: "'s ort_lib \<Rightarrow> ref \<Rightarrow> int list \<Rightarrow> bool" where
  "shape_doc A p ds \<longleftrightarrow> (\<forall>s.
     (let r = fst (A (Api (Fn ''GetDimensionsCount'') [ARef p]) s) in o_status r = NULL \<and> o_int r = int (length ds)) \<and>
     (\<forall>buf. let r = fst (A (Api (Fn ''GetDimensions'') [ARef p, AInts buf, AInt (int (length buf))]) s) in
        o_status r = NULL \<and> o_ints r = take (length buf) ds @ drop (length ds) buf))"

definition string_doc :: "'s ort_lib \<Rightarrow> ref \<Rightarrow> int \<Rightarrow> string \<Rightarrow> bool" where
  "string_doc A p i t \<longleftrightarrow> (\<forall>s.
     (let r = fst (A (Api (Fn ''GetStringTensorElementLength'') [ARef p, AInt i]) s) in
       o_status r = NULL \<and> o_int r = int (length t)) \<and>
     (\<forall>buf. length buf = length t \<longrightarrow>
       (let r = fst (A (Api (Fn ''GetStringTensorElement'') [ARef p, AInt (int (length t)), AInt i, AStr buf]) s) in
        o_status r = NULL \<and> o_str r = t)))"

text \<open>\<open>GetShape\<close> returns the dimensions of the info, all of them and no others, and
  \<open>GetStringTensorElement\<close> the string of the element, whatever characters it contains.\<close>

theorem tensor_reads:
  assumes "shape_doc A info ds" "string_doc A p i t" "int (length t) \<le> mx"
  shows "result (TensorTypeAndShapeInfo_GetShape A info) w = Inr ds \<and>
    result (Value_GetStringTensorElement A mx p i) w = Inr t"
proof -
  have d: "o_status (fst (A (Api (Fn ''GetDimensionsCount'') [ARef info]) s)) = 0"
    "o_int (fst (A (Api (Fn ''GetDimensionsCount'') [ARef info]) s)) = int (length ds)"
    "o_status (fst (A (Api (Fn ''GetDimensions'') [ARef info, AInts (replicate (length ds) 0), AInt (int (length ds))]) s)) = 0"
    "o_ints (fst (A (Api (Fn ''GetDimensions'') [ARef info, AInts (replicate (length ds) 0), AInt (int (length ds))]) s)) = ds" for s
    using assms(1) unfolding shape_doc_def Let_def
    by (metis append_Nil2 drop_replicate length_replicate minus_nat.diff_0 order_refl diff_self_eq_0 replicate_0 take_all)+
  have t: "o_status (fst (A (Api (Fn ''GetStringTensorElementLength'') [ARef p, AInt i]) s)) = 0"
    "o_int (fst (A (Api (Fn ''GetStringTensorElementLength'') [ARef p, AInt i]) s)) = int (length t)"
    "o_status (fst (A (Api (Fn ''GetStringTensorElement'') [ARef p, AInt (int (length t)), AInt i,
       AStr (replicate (length t) (CHR 0x00))]) s)) = 0"
    "o_str (fst (A (Api (Fn ''GetStringTensorElement'') [ARef p, AInt (int (length t)), AInt i,
       AStr (replicate (length t) (CHR 0x00))]) s)) = t" for s
    using assms(2) unfolding string_doc_def Let_def by simp_all
  show ?thesis
    using assms(3)
    by (simp add: TensorTypeAndShapeInfo_GetShape_def TensorTypeAndShapeInfo_GetDimensionsCount_def
        Value_GetStringTensorElement_def std_resize_def bindx_run ok_run checked_ok d t)
qed

section \<open>Sizes\<close>

text \<open>The templated \<open>CreateTensor\<close> hands the API the element type of the C++ type and a byte count that
  is the number of elements times the size of the type exactly when that product fits in 64 bits; if it
  does not fit, the count that is passed is smaller.\<close>

theorem CreateTensor_byte_count:
  "\<exists>bytes. fst (log (exec (Value_CreateTensor A T info p_data n shape shape_len) w) ! length (log w)) =
      Api (New New_CreateTensorWithDataAsOrtValue) [ARef info, ARef p_data, AInt bytes, ARef shape, AInt shape_len,
        AInt (ONNXTensorElementDataType_value (TypeToTensorType T))] \<and>
    (bytes = uint n * uint (sizeof_cxx T) \<longleftrightarrow> uint n * uint (sizeof_cxx T) < 2 ^ 64) \<and>
    bytes \<le> uint n * uint (sizeof_cxx T)"
proof (intro exI [of _ "uint (n * sizeof_cxx T)"] conjI)
  have m: "uint (n * sizeof_cxx T) = (uint n * uint (sizeof_cxx T)) mod 2 ^ 64"
    by (simp add: uint_word_ariths)
  have b: "uint n * uint (sizeof_cxx T) \<ge> 0" by simp
  show "uint (n * sizeof_cxx T) = uint n * uint (sizeof_cxx T) \<longleftrightarrow> uint n * uint (sizeof_cxx T) < 2 ^ 64"
    unfolding m using b by (metis mod_pos_pos_trivial pos_mod_bound zero_less_numeral zero_less_power)
  show "uint (n * sizeof_cxx T) \<le> uint n * uint (sizeof_cxx T)"
    unfolding m using b by (rule zmod_le_nonneg_dividend)
  have "fst (log (exec (checked A fn args) w) ! length (log w)) = Api fn args" for fn args
    by (simp add: checked_def cxx_run exec_perform ThrowOnError_run nth_append)
  then show "fst (log (exec (Value_CreateTensor A T info p_data n shape shape_len) w) ! length (log w)) =
      Api (New New_CreateTensorWithDataAsOrtValue) [ARef info, ARef p_data, AInt (uint (n * sizeof_cxx T)), ARef shape,
        AInt shape_len, AInt (ONNXTensorElementDataType_value (TypeToTensorType T))]"
    by (simp add: Value_CreateTensor_def Value_CreateTensor_with_data_def bindx_run ok_run split: sum.splits)
qed

section \<open>Witnesses\<close>

text \<open>A library with one info of shape 2, 3 and one string tensor, which lends out an element type.\<close>

definition demo_value :: "unit ort_lib" where
  "demo_value c s = (case c of
     Api (Fn f) args \<Rightarrow>
       (if f = ''GetDimensionsCount'' then demo_ok 2 [] []
        else if f = ''GetDimensions'' then
          (case args ! 1 of AInts buf \<Rightarrow> (demo_ok 0 [] [])\<lparr>o_ints := take (length buf) [2, 3] @ drop 2 buf\<rparr> | _ \<Rightarrow> demo_ok 0 [] [])
        else if f = ''GetStringTensorElementLength'' then demo_ok 2 [] []
        else if f = ''GetStringTensorElement'' then demo_ok 0 ''ab'' []
        else (demo_ok 0 [] [])\<lparr>o_ref := 7\<rparr>)
   | _ \<Rightarrow> demo_ok 0 [] [], s)"

lemma demo_value_doc: "shape_doc demo_value 1 [2, 3]" "string_doc demo_value 2 0 ''ab''"
  by (simp_all add: shape_doc_def string_doc_def demo_value_def demo_ok_def numeral_2_eq_2)

theorem tensor_reads_witness:
  "result (TensorTypeAndShapeInfo_GetShape demo_value 1) demo_ort_world = Inr [2, 3] \<and>
   result (Value_GetStringTensorElement demo_value 1000 2 0) demo_ort_world = Inr ''ab''"
  using tensor_reads [OF demo_value_doc, of 1000 demo_ort_world] by simp

theorem optional_element_over_released_witness:
  "ort_held (exec (OrtRelease demo_value KTypeInfo 7)
     (exec (OptionalTypeInfo_GetOptionalElementType demo_value 3) demo_ort_world)) = None"
proof -
  have "result (OptionalTypeInfo_GetOptionalElementType demo_value 3) demo_ort_world = Inr 7"
    by (simp add: OptionalTypeInfo_GetOptionalElementType_def bindx_run ok_run checked_run result_perform Let_def
        demo_value_def demo_ok_def)
  from optional_element_over_released [OF this, of "{#}"] show ?thesis
    by (simp add: demo_ort_doc)
qed

end
