(* ===== verification/Ort_Kernel.thy ===== *)
theory Ort_Kernel
  imports Ort_Value
begin

text \<open>
  The C++ wrapper of \<^verbatim>\<open>onnxruntime_cxx_inline.h\<close> for custom operators: loggers, kernel contexts and infos,
  attributes, operators, available providers and shape inference. The theorems: exception safety; what
  the readers return; and the four places where the shape inference context loses or releases an object
  it should not.
\<close>

section \<open>Loggers\<close>

record Logger =
  logger :: ref
  cached_severity_level :: int

definition Logger_ctor :: "'s ort_lib \<Rightarrow> ref \<Rightarrow> ('s, Logger) cxx" where
  "Logger_ctor A lg = bindx (checked A (Fn ''Logger_GetLoggingSeverityLevel'') [ARef lg])
     (\<lambda>r. okx \<lparr>logger = lg, cached_severity_level = o_int r\<rparr>)"

definition Logger_GetLoggingSeverityLevel :: "Logger \<Rightarrow> int" where
  "Logger_GetLoggingSeverityLevel l = cached_severity_level l"

text \<open>\<open>LogMessage\<close> and \<open>LogFormattedMessage\<close> return the status to the caller, who owns it.\<close>

definition Logger_LogMessage :: "'s ort_lib \<Rightarrow> Logger \<Rightarrow> int \<Rightarrow> string \<Rightarrow> int \<Rightarrow> string \<Rightarrow> string \<Rightarrow> ('s ort, ref) state" where
  "Logger_LogMessage A l log_severity_level file_path line_number func_name message = do {
     r \<leftarrow> perform A (Api (Fn ''Logger_LogMessage'') [ARef (logger l), AInt log_severity_level, AStr message, AStr file_path,
       AInt line_number, AStr func_name]);
     State_Monad.return (o_status r) }"

text \<open>
  \<open>snprintf\<close> into a buffer of \<open>n\<close> bytes writes at most \<open>n - 1\<close> characters and a terminator; what the logger
  reads is the text up to the terminator. \<open>formatted\<close> is the text the format and its arguments stand for,
  \<open>None\<close> if \<open>snprintf\<close> reports an error.
\<close>

definition until_nul :: "string \<Rightarrow> string" where
  "until_nul s = takeWhile (\<lambda>c. c \<noteq> CHR 0x00) s"

definition snprintf_buffer :: "nat \<Rightarrow> string \<Rightarrow> string" where
  "snprintf_buffer n text = take (n - 1) text @ [CHR 0x00]"

definition kStackBufferSize :: nat where
  "kStackBufferSize = 1024"

definition Logger_LogFormattedMessage :: "'s ort_lib \<Rightarrow> Logger \<Rightarrow> int \<Rightarrow> string \<Rightarrow> int \<Rightarrow> string \<Rightarrow> string option
    \<Rightarrow> ('s ort, ref) state" where
  "Logger_LogFormattedMessage A l log_severity_level file_path line_number func_name formatted = (case formatted of
     None \<Rightarrow> Status_from_message A ''Failed to log message due to formatting error'' (OrtErrorCode_value ORT_FAIL)
   | Some text \<Rightarrow> (let buffer_size = length text + 1 in
       if buffer_size < kStackBufferSize then
         Logger_LogMessage A l log_severity_level file_path line_number func_name (until_nul (snprintf_buffer kStackBufferSize text))
       else
         Logger_LogMessage A l log_severity_level file_path line_number func_name (until_nul (snprintf_buffer buffer_size text))))"

text \<open>The logging macros: nothing happens below the logger's level; the throwing ones turn a failed status into
  an exception, the others drop it. The temporary \<open>Status\<close> releases what it holds.\<close>

definition log_throwing :: "'s ort_lib \<Rightarrow> ('s ort, ref) state \<Rightarrow> ('s, unit) cxx" where
  "log_throwing A m = do { st \<leftarrow> m; scopex (OrtRelease A KStatus st) (ThrowOnError_Status A st) }"

definition log_quiet :: "'s ort_lib \<Rightarrow> ('s ort, ref) state \<Rightarrow> ('s, unit) cxx" where
  "log_quiet A m = do { st \<leftarrow> m; OrtRelease A KStatus st; okx () }"

definition ORT_CXX_LOG :: "'s ort_lib \<Rightarrow> Logger \<Rightarrow> int \<Rightarrow> string \<Rightarrow> int \<Rightarrow> string \<Rightarrow> string \<Rightarrow> ('s, unit) cxx" where
  "ORT_CXX_LOG A l message_severity file_path line_number func_name message =
     (if message_severity \<ge> Logger_GetLoggingSeverityLevel l then
        log_throwing A (Logger_LogMessage A l message_severity file_path line_number func_name message) else okx ())"

definition ORT_CXX_LOG_NOEXCEPT :: "'s ort_lib \<Rightarrow> Logger \<Rightarrow> int \<Rightarrow> string \<Rightarrow> int \<Rightarrow> string \<Rightarrow> string \<Rightarrow> ('s, unit) cxx" where
  "ORT_CXX_LOG_NOEXCEPT A l message_severity file_path line_number func_name message =
     (if message_severity \<ge> Logger_GetLoggingSeverityLevel l then
        log_quiet A (Logger_LogMessage A l message_severity file_path line_number func_name message) else okx ())"

definition ORT_CXX_LOGF :: "'s ort_lib \<Rightarrow> Logger \<Rightarrow> int \<Rightarrow> string \<Rightarrow> int \<Rightarrow> string \<Rightarrow> string option \<Rightarrow> ('s, unit) cxx" where
  "ORT_CXX_LOGF A l message_severity file_path line_number func_name formatted =
     (if message_severity \<ge> Logger_GetLoggingSeverityLevel l then
        log_throwing A (Logger_LogFormattedMessage A l message_severity file_path line_number func_name formatted) else okx ())"

definition ORT_CXX_LOGF_NOEXCEPT :: "'s ort_lib \<Rightarrow> Logger \<Rightarrow> int \<Rightarrow> string \<Rightarrow> int \<Rightarrow> string \<Rightarrow> string option \<Rightarrow> ('s, unit) cxx" where
  "ORT_CXX_LOGF_NOEXCEPT A l message_severity file_path line_number func_name formatted =
     (if message_severity \<ge> Logger_GetLoggingSeverityLevel l then
        log_quiet A (Logger_LogFormattedMessage A l message_severity file_path line_number func_name formatted) else okx ())"

section \<open>Kernel contexts and infos\<close>

definition KernelContext_GetInputCount :: "'s ort_lib \<Rightarrow> ref \<Rightarrow> ('s, int) cxx" where
  "KernelContext_GetInputCount A p =
     bindx (checked A (Fn ''KernelContext_GetInputCount'') [ARef p]) (\<lambda>r. okx (o_int r))"

definition KernelContext_GetOutputCount :: "'s ort_lib \<Rightarrow> ref \<Rightarrow> ('s, int) cxx" where
  "KernelContext_GetOutputCount A p =
     bindx (checked A (Fn ''KernelContext_GetOutputCount'') [ARef p]) (\<lambda>r. okx (o_int r))"

definition KernelContext_GetInput :: "'s ort_lib \<Rightarrow> ref \<Rightarrow> int \<Rightarrow> ('s, ref) cxx" where
  "KernelContext_GetInput A p index =
     bindx (checked A (Fn ''KernelContext_GetInput'') [ARef p, AInt index]) (\<lambda>r. okx (o_ref r))"

definition KernelContext_GetOutput :: "'s ort_lib \<Rightarrow> ref \<Rightarrow> int \<Rightarrow> ref \<Rightarrow> int \<Rightarrow> ('s, ref) cxx" where
  "KernelContext_GetOutput A p index dim_values dim_count =
     bindx (checked A (Fn ''KernelContext_GetOutput'') [ARef p, AInt index, ARef dim_values, AInt dim_count]) (\<lambda>r. okx (o_ref r))"

definition KernelContext_GetOutput_dims :: "'s ort_lib \<Rightarrow> ref \<Rightarrow> int \<Rightarrow> int list \<Rightarrow> ('s, ref) cxx" where
  "KernelContext_GetOutput_dims A p index dims =
     bindx (checked A (Fn ''KernelContext_GetOutput'') [ARef p, AInt index, AInts dims, AInt (int (length dims))]) (\<lambda>r. okx (o_ref r))"

definition KernelContext_GetGPUComputeStream :: "'s ort_lib \<Rightarrow> ref \<Rightarrow> ('s, ref) cxx" where
  "KernelContext_GetGPUComputeStream A p =
     bindx (checked A (Fn ''KernelContext_GetGPUComputeStream'') [ARef p]) (\<lambda>r. okx (o_ref r))"

definition KernelContext_GetAllocator :: "'s ort_lib \<Rightarrow> ref \<Rightarrow> ref \<Rightarrow> ('s, ref) cxx" where
  "KernelContext_GetAllocator A p memory_info =
     bindx (checked A (Fn ''KernelContext_GetAllocator'') [ARef p, ARef memory_info]) (\<lambda>r. okx (o_ref r))"

definition KernelContext_ParallelFor :: "'s ort_lib \<Rightarrow> ref \<Rightarrow> ref \<Rightarrow> int \<Rightarrow> int \<Rightarrow> ref \<Rightarrow> ('s, unit) cxx" where
  "KernelContext_ParallelFor A p func total_count num_batch usr_data =
     bindx (checked A (Fn ''KernelContext_ParallelFor'') [ARef p, ARef func, AInt total_count, AInt num_batch, ARef usr_data]) (\<lambda>_. okx ())"

definition KernelContext_GetLogger :: "'s ort_lib \<Rightarrow> ref \<Rightarrow> ('s, Logger) cxx" where
  "KernelContext_GetLogger A p =
     bindx (checked A (Fn ''KernelContext_GetLogger'') [ARef p]) (\<lambda>r. Logger_ctor A (o_ref r))"

definition OpAttr_ctor :: "'s ort_lib \<Rightarrow> string \<Rightarrow> ref \<Rightarrow> int \<Rightarrow> OrtOpAttrType \<Rightarrow> ('s, ref) cxx" where
  "OpAttr_ctor A nm dat len ty =
     construct A KOpAttr (New New_CreateOpAttr) [AStr nm, ARef dat, AInt len, AInt (OrtOpAttrType_value ty)]"

definition KernelInfo_Copy :: "'s ort_lib \<Rightarrow> ref \<Rightarrow> ('s, ref) cxx" where
  "KernelInfo_Copy A p =
     bindx (checked A (New New_CopyKernelInfo) [ARef p]) (\<lambda>r. okx (o_ref r))"

definition KernelInfo_GetInputCount :: "'s ort_lib \<Rightarrow> ref \<Rightarrow> ('s, int) cxx" where
  "KernelInfo_GetInputCount A p =
     bindx (checked A (Fn ''KernelInfo_GetInputCount'') [ARef p]) (\<lambda>r. okx (o_int r))"

definition KernelInfo_GetOutputCount :: "'s ort_lib \<Rightarrow> ref \<Rightarrow> ('s, int) cxx" where
  "KernelInfo_GetOutputCount A p =
     bindx (checked A (Fn ''KernelInfo_GetOutputCount'') [ARef p]) (\<lambda>r. okx (o_int r))"

definition KernelInfo_GetInputName :: "'s ort_lib \<Rightarrow> int \<Rightarrow> ref \<Rightarrow> int \<Rightarrow> ('s, string) cxx" where
  "KernelInfo_GetInputName A mx p index = sized_string A mx ''KernelInfo_GetInputName'' [ARef p, AInt index]"

definition KernelInfo_GetOutputName :: "'s ort_lib \<Rightarrow> int \<Rightarrow> ref \<Rightarrow> int \<Rightarrow> ('s, string) cxx" where
  "KernelInfo_GetOutputName A mx p index = sized_string A mx ''KernelInfo_GetOutputName'' [ARef p, AInt index]"

definition KernelInfo_GetInputTypeInfo :: "'s ort_lib \<Rightarrow> ref \<Rightarrow> int \<Rightarrow> ('s, ref) cxx" where
  "KernelInfo_GetInputTypeInfo A p index =
     bindx (checked A (New New_KernelInfo_GetInputTypeInfo) [ARef p, AInt index]) (\<lambda>r. okx (o_ref r))"

definition KernelInfo_GetOutputTypeInfo :: "'s ort_lib \<Rightarrow> ref \<Rightarrow> int \<Rightarrow> ('s, ref) cxx" where
  "KernelInfo_GetOutputTypeInfo A p index =
     bindx (checked A (New New_KernelInfo_GetOutputTypeInfo) [ARef p, AInt index]) (\<lambda>r. okx (o_ref r))"

definition KernelInfo_GetTensorAttribute :: "'s ort_lib \<Rightarrow> ref \<Rightarrow> string \<Rightarrow> ref \<Rightarrow> ('s, ref) cxx" where
  "KernelInfo_GetTensorAttribute A p nm allocator =
     bindx (checked A (New New_KernelInfoGetAttribute_tensor) [ARef p, AStr nm, ARef allocator]) (\<lambda>r. okx (o_ref r))"

definition KernelInfo_GetTensorConstantInput :: "'s ort_lib \<Rightarrow> ref \<Rightarrow> int \<Rightarrow> ref \<Rightarrow> ('s, ref) cxx" where
  "KernelInfo_GetTensorConstantInput A p index is_constant =
     bindx (checked A (Fn ''KernelInfoGetConstantInput_tensor'') [ARef p, AInt index, ARef is_constant]) (\<lambda>r. okx (o_ref r))"

definition KernelInfo_GetNodeName :: "'s ort_lib \<Rightarrow> int \<Rightarrow> ref \<Rightarrow> ('s, string) cxx" where
  "KernelInfo_GetNodeName A mx p = sized_string A mx ''KernelInfo_GetNodeName'' [ARef p]"

definition KernelInfo_GetLogger :: "'s ort_lib \<Rightarrow> ref \<Rightarrow> ('s, Logger) cxx" where
  "KernelInfo_GetLogger A p =
     bindx (checked A (Fn ''KernelInfo_GetLogger'') [ARef p]) (\<lambda>r. Logger_ctor A (o_ref r))"

section \<open>Attributes\<close>

definition attr_utils_GetAttr_float :: "'s ort_lib \<Rightarrow> ref \<Rightarrow> string \<Rightarrow> ('s, int) cxx" where
  "attr_utils_GetAttr_float A q nm =
     bindx (checked A (Fn ''KernelInfoGetAttribute_float'') [ARef q, AStr nm]) (\<lambda>r. okx (o_int r))"

definition attr_utils_GetAttr_int64 :: "'s ort_lib \<Rightarrow> ref \<Rightarrow> string \<Rightarrow> ('s, int) cxx" where
  "attr_utils_GetAttr_int64 A q nm =
     bindx (checked A (Fn ''KernelInfoGetAttribute_int64'') [ARef q, AStr nm]) (\<lambda>r. okx (o_int r))"

definition attr_utils_GetAttr_string :: "'s ort_lib \<Rightarrow> int \<Rightarrow> ref \<Rightarrow> string \<Rightarrow> ('s, string) cxx" where
  "attr_utils_GetAttr_string A mx p nm = sized_string A mx ''KernelInfoGetAttribute_string'' [ARef p, AStr nm]"

text \<open>The two overloads for arrays; \<open>resize\<close> of the vector fills with zeros.\<close>

definition attr_utils_GetAttrs_float :: "'s ort_lib \<Rightarrow> ref \<Rightarrow> string \<Rightarrow> ('s, int list) cxx" where
  "attr_utils_GetAttrs_float A p nm =
     bindx (checked A (Fn ''KernelInfoGetAttributeArray_float'') [ARef p, AStr nm, ARef NULL, AInt 0]) (\<lambda>r1.
     bindx (checked A (Fn ''KernelInfoGetAttributeArray_float'') [ARef p, AStr nm,
       AInts (replicate (nat (o_int r1)) 0), AInt (o_int r1)]) (\<lambda>r2. okx (o_ints r2)))"

definition attr_utils_GetAttrs_int64 :: "'s ort_lib \<Rightarrow> ref \<Rightarrow> string \<Rightarrow> ('s, int list) cxx" where
  "attr_utils_GetAttrs_int64 A p nm =
     bindx (checked A (Fn ''KernelInfoGetAttributeArray_int64'') [ARef p, AStr nm, ARef NULL, AInt 0]) (\<lambda>r1.
     bindx (checked A (Fn ''KernelInfoGetAttributeArray_int64'') [ARef p, AStr nm,
       AInts (replicate (nat (o_int r1)) 0), AInt (o_int r1)]) (\<lambda>r2. okx (o_ints r2)))"

section \<open>Operators, versions and providers\<close>

definition Op_Create :: "'s ort_lib \<Rightarrow> ref \<Rightarrow> string \<Rightarrow> string \<Rightarrow> int \<Rightarrow> string list \<Rightarrow> ONNXTensorElementDataType list \<Rightarrow> int
    \<Rightarrow> ref list \<Rightarrow> int \<Rightarrow> int \<Rightarrow> int \<Rightarrow> ('s, ref) cxx" where
  "Op_Create A info op_name dom_name version type_constraint_names type_constraint_values type_constraint_count
     attr_values attr_count input_count output_count =
     bindx (checked A (New New_CreateOp) [ARef info, AStr op_name, AStr dom_name, AInt version, AStrs type_constraint_names,
       AInts (map ONNXTensorElementDataType_value type_constraint_values), AInt (as_int type_constraint_count),
       ARefs attr_values, AInt (as_int attr_count), AInt (as_int input_count), AInt (as_int output_count)])
     (\<lambda>r. okx (o_ref r))"

definition Op_Invoke :: "'s ort_lib \<Rightarrow> ref \<Rightarrow> ref \<Rightarrow> ref list \<Rightarrow> int \<Rightarrow> ref list \<Rightarrow> int \<Rightarrow> ('s, unit) cxx" where
  "Op_Invoke A p context input_values input_count output_values output_count =
     bindx (checked A (Fn ''InvokeOp'') [ARef context, ARef p, ARefs input_values, AInt (as_int input_count),
       ARefs output_values, AInt (as_int output_count)]) (\<lambda>_. okx ())"

definition Op_Invoke_raw :: "'s ort_lib \<Rightarrow> ref \<Rightarrow> ref \<Rightarrow> ref \<Rightarrow> int \<Rightarrow> ref \<Rightarrow> int \<Rightarrow> ('s, unit) cxx" where
  "Op_Invoke_raw A p context input_values input_count output_values output_count =
     bindx (checked A (Fn ''InvokeOp'') [ARef context, ARef p, ARef input_values, AInt (as_int input_count), ARef output_values, AInt (as_int output_count)]) (\<lambda>_. okx ())"

definition Ort_GetVersionString :: "'s ort_lib \<Rightarrow> ('s ort, string) state" where
  "Ort_GetVersionString A = do { r \<leftarrow> perform A (Api_void ''GetVersionString'' []); State_Monad.return (o_str r) }"

definition Ort_GetBuildInfoString :: "'s ort_lib \<Rightarrow> ('s ort, string) state" where
  "Ort_GetBuildInfoString A = do { r \<leftarrow> perform A (Api_void ''GetBuildInfoString'' []); State_Monad.return (o_str r) }"

text \<open>The guard runs \<open>ReleaseAvailableProviders\<close> when the pointer is not null, under \<open>ThrowOnError\<close> in a
  destructor; the API documents that the call never fails.\<close>

definition providers_guard :: "'s ort_lib \<Rightarrow> ref \<Rightarrow> int \<Rightarrow> ('s ort, unit) state" where
  "providers_guard A providers len = when_m (providers \<noteq> NULL) (do {
     r \<leftarrow> perform A (Api Fn_ReleaseAvailableProviders [ARef providers, AInt len]);
     ThrowOnError A (o_status r);
     State_Monad.return () })"

definition Ort_GetAvailableProviders :: "'s ort_lib \<Rightarrow> ('s, string list) cxx" where
  "Ort_GetAvailableProviders A =
     bindx (checked A (New New_GetAvailableProviders) []) (\<lambda>r.
     scopex (providers_guard A (o_ref r) (o_int r)) (okx (take (nat (o_int r)) (o_strs r))))"

section \<open>Shape inference\<close>

text \<open>A dimension is an integer or a symbol, a string pointer that may be null.\<close>

datatype SymbolicInteger = Int_dim int | Sym_dim "string option"

fun SymbolicInteger_eq :: "SymbolicInteger \<Rightarrow> SymbolicInteger \<Rightarrow> bool" where
  "SymbolicInteger_eq (Int_dim i) (Int_dim j) = (i = j)"
| "SymbolicInteger_eq (Sym_dim (Some s)) (Sym_dim (Some t)) = (s = t)"
| "SymbolicInteger_eq _ _ = False"

definition INVALID_INT_DIM :: int where
  "INVALID_INT_DIM = -2"

text \<open>
  The constructor reads the shape of every input. The info of an input is wrapped into an owning
  \<open>TensorTypeAndShapeInfo\<close> and detached again (\<open>release()\<close>) at the end of the round; if a call in between
  throws, the wrapper's destructor releases it. An absent symbolic name is a null or an empty string.
\<close>

definition merge_dims :: "int list \<Rightarrow> string list \<Rightarrow> SymbolicInteger list" where
  "merge_dims ints syms = map2 (\<lambda>i s. if s \<noteq> [] then Sym_dim (Some s) else Int_dim i) ints syms"

definition shape_input :: "'s ort_lib \<Rightarrow> ref \<Rightarrow> int \<Rightarrow> ('s, SymbolicInteger list) cxx" where
  "shape_input A ctx ith_input =
     bindx (checked A (Fn ''ShapeInferContext_GetInputTypeShape'') [ARef ctx, AInt ith_input]) (\<lambda>r.
     on_throw (OrtRelease A KTensorTypeAndShapeInfo (o_ref r))
       (bindx (TensorTypeAndShapeInfo_GetShape A (o_ref r)) (\<lambda>integer_shape.
        if integer_shape \<noteq> [] then
          bindx (checked A (Fn ''GetSymbolicDimensions'') [ARef (o_ref r), AStrs (replicate (length integer_shape) []),
            AInt (int (length integer_shape))]) (\<lambda>r2. okx (merge_dims integer_shape (o_strs r2)))
        else okx [])))"

definition ShapeInferContext_ctor :: "'s ort_lib \<Rightarrow> ref \<Rightarrow> ('s, SymbolicInteger list list) cxx" where
  "ShapeInferContext_ctor A ctx =
     bindx (checked A (Fn ''ShapeInferContext_GetInputCount'') [ARef ctx]) (\<lambda>r.
     mapx (\<lambda>i. shape_input A ctx (int i)) [0..<nat (o_int r)])"

text \<open>\<open>ORT_CXX_RETURN_ON_API_FAIL\<close>: a failed status is returned to the caller at once.\<close>

definition return_on_api_fail :: "'s ort_lib \<Rightarrow> ort_fn \<Rightarrow> ort_arg list \<Rightarrow> (ort_reply \<Rightarrow> ('s, ref) cxx) \<Rightarrow> ('s, ref) cxx" where
  "return_on_api_fail A fn args k = do {
     r \<leftarrow> perform A (Api fn args);
     if o_status r \<noteq> NULL then okx (o_status r) else k r }"

fun split_dims :: "SymbolicInteger list \<Rightarrow> cxx_exn + int list \<times> string list" where
  "split_dims [] = Inr ([], [])"
| "split_dims (Int_dim i # ds) = map_sum id (\<lambda>(is, ss). (i # is, [] # ss)) (split_dims ds)"
| "split_dims (Sym_dim s # ds) =
     (if s = None \<or> s = Some [] then
        Inl (Ort_Exception ''Symbolic dim must not be an empty string'' (OrtErrorCode_value ORT_INVALID_ARGUMENT))
      else map_sum id (\<lambda>(is, ss). (INVALID_INT_DIM # is, the s # ss)) (split_dims ds))"

definition ShapeInferContext_SetOutputShape :: "'s ort_lib \<Rightarrow> ref \<Rightarrow> int \<Rightarrow> SymbolicInteger list \<Rightarrow> ONNXTensorElementDataType
    \<Rightarrow> ('s, ref) cxx" where
  "ShapeInferContext_SetOutputShape A ctx indice shape ty =
     return_on_api_fail A (New New_CreateTensorTypeAndShapeInfo) [] (\<lambda>r. let info = o_ref r in
     return_on_api_fail A (Fn ''SetTensorElementType'') [ARef info, AInt (ONNXTensorElementDataType_value ty)] (\<lambda>_.
     scopex (when_m (info \<noteq> NULL) (OrtRelease A KTensorTypeAndShapeInfo info))
       (case split_dims shape of Inl e \<Rightarrow> throwx e | Inr (integer_dims, symbolic_dims) \<Rightarrow>
        return_on_api_fail A (Fn ''SetDimensions'') [ARef info, AInts integer_dims, AInt (int (length integer_dims))] (\<lambda>_.
        return_on_api_fail A (Fn ''SetSymbolicDimensions'') [ARef info, AStrs symbolic_dims, AInt (int (length symbolic_dims))] (\<lambda>_.
        return_on_api_fail A (Fn ''ShapeInferContext_SetOutputTypeShape'') [ARef ctx, AInt indice, ARef info] (\<lambda>_.
        okx NULL))))))"

text \<open>
  The attribute readers. For lists the first call passes a buffer for one element; if it fails, its status
  is only tested, and a second call reads with the size that was reported.
\<close>

definition ShapeInferContext_GetAttrHdl :: "'s ort_lib \<Rightarrow> ref \<Rightarrow> string \<Rightarrow> ('s, ref) cxx" where
  "ShapeInferContext_GetAttrHdl A p attr_name =
     bindx (checked A (Fn ''ShapeInferContext_GetAttribute'') [ARef p, AStr attr_name]) (\<lambda>r. okx (o_ref r))"

definition ShapeInferContext_GetAttrInt :: "'s ort_lib \<Rightarrow> ref \<Rightarrow> string \<Rightarrow> ('s, int) cxx" where
  "ShapeInferContext_GetAttrInt A p attr_name =
     bindx (ShapeInferContext_GetAttrHdl A p attr_name) (\<lambda>attr.
     bindx (checked A (Fn ''ReadOpAttr'') [ARef attr, AInt (OrtOpAttrType_value ORT_OP_ATTR_INT), AInts [0], AInt 8])
       (\<lambda>r. okx (hd (o_ints r @ [0]))))"

definition ShapeInferContext_GetAttrFloat :: "'s ort_lib \<Rightarrow> ref \<Rightarrow> string \<Rightarrow> ('s, int) cxx" where
  "ShapeInferContext_GetAttrFloat A p attr_name =
     bindx (ShapeInferContext_GetAttrHdl A p attr_name) (\<lambda>attr.
     bindx (checked A (Fn ''ReadOpAttr'') [ARef attr, AInt (OrtOpAttrType_value ORT_OP_ATTR_FLOAT), AInts [0], AInt 4])
       (\<lambda>r. okx (hd (o_ints r @ [0]))))"

definition read_numbers :: "'s ort_lib \<Rightarrow> OrtOpAttrType \<Rightarrow> int \<Rightarrow> ref \<Rightarrow> ('s, int list) cxx" where
  "read_numbers A ty sz attr = do {
     r \<leftarrow> perform A (Api (Fn ''ReadOpAttr'') [ARef attr, AInt (OrtOpAttrType_value ty), AInts [0], AInt sz]);
     if o_status r \<noteq> NULL then
       bindx (checked A (Fn ''ReadOpAttr'') [ARef attr, AInt (OrtOpAttrType_value ty),
         AInts (replicate (nat (o_int r div sz)) 0), AInt (o_int r)]) (\<lambda>r2. okx (o_ints r2))
     else if o_int r = 0 then okx [] else okx [hd (o_ints r @ [0])] }"

definition ShapeInferContext_GetAttrInts :: "'s ort_lib \<Rightarrow> ref \<Rightarrow> string \<Rightarrow> ('s, int list) cxx" where
  "ShapeInferContext_GetAttrInts A p attr_name =
     bindx (ShapeInferContext_GetAttrHdl A p attr_name) (\<lambda>attr. read_numbers A ORT_OP_ATTR_INTS 8 attr)"

definition ShapeInferContext_GetAttrFloats :: "'s ort_lib \<Rightarrow> ref \<Rightarrow> string \<Rightarrow> ('s, int list) cxx" where
  "ShapeInferContext_GetAttrFloats A p attr_name =
     bindx (ShapeInferContext_GetAttrHdl A p attr_name) (\<lambda>attr. read_numbers A ORT_OP_ATTR_FLOATS 4 attr)"

text \<open>The characters are read into a buffer of the reported size. Reading a C string past the end of the
  buffer is undefined (\<open>None\<close>, \<open>Undefined_behaviour\<close>).\<close>

definition c_string_at :: "string \<Rightarrow> string option" where
  "c_string_at cs = (if CHR 0x00 \<in> set cs then Some (until_nul cs) else None)"

function split_strings :: "nat \<Rightarrow> string \<Rightarrow> string list option" where
  "split_strings n cs = (if n = 0 then Some [] else
     Option.bind (c_string_at cs) (\<lambda>s. map_option (Cons s) (split_strings (n - (length s + 1)) (drop (length s + 1) cs))))"
  by pat_completeness auto
termination by (relation "measure fst") auto

definition defined_or :: "'a option \<Rightarrow> ('s, 'a) cxx" where
  "defined_or x = (case x of None \<Rightarrow> throwx Undefined_behaviour | Some v \<Rightarrow> okx v)"

definition ShapeInferContext_GetAttrString :: "'s ort_lib \<Rightarrow> ref \<Rightarrow> string \<Rightarrow> ('s, string) cxx" where
  "ShapeInferContext_GetAttrString A p attr_name =
     bindx (ShapeInferContext_GetAttrHdl A p attr_name) (\<lambda>attr. do {
       r \<leftarrow> perform A (Api (Fn ''ReadOpAttr'') [ARef attr, AInt (OrtOpAttrType_value ORT_OP_ATTR_STRING), AStr [CHR 0x00], AInt 1]);
       if o_status r \<noteq> NULL then
         bindx (checked A (Fn ''ReadOpAttr'') [ARef attr, AInt (OrtOpAttrType_value ORT_OP_ATTR_STRING),
           AStr (replicate (nat (o_int r)) (CHR 0x00)), AInt (o_int r)]) (\<lambda>r2. defined_or (c_string_at (o_str r2)))
       else okx [hd (o_str r @ [CHR 0x00])] })"

definition ShapeInferContext_GetAttrStrings :: "'s ort_lib \<Rightarrow> ref \<Rightarrow> string \<Rightarrow> ('s, string list) cxx" where
  "ShapeInferContext_GetAttrStrings A p attr_name =
     bindx (ShapeInferContext_GetAttrHdl A p attr_name) (\<lambda>attr. do {
       r \<leftarrow> perform A (Api (Fn ''ReadOpAttr'') [ARef attr, AInt (OrtOpAttrType_value ORT_OP_ATTR_STRINGS), AStr [CHR 0x00], AInt 1]);
       if o_status r \<noteq> NULL then
         bindx (checked A (Fn ''ReadOpAttr'') [ARef attr, AInt (OrtOpAttrType_value ORT_OP_ATTR_STRINGS),
           AStr (replicate (nat (o_int r)) (CHR 0x00)), AInt (o_int r)])
           (\<lambda>r2. defined_or (split_strings (nat (o_int r2)) (o_str r2)))
       else if o_int r = 0 then okx [] else okx [[hd (o_str r @ [CHR 0x00])]] })"

section \<open>Exception safety\<close>

text \<open>What the API documents: releasing the providers never fails.\<close>

definition providers_doc :: "'s ort_lib \<Rightarrow> bool" where
  "providers_doc A \<longleftrightarrow> (\<forall>args s. o_status (fst (A (Api Fn_ReleaseAvailableProviders args) s)) = NULL)"

lemma Logger_ctor_raii: "raii (\<lambda>_. {#}) (Logger_ctor A l) w"
  by (simp add: Logger_ctor_def wrap_plain)

lemma GetLogger_raii:
  "raii (\<lambda>_. {#}) (KernelContext_GetLogger A p) w" "raii (\<lambda>_. {#}) (KernelInfo_GetLogger A p) w"
  unfolding KernelContext_GetLogger_def KernelInfo_GetLogger_def by (intro raii_call Logger_ctor_raii)+

lemma GetAttrs_raii:
  "raii (\<lambda>_. {#}) (attr_utils_GetAttrs_float A p nm) w" "raii (\<lambda>_. {#}) (attr_utils_GetAttrs_int64 A p nm) w"
  unfolding attr_utils_GetAttrs_float_def attr_utils_GetAttrs_int64_def by (intro raii_call wrap_plain)+

lemma GetAttr_raii:
  "raii (\<lambda>_. {#}) (ShapeInferContext_GetAttrInt A p nm) w" "raii (\<lambda>_. {#}) (ShapeInferContext_GetAttrFloat A p nm) w"
  unfolding ShapeInferContext_GetAttrInt_def ShapeInferContext_GetAttrFloat_def ShapeInferContext_GetAttrHdl_def
  by (intro raii_then wrap_plain)+

lemma Logger_LogMessage_held:
  "ort_held w = Some M \<Longrightarrow> ort_held (exec (Logger_LogMessage A l sev file line fn msg) w) =
     Some (M + own KStatus (result (Logger_LogMessage A l sev file line fn msg) w))"
  by (simp add: Logger_LogMessage_def step_simps track_step_def own_def)

lemma Logger_LogFormattedMessage_held:
  "ort_held w = Some M \<Longrightarrow> ort_held (exec (Logger_LogFormattedMessage A l sev file line fn t) w) =
     Some (M + own KStatus (result (Logger_LogFormattedMessage A l sev file line fn t) w))"
  by (cases t) (simp_all add: Logger_LogFormattedMessage_def Let_def Logger_LogMessage_held
      Status_from_message_def step_simps track_step_def)

lemma log_raii:
  assumes "\<And>w M. ort_held w = Some M \<Longrightarrow> ort_held (exec m w) = Some (M + own KStatus (result m w))"
  shows "raii (\<lambda>_. {#}) (log_throwing A m) w" "raii (\<lambda>_. {#}) (log_quiet A m) w"
  using assms
  by (auto simp: raii_def log_throwing_def log_quiet_def ThrowOnError_Status_def Status_IsOK_def ThrowStatus_def
      Status_GetErrorMessage_def Status_GetErrorCode_def OrtRelease_def cxx_run track_step_def own_def)

lemma log_macros_raii:
  "raii (\<lambda>_. {#}) (ORT_CXX_LOG A l sev file line fn msg) w"
  "raii (\<lambda>_. {#}) (ORT_CXX_LOG_NOEXCEPT A l sev file line fn msg) w"
  "raii (\<lambda>_. {#}) (ORT_CXX_LOGF A l sev file line fn t) w"
  "raii (\<lambda>_. {#}) (ORT_CXX_LOGF_NOEXCEPT A l sev file line fn t) w"
  by (simp_all add: ORT_CXX_LOG_def ORT_CXX_LOG_NOEXCEPT_def ORT_CXX_LOGF_def ORT_CXX_LOGF_NOEXCEPT_def raii_ok
      log_raii Logger_LogMessage_held Logger_LogFormattedMessage_held)

lemma GetAvailableProviders_raii:
  assumes "providers_doc A" shows "raii (\<lambda>_. {#}) (Ort_GetAvailableProviders A) w"
proof -
  let ?c = "checked A (New New_GetAvailableProviders) []"
  have c: "raii (\<lambda>r. own KProviders (o_ref r)) ?c w"
    using checked_raii [of "New New_GetAvailableProviders" "[]" A w] by (simp add: creates_array_def raii_def split: sum.splits)
  have g: "ort_held (exec (providers_guard A q n) w') = Some M" if "ort_held w' = Some (M + own KProviders q)" for w' q n M
    using that assms by (simp add: providers_guard_def step_simps providers_doc_def result_perform track_step_def
        ok_run own_null own_single)
  show ?thesis
    using c g by (auto simp: raii_def Ort_GetAvailableProviders_def bindx_run scopex_run ok_run split: sum.splits)
qed

lemmas kernel_wrapper_defs = KernelContext_GetInputCount_def KernelContext_GetOutputCount_def
  KernelContext_GetInput_def KernelContext_GetOutput_def KernelContext_GetOutput_dims_def
  KernelContext_GetGPUComputeStream_def KernelContext_GetAllocator_def KernelContext_ParallelFor_def
  OpAttr_ctor_def KernelInfo_Copy_def KernelInfo_GetInputCount_def KernelInfo_GetOutputCount_def
  KernelInfo_GetInputTypeInfo_def KernelInfo_GetOutputTypeInfo_def KernelInfo_GetTensorAttribute_def
  KernelInfo_GetTensorConstantInput_def attr_utils_GetAttr_float_def attr_utils_GetAttr_int64_def
  Op_Invoke_raw_def ShapeInferContext_GetAttrHdl_def

text \<open>Every method of the logger, kernel context, kernel info, attribute and operator classes, the logging
  macros and \<open>GetAvailableProviders\<close> are exception safe: statuses and lists are released on every path, and
  what a method returns is exactly what the caller owns afterwards.\<close>

theorem kernel_classes_raii:
  assumes "null_on_error A" "providers_doc A"
  shows "raii (\<lambda>_. {#}) (KernelContext_GetInputCount A p) w \<and>
   raii (\<lambda>_. {#}) (KernelContext_GetOutputCount A p) w \<and>
   raii (\<lambda>_. {#}) (KernelContext_GetInput A p index) w \<and>
   raii (\<lambda>_. {#}) (KernelContext_GetOutput A p index dim_values dim_count) w \<and>
   raii (\<lambda>_. {#}) (KernelContext_GetOutput_dims A p index dims) w \<and>
   raii (\<lambda>_. {#}) (KernelContext_GetGPUComputeStream A p) w \<and>
   raii (\<lambda>_. {#}) (KernelContext_GetAllocator A p memory_info) w \<and>
   raii (\<lambda>_. {#}) (KernelContext_ParallelFor A p func total_count num_batch usr_data) w \<and>
   raii (own KOpAttr) (OpAttr_ctor A nm dat len ty) w \<and>
   raii (own KKernelInfo) (KernelInfo_Copy A p) w \<and>
   raii (\<lambda>_. {#}) (KernelInfo_GetInputCount A p) w \<and>
   raii (\<lambda>_. {#}) (KernelInfo_GetOutputCount A p) w \<and>
   raii (own KTypeInfo) (KernelInfo_GetInputTypeInfo A p index) w \<and>
   raii (own KTypeInfo) (KernelInfo_GetOutputTypeInfo A p index) w \<and>
   raii (own KValue) (KernelInfo_GetTensorAttribute A p nm allocator) w \<and>
   raii (\<lambda>_. {#}) (KernelInfo_GetTensorConstantInput A p index is_constant) w \<and>
   raii (\<lambda>_. {#}) (attr_utils_GetAttr_float A q nm) w \<and>
   raii (\<lambda>_. {#}) (attr_utils_GetAttr_int64 A q nm) w \<and>
   raii (\<lambda>_. {#}) (Op_Invoke_raw A p context input_values input_count output_values output_count) w \<and>
   raii (\<lambda>_. {#}) (ShapeInferContext_GetAttrHdl A p attr_name) w \<and>
   raii (\<lambda>_. {#}) (Logger_ctor A lg) w \<and>
   raii (\<lambda>_. {#}) (ORT_CXX_LOG A l message_severity file_path line_number func_name message) w \<and>
   raii (\<lambda>_. {#}) (ORT_CXX_LOG_NOEXCEPT A l message_severity file_path line_number func_name message) w \<and>
   raii (\<lambda>_. {#}) (ORT_CXX_LOGF A l message_severity file_path line_number func_name formatted) w \<and>
   raii (\<lambda>_. {#}) (ORT_CXX_LOGF_NOEXCEPT A l message_severity file_path line_number func_name formatted) w \<and>
   raii (\<lambda>_. {#}) (KernelContext_GetLogger A p) w \<and>
   raii (\<lambda>_. {#}) (KernelInfo_GetInputName A mx p index) w \<and>
   raii (\<lambda>_. {#}) (KernelInfo_GetOutputName A mx p index) w \<and>
   raii (\<lambda>_. {#}) (KernelInfo_GetNodeName A mx p) w \<and>
   raii (\<lambda>_. {#}) (KernelInfo_GetLogger A p) w \<and>
   raii (\<lambda>_. {#}) (attr_utils_GetAttr_string A mx p nm) w \<and>
   raii (\<lambda>_. {#}) (attr_utils_GetAttrs_float A p nm) w \<and>
   raii (\<lambda>_. {#}) (attr_utils_GetAttrs_int64 A p nm) w \<and>
   raii (own KOp) (Op_Create A info op_name dom_name version type_constraint_names type_constraint_values type_constraint_count attr_values attr_count input_count output_count) w \<and>
   raii (\<lambda>_. {#}) (Op_Invoke A p context input_values' input_count output_values' output_count) w \<and>
   raii (\<lambda>_. {#}) (Ort_GetAvailableProviders A) w \<and>
   raii (\<lambda>_. {#}) (ShapeInferContext_GetAttrInt A p attr_name) w \<and>
   raii (\<lambda>_. {#}) (ShapeInferContext_GetAttrFloat A p attr_name) w"
  by (intro conjI) (simp_all add: assms wrap_rules creates_array_def kernel_wrapper_defs Logger_ctor_raii GetLogger_raii
    GetAttrs_raii GetAttr_raii sized_string_raii KernelInfo_GetInputName_def KernelInfo_GetOutputName_def
    KernelInfo_GetNodeName_def attr_utils_GetAttr_string_def Op_Create_def Op_Invoke_def log_macros_raii
    GetAvailableProviders_raii)

lemma until_nul_append [simp]: "CHR 0x00 \<notin> set t \<Longrightarrow> until_nul (t @ CHR 0x00 # u) = t"
  by (induction t) (auto simp: until_nul_def)

text \<open>A formatted message reaches the logger whole, whether it is formatted on the stack or in a buffer
  allocated for it: the buffer is always large enough, also at the boundary.\<close>

theorem log_formatted_whole:
  assumes "CHR 0x00 \<notin> set t"
  shows "Logger_LogFormattedMessage A l sev file line fn (Some t) = Logger_LogMessage A l sev file line fn t"
  using assms
  by (auto simp: Logger_LogFormattedMessage_def Let_def snprintf_buffer_def kStackBufferSize_def)

section \<open>Shape inference\<close>

lemma return_on_api_fail_run:
  "result (return_on_api_fail A fn args k) w = (let r = result (perform A (Api fn args)) w in
     if o_status r \<noteq> NULL then Inr (o_status r) else result (k r) (exec (perform A (Api fn args)) w))"
  "exec (return_on_api_fail A fn args k) w = (let r = result (perform A (Api fn args)) w in
     if o_status r \<noteq> NULL then exec (perform A (Api fn args)) w else exec (k r) (exec (perform A (Api fn args)) w))"
  by (simp_all add: return_on_api_fail_def step_simps ok_run Let_def)

lemma return_on_api_fail_raii:
  assumes "\<And>r. raii (own KStatus) (k r) (exec (perform A (Api (Fn fn) args)) w)"
  shows "raii (own KStatus) (return_on_api_fail A (Fn fn) args k) w"
  using assms by (auto simp: raii_def return_on_api_fail_run Let_def held_perform track_step_def own_single)

text \<open>\<open>SetOutputShape\<close>, exactly: the status it returns belongs to the caller and the type info it made is
  released on every path, the exception for an empty symbolic dimension included, except one: when
  \<open>SetTensorElementType\<close> fails, the guard does not exist yet and the type info leaks.\<close>

theorem SetOutputShape_ownership:
  assumes "ort_held w = Some M"
  shows "let m = ShapeInferContext_SetOutputShape A ctx indice shape ty;
      r1 = result (perform A (Api (New New_CreateTensorTypeAndShapeInfo) [])) w;
      w1 = exec (perform A (Api (New New_CreateTensorTypeAndShapeInfo) [])) w;
      r2 = result (perform A (Api (Fn ''SetTensorElementType'') [ARef (o_ref r1), AInt (ONNXTensorElementDataType_value ty)])) w1 in
    ort_held (exec m w) = Some (M + (case result m w of Inl e \<Rightarrow> {#} | Inr st \<Rightarrow> own KStatus st) +
      (if o_status r1 = NULL \<and> o_status r2 \<noteq> NULL then own KTensorTypeAndShapeInfo (o_ref r1) else {#}))"
proof -
  let ?c1 = "Api (New New_CreateTensorTypeAndShapeInfo) []"
  let ?r1 = "result (perform A ?c1) w" and ?w1 = "exec (perform A ?c1) w"
  let ?c2 = "Api (Fn ''SetTensorElementType'') [ARef (o_ref ?r1), AInt (ONNXTensorElementDataType_value ty)]"
  let ?r2 = "result (perform A ?c2) ?w1" and ?w2 = "exec (perform A ?c2) ?w1"
  let ?k = "case split_dims shape of Inl e \<Rightarrow> throwx e | Inr (is, ss) \<Rightarrow>
    return_on_api_fail A (Fn ''SetDimensions'') [ARef (o_ref ?r1), AInts is, AInt (int (length is))] (\<lambda>_.
    return_on_api_fail A (Fn ''SetSymbolicDimensions'') [ARef (o_ref ?r1), AStrs ss, AInt (int (length ss))] (\<lambda>_.
    return_on_api_fail A (Fn ''ShapeInferContext_SetOutputTypeShape'') [ARef ctx, AInt indice, ARef (o_ref ?r1)] (\<lambda>_. okx NULL)))"
  have k: "raii (own KStatus) ?k ?w2"
    by (auto split: sum.splits intro!: raii_throw return_on_api_fail_raii raii_ok)
  have h: "ort_held ?w2 = Some ((M + own KTensorTypeAndShapeInfo (o_ref ?r1)) + own KStatus (o_status ?r2))"
    if "o_status ?r1 = NULL"
    using assms that by (auto simp: held_perform track_step_def creates_array_def own_def)
  show ?thesis
  proof (cases "o_status ?r1 = NULL \<and> o_status ?r2 = NULL")
    case True
    with h have h2: "ort_held ?w2 = Some (M + own KTensorTypeAndShapeInfo (o_ref ?r1))" by simp
    let ?x = "case result ?k ?w2 of Inl e \<Rightarrow> {#} | Inr st \<Rightarrow> own KStatus st"
    from k h2 have "ort_held (exec ?k ?w2) = Some ((M + ?x) + own KTensorTypeAndShapeInfo (o_ref ?r1))"
      by (simp add: raii_def ac_simps)
    from release_guard [OF this, of A] True show ?thesis
      by (simp add: ShapeInferContext_SetOutputShape_def return_on_api_fail_run Let_def scopex_run)
  next
    case False
    with h assms show ?thesis
      by (auto simp: ShapeInferContext_SetOutputShape_def return_on_api_fail_run Let_def held_perform track_step_def
          creates_array_def own_def ac_simps)
  qed
qed

text \<open>The \<open>ShapeInferContext\<close> constructor leaves the infos of the inputs to the context while nothing fails,
  but when reading the shape of an input throws, the info, which the context owns, is released.\<close>

theorem shape_input_over_released:
  assumes "result (checked A (Fn ''ShapeInferContext_GetInputTypeShape'') [ARef ctx, AInt i]) w = Inr r"
    "o_ref r \<noteq> NULL" "ort_held w = Some M" "Own KTensorTypeAndShapeInfo (o_ref r) \<notin># M"
  shows "ort_held (exec (shape_input A ctx i) w) = (if isl (result (shape_input A ctx i) w) then None else Some M)"
proof -
  let ?c = "checked A (Fn ''ShapeInferContext_GetInputTypeShape'') [ARef ctx, AInt i]"
  let ?k = "bindx (TensorTypeAndShapeInfo_GetShape A (o_ref r)) (\<lambda>integer_shape. if integer_shape \<noteq> [] then
    bindx (checked A (Fn ''GetSymbolicDimensions'') [ARef (o_ref r), AStrs (replicate (length integer_shape) []),
      AInt (int (length integer_shape))]) (\<lambda>r2. okx (merge_dims integer_shape (o_strs r2))) else okx [])"
  have "raii (\<lambda>_. {#}) (bindx ?c (\<lambda>_. okx ())) w" by (rule wrap_plain)
  then have c: "ort_held (exec ?c w) = Some M" using assms(1,3) by (simp add: raii_def bindx_run ok_run)
  have "raii (\<lambda>_. {#}) ?k (exec ?c w)"
    by (rule raii_then [OF GetShape_raii]) (simp add: wrap_plain raii_ok)
  with c have k: "ort_held (exec ?k (exec ?c w)) = Some M" by (simp add: raii_def split: sum.splits)
  then have "ort_held (exec (OrtRelease A KTensorTypeAndShapeInfo (o_ref r)) (exec ?k (exec ?c w))) = None"
    using assms(2,4) by (simp add: OrtRelease_def step_simps track_step_def own_single)
  moreover have "exec (shape_input A ctx i) w = exec (on_throw (OrtRelease A KTensorTypeAndShapeInfo (o_ref r)) ?k) (exec ?c w)"
    "result (shape_input A ctx i) w = result ?k (exec ?c w)"
    using assms(1) unfolding shape_input_def bindx_run(1) [of ?c] bindx_run(2) [of ?c] by (simp_all add: on_throw_run)
  ultimately show ?thesis
    using k by (cases "result ?k (exec ?c w)") (simp_all add: on_throw_run)
qed

section \<open>Attributes\<close>

text \<open>What \<open>ReadOpAttr\<close> documents: the bytes needed are reported, the call succeeds exactly when the buffer is
  large enough, and then the buffer holds the values. Strings are encoded with a terminator each.\<close>

definition numbers_doc :: "'s ort_lib \<Rightarrow> ref \<Rightarrow> OrtOpAttrType \<Rightarrow> int \<Rightarrow> int list \<Rightarrow> bool" where
  "numbers_doc A attr ty sz vs \<longleftrightarrow> (\<forall>buf s. let r = fst (A (Api (Fn ''ReadOpAttr'')
       [ARef attr, AInt (OrtOpAttrType_value ty), AInts buf, AInt (sz * int (length buf))]) s) in
     o_int r = sz * int (length vs) \<and> (o_status r = NULL \<longleftrightarrow> length vs \<le> length buf) \<and>
     (o_status r = NULL \<longrightarrow> o_ints r = vs @ drop (length vs) buf))"

definition chars_doc :: "'s ort_lib \<Rightarrow> ref \<Rightarrow> OrtOpAttrType \<Rightarrow> string \<Rightarrow> bool" where
  "chars_doc A attr ty cs \<longleftrightarrow> (\<forall>buf s. let r = fst (A (Api (Fn ''ReadOpAttr'')
       [ARef attr, AInt (OrtOpAttrType_value ty), AStr buf, AInt (int (length buf))]) s) in
     o_int r = int (length cs) \<and> (o_status r = NULL \<longleftrightarrow> length cs \<le> length buf) \<and>
     (o_status r = NULL \<longrightarrow> o_str r = cs @ drop (length cs) buf))"

definition hdl_doc :: "'s ort_lib \<Rightarrow> ref \<Rightarrow> string \<Rightarrow> ref \<Rightarrow> bool" where
  "hdl_doc A ctx nm attr \<longleftrightarrow> (\<forall>s. let r = fst (A (Api (Fn ''ShapeInferContext_GetAttribute'') [ARef ctx, AStr nm]) s) in
     o_status r = NULL \<and> o_ref r = attr)"

definition encode_strings :: "string list \<Rightarrow> string" where
  "encode_strings ss = concat (map (\<lambda>s. s @ [CHR 0x00]) ss)"

lemma GetAttrHdl_run:
  assumes "hdl_doc A ctx nm attr" "ort_held w = Some M"
  shows "result (ShapeInferContext_GetAttrHdl A ctx nm) w = Inr attr"
    "ort_held (exec (ShapeInferContext_GetAttrHdl A ctx nm) w) = Some M"
proof -
  have "raii (\<lambda>_. {#}) (ShapeInferContext_GetAttrHdl A ctx nm) w"
    by (simp add: ShapeInferContext_GetAttrHdl_def wrap_plain)
  moreover show "result (ShapeInferContext_GetAttrHdl A ctx nm) w = Inr attr"
    using assms(1) by (simp add: hdl_doc_def ShapeInferContext_GetAttrHdl_def bindx_run ok_run checked_ok Let_def)
  ultimately show "ort_held (exec (ShapeInferContext_GetAttrHdl A ctx nm) w) = Some M"
    using assms(2) by (simp add: raii_def)
qed

lemma read_held:
  assumes "ort_held w = Some M"
  shows "ort_held (exec (perform A (Api (Fn fn) args)) w) = Some (M + own KStatus (o_status (result (perform A (Api (Fn fn) args)) w)))"
  using assms by (simp add: held_perform track_step_def own_def)

lemma read_numbers_run:
  assumes "numbers_doc A attr ty sz vs" "sz > 0" "ort_held w = Some M"
  shows "result (read_numbers A ty sz attr) w = Inr vs \<and>
    (\<exists>st. ort_held (exec (read_numbers A ty sz attr) w) = Some (M + own KStatus st) \<and> (st \<noteq> NULL \<longleftrightarrow> length vs > 1))"
proof -
  let ?a = "[ARef attr, AInt (OrtOpAttrType_value ty), AInts [0], AInt sz]"
  let ?r = "fst (A (Api (Fn ''ReadOpAttr'') ?a) (ext_state w))" and ?w = "exec (perform A (Api (Fn ''ReadOpAttr'') ?a)) w"
  have d: "o_int ?r = sz * int (length vs)" "o_status ?r = NULL \<longleftrightarrow> length vs \<le> 1"
    "o_status ?r = NULL \<Longrightarrow> o_ints ?r = vs @ drop (length vs) [0]"
    using assms(1) unfolding numbers_doc_def Let_def by (metis One_nat_def length_Cons list.size(3) mult.right_neutral of_nat_1)+
  have h: "ort_held ?w = Some (M + own KStatus (o_status ?r))"
    using read_held [OF assms(3)] by (simp add: result_perform)
  have n: "nat (sz * int (length vs) div sz) = length vs" using assms(2) by simp
  show ?thesis
  proof (cases "length vs \<le> 1")
    case True
    with d assms(2) have "(if o_int ?r = 0 then [] else [hd (o_ints ?r @ [0])]) = vs"
      by (cases vs) auto
    with True d h show ?thesis
      by (auto simp: read_numbers_def step_simps result_perform ok_run intro!: exI [of _ 0])
  next
    case False
    let ?b = "[ARef attr, AInt (OrtOpAttrType_value ty), AInts (replicate (length vs) 0), AInt (sz * int (length vs))]"
    have d2: "o_status (fst (A (Api (Fn ''ReadOpAttr'') ?b) s)) = NULL" "o_ints (fst (A (Api (Fn ''ReadOpAttr'') ?b) s)) = vs" for s
      using assms(1) unfolding numbers_doc_def Let_def by (metis append_Nil2 drop_all length_replicate order_refl)+
    have "raii (\<lambda>_. {#}) (bindx (checked A (Fn ''ReadOpAttr'') ?b) (\<lambda>r2. okx (o_ints r2))) ?w" by (rule wrap_plain)
    with h have "ort_held (exec (checked A (Fn ''ReadOpAttr'') ?b) ?w) = Some (M + own KStatus (o_status ?r))"
      by (auto simp: raii_def bindx_run ok_run split: sum.splits)
    with False d d2 n show ?thesis
      by (auto simp: read_numbers_def step_simps result_perform bindx_run ok_run checked_ok intro!: exI [of _ "o_status ?r"])
  qed
qed

text \<open>The readers of number lists return exactly the attribute's values, but each time there is more than one
  of them, the status of the first call, which is only used as a flag, is never released.\<close>

theorem attr_numbers_read:
  assumes "hdl_doc A ctx nm attr" "ort_held w = Some M"
    "numbers_doc A attr ORT_OP_ATTR_INTS 8 vs" "numbers_doc A attr ORT_OP_ATTR_FLOATS 4 fs"
  shows "result (ShapeInferContext_GetAttrInts A ctx nm) w = Inr vs \<and>
    result (ShapeInferContext_GetAttrFloats A ctx nm) w = Inr fs \<and>
    (\<exists>st. ort_held (exec (ShapeInferContext_GetAttrInts A ctx nm) w) = Some (M + own KStatus st) \<and> (st \<noteq> NULL \<longleftrightarrow> length vs > 1)) \<and>
    (\<exists>st. ort_held (exec (ShapeInferContext_GetAttrFloats A ctx nm) w) = Some (M + own KStatus st) \<and> (st \<noteq> NULL \<longleftrightarrow> length fs > 1))"
  using GetAttrHdl_run [OF assms(1,2)] read_numbers_run [OF assms(3), of "exec (ShapeInferContext_GetAttrHdl A ctx nm) w" M]
    read_numbers_run [OF assms(4), of "exec (ShapeInferContext_GetAttrHdl A ctx nm) w" M]
  by (simp add: ShapeInferContext_GetAttrInts_def ShapeInferContext_GetAttrFloats_def bindx_run)

lemma encode_simps [simp]: "encode_strings [] = []" "encode_strings (s # ss) = s @ CHR 0x00 # encode_strings ss"
  by (simp_all add: encode_strings_def)

declare split_strings.simps [simp del]

lemma split_encode:
  "\<forall>s \<in> set ss. CHR 0x00 \<notin> set s \<Longrightarrow> split_strings (length (encode_strings ss)) (encode_strings ss) = Some ss"
proof (induction ss)
  case (Cons s ss)
  then have "c_string_at (encode_strings (s # ss)) = Some s" by (simp add: c_string_at_def)
  with Cons show ?case by (subst split_strings.simps) simp
qed (simp add: split_strings.simps)

lemma chars_docD:
  assumes "chars_doc A attr ty cs"
  shows "length cs \<le> 1 \<Longrightarrow> o_str (fst (A (Api (Fn ''ReadOpAttr'') [ARef attr, AInt (OrtOpAttrType_value ty), AStr [CHR 0x00], AInt 1]) s)) =
      cs @ drop (length cs) [CHR 0x00]"
    "o_status (fst (A (Api (Fn ''ReadOpAttr'') [ARef attr, AInt (OrtOpAttrType_value ty), AStr [CHR 0x00], AInt 1]) s)) = 0 \<longleftrightarrow>
      length cs \<le> 1"
    "o_int (fst (A (Api (Fn ''ReadOpAttr'') [ARef attr, AInt (OrtOpAttrType_value ty), AStr [CHR 0x00], AInt 1]) s)) = int (length cs)"
    "o_status (fst (A (Api (Fn ''ReadOpAttr'') [ARef attr, AInt (OrtOpAttrType_value ty), AStr (replicate (length cs) (CHR 0x00)),
      AInt (int (length cs))]) s)) = NULL"
    "o_str (fst (A (Api (Fn ''ReadOpAttr'') [ARef attr, AInt (OrtOpAttrType_value ty), AStr (replicate (length cs) (CHR 0x00)),
      AInt (int (length cs))]) s)) = cs"
    "o_int (fst (A (Api (Fn ''ReadOpAttr'') [ARef attr, AInt (OrtOpAttrType_value ty), AStr (replicate (length cs) (CHR 0x00)),
      AInt (int (length cs))]) s)) = int (length cs)"
  using assms [unfolded chars_doc_def Let_def, rule_format, of "[CHR 0x00]" s]
    assms [unfolded chars_doc_def Let_def, rule_format, of "replicate (length cs) (CHR 0x00)" s]
  by auto

text \<open>The readers of strings return the attribute's strings, with one exception: what takes a single byte is
  returned as that byte, so an empty string (alone in its list) comes back as a string that contains the
  terminator.\<close>

theorem attr_strings_read:
  assumes "hdl_doc A ctx nm attr" "chars_doc A attr ORT_OP_ATTR_STRINGS (encode_strings ss)"
    "chars_doc A attr ORT_OP_ATTR_STRING (t @ [CHR 0x00])"
    "\<forall>s \<in> set ss. CHR 0x00 \<notin> set s" "CHR 0x00 \<notin> set t" "ort_held w = Some M"
  shows "result (ShapeInferContext_GetAttrStrings A ctx nm) w = Inr (if ss = [[]] then [[CHR 0x00]] else ss) \<and>
    result (ShapeInferContext_GetAttrString A ctx nm) w = Inr (if t = [] then [CHR 0x00] else t)"
proof
  note h = GetAttrHdl_run(1) [OF assms(1,6)]
  have "length (encode_strings ss) \<le> 1 \<longleftrightarrow> ss = [] \<or> ss = [[]]"
    by (cases ss; cases "hd ss"; cases "tl ss") auto
  then show "result (ShapeInferContext_GetAttrStrings A ctx nm) w = Inr (if ss = [[]] then [[CHR 0x00]] else ss)"
    using chars_docD [OF assms(2)] split_encode [OF assms(4)] h
    by (cases "length (encode_strings ss) \<le> 1") (auto simp: ShapeInferContext_GetAttrStrings_def bindx_run step_simps
      result_perform ok_run checked_ok defined_or_def)
  show "result (ShapeInferContext_GetAttrString A ctx nm) w = Inr (if t = [] then [CHR 0x00] else t)"
    using chars_docD [OF assms(3)] h assms(5)
    by (cases "t = []") (auto simp: ShapeInferContext_GetAttrString_def bindx_run step_simps result_perform ok_run checked_ok
      defined_or_def c_string_at_def Suc_le_eq nat_add_distrib)
qed

text \<open>A shape survives being passed on: for a shape read from a context, \<open>SetOutputShape\<close> never meets an empty
  symbol, and the two arrays it sends describe that shape again; the same holds for any shape it accepts.\<close>

theorem shape_roundtrip:
  "(length ints = length syms \<longrightarrow> (\<exists>is. split_dims (merge_dims ints syms) = Inr (is, syms) \<and> merge_dims is syms = merge_dims ints syms)) \<and>
   (split_dims ds = Inr (is', ss') \<longrightarrow> merge_dims is' ss' = ds)"
proof
  show "length ints = length syms \<longrightarrow> (\<exists>is. split_dims (merge_dims ints syms) = Inr (is, syms) \<and> merge_dims is syms = merge_dims ints syms)"
  proof
    assume "length ints = length syms"
    then show "\<exists>is. split_dims (merge_dims ints syms) = Inr (is, syms) \<and> merge_dims is syms = merge_dims ints syms"
      by (induction ints syms rule: list_induct2) (auto simp: merge_dims_def)
  qed
  show "split_dims ds = Inr (is', ss') \<longrightarrow> merge_dims is' ss' = ds"
  proof (induction ds arbitrary: is' ss' rule: split_dims.induct)
    case (3 s ds)
    then show ?case by (cases "split_dims ds") (auto simp: merge_dims_def split: if_splits)
  next
    case (2 i ds)
    then show ?case by (cases "split_dims ds") (auto simp: merge_dims_def)
  qed (simp add: merge_dims_def)
qed

section \<open>Witnesses\<close>

text \<open>A library that follows the documentation: one attribute with the numbers 3, 4 and the strings \<open>ab\<close> and
  \<open>c\<close>; setting an element type and counting dimensions fail.\<close>

definition demo_kernel :: "unit ort_lib" where
  "demo_kernel c s = (case c of
     Api fn args \<Rightarrow>
       (if fn = Fn ''ReadOpAttr'' then (case args ! 2 of
          AInts buf \<Rightarrow> (demo_ok ((if args ! 1 = AInt (OrtOpAttrType_value ORT_OP_ATTR_INTS) then 8 else 4) * 2) [] [])
            \<lparr>o_status := (if 2 \<le> length buf then 0 else 9), o_ints := [3, 4] @ drop 2 buf\<rparr>
        | AStr buf \<Rightarrow> (let cs = (if args ! 1 = AInt (OrtOpAttrType_value ORT_OP_ATTR_STRING) then ''ab'' @ [CHR 0x00]
              else encode_strings [''ab'', ''c'']) in
            (demo_ok (int (length cs)) (cs @ drop (length cs) buf) [])\<lparr>o_status := (if length cs \<le> length buf then 0 else 9)\<rparr>)
        | _ \<Rightarrow> demo_ok 0 [] [])
        else if fn = Fn ''SetTensorElementType'' \<or> fn = Fn ''GetDimensionsCount'' then (demo_ok 0 [] [])\<lparr>o_status := 8\<rparr>
        else (demo_ok 0 [] [])\<lparr>o_ref := 7\<rparr>)
   | _ \<Rightarrow> demo_ok 0 [] [], s)"

lemma demo_kernel_doc:
  "hdl_doc demo_kernel 1 ''k'' 7" "numbers_doc demo_kernel 7 ORT_OP_ATTR_INTS 8 [3, 4]"
  "numbers_doc demo_kernel 7 ORT_OP_ATTR_FLOATS 4 [3, 4]" "chars_doc demo_kernel 7 ORT_OP_ATTR_STRINGS (encode_strings [''ab'', ''c''])"
  "chars_doc demo_kernel 7 ORT_OP_ATTR_STRING (''ab'' @ [CHR 0x00])" "null_on_error demo_kernel" "providers_doc demo_kernel"
  by (auto simp: hdl_doc_def numbers_doc_def chars_doc_def null_on_error_def providers_doc_def demo_kernel_def demo_ok_def
      Let_def numeral_2_eq_2 split: ort_arg.splits)

theorem kernel_classes_raii_witness:
  "raii (own KOp) (Op_Create demo_kernel 1 ''Add'' ''ai.onnx'' 7 [] [] 0 [] 0 2 1) demo_ort_world"
  using kernel_classes_raii [OF demo_kernel_doc(6,7), where w = demo_ort_world and info = 1 and op_name = "''Add''" and
      dom_name = "''ai.onnx''" and version = 7 and type_constraint_names = "[]" and type_constraint_values = "[]" and
      type_constraint_count = 0 and attr_values = "[]" and attr_count = 0 and input_count = 2 and output_count = 1]
  by simp

theorem log_formatted_whole_witness:
  "Logger_LogFormattedMessage demo_kernel \<lparr>logger = 4, cached_severity_level = 2\<rparr> 2 ''f.cc'' 10 ''f'' (Some (replicate 1023 (CHR ''x''))) =
   Logger_LogMessage demo_kernel \<lparr>logger = 4, cached_severity_level = 2\<rparr> 2 ''f.cc'' 10 ''f'' (replicate 1023 (CHR ''x''))"
  by (rule log_formatted_whole) simp

theorem SetOutputShape_ownership_witness:
  "ort_held (exec (ShapeInferContext_SetOutputShape demo_kernel 1 0 [Int_dim 3] ONNX_TENSOR_ELEMENT_DATA_TYPE_FLOAT) demo_ort_world) =
   Some {#Own KStatus 8, Own KTensorTypeAndShapeInfo 7#}"
  using SetOutputShape_ownership [OF demo_ort_doc(3), of demo_kernel 1 0 "[Int_dim 3]" ONNX_TENSOR_ELEMENT_DATA_TYPE_FLOAT]
  by (simp add: Let_def result_perform ShapeInferContext_SetOutputShape_def return_on_api_fail_run demo_kernel_def demo_ok_def own_def)

theorem shape_input_over_released_witness:
  "ort_held (exec (shape_input demo_kernel 1 0) demo_ort_world) = None"
proof -
  have r: "result (checked demo_kernel (Fn ''ShapeInferContext_GetInputTypeShape'') [ARef 1, AInt 0]) demo_ort_world =
      Inr ((demo_ok 0 [] [])\<lparr>o_ref := 7\<rparr>)"
    by (simp add: checked_run Let_def result_perform demo_kernel_def demo_ok_def)
  have "isl (result (shape_input demo_kernel 1 0) demo_ort_world)"
    using r by (simp add: shape_input_def bindx_run on_throw_run TensorTypeAndShapeInfo_GetShape_def
      TensorTypeAndShapeInfo_GetDimensionsCount_def checked_run Let_def result_perform demo_kernel_def demo_ok_def)
  then show ?thesis
    using shape_input_over_released [OF r, of "{#}"] demo_ort_doc by (simp add: demo_ok_def)
qed

theorem attr_numbers_read_witness:
  "result (ShapeInferContext_GetAttrInts demo_kernel 1 ''k'') demo_ort_world = Inr [3, 4] \<and>
   (\<exists>st. st \<noteq> NULL \<and> ort_held (exec (ShapeInferContext_GetAttrInts demo_kernel 1 ''k'') demo_ort_world) = Some {#Own KStatus st#})"
  using attr_numbers_read [OF demo_kernel_doc(1) demo_ort_doc(3) demo_kernel_doc(2,3)] by (auto simp: own_def split: if_splits)

theorem attr_strings_read_witness:
  "result (ShapeInferContext_GetAttrStrings demo_kernel 1 ''k'') demo_ort_world = Inr [''ab'', ''c''] \<and>
   result (ShapeInferContext_GetAttrString demo_kernel 1 ''k'') demo_ort_world = Inr ''ab''"
  using attr_strings_read [OF demo_kernel_doc(1,4,5) _ _ demo_ort_doc(3)] by simp

theorem shape_roundtrip_witness:
  "split_dims (merge_dims [2, 5] [[], ''n'']) = Inr ([2, INVALID_INT_DIM], [[], ''n''])"
proof -
  have "length [2, 5 :: int] = length [[], ''n'']" by simp
  then obtain "is" where "split_dims (merge_dims [2, 5] [[], ''n'']) = Inr (is, [[], ''n''])"
    using shape_roundtrip [of "[2, 5]" "[[], ''n'']" "[]" "[]" "[]"] by blast
  then show ?thesis by (simp add: merge_dims_def)
qed

end
