(* ===== verification/Lite_Tensor.thy ===== *)
theory Lite_Tensor
  imports Ort_Kernel
begin

text \<open>
  The argument classes of \<^verbatim>\<open>onnxruntime_lite_custom_op.h\<close>: \<open>ArgBase\<close>, \<open>TensorBase\<close>, \<open>Span\<close>, the class template
  \<open>Tensor\<close> with its specialisations for strings and string views, and \<open>TensorArray\<close>. They wrap an input or an
  output of the kernel context a custom operator is called with. The theorems: no constructor leaks; what the
  two string specialisations read from the packed characters, and that they differ exactly on strings with a
  NUL inside; which element type the tensors of a variadic input get; what allocating an output twice does.
\<close>

section \<open>Arguments and tensors\<close>

text \<open>Sizes and indices are \<open>size_t\<close> values as integers; a dimension is an \<open>int64_t\<close>.\<close>

record ArgBase =
  arg_ctx :: ref
  indice :: int
  is_input :: bool

record TensorBase = ArgBase +
  t_shape :: "int list option"
  t_type :: ONNXTensorElementDataType
  t_mem_type :: string

record Span =
  span_data :: ref
  span_size :: int

record Tensor = TensorBase +
  const_value :: ref
  out_data :: ref
  t_span :: Span

record Tensor_string = TensorBase +
  input_strings :: "string list"

text \<open>A \<open>string_view\<close> into \<open>chars_\<close> is an offset and a length.\<close>

record Tensor_string_view = TensorBase +
  view_chars :: string
  input_string_views :: "(int \<times> int) list"

definition TensorBase_ctor :: "ref \<Rightarrow> int \<Rightarrow> bool \<Rightarrow> TensorBase" where
  "TensorBase_ctor ctx i inp = \<lparr>arg_ctx = ctx, indice = i, is_input = inp, t_shape = None,
     t_type = ONNX_TENSOR_ELEMENT_DATA_TYPE_UNDEFINED, t_mem_type = ''Cpu''\<rparr>"

definition TensorBase_operator_bool :: "('z) TensorBase_scheme \<Rightarrow> bool" where
  "TensorBase_operator_bool t = (t_shape t \<noteq> None)"

definition TensorBase_Shape :: "('z) TensorBase_scheme \<Rightarrow> ('s, int list) cxx" where
  "TensorBase_Shape t = (case t_shape t of
     None \<Rightarrow> throwx (Ort_Exception ''tensor shape is not yet initialized'' (OrtErrorCode_value ORT_RUNTIME_EXCEPTION))
   | Some ds \<Rightarrow> okx ds)"

definition TensorBase_Type :: "('z) TensorBase_scheme \<Rightarrow> ONNXTensorElementDataType" where
  "TensorBase_Type t = t_type t"

text \<open>The product of the dimensions, computed in \<open>int64_t\<close> from the left: \<open>None\<close> if a product overflows, which is
  undefined.\<close>

definition int64_mult :: "int \<Rightarrow> int \<Rightarrow> int option" where
  "int64_mult a b = (if - (2 ^ 63) \<le> a * b \<and> a * b < 2 ^ 63 then Some (a * b) else None)"

fun accumulate :: "int \<Rightarrow> int list \<Rightarrow> int option" where
  "accumulate a [] = Some a"
| "accumulate a (d # ds) = Option.bind (int64_mult a d) (\<lambda>b. accumulate b ds)"

definition TensorBase_NumberOfElement :: "('z) TensorBase_scheme \<Rightarrow> int option" where
  "TensorBase_NumberOfElement t = (case t_shape t of Some ds \<Rightarrow> accumulate 1 ds | None \<Rightarrow> Some 0)"

text \<open>\<open>std::to_string\<close> of an integer, and the text of a shape.\<close>

fun digits :: "nat \<Rightarrow> string" where
  "digits n = (if n < 10 then [char_of (48 + n)] else digits (n div 10) @ [char_of (48 + n mod 10)])"

definition std_to_string :: "int \<Rightarrow> string" where
  "std_to_string i = (if i < 0 then CHR ''-'' # digits (nat (- i)) else digits (nat i))"

definition TensorBase_Shape2Str :: "('z) TensorBase_scheme \<Rightarrow> string" where
  "TensorBase_Shape2Str t = (case t_shape t of
     Some ds \<Rightarrow> concat (map (\<lambda>d. std_to_string d @ '', '') ds) | None \<Rightarrow> ''empty'')"

definition TensorBase_IsCpuTensor :: "('z) TensorBase_scheme \<Rightarrow> bool" where
  "TensorBase_IsCpuTensor t = (t_mem_type t = ''Cpu'')"

definition Span_Assign :: "Span \<Rightarrow> ref \<Rightarrow> int \<Rightarrow> Span" where
  "Span_Assign sp dat sz = sp\<lparr>span_data := dat, span_size := sz\<rparr>"

section \<open>Tensors of numbers\<close>

text \<open>The start of the three constructors for an input: the index is checked, the value and its type information
  are fetched, and the type information lives until the end of the block.\<close>

definition with_input :: "'s ort_lib \<Rightarrow> ref \<Rightarrow> int \<Rightarrow> (ref \<Rightarrow> int list \<Rightarrow> ('s, 'a) cxx) \<Rightarrow> ('s, 'a) cxx" where
  "with_input A ctx i body =
     bindx (KernelContext_GetInputCount A ctx) (\<lambda>n.
     if i \<ge> n then throwx (Ort_Exception ''invalid indice for Ort::Custom::Tensor'' (OrtErrorCode_value ORT_INVALID_ARGUMENT))
     else bindx (KernelContext_GetInput A ctx i) (\<lambda>v.
       bindx (Value_GetTensorTypeAndShapeInfo A v) (\<lambda>info. scopex (OrtRelease A KTensorTypeAndShapeInfo info)
         (bindx (TensorTypeAndShapeInfo_GetShape A info) (\<lambda>ds. body v ds)))))"

definition Tensor_ctor :: "'s ort_lib \<Rightarrow> ref \<Rightarrow> int \<Rightarrow> bool \<Rightarrow> ('s, Tensor) cxx" where
  "Tensor_ctor A ctx i inp =
     (let t = TensorBase.extend (TensorBase_ctor ctx i inp)
        (Tensor.fields NULL NULL \<lparr>span_data = NULL, span_size = 0\<rparr>) in
      if inp then with_input A ctx i (\<lambda>v ds. okx (t\<lparr>const_value := v, t_shape := Some ds\<rparr>)) else okx t)"

definition Tensor_Data :: "'s ort_lib \<Rightarrow> Tensor \<Rightarrow> ('s, ref) cxx" where
  "Tensor_Data A t = Value_GetTensorRawData A (const_value t)"

text \<open>The methods that change the tensor return it with their result. An assignment made before a call throws
  stays; \<open>Allocate\<close> has nothing to undo, because the tensor is not used after its operator threw.\<close>

definition Tensor_Allocate :: "'s ort_lib \<Rightarrow> Tensor \<Rightarrow> int list \<Rightarrow> ('s, ref \<times> Tensor) cxx" where
  "Tensor_Allocate A t ds =
     (let t1 = t\<lparr>t_shape := Some ds\<rparr> in
      if out_data t1 = NULL then
        bindx (KernelContext_GetOutput_dims A (arg_ctx t1) (indice t1) ds) (\<lambda>v.
        bindx (Value_GetTensorMutableData A v) (\<lambda>d. okx (d, t1\<lparr>out_data := d\<rparr>)))
      else okx (out_data t1, t1))"

definition Tensor_AsSpan :: "'s ort_lib \<Rightarrow> Tensor \<Rightarrow> ('s, Span \<times> Tensor) cxx" where
  "Tensor_AsSpan A t = (case t_shape t of
     Some [d] \<Rightarrow> bindx (Tensor_Data A t) (\<lambda>p. let sp = Span_Assign (t_span t) p (d mod 2 ^ 64) in okx (sp, t\<lparr>t_span := sp\<rparr>))
   | _ \<Rightarrow> throwx (Ort_Exception ''invalid shape while trying to get a span out of Ort::Custom::Tensor''
       (OrtErrorCode_value ORT_RUNTIME_EXCEPTION)))"

text \<open>A scalar is given by its address.\<close>

definition Tensor_AsScalar :: "'s ort_lib \<Rightarrow> Tensor \<Rightarrow> ('s, ref) cxx" where
  "Tensor_AsScalar A t = (if t_shape t = Some [1] then Tensor_Data A t
     else throwx (Ort_Exception ''invalid shape while trying to get a scalar from Ort::Custom::Tensor''
       (OrtErrorCode_value ORT_RUNTIME_EXCEPTION)))"

definition Tensor_DataRaw :: "'s ort_lib \<Rightarrow> Tensor \<Rightarrow> ('s, ref) cxx" where
  "Tensor_DataRaw A t = Tensor_Data A t"

definition Tensor_SizeInBytes :: "cxx_type \<Rightarrow> Tensor \<Rightarrow> 64 word option" where
  "Tensor_SizeInBytes T t = map_option (\<lambda>n. sizeof_cxx T * word_of_int n) (TensorBase_NumberOfElement t)"

section \<open>Tensors of strings\<close>

text \<open>\<open>std::vector(n, x)\<close>, which throws above the maximal size (\<open>mx\<close> bytes); a buffer after a call that wrote a prefix.\<close>

definition vectorx :: "int \<Rightarrow> int \<Rightarrow> 'a \<Rightarrow> ('s, 'a list) cxx" where
  "vectorx mx n x = (if n > mx then throwx Std_length_error else okx (replicate (nat n) x))"

definition overwrite :: "'a list \<Rightarrow> 'a list \<Rightarrow> 'a list" where
  "overwrite buf new = new @ drop (length new) buf"

text \<open>The loop of \<open>Tensor<std::string>\<close>, from the last string to the first: the start of the next string is
  overwritten with a NUL and the C string at the offset is copied. Outside the buffers it is undefined.\<close>

fun cut_strings :: "nat \<Rightarrow> nat \<Rightarrow> string \<Rightarrow> int list \<Rightarrow> string list \<Rightarrow> string list option" where
  "cut_strings upper_bound i chars offsets acc =
     (if length offsets \<le> upper_bound \<or> upper_bound < i then None else
      let cut = nat (offsets ! Suc i); from = nat (offsets ! i);
          chars' = (if i < upper_bound then chars[cut := CHR 0x00] else chars) in
      if i < upper_bound \<and> length chars \<le> cut then None else
      case c_string_at (drop from chars') of None \<Rightarrow> None
      | Some s \<Rightarrow> (case i of 0 \<Rightarrow> Some (s # acc) | Suc j \<Rightarrow> cut_strings upper_bound j chars' offsets (s # acc)))"

declare cut_strings.simps [simp del] digits.simps [simp del]

text \<open>The characters and offsets of an input value.\<close>

definition string_content :: "'s ort_lib \<Rightarrow> int \<Rightarrow> ref \<Rightarrow> string \<Rightarrow> int \<Rightarrow> int \<Rightarrow> ('s, string \<times> int list) cxx" where
  "string_content A mx v chars num_chars num_strings =
     bindx (vectorx (mx div 8) num_strings 0) (\<lambda>offsets.
     bindx (checked A (Fn ''GetStringTensorContent'') [ARef v, AStr chars, AInt num_chars, AInts offsets,
       AInt (int (length offsets))]) (\<lambda>r. okx (overwrite chars (o_str r), overwrite offsets (o_ints r))))"

definition Tensor_string_ctor :: "'s ort_lib \<Rightarrow> int \<Rightarrow> ref \<Rightarrow> int \<Rightarrow> bool \<Rightarrow> ('s, Tensor_string) cxx" where
  "Tensor_string_ctor A mx ctx i inp =
     (let t = TensorBase.extend (TensorBase_ctor ctx i inp) (Tensor_string.fields []) in
      if inp then with_input A ctx i (\<lambda>v ds. let t1 = t\<lparr>t_shape := Some ds\<rparr> in
        bindx (Value_GetStringTensorDataLength A v) (\<lambda>num_chars.
        bindx (defined_or (TensorBase_NumberOfElement t1)) (\<lambda>n. let num_strings = n mod 2 ^ 64 in
        if num_strings \<noteq> 0 then
          bindx (vectorx mx ((num_chars + 1) mod 2 ^ 64) (CHR 0x00)) (\<lambda>chars.
          bindx (string_content A mx v chars num_chars num_strings) (\<lambda>(chars, offsets).
          bindx (defined_or (cut_strings (nat num_strings - 1) (nat num_strings - 1) chars offsets [])) (\<lambda>ss.
          okx (t1\<lparr>input_strings := ss\<rparr>))))
        else okx t1)))
      else okx t)"

definition Tensor_string_Data :: "Tensor_string \<Rightarrow> string list" where
  "Tensor_string_Data t = input_strings t"

text \<open>A test on the number of strings that four methods share; the message is theirs.\<close>

definition string_scalar :: "string \<Rightarrow> 'a list \<Rightarrow> ('s, 'a) cxx" where
  "string_scalar msg ss = (case ss of [s] \<Rightarrow> okx s
     | _ \<Rightarrow> throwx (Ort_Exception msg (OrtErrorCode_value ORT_RUNTIME_EXCEPTION)))"

definition Tensor_string_DataRaw :: "Tensor_string \<Rightarrow> ('s, string) cxx" where
  "Tensor_string_DataRaw t = string_scalar ''DataRaw() only applies to string scalar'' (input_strings t)"

definition Tensor_string_SizeInBytes :: "Tensor_string \<Rightarrow> ('s, int) cxx" where
  "Tensor_string_SizeInBytes t =
     bindx (string_scalar ''SizeInBytes() only applies to string scalar'' (input_strings t)) (\<lambda>s. okx (int (length s)))"

text \<open>The strings are passed by \<open>s.data()\<close>: what the API reads ends at the first NUL.\<close>

definition set_string_output :: "'s ort_lib \<Rightarrow> ref \<Rightarrow> int \<Rightarrow> string list \<Rightarrow> int list \<Rightarrow> ('s, unit) cxx" where
  "set_string_output A ctx i ss dims =
     (let raw = map until_nul ss in
      bindx (KernelContext_GetOutput_dims A ctx i dims) (\<lambda>v.
      bindx (checked A (Fn ''FillStringTensor'') [ARef v, AStrs raw, AInt (int (length raw))]) (\<lambda>_. okx ())))"

definition Tensor_string_SetStringOutput :: "'s ort_lib \<Rightarrow> Tensor_string \<Rightarrow> string list \<Rightarrow> int list \<Rightarrow> ('s, Tensor_string) cxx" where
  "Tensor_string_SetStringOutput A t ss dims =
     bindx (set_string_output A (arg_ctx t) (indice t) ss dims) (\<lambda>_. okx (t\<lparr>t_shape := Some dims\<rparr>))"

definition Tensor_string_AsSpan :: "Tensor_string \<Rightarrow> ('s, 'a) cxx" where
  "Tensor_string_AsSpan t = throwx (Ort_Exception ''span for TensorT of string not implemented''
     (OrtErrorCode_value ORT_RUNTIME_EXCEPTION))"

definition Tensor_string_AsScalar :: "Tensor_string \<Rightarrow> ('s, string) cxx" where
  "Tensor_string_AsScalar t =
     string_scalar ''invalid shape while trying to get a scalar string from Ort::Custom::Tensor'' (input_strings t)"

section \<open>Tensors of string views\<close>

text \<open>The views between consecutive offsets, the number of characters ending the last.\<close>

fun views :: "int list \<Rightarrow> (int \<times> int) list" where
  "views (a # b # offs) = (a, (b - a) mod 2 ^ 64) # views (b # offs)"
| "views _ = []"

definition Tensor_string_view_ctor :: "'s ort_lib \<Rightarrow> int \<Rightarrow> ref \<Rightarrow> int \<Rightarrow> bool \<Rightarrow> ('s, Tensor_string_view) cxx" where
  "Tensor_string_view_ctor A mx ctx i inp =
     (let t = TensorBase.extend (TensorBase_ctor ctx i inp) (Tensor_string_view.fields [] []) in
      if inp then with_input A ctx i (\<lambda>v ds. let t1 = t\<lparr>t_shape := Some ds\<rparr> in
        bindx (Value_GetStringTensorDataLength A v) (\<lambda>num_chars.
        bindx (vectorx mx ((num_chars + 1) mod 2 ^ 64) (CHR 0x00)) (\<lambda>chars.
        bindx (defined_or (TensorBase_NumberOfElement t1)) (\<lambda>n. let num_strings = n mod 2 ^ 64 in
        if num_strings \<noteq> 0 then
          bindx (string_content A mx v chars num_chars num_strings) (\<lambda>(chars, offsets).
          okx (t1\<lparr>view_chars := chars, input_string_views := views (offsets @ [num_chars])\<rparr>))
        else okx (t1\<lparr>view_chars := chars\<rparr>)))))
      else okx t)"

text \<open>What reading a view gives: undefined outside the characters.\<close>

definition view_string :: "string \<Rightarrow> int \<times> int \<Rightarrow> string option" where
  "view_string chars v = (if nat (fst v) + nat (snd v) \<le> length chars
     then Some (take (nat (snd v)) (drop (nat (fst v)) chars)) else None)"

definition Tensor_string_view_Data :: "Tensor_string_view \<Rightarrow> (int \<times> int) list" where
  "Tensor_string_view_Data t = input_string_views t"

definition Tensor_string_view_DataRaw :: "Tensor_string_view \<Rightarrow> ('s, int) cxx" where
  "Tensor_string_view_DataRaw t =
     bindx (string_scalar ''DataRaw() only applies to string scalar'' (input_string_views t)) (\<lambda>v. okx (fst v))"

definition Tensor_string_view_SizeInBytes :: "Tensor_string_view \<Rightarrow> ('s, int) cxx" where
  "Tensor_string_view_SizeInBytes t =
     bindx (string_scalar ''SizeInBytes() only applies to string scalar'' (input_string_views t)) (\<lambda>v. okx (snd v))"

definition Tensor_string_view_SetStringOutput :: "'s ort_lib \<Rightarrow> Tensor_string_view \<Rightarrow> string list \<Rightarrow> int list
    \<Rightarrow> ('s, Tensor_string_view) cxx" where
  "Tensor_string_view_SetStringOutput A t ss dims =
     bindx (set_string_output A (arg_ctx t) (indice t) ss dims) (\<lambda>_. okx (t\<lparr>t_shape := Some dims\<rparr>))"

definition Tensor_string_view_AsSpan :: "Tensor_string_view \<Rightarrow> ('s, 'a) cxx" where
  "Tensor_string_view_AsSpan t = throwx (Ort_Exception ''span for TensorT of string view not implemented''
     (OrtErrorCode_value ORT_RUNTIME_EXCEPTION))"

definition Tensor_string_view_AsScalar :: "Tensor_string_view \<Rightarrow> ('s, int \<times> int) cxx" where
  "Tensor_string_view_AsScalar t =
     string_scalar ''invalid shape while trying to get a scalar string view from Ort::Custom::Tensor'' (input_string_views t)"

section \<open>Arrays of tensors\<close>

text \<open>The element types of the class template, and a tensor of any of them.\<close>

datatype lite_elem = Elem cxx_type | Elem_string | Elem_string_view

datatype lite_tensor = Num_tensor cxx_type Tensor | String_tensor Tensor_string | View_tensor Tensor_string_view

definition make_tensor :: "'s ort_lib \<Rightarrow> int \<Rightarrow> lite_elem \<Rightarrow> ref \<Rightarrow> int \<Rightarrow> bool \<Rightarrow> ('s, lite_tensor) cxx" where
  "make_tensor A mx e ctx i inp = (case e of
     Elem T \<Rightarrow> bindx (Tensor_ctor A ctx i inp) (\<lambda>t. okx (Num_tensor T t))
   | Elem_string \<Rightarrow> bindx (Tensor_string_ctor A mx ctx i inp) (\<lambda>t. okx (String_tensor t))
   | Elem_string_view \<Rightarrow> bindx (Tensor_string_view_ctor A mx ctx i inp) (\<lambda>t. okx (View_tensor t)))"

text \<open>The cases of the \<open>switch\<close> on the element type.\<close>

definition array_elems :: "(int \<times> lite_elem) list" where
  "array_elems = [
     (ONNXTensorElementDataType_value ONNX_TENSOR_ELEMENT_DATA_TYPE_BOOL, Elem Cxx_bool),
     (ONNXTensorElementDataType_value ONNX_TENSOR_ELEMENT_DATA_TYPE_FLOAT, Elem Cxx_float),
     (ONNXTensorElementDataType_value ONNX_TENSOR_ELEMENT_DATA_TYPE_DOUBLE, Elem Cxx_double),
     (ONNXTensorElementDataType_value ONNX_TENSOR_ELEMENT_DATA_TYPE_UINT8, Elem Cxx_uint8_t),
     (ONNXTensorElementDataType_value ONNX_TENSOR_ELEMENT_DATA_TYPE_INT8, Elem Cxx_int8_t),
     (ONNXTensorElementDataType_value ONNX_TENSOR_ELEMENT_DATA_TYPE_UINT16, Elem Cxx_uint16_t),
     (ONNXTensorElementDataType_value ONNX_TENSOR_ELEMENT_DATA_TYPE_INT16, Elem Cxx_int16_t),
     (ONNXTensorElementDataType_value ONNX_TENSOR_ELEMENT_DATA_TYPE_UINT32, Elem Cxx_uint32_t),
     (ONNXTensorElementDataType_value ONNX_TENSOR_ELEMENT_DATA_TYPE_INT32, Elem Cxx_int32_t),
     (ONNXTensorElementDataType_value ONNX_TENSOR_ELEMENT_DATA_TYPE_UINT64, Elem Cxx_uint64_t),
     (ONNXTensorElementDataType_value ONNX_TENSOR_ELEMENT_DATA_TYPE_INT64, Elem Cxx_int64_t),
     (ONNXTensorElementDataType_value ONNX_TENSOR_ELEMENT_DATA_TYPE_STRING, Elem_string)]"

record TensorArray = ArgBase +
  tensors :: "lite_tensor list"

text \<open>One turn of the constructor's loop. The value whose type is read is the one at \<open>start_indice\<close>, in every
  turn.\<close>

definition array_input :: "'s ort_lib \<Rightarrow> int \<Rightarrow> ref \<Rightarrow> int \<Rightarrow> int \<Rightarrow> ('s, lite_tensor) cxx" where
  "array_input A mx ctx start_indice ith_input =
     bindx (KernelContext_GetInput A ctx start_indice) (\<lambda>v.
     bindx (Value_GetTensorTypeAndShapeInfo A v) (\<lambda>info. scopex (OrtRelease A KTensorTypeAndShapeInfo info)
       (bindx (TensorTypeAndShapeInfo_GetElementType A info) (\<lambda>ty. case map_of array_elems ty of
          None \<Rightarrow> throwx (Ort_Exception ''unknow input type'' (OrtErrorCode_value ORT_RUNTIME_EXCEPTION))
        | Some e \<Rightarrow> make_tensor A mx e ctx ith_input True))))"

definition TensorArray_ctor :: "'s ort_lib \<Rightarrow> int \<Rightarrow> ref \<Rightarrow> int \<Rightarrow> bool \<Rightarrow> ('s, TensorArray) cxx" where
  "TensorArray_ctor A mx ctx start_indice inp =
     (let a = \<lparr>arg_ctx = ctx, indice = start_indice, is_input = inp, tensors = []\<rparr> in
      if inp then
        bindx (KernelContext_GetInputCount A ctx) (\<lambda>input_count.
        bindx (mapx (array_input A mx ctx start_indice) [start_indice..input_count - 1]) (\<lambda>ts. okx (a\<lparr>tensors := ts\<rparr>)))
      else okx a)"

definition TensorArray_AllocateOutput :: "'s ort_lib \<Rightarrow> cxx_type \<Rightarrow> TensorArray \<Rightarrow> int \<Rightarrow> int list \<Rightarrow> ('s, ref \<times> TensorArray) cxx" where
  "TensorArray_AllocateOutput A T a ith_output ds =
     bindx (Tensor_ctor A (arg_ctx a) ((indice a + ith_output) mod 2 ^ 64) False) (\<lambda>t.
     bindx (Tensor_Allocate A t ds) (\<lambda>(raw_output, t). okx (raw_output, a\<lparr>tensors := tensors a @ [Num_tensor T t]\<rparr>)))"

definition TensorArray_AllocateStringTensor :: "'s ort_lib \<Rightarrow> int \<Rightarrow> TensorArray \<Rightarrow> int \<Rightarrow> ('s, Tensor_string \<times> TensorArray) cxx" where
  "TensorArray_AllocateStringTensor A mx a ith_output =
     bindx (Tensor_string_ctor A mx (arg_ctx a) ((indice a + ith_output) mod 2 ^ 64) False) (\<lambda>t.
     okx (t, a\<lparr>tensors := tensors a @ [String_tensor t]\<rparr>))"

definition TensorArray_Size :: "TensorArray \<Rightarrow> int" where
  "TensorArray_Size a = int (length (tensors a))"

definition TensorArray_at :: "TensorArray \<Rightarrow> nat \<Rightarrow> ('s, lite_tensor) cxx" where
  "TensorArray_at a ith_input = (if ith_input < length (tensors a) then okx (tensors a ! ith_input) else throwx Std_out_of_range)"

section \<open>Ownership\<close>

lemma raii_plain:
  assumes "raii (\<lambda>_. {#}) m w" "\<And>x. raii o2 (f x) (exec m w)"
  shows "raii o2 (bindx m f) w"
  by (rule raii_bind [OF assms]) simp

lemma input_wrappers_raii:
  "raii (\<lambda>_. {#}) (KernelContext_GetInputCount A ctx) w"
  "raii (\<lambda>_. {#}) (KernelContext_GetInput A ctx i) w"
  "raii (\<lambda>_. {#}) (KernelContext_GetOutput_dims A ctx i ds) w"
  "raii (\<lambda>_. {#}) (TensorTypeAndShapeInfo_GetShape A info) w"
  "raii (\<lambda>_. {#}) (TensorTypeAndShapeInfo_GetElementType A info) w"
  "raii (\<lambda>_. {#}) (Value_GetStringTensorDataLength A v) w"
  "raii (\<lambda>_. {#}) (Value_GetTensorRawData A v) w"
  "raii (\<lambda>_. {#}) (Value_GetTensorMutableData A v) w"
  unfolding KernelContext_GetInputCount_def KernelContext_GetInput_def KernelContext_GetOutput_dims_def
    TensorTypeAndShapeInfo_GetShape_def TensorTypeAndShapeInfo_GetDimensionsCount_def
    TensorTypeAndShapeInfo_GetElementType_def Value_GetStringTensorDataLength_def Value_GetTensorRawData_def
    Value_GetTensorMutableData_def
  by (auto intro!: wrap_plain intro: raii_plain)

lemma type_info_raii: "raii (own KTensorTypeAndShapeInfo) (Value_GetTensorTypeAndShapeInfo A v) w"
  unfolding Value_GetTensorTypeAndShapeInfo_def by (rule wrap_owned) (simp_all add: creates_array_def)

lemma with_input_raii:
  assumes "\<And>v ds w. raii o2 (body v ds) w"
  shows "raii o2 (with_input A ctx i body) w"
  unfolding with_input_def
  by (auto intro!: input_wrappers_raii [THEN raii_plain] raii_scope [OF type_info_raii] raii_throw assms)

lemma vectorx_raii: "raii (\<lambda>_. {#}) (vectorx mx n x) w"
  by (simp add: vectorx_def raii_throw raii_ok)

lemma string_content_raii: "raii (\<lambda>_. {#}) (string_content A mx v chars n k) w"
  unfolding string_content_def by (intro vectorx_raii [THEN raii_plain] wrap_plain)

lemma defined_or_raii: "raii (\<lambda>_. {#}) (defined_or x) w"
  by (auto simp: defined_or_def raii_ok raii_throw split: option.splits)

lemma set_string_output_raii: "raii (\<lambda>_. {#}) (set_string_output A ctx i ss dims) w"
  unfolding set_string_output_def Let_def by (auto intro!: raii_plain input_wrappers_raii wrap_plain)

lemmas lite_raii_rules = with_input_raii vectorx_raii [THEN raii_plain] raii_ok raii_throw input_wrappers_raii
  input_wrappers_raii [THEN raii_plain] string_content_raii [THEN raii_plain] defined_or_raii [THEN raii_plain]
  set_string_output_raii [THEN raii_plain] raii_scope [OF type_info_raii]

lemma tensor_ctors_raii:
  "raii (\<lambda>_. {#}) (Tensor_ctor A ctx i inp) w"
  "raii (\<lambda>_. {#}) (Tensor_string_ctor A mx ctx i inp) w"
  "raii (\<lambda>_. {#}) (Tensor_string_view_ctor A mx ctx i inp) w"
  "raii (\<lambda>_. {#}) (make_tensor A mx e ctx i inp) w"
proof -
  show t: "raii (\<lambda>_. {#}) (Tensor_ctor A ctx i inp) w" for w
    by (auto simp: Tensor_ctor_def Let_def intro!: lite_raii_rules)
  show s: "raii (\<lambda>_. {#}) (Tensor_string_ctor A mx ctx i inp) w" for w
    by (auto simp: Tensor_string_ctor_def Let_def intro!: lite_raii_rules)
  show v: "raii (\<lambda>_. {#}) (Tensor_string_view_ctor A mx ctx i inp) w" for w
    by (auto simp: Tensor_string_view_ctor_def Let_def intro!: lite_raii_rules)
  show "raii (\<lambda>_. {#}) (make_tensor A mx e ctx i inp) w"
    by (auto simp: make_tensor_def split: lite_elem.splits intro!: lite_raii_rules t [THEN raii_plain] s [THEN raii_plain] v [THEN raii_plain])
qed

lemma array_input_raii: "raii (\<lambda>_. {#}) (array_input A mx ctx start i) w"
  by (auto simp: array_input_def intro!: lite_raii_rules tensor_ctors_raii split: option.splits)

lemma TensorArray_ctor_raii: "raii (\<lambda>_. {#}) (TensorArray_ctor A mx ctx i inp) w"
  by (auto simp: TensorArray_ctor_def Let_def intro!: lite_raii_rules mapx_raii [THEN raii_plain] array_input_raii)

text \<open>No operation of the tensor classes leaks: the type informations a constructor fetches are released on
  every path, also when a later call, an allocation or the test of the element type throws, and nothing else is
  handed to the caller.\<close>

theorem lite_tensors_raii:
  "raii (\<lambda>_. {#}) (Tensor_ctor A ctx i inp) w \<and> raii (\<lambda>_. {#}) (Tensor_Allocate A t ds) w \<and>
   raii (\<lambda>_. {#}) (Tensor_AsSpan A t) w \<and> raii (\<lambda>_. {#}) (Tensor_AsScalar A t) w \<and>
   raii (\<lambda>_. {#}) (Tensor_string_ctor A mx ctx i inp) w \<and>
   raii (\<lambda>_. {#}) (Tensor_string_SetStringOutput A ts ss ds) w \<and>
   raii (\<lambda>_. {#}) (Tensor_string_view_ctor A mx ctx i inp) w \<and>
   raii (\<lambda>_. {#}) (Tensor_string_view_SetStringOutput A tv ss ds) w \<and>
   raii (\<lambda>_. {#}) (TensorArray_ctor A mx ctx i inp) w \<and>
   raii (\<lambda>_. {#}) (TensorArray_AllocateOutput A T a k ds) w \<and>
   raii (\<lambda>_. {#}) (TensorArray_AllocateStringTensor A mx a k) w"
proof (intro conjI)
  show al: "raii (\<lambda>_. {#}) (Tensor_Allocate A t ds) w" for t w
    by (auto simp: Tensor_Allocate_def Let_def intro!: lite_raii_rules)
  show "raii (\<lambda>_. {#}) (Tensor_AsSpan A t) w"
    by (auto simp: Tensor_AsSpan_def Tensor_Data_def Let_def split: option.splits list.splits intro!: lite_raii_rules)
  show "raii (\<lambda>_. {#}) (Tensor_AsScalar A t) w"
    by (auto simp: Tensor_AsScalar_def Tensor_Data_def intro!: lite_raii_rules)
  show "raii (\<lambda>_. {#}) (TensorArray_AllocateOutput A T a k ds) w"
    by (auto simp: TensorArray_AllocateOutput_def intro!: lite_raii_rules tensor_ctors_raii [THEN raii_plain] al [THEN raii_plain])
  show "raii (\<lambda>_. {#}) (TensorArray_AllocateStringTensor A mx a k) w"
    by (auto simp: TensorArray_AllocateStringTensor_def intro!: lite_raii_rules tensor_ctors_raii [THEN raii_plain])
qed (auto simp: Tensor_string_SetStringOutput_def Tensor_string_view_SetStringOutput_def
    intro!: tensor_ctors_raii TensorArray_ctor_raii lite_raii_rules)

section \<open>Reading strings\<close>

text \<open>What the API documents: the inputs of the context and their shapes, the packed characters of a string tensor
  with the offset of each string.\<close>

definition input_doc :: "'s ort_lib \<Rightarrow> ref \<Rightarrow> int \<Rightarrow> int \<Rightarrow> ref \<Rightarrow> ref \<Rightarrow> int list \<Rightarrow> bool" where
  "input_doc A ctx n i v info ds \<longleftrightarrow> 0 \<le> i \<and> i < n \<and> shape_doc A info ds \<and> (\<forall>s.
     (let r = fst (A (Api (Fn ''KernelContext_GetInputCount'') [ARef ctx]) s) in o_status r = NULL \<and> o_int r = n) \<and>
     (let r = fst (A (Api (Fn ''KernelContext_GetInput'') [ARef ctx, AInt i]) s) in o_status r = NULL \<and> o_ref r = v) \<and>
     (let r = fst (A (Api (New New_GetTensorTypeAndShape) [ARef v]) s) in o_status r = NULL \<and> o_ref r = info))"

definition starts :: "string list \<Rightarrow> int list" where
  "starts ss = map (\<lambda>k. int (length (concat (take k ss)))) [0..<length ss]"

definition content_doc :: "'s ort_lib \<Rightarrow> ref \<Rightarrow> string list \<Rightarrow> bool" where
  "content_doc A v ss \<longleftrightarrow> (\<forall>s.
     (let r = fst (A (Api (Fn ''GetStringTensorDataLength'') [ARef v]) s) in
        o_status r = NULL \<and> o_int r = int (length (concat ss))) \<and>
     (\<forall>buf offs. length (concat ss) \<le> length buf \<and> length offs = length ss \<longrightarrow>
       (let r = fst (A (Api (Fn ''GetStringTensorContent'') [ARef v, AStr buf, AInt (int (length (concat ss))),
          AInts offs, AInt (int (length offs))]) s) in
        o_status r = NULL \<and> o_str r = concat ss \<and> o_ints r = starts ss)))"

lemma GetShape_doc: "shape_doc A info ds \<Longrightarrow> result (TensorTypeAndShapeInfo_GetShape A info) w = Inr ds"
proof -
  assume a: "shape_doc A info ds"
  have "o_status (fst (A (Api (Fn ''GetDimensionsCount'') [ARef info]) s)) = 0"
    "o_int (fst (A (Api (Fn ''GetDimensionsCount'') [ARef info]) s)) = int (length ds)"
    "o_status (fst (A (Api (Fn ''GetDimensions'') [ARef info, AInts (replicate (length ds) 0), AInt (int (length ds))]) s)) = 0"
    "o_ints (fst (A (Api (Fn ''GetDimensions'') [ARef info, AInts (replicate (length ds) 0), AInt (int (length ds))]) s)) = ds" for s
    using a unfolding shape_doc_def Let_def
    by (metis append_Nil2 drop_replicate length_replicate minus_nat.diff_0 order_refl diff_self_eq_0 replicate_0 take_all)+
  then show ?thesis
    by (simp add: TensorTypeAndShapeInfo_GetShape_def TensorTypeAndShapeInfo_GetDimensionsCount_def bindx_run ok_run checked_ok)
qed

lemma with_input_doc:
  assumes "input_doc A ctx n i v info ds"
  shows "\<exists>w'. \<forall>body. result (with_input A ctx i body) w = result (body v ds) w'"
  using assms
  by (auto simp: input_doc_def Let_def with_input_def KernelContext_GetInputCount_def KernelContext_GetInput_def
      Value_GetTensorTypeAndShapeInfo_def bindx_run ok_run scopex_run checked_ok GetShape_doc)

lemma content_run:
  assumes "content_doc A v ss" "8 * int (length ss) \<le> mx" "length chars = length (concat ss) + 1"
  shows "result (string_content A mx v chars (int (length (concat ss))) (int (length ss))) w =
    Inr (concat ss @ [last chars], starts ss)"
proof -
  have d: "drop (length (concat ss)) chars = [last chars]"
    using assms(3) by (metis Cons_nth_drop_Suc Suc_eq_plus1 drop_all last_conv_nth lessI diff_Suc_1 le_refl length_0_conv nat.distinct(1))
  have l: "length (starts ss) = length ss" by (simp add: starts_def)
  have "length (concat ss) \<le> length chars" using assms(3) by simp
  then have "o_status (fst (A (Api (Fn ''GetStringTensorContent'') [ARef v, AStr chars, AInt (int (length (concat ss))),
      AInts (replicate (length ss) 0), AInt (int (length ss))]) s)) = 0 \<and>
    o_str (fst (A (Api (Fn ''GetStringTensorContent'') [ARef v, AStr chars, AInt (int (length (concat ss))),
      AInts (replicate (length ss) 0), AInt (int (length ss))]) s)) = concat ss \<and>
    o_ints (fst (A (Api (Fn ''GetStringTensorContent'') [ARef v, AStr chars, AInt (int (length (concat ss))),
      AInts (replicate (length ss) 0), AInt (int (length ss))]) s)) = starts ss" for s
    using assms(1) unfolding content_doc_def Let_def by (metis length_replicate)
  moreover have "\<not> mx div 8 < int (length ss)" using assms(2) by linarith
  ultimately show ?thesis using d l
    by (simp add: string_content_def vectorx_def bindx_run ok_run checked_ok overwrite_def)
qed

lemma until_nul_cut: "until_nul (s @ CHR 0x00 # r) = until_nul s"
  by (simp add: until_nul_def takeWhile_tail)

lemma c_string_cut:
  assumes "i < length ss" "length (concat (take (Suc i) ss)) < length c"
    "take (length (concat (take (Suc i) ss))) c = concat (take (Suc i) ss)"
    "c ! length (concat (take (Suc i) ss)) = CHR 0x00"
  shows "c_string_at (drop (length (concat (take i ss))) c) = Some (until_nul (ss ! i))"
proof -
  have "c = concat (take (Suc i) ss) @ CHR 0x00 # drop (Suc (length (concat (take (Suc i) ss)))) c"
    using assms(2-4) id_take_nth_drop by metis
  then have "drop (length (concat (take i ss))) c = ss ! i @ CHR 0x00 # drop (Suc (length (concat (take (Suc i) ss)))) c"
    using assms(1) by (metis append.assoc append_eq_conv_conj concat.simps concat_append append_Nil2 take_Suc_conv_app_nth)
  then show ?thesis by (simp add: c_string_at_def until_nul_cut)
qed

text \<open>One turn of the loop at string \<open>i\<close>, when the characters up to its end are as the API wrote them.\<close>

lemma cut_step:
  assumes "i \<le> u" "length ss = Suc u" "length chars = length (concat ss) + 1"
    "take (length (concat (take (Suc i) ss))) chars = concat (take (Suc i) ss)"
    "i = u \<Longrightarrow> chars ! length (concat ss) = CHR 0x00"
  shows "\<exists>chars'. length chars' = length chars \<and>
    take (length (concat (take (Suc i) ss))) chars' = concat (take (Suc i) ss) \<and>
    cut_strings u i chars (starts ss) acc = (case i of 0 \<Rightarrow> Some (until_nul (ss ! i) # acc)
      | Suc j \<Rightarrow> cut_strings u j chars' (starts ss) (until_nul (ss ! i) # acc))"
proof -
  define cut where "cut = length (concat (take (Suc i) ss))"
  define chars' where "chars' = (if i < u then chars[cut := CHR 0x00] else chars)"
  have st: "length (starts ss) = Suc u" "k \<le> u \<Longrightarrow> nat (starts ss ! k) = length (concat (take k ss))" for k
    using assms(2) by (simp_all add: starts_def del: upt_Suc)
  have "cut \<le> length (concat ss)" unfolding cut_def by (metis append_take_drop_id concat_append le_add1 length_append)
  then have c: "cut < length chars" using assms(3) by simp
  have n: "chars' ! cut = CHR 0x00" using c assms(1,2,5) by (auto simp: chars'_def cut_def)
  have t: "take cut chars' = concat (take (Suc i) ss)" using assms(4) by (simp add: chars'_def cut_def)
  have l: "length chars' = length chars" by (simp add: chars'_def)
  have s: "c_string_at (drop (length (concat (take i ss))) chars') = Some (until_nul (ss ! i))"
    using c assms(1,2) n t l by (intro c_string_cut) (simp_all add: cut_def)
  have "cut_strings u i chars (starts ss) acc = (case i of 0 \<Rightarrow> Some (until_nul (ss ! i) # acc)
      | Suc j \<Rightarrow> cut_strings u j chars' (starts ss) (until_nul (ss ! i) # acc))"
  proof (cases "i < u")
    case True
    then show ?thesis using c s st by (subst cut_strings.simps) (simp add: Let_def cut_def chars'_def split: nat.split)
  next
    case False
    then show ?thesis using assms(1) s st by (subst cut_strings.simps) (simp add: Let_def chars'_def split: nat.split)
  qed
  then show ?thesis using t l unfolding cut_def by blast
qed

lemma cut_strings_spec:
  assumes "i \<le> u" "length ss = Suc u" "length chars = length (concat ss) + 1"
    "take (length (concat (take (Suc i) ss))) chars = concat (take (Suc i) ss)"
    "i = u \<Longrightarrow> chars ! length (concat ss) = CHR 0x00"
  shows "cut_strings u i chars (starts ss) acc = Some (map until_nul (take (Suc i) ss) @ acc)"
  using assms
proof (induction i arbitrary: chars acc)
  case (0 chars)
  then show ?case using cut_step [of 0 u ss chars acc] by (cases ss) auto
next
  case (Suc i chars)
  obtain chars' where c: "length chars' = length chars"
    "take (length (concat (take (Suc (Suc i)) ss))) chars' = concat (take (Suc (Suc i)) ss)"
    "cut_strings u (Suc i) chars (starts ss) acc = cut_strings u i chars' (starts ss) (until_nul (ss ! Suc i) # acc)"
    using cut_step [OF Suc.prems, of acc] by auto
  have e: "take (Suc (Suc i)) ss = take (Suc i) ss @ [ss ! Suc i]"
    using Suc.prems(1,2) by (simp add: take_Suc_conv_app_nth)
  have "take (length (concat (take (Suc i) ss))) chars' = concat (take (Suc i) ss)"
    using arg_cong [OF c(2), of "take (length (concat (take (Suc i) ss)))"] by (simp add: e min_def)
  then show ?case using Suc.IH [of chars' "until_nul (ss ! Suc i) # acc"] Suc.prems c(1,3) by (simp add: e)
qed

text \<open>The offsets with the end of the last string, from a position on.\<close>

fun offsets_from :: "nat \<Rightarrow> string list \<Rightarrow> int list" where
  "offsets_from n [] = [int n]"
| "offsets_from n (s # ss) = int n # offsets_from (n + length s) ss"

lemma offsets_from_starts:
  "map (\<lambda>k. int (n + length (concat (take k ss)))) [0..<length ss] @ [int (n + length (concat ss))] = offsets_from n ss"
proof (induction ss arbitrary: n)
  case (Cons s ss)
  have "[0..<length (s # ss)] = 0 # map Suc [0..<length ss]" by (simp add: map_Suc_upt upt_conv_Cons del: upt_Suc)
  then show ?case using Cons [of "n + length s"] by (simp add: comp_def add.assoc del: upt_Suc)
qed simp

lemma views_offsets:
  assumes "int (length p + length (concat ss)) < 2 ^ 64"
  shows "map (view_string (p @ concat ss @ c)) (views (offsets_from (length p) ss)) = map Some ss"
  using assms
proof (induction ss arbitrary: p)
  case (Cons s ss)
  have "views (offsets_from (length p) (s # ss)) = (int (length p), int (length s)) # views (offsets_from (length (p @ s)) ss)"
    using Cons.prems by (cases ss) auto
  then show ?case using Cons.IH [of "p @ s"] Cons.prems by (simp add: view_string_def)
qed simp

lemma DataLength_doc:
  "content_doc A v ss \<Longrightarrow> result (Value_GetStringTensorDataLength A v) w = Inr (int (length (concat ss)))"
  by (simp add: content_doc_def Value_GetStringTensorDataLength_def bindx_run ok_run checked_ok Let_def)

lemma zeroed_content_run:
  assumes "content_doc A v ss" "8 * int (length ss) \<le> mx"
  shows "result (string_content A mx v (replicate (Suc (length (concat ss))) (CHR 0x00)) (int (length (concat ss)))
    (int (length ss))) w = Inr (concat ss @ [CHR 0x00], starts ss)"
  using content_run [OF assms, of "replicate (Suc (length (concat ss))) (CHR 0x00)"] by (simp del: replicate_Suc)

lemma zeroed_vector: "int n < mx \<Longrightarrow> vectorx mx (int n + 1) (CHR 0x00) = okx (replicate (Suc n) (CHR 0x00))"
  by (simp add: vectorx_def nat_add_distrib)

lemmas string_ctor_run = bindx_run ok_run DataLength_doc zeroed_content_run zeroed_vector defined_or_def
  TensorBase_NumberOfElement_def TensorBase.defs Tensor_string.defs Tensor_string_view.defs TensorBase_ctor_def

lemma Tensor_string_read:
  fixes A :: "'s ort_lib"
  assumes "input_doc A ctx n i v info ds" "content_doc A v ss" "accumulate 1 ds = Some (int (length ss))"
    "int (length (concat ss)) < mx" "8 * int (length ss) \<le> mx" "mx < 2 ^ 64"
  shows "\<exists>t. result (Tensor_string_ctor A mx ctx i True) w = Inr t \<and> t_shape t = Some ds \<and> input_strings t = map until_nul ss"
proof -
  obtain w' where w': "\<And>body :: ref \<Rightarrow> int list \<Rightarrow> ('s, Tensor_string) cxx.
      result (with_input A ctx i body) w = result (body v ds) w'"
    using with_input_doc [OF assms(1)] by blast
  have m: "int (length ss) mod 2 ^ 64 = int (length ss)" using assms(5,6) by simp
  have "cut_strings (length ss - 1) (length ss - 1) (concat ss @ [CHR 0x00]) (starts ss) [] = Some (map until_nul ss)"
    if "ss \<noteq> []"
    using cut_strings_spec [of "length ss - 1" "length ss - 1" ss "concat ss @ [CHR 0x00]" "[]"] that by simp
  then show ?thesis
    using assms m by (auto simp: Tensor_string_ctor_def Let_def w' string_ctor_run simp del: replicate_Suc)
qed

lemma Tensor_string_view_read:
  fixes A :: "'s ort_lib"
  assumes "input_doc A ctx n i v info ds" "content_doc A v ss" "accumulate 1 ds = Some (int (length ss))"
    "int (length (concat ss)) < mx" "8 * int (length ss) \<le> mx" "mx < 2 ^ 64"
  shows "\<exists>u. result (Tensor_string_view_ctor A mx ctx i True) w = Inr u \<and> t_shape u = Some ds \<and>
    map (view_string (view_chars u)) (input_string_views u) = map Some ss"
proof -
  obtain w' where w': "\<And>body :: ref \<Rightarrow> int list \<Rightarrow> ('s, Tensor_string_view) cxx.
      result (with_input A ctx i body) w = result (body v ds) w'"
    using with_input_doc [OF assms(1)] by blast
  have m: "int (length ss) mod 2 ^ 64 = int (length ss)" using assms(5,6) by simp
  have "starts ss @ [int (length (concat ss))] = offsets_from 0 ss"
    using offsets_from_starts [of 0 ss] by (simp add: starts_def)
  then have "map (view_string (concat ss @ [CHR 0x00])) (views (starts ss @ [int (length (concat ss))])) = map Some ss"
    using views_offsets [of "[]" ss "[CHR 0x00]"] assms(4,6) by simp
  then show ?thesis
    using assms m by (auto simp: Tensor_string_view_ctor_def Let_def w' string_ctor_run simp del: replicate_Suc)
qed

lemma until_nul_id: "until_nul s = s \<longleftrightarrow> CHR 0x00 \<notin> set s"
  by (auto simp: until_nul_def takeWhile_eq_all_conv)

text \<open>What the two string specialisations read from the same input: \<open>Tensor<std::string_view>\<close> gives every
  string exactly, \<open>Tensor<std::string>\<close> every string up to its first NUL, because it reads the packed characters
  as C strings. So the two agree exactly if no string contains a NUL. Both keep inside their buffers and
  report the shape of the input.\<close>

theorem string_tensors_read:
  assumes "input_doc A ctx n i v info ds" "content_doc A v ss" "accumulate 1 ds = Some (int (length ss))"
    "int (length (concat ss)) < mx" "8 * int (length ss) \<le> mx" "mx < 2 ^ 64"
  shows "\<exists>t u. result (Tensor_string_ctor A mx ctx i True) w = Inr t \<and>
    result (Tensor_string_view_ctor A mx ctx i True) w = Inr u \<and>
    t_shape t = Some ds \<and> t_shape u = Some ds \<and>
    Tensor_string_Data t = map until_nul ss \<and>
    map (view_string (view_chars u)) (Tensor_string_view_Data u) = map Some ss \<and>
    (map Some (Tensor_string_Data t) = map (view_string (view_chars u)) (Tensor_string_view_Data u) \<longleftrightarrow>
      (\<forall>s \<in> set ss. CHR 0x00 \<notin> set s))"
proof -
  obtain t where t: "result (Tensor_string_ctor A mx ctx i True) w = Inr t" "t_shape t = Some ds"
    "input_strings t = map until_nul ss"
    using Tensor_string_read [OF assms] by blast
  moreover obtain u where u: "result (Tensor_string_view_ctor A mx ctx i True) w = Inr u" "t_shape u = Some ds"
    "map (view_string (view_chars u)) (input_string_views u) = map Some ss"
    using Tensor_string_view_read [OF assms] by blast
  moreover have "map Some (map until_nul ss) = map Some ss \<longleftrightarrow> (\<forall>s \<in> set ss. CHR 0x00 \<notin> set s)"
    by (simp add: until_nul_id)
  ultimately show ?thesis
    by (intro exI [of _ t] exI [of _ u]) (simp add: Tensor_string_Data_def Tensor_string_view_Data_def)
qed

section \<open>Variadic inputs\<close>

definition type_doc :: "'s ort_lib \<Rightarrow> ref \<Rightarrow> int \<Rightarrow> bool" where
  "type_doc A info ty \<longleftrightarrow> (\<forall>s. let r = fst (A (Api (Fn ''GetTensorElementType'') [ARef info]) s) in
     o_status r = NULL \<and> o_int r = ty)"

lemma mapx_run:
  assumes "\<And>x w. x \<in> set xs \<Longrightarrow> result (f x) w = Inr (g x)"
  shows "result (mapx f xs) w = Inr (map g xs)"
  using assms by (induction xs arbitrary: w) (simp_all add: bindx_run ok_run)

definition input_tensor :: "ref \<Rightarrow> int \<Rightarrow> ref \<Rightarrow> int list \<Rightarrow> Tensor" where
  "input_tensor ctx i v ds = \<lparr>arg_ctx = ctx, indice = i, is_input = True, t_shape = Some ds,
     t_type = ONNX_TENSOR_ELEMENT_DATA_TYPE_UNDEFINED, t_mem_type = ''Cpu'', const_value = v, out_data = NULL,
     t_span = \<lparr>span_data = NULL, span_size = 0\<rparr>\<rparr>"

lemma Tensor_ctor_read:
  fixes A :: "'s ort_lib"
  assumes "input_doc A ctx n i v info ds"
  shows "result (Tensor_ctor A ctx i True) w = Inr (input_tensor ctx i v ds)"
proof -
  obtain w' where "\<And>body :: ref \<Rightarrow> int list \<Rightarrow> ('s, Tensor) cxx. result (with_input A ctx i body) w = result (body v ds) w'"
    using with_input_doc [OF assms] by blast
  then show ?thesis
    by (simp add: Tensor_ctor_def Let_def ok_run input_tensor_def TensorBase.defs Tensor.defs TensorBase_ctor_def)
qed

lemma array_input_read:
  assumes "input_doc A ctx n start v info ds" "type_doc A info ty" "map_of array_elems ty = Some (Elem T)"
    "input_doc A ctx n k v' info' ds'"
  shows "result (array_input A mx ctx start k) w = Inr (Num_tensor T (input_tensor ctx k v' ds'))"
  using assms(1-3) Tensor_ctor_read [OF assms(4)]
  by (simp add: array_input_def input_doc_def type_doc_def KernelContext_GetInput_def Value_GetTensorTypeAndShapeInfo_def
      TensorTypeAndShapeInfo_GetElementType_def make_tensor_def bindx_run ok_run scopex_run checked_ok Let_def)

text \<open>A variadic input becomes one tensor per remaining input of the context, in order, each with the index,
  the value and the shape of its own input, but all with the element type of the first: the constructor reads
  the type at \<open>start_indice\<close> in every turn, although the operator declares its variadic inputs heterogeneous.\<close>

theorem variadic_inputs:
  assumes "\<forall>k. start \<le> k \<and> k < n \<longrightarrow> input_doc A ctx n k (v k) (info k) (ds k)" "start < n"
    "type_doc A (info start) ty" "map_of array_elems ty = Some (Elem T)"
  shows "\<exists>a. result (TensorArray_ctor A mx ctx start True) w = Inr a \<and> TensorArray_Size a = n - start \<and>
    (\<forall>k < nat (n - start). \<exists>t. result (TensorArray_at a k) w = Inr (Num_tensor T t) \<and> indice t = start + int k \<and>
       const_value t = v (start + int k) \<and> t_shape t = Some (ds (start + int k)))"
proof -
  let ?g = "\<lambda>k. Num_tensor T (input_tensor ctx k (v k) (ds k))"
  have s: "input_doc A ctx n start (v start) (info start) (ds start)" using assms(1,2) by simp
  have c: "result (KernelContext_GetInputCount A ctx) w = Inr n" for w
    using s by (simp add: input_doc_def KernelContext_GetInputCount_def bindx_run ok_run checked_ok Let_def)
  have "result (mapx (array_input A mx ctx start) [start..n - 1]) w' = Inr (map ?g [start..n - 1])" for w'
    using array_input_read [OF s assms(3,4)] assms(1) by (intro mapx_run) auto
  then have r: "result (TensorArray_ctor A mx ctx start True) w =
      Inr \<lparr>arg_ctx = ctx, indice = start, is_input = True, tensors = map ?g [start..n - 1]\<rparr>"
    by (simp add: TensorArray_ctor_def Let_def bindx_run ok_run c)
  show ?thesis
    using assms(2) by (simp add: r TensorArray_Size_def TensorArray_at_def ok_run input_tensor_def)
qed

section \<open>Outputs\<close>

text \<open>Allocating an output asks the context for the tensor's own output with exactly the given shape. Doing it
  again with another shape makes no call: it returns the buffer that was made for the first shape, while the
  tensor reports the second.\<close>

theorem output_allocation:
  assumes "result (Tensor_Allocate A t ds) w = Inr (p, t1)" "out_data t = NULL" "p \<noteq> NULL"
  shows "fst (log (exec (Tensor_Allocate A t ds) w) ! length (log w)) =
      Api (Fn ''KernelContext_GetOutput'') [ARef (arg_ctx t), AInt (indice t), AInts ds, AInt (int (length ds))] \<and>
    t_shape t1 = Some ds \<and>
    result (Tensor_Allocate A t1 ds') w' = Inr (p, t1\<lparr>t_shape := Some ds'\<rparr>) \<and> exec (Tensor_Allocate A t1 ds') w' = w'"
proof -
  let ?c = "checked A (Fn ''KernelContext_GetOutput'') [ARef (arg_ctx t), AInt (indice t), AInts ds, AInt (int (length ds))]"
  obtain r where r: "result ?c w = Inr r" using assms(1,2)
    by (auto simp: Tensor_Allocate_def Let_def KernelContext_GetOutput_dims_def bindx_run ok_run split: sum.splits)
  let ?d = "checked A (Fn ''GetTensorMutableData'') [ARef (o_ref r)]"
  obtain r' where r': "result ?d (exec ?c w) = Inr r'" "o_ref r' = p" "t1 = t\<lparr>t_shape := Some ds, out_data := p\<rparr>"
    using assms(1,2) r
    by (auto simp: Tensor_Allocate_def Let_def KernelContext_GetOutput_dims_def Value_GetTensorMutableData_def
        bindx_run ok_run split: sum.splits)
  have "exec (Tensor_Allocate A t ds) w = exec ?d (exec ?c w)" using assms(2) r r'
    by (simp add: Tensor_Allocate_def Let_def KernelContext_GetOutput_dims_def Value_GetTensorMutableData_def bindx_run ok_run)
  then show ?thesis using checked_status [OF r] checked_status [OF r'(1)] r'(3) assms(3)
    by (simp add: exec_perform nth_append Tensor_Allocate_def ok_run)
qed

section \<open>The text of a shape\<close>

text \<open>Reading a number back.\<close>

definition num_of :: "string \<Rightarrow> nat" where
  "num_of cs = foldl (\<lambda>a c. 10 * a + (of_char c - 48)) 0 cs"

lemma digits_num: "num_of (digits n) = n \<and> digits n \<noteq> [] \<and> set (digits n) \<subseteq> char_of ` {48..57::nat}"
proof (induction n rule: digits.induct)
  case (1 n)
  show ?case
  proof (cases "n < 10")
    case True
    then show ?thesis by (subst (1 2 3) digits.simps) (auto simp: num_of_def of_char_of)
  next
    case False
    then show ?thesis using 1 by (subst (1 2 3) digits.simps) (auto simp: num_of_def of_char_of)
  qed
qed

lemma digit_chars: "CHR ''-'' \<notin> set (digits n)" "CHR '','' \<notin> set (digits n)"
proof -
  have "of_char c \<in> {48..57::nat}" if "c \<in> set (digits n)" for c
    using that digits_num [of n] by (auto simp: of_char_of)
  from this [of "CHR ''-''"] this [of "CHR '','' "] show "CHR ''-'' \<notin> set (digits n)" "CHR '','' \<notin> set (digits n)"
    by auto
qed

lemma std_to_string_inj: "std_to_string i = std_to_string j \<longleftrightarrow> i = j"
proof -
  have "digits n \<noteq> CHR ''-'' # digits m" for n m using digit_chars(1) [of n] by (metis list.set_intros(1))
  moreover have "digits n = digits m \<longleftrightarrow> n = m" for n m using digits_num by metis
  ultimately show ?thesis by (auto simp: std_to_string_def) metis
qed

lemma std_to_string_comma: "CHR '','' \<notin> set (std_to_string i)"
  using digit_chars(2) by (simp add: std_to_string_def)

lemma shape_text_inj:
  "concat (map (\<lambda>d. std_to_string d @ '', '') ds) = concat (map (\<lambda>d. std_to_string d @ '', '') es) \<longleftrightarrow> ds = es"
proof (induction ds arbitrary: es)
  case (Cons d ds)
  show ?case
  proof (cases es)
    case (Cons e es')
    have "takeWhile (\<lambda>c. c \<noteq> CHR '','') (std_to_string i @ '', '' @ r) = std_to_string i" for i r
      using std_to_string_comma [of i] by (subst takeWhile_append2) auto
    then have "std_to_string d @ '', '' @ r = std_to_string e @ '', '' @ r' \<longleftrightarrow> d = e \<and> r = r'" for r r'
      by (metis append.assoc same_append_eq std_to_string_inj)
    then show ?thesis using Cons.IH Cons by simp
  qed simp
qed (auto simp: Cons_eq_append_conv split: list.splits)

text \<open>The text of a shape determines the shape, the absent one included.\<close>

theorem Shape2Str_faithful: "TensorBase_Shape2Str t = TensorBase_Shape2Str u \<longleftrightarrow> t_shape t = t_shape u"
proof -
  have e: "''empty'' \<noteq> concat (map (\<lambda>d. std_to_string d @ '', '') ds)" for ds
  proof (cases ds rule: rev_cases)
    case (snoc ds' d)
    then have "last (concat (map (\<lambda>d. std_to_string d @ '', '') ds)) = CHR '' ''" by simp
    moreover have "last ''empty'' \<noteq> CHR '' ''" by simp
    ultimately show ?thesis by metis
  qed simp
  then show ?thesis
    using e [symmetric] by (auto simp: TensorBase_Shape2Str_def shape_text_inj split: option.splits)
qed

section \<open>Witnesses\<close>

text \<open>A context with two inputs: input 0 is a string tensor with the strings "a" and "b" followed by a NUL, input 1
  an int64 tensor of shape [3]. The value of input \<open>k\<close> is \<open>10 + k\<close> and its type information \<open>20 + k\<close>.\<close>

definition demo_strings :: "string list" where
  "demo_strings = [''a'', [CHR ''b'', CHR 0x00]]"

definition demo_lite :: "unit ort_lib" where
  "demo_lite c s = (case c of
     Api (Fn f) args \<Rightarrow>
       (if f = ''KernelContext_GetInputCount'' then demo_ok 2 [] []
        else if f = ''KernelContext_GetInput'' then (case args ! 1 of AInt k \<Rightarrow> (demo_ok 0 [] [])\<lparr>o_ref := 10 + nat k\<rparr> | _ \<Rightarrow> demo_ok 0 [] [])
        else if f = ''GetDimensionsCount'' then demo_ok 1 [] []
        else if f = ''GetDimensions'' then
          (case args of [ARef p, AInts buf, n] \<Rightarrow>
             (demo_ok 0 [] [])\<lparr>o_ints := take (length buf) [if p = 20 then 2 else 3] @ drop 1 buf\<rparr> | _ \<Rightarrow> demo_ok 0 [] [])
        else if f = ''GetStringTensorDataLength'' then demo_ok 3 [] []
        else if f = ''GetStringTensorContent'' then (demo_ok 0 (concat demo_strings) [])\<lparr>o_ints := [0, 1]\<rparr>
        else if f = ''GetTensorElementType'' then demo_ok 7 [] []
        else (demo_ok 0 [] [])\<lparr>o_ref := 7\<rparr>)
   | Api (New f) args \<Rightarrow> (case args ! 0 of ARef v \<Rightarrow> (demo_ok 0 [] [])\<lparr>o_ref := 10 + v\<rparr> | _ \<Rightarrow> demo_ok 0 [] [])
   | _ \<Rightarrow> demo_ok 0 [] [], s)"

lemma demo_lite_input:
  "input_doc demo_lite ctx 2 0 10 20 [2]" "input_doc demo_lite ctx 2 1 11 21 [3]"
  by (simp_all add: input_doc_def shape_doc_def demo_lite_def demo_ok_def)

lemma demo_lite_content: "content_doc demo_lite 10 demo_strings"
  by (simp add: content_doc_def demo_lite_def demo_ok_def demo_strings_def starts_def numeral_2_eq_2)

theorem string_tensors_read_witness:
  "\<exists>t u. result (Tensor_string_ctor demo_lite 100 1 0 True) demo_ort_world = Inr t \<and>
    result (Tensor_string_view_ctor demo_lite 100 1 0 True) demo_ort_world = Inr u \<and>
    Tensor_string_Data t = [''a'', ''b''] \<and>
    map (view_string (view_chars u)) (Tensor_string_view_Data u) = [Some ''a'', Some [CHR ''b'', CHR 0x00]]"
proof -
  have "accumulate 1 [2] = Some (int (length demo_strings))" "int (length (concat demo_strings)) < 100"
    "8 * int (length demo_strings) \<le> 100" "(100 :: int) < 2 ^ 64"
    by (simp_all add: demo_strings_def int64_mult_def)
  from string_tensors_read [OF demo_lite_input(1) demo_lite_content this, of 1 demo_ort_world]
  show ?thesis by (auto simp: demo_strings_def until_nul_def)
qed

theorem variadic_inputs_witness:
  "\<exists>a t. result (TensorArray_ctor demo_lite 100 1 1 True) demo_ort_world = Inr a \<and> TensorArray_Size a = 1 \<and>
    result (TensorArray_at a 0) demo_ort_world = Inr (Num_tensor Cxx_int64_t t) \<and> indice t = 1 \<and> t_shape t = Some [3]"
proof -
  have d: "\<forall>k. 1 \<le> k \<and> k < 2 \<longrightarrow> input_doc demo_lite 1 2 k ((\<lambda>_. 11) k) ((\<lambda>_. 21) k) ((\<lambda>_. [3]) k)"
    using demo_lite_input(2) [of 1] by (auto simp: order_le_less)
  have ty: "type_doc demo_lite 21 7" "map_of array_elems 7 = Some (Elem Cxx_int64_t)"
    by (simp_all add: type_doc_def demo_lite_def demo_ok_def array_elems_def)
  from variadic_inputs [OF d _ ty, of 100 demo_ort_world] show ?thesis by fastforce
qed

theorem output_allocation_witness:
  "\<exists>p t1. result (Tensor_Allocate demo_lite (input_tensor 1 0 10 []) [2]) demo_ort_world = Inr (p, t1) \<and> p = 7 \<and>
    result (Tensor_Allocate demo_lite t1 [5, 5]) demo_ort_world = Inr (7, t1\<lparr>t_shape := Some [5, 5]\<rparr>)"
proof -
  have r: "result (Tensor_Allocate demo_lite (input_tensor 1 0 10 []) [2]) demo_ort_world =
      Inr (7, (input_tensor 1 0 10 [])\<lparr>t_shape := Some [2], out_data := 7\<rparr>)"
    by (simp add: Tensor_Allocate_def input_tensor_def KernelContext_GetOutput_dims_def Value_GetTensorMutableData_def
        bindx_run ok_run checked_run result_perform exec_perform Let_def demo_lite_def demo_ok_def)
  show ?thesis using output_allocation [OF r, of "[5, 5]" demo_ort_world] r by (simp add: input_tensor_def)
qed

end
