(* ===== verification/Lite_Op.thy ===== *)
theory Lite_Op
  imports Lite_Tensor
begin

text \<open>
  Custom operators made from C++ functions and structs (\<^verbatim>\<open>onnxruntime_lite_custom_op.h\<close>) and the class template
  \<open>CustomOpBase\<close> (\<^verbatim>\<open>onnxruntime_cxx_api.h\<close>). A parameter pack \<open>Args...\<close> is a list of parameter types; the overloads
  that the compiler selects by parameter type are the equations of \<open>CreateTuple\<close> and \<open>ParseArgs\<close>. The functions of
  the operator's author are calls of the external library. The theorems: the schema an operator announces agrees
  with the arguments its function receives; creating, running and destroying a kernel neither leaks nor frees
  twice, for all four kinds of operator; the callback table of every operator is complete.
\<close>

section \<open>Parameter types\<close>

text \<open>The types for which \<open>CreateTuple\<close> has an overload. String views are inputs only. (The overloads for CUDA and
  ROCm contexts are compiled only when their macros are defined.)\<close>

datatype out_elem = Out_elem cxx_type | Out_string

primrec out_lite :: "out_elem \<Rightarrow> lite_elem" where
  "out_lite (Out_elem T) = Elem T"
| "out_lite Out_string = Elem_string"

datatype arg_type =
    Ctx_ptr | Ctx_ref
  | In_array_ptr | In_array_ref | Out_array_ptr | Out_array_ref
  | In_tensor_ptr lite_elem | In_tensor_ref lite_elem | Opt_in_tensor lite_elem
  | In_span_ptr lite_elem | In_span_ref lite_elem | Opt_in_span lite_elem
  | Scalar lite_elem | Opt_scalar lite_elem
  | Out_tensor_ptr out_elem | Out_tensor_ref out_elem | Opt_out_tensor out_elem

text \<open>The objects that \<open>args\<close> owns, and the components of the tuple: the context, a pointer or reference to the
  object \<open>args[n]\<close>, the span of \<open>args[n]\<close>, a scalar (the address of a number, a copy of a string, a view into
  \<open>args[n]\<close>) or an empty \<open>optional\<close>.\<close>

datatype lite_arg = Arg_array TensorArray | Arg_tensor lite_tensor

datatype arg_value =
    Val_ctx ref | Val_arg nat | Val_span nat Span | Val_num ref | Val_string string | Val_view nat "int \<times> int" | Val_none

section \<open>CreateTuple\<close>

definition lite_AsSpan :: "'s ort_lib \<Rightarrow> lite_tensor \<Rightarrow> ('s, Span \<times> lite_tensor) cxx" where
  "lite_AsSpan A t = (case t of
     Num_tensor T x \<Rightarrow> bindx (Tensor_AsSpan A x) (\<lambda>(sp, x'). okx (sp, Num_tensor T x'))
   | String_tensor x \<Rightarrow> Tensor_string_AsSpan x
   | View_tensor x \<Rightarrow> Tensor_string_view_AsSpan x)"

definition lite_AsScalar :: "'s ort_lib \<Rightarrow> nat \<Rightarrow> lite_tensor \<Rightarrow> ('s, arg_value) cxx" where
  "lite_AsScalar A n t = (case t of
     Num_tensor T x \<Rightarrow> bindx (Tensor_AsScalar A x) (\<lambda>p. okx (Val_num p))
   | String_tensor x \<Rightarrow> bindx (Tensor_string_AsScalar x) (\<lambda>s. okx (Val_string s))
   | View_tensor x \<Rightarrow> bindx (Tensor_string_view_AsScalar x) (\<lambda>v. okx (Val_view n v)))"

definition cpu_only :: "string \<Rightarrow> string \<Rightarrow> ('s, 'a) cxx \<Rightarrow> ('s, 'a) cxx" where
  "cpu_only what ep m = (if ''CPUExecutionProvider'' \<noteq> ep then
     throwx (Ort_Exception (what @ '' input could only be applied to CPU EP'') (OrtErrorCode_value ORT_RUNTIME_EXCEPTION)) else m)"

text \<open>The bodies of the overloads, up to the recursive call.\<close>

definition tuple_array :: "'s ort_lib \<Rightarrow> int \<Rightarrow> ref \<Rightarrow> int \<Rightarrow> bool \<Rightarrow> lite_arg list \<Rightarrow> ('s, arg_value \<times> lite_arg list) cxx" where
  "tuple_array A mx ctx i inp args =
     bindx (TensorArray_ctor A mx ctx i inp) (\<lambda>a. okx (Val_arg (length args), args @ [Arg_array a]))"

definition tuple_tensor :: "'s ort_lib \<Rightarrow> int \<Rightarrow> lite_elem \<Rightarrow> ref \<Rightarrow> int \<Rightarrow> bool \<Rightarrow> lite_arg list
    \<Rightarrow> ('s, arg_value \<times> lite_arg list) cxx" where
  "tuple_tensor A mx e ctx i inp args =
     bindx (make_tensor A mx e ctx i inp) (\<lambda>t. okx (Val_arg (length args), args @ [Arg_tensor t]))"

definition tuple_span :: "'s ort_lib \<Rightarrow> int \<Rightarrow> string \<Rightarrow> lite_elem \<Rightarrow> ref \<Rightarrow> int \<Rightarrow> lite_arg list
    \<Rightarrow> ('s, arg_value \<times> lite_arg list) cxx" where
  "tuple_span A mx ep e ctx i args = cpu_only ''span'' ep
     (bindx (make_tensor A mx e ctx i True) (\<lambda>t.
      bindx (lite_AsSpan A t) (\<lambda>(sp, t'). okx (Val_span (length args) sp, args @ [Arg_tensor t']))))"

definition tuple_scalar :: "'s ort_lib \<Rightarrow> int \<Rightarrow> string \<Rightarrow> lite_elem \<Rightarrow> ref \<Rightarrow> int \<Rightarrow> lite_arg list
    \<Rightarrow> ('s, arg_value \<times> lite_arg list) cxx" where
  "tuple_scalar A mx ep e ctx i args = cpu_only ''scalar'' ep
     (bindx (make_tensor A mx e ctx i True) (\<lambda>t.
      bindx (lite_AsScalar A (length args) t) (\<lambda>v. okx (v, args @ [Arg_tensor t]))))"

definition tuple_optional :: "bool \<Rightarrow> (lite_arg list \<Rightarrow> ('s, arg_value \<times> lite_arg list) cxx) \<Rightarrow> lite_arg list
    \<Rightarrow> ('s, arg_value \<times> lite_arg list) cxx" where
  "tuple_optional given m args = (if given then m args else okx (Val_none, args))"

text \<open>The rest of the overload: the recursive call on what \<open>args\<close> is now, and \<open>std::tuple_cat\<close>.\<close>

definition then_tuple :: "('s, arg_value \<times> lite_arg list) cxx \<Rightarrow> (lite_arg list \<Rightarrow> ('s, arg_value list \<times> lite_arg list) cxx)
    \<Rightarrow> ('s, arg_value list \<times> lite_arg list) cxx" where
  "then_tuple current nxt =
     bindx current (\<lambda>(v, args). bindx (nxt args) (\<lambda>(vs, args'). okx (v # vs, args')))"

fun CreateTuple :: "'s ort_lib \<Rightarrow> int \<Rightarrow> ref \<Rightarrow> int \<Rightarrow> int \<Rightarrow> string \<Rightarrow> arg_type list \<Rightarrow> int \<Rightarrow> int \<Rightarrow> lite_arg list
    \<Rightarrow> ('s, arg_value list \<times> lite_arg list) cxx" where
  "CreateTuple A mx ctx ni no ep [] i j args = okx ([], args)"
| "CreateTuple A mx ctx ni no ep (Ctx_ptr # ts) i j args =
     then_tuple (okx (Val_ctx ctx, args)) (CreateTuple A mx ctx ni no ep ts i j)"
| "CreateTuple A mx ctx ni no ep (Ctx_ref # ts) i j args =
     then_tuple (okx (Val_ctx ctx, args)) (CreateTuple A mx ctx ni no ep ts i j)"
| "CreateTuple A mx ctx ni no ep (In_array_ptr # ts) i j args =
     then_tuple (tuple_array A mx ctx i True args) (CreateTuple A mx ctx ni no ep ts (i + 1) j)"
| "CreateTuple A mx ctx ni no ep (In_array_ref # ts) i j args =
     then_tuple (tuple_array A mx ctx i True args) (CreateTuple A mx ctx ni no ep ts (i + 1) j)"
| "CreateTuple A mx ctx ni no ep (Out_array_ptr # ts) i j args =
     then_tuple (tuple_array A mx ctx j False args) (CreateTuple A mx ctx ni no ep ts i (j + 1))"
| "CreateTuple A mx ctx ni no ep (Out_array_ref # ts) i j args =
     then_tuple (tuple_array A mx ctx j False args) (CreateTuple A mx ctx ni no ep ts i (j + 1))"
| "CreateTuple A mx ctx ni no ep (In_tensor_ptr e # ts) i j args =
     then_tuple (tuple_tensor A mx e ctx i True args) (CreateTuple A mx ctx ni no ep ts (i + 1) j)"
| "CreateTuple A mx ctx ni no ep (In_tensor_ref e # ts) i j args =
     then_tuple (tuple_tensor A mx e ctx i True args) (CreateTuple A mx ctx ni no ep ts (i + 1) j)"
| "CreateTuple A mx ctx ni no ep (Opt_in_tensor e # ts) i j args =
     then_tuple (tuple_optional (i < ni) (tuple_tensor A mx e ctx i True) args) (CreateTuple A mx ctx ni no ep ts (i + 1) j)"
| "CreateTuple A mx ctx ni no ep (In_span_ptr e # ts) i j args =
     then_tuple (tuple_span A mx ep e ctx i args) (CreateTuple A mx ctx ni no ep ts (i + 1) j)"
| "CreateTuple A mx ctx ni no ep (In_span_ref e # ts) i j args =
     then_tuple (tuple_span A mx ep e ctx i args) (CreateTuple A mx ctx ni no ep ts (i + 1) j)"
| "CreateTuple A mx ctx ni no ep (Opt_in_span e # ts) i j args =
     then_tuple (tuple_optional (i < ni) (tuple_span A mx ep e ctx i) args) (CreateTuple A mx ctx ni no ep ts (i + 1) j)"
| "CreateTuple A mx ctx ni no ep (Scalar e # ts) i j args =
     then_tuple (tuple_scalar A mx ep e ctx i args) (CreateTuple A mx ctx ni no ep ts (i + 1) j)"
| "CreateTuple A mx ctx ni no ep (Opt_scalar e # ts) i j args =
     then_tuple (tuple_optional (i < ni) (tuple_scalar A mx ep e ctx i) args) (CreateTuple A mx ctx ni no ep ts (i + 1) j)"
| "CreateTuple A mx ctx ni no ep (Out_tensor_ptr e # ts) i j args =
     then_tuple (tuple_tensor A mx (out_lite e) ctx j False args) (CreateTuple A mx ctx ni no ep ts i (j + 1))"
| "CreateTuple A mx ctx ni no ep (Out_tensor_ref e # ts) i j args =
     then_tuple (tuple_tensor A mx (out_lite e) ctx j False args) (CreateTuple A mx ctx ni no ep ts i (j + 1))"
| "CreateTuple A mx ctx ni no ep (Opt_out_tensor e # ts) i j args =
     then_tuple (tuple_optional (j < no) (tuple_tensor A mx (out_lite e) ctx j False) args) (CreateTuple A mx ctx ni no ep ts i (j + 1))"

section \<open>ParseArgs\<close>

text \<open>The lines \<open>PARSE_ARGS(data_type, onnx_type)\<close>.\<close>

primrec parse_num :: "cxx_type \<Rightarrow> ONNXTensorElementDataType" where
  "parse_num Cxx_bool = ONNX_TENSOR_ELEMENT_DATA_TYPE_BOOL"
| "parse_num Cxx_float = ONNX_TENSOR_ELEMENT_DATA_TYPE_FLOAT"
| "parse_num Cxx_Float16_t = ONNX_TENSOR_ELEMENT_DATA_TYPE_FLOAT16"
| "parse_num Cxx_BFloat16_t = ONNX_TENSOR_ELEMENT_DATA_TYPE_BFLOAT16"
| "parse_num Cxx_double = ONNX_TENSOR_ELEMENT_DATA_TYPE_DOUBLE"
| "parse_num Cxx_int8_t = ONNX_TENSOR_ELEMENT_DATA_TYPE_INT8"
| "parse_num Cxx_int16_t = ONNX_TENSOR_ELEMENT_DATA_TYPE_INT16"
| "parse_num Cxx_int32_t = ONNX_TENSOR_ELEMENT_DATA_TYPE_INT32"
| "parse_num Cxx_int64_t = ONNX_TENSOR_ELEMENT_DATA_TYPE_INT64"
| "parse_num Cxx_uint8_t = ONNX_TENSOR_ELEMENT_DATA_TYPE_UINT8"
| "parse_num Cxx_uint16_t = ONNX_TENSOR_ELEMENT_DATA_TYPE_UINT16"
| "parse_num Cxx_uint32_t = ONNX_TENSOR_ELEMENT_DATA_TYPE_UINT32"
| "parse_num Cxx_uint64_t = ONNX_TENSOR_ELEMENT_DATA_TYPE_UINT64"
| "parse_num Cxx_Float8E4M3FN_t = ONNX_TENSOR_ELEMENT_DATA_TYPE_FLOAT8E4M3FN"
| "parse_num Cxx_Float8E4M3FNUZ_t = ONNX_TENSOR_ELEMENT_DATA_TYPE_FLOAT8E4M3FNUZ"
| "parse_num Cxx_Float8E5M2_t = ONNX_TENSOR_ELEMENT_DATA_TYPE_FLOAT8E5M2"
| "parse_num Cxx_Float8E5M2FNUZ_t = ONNX_TENSOR_ELEMENT_DATA_TYPE_FLOAT8E5M2FNUZ"

primrec parse_elem :: "lite_elem \<Rightarrow> ONNXTensorElementDataType" where
  "parse_elem (Elem T) = parse_num T"
| "parse_elem Elem_string = ONNX_TENSOR_ELEMENT_DATA_TYPE_STRING"
| "parse_elem Elem_string_view = ONNX_TENSOR_ELEMENT_DATA_TYPE_STRING"

fun ParseArgs :: "arg_type list \<Rightarrow> ONNXTensorElementDataType list \<Rightarrow> ONNXTensorElementDataType list
    \<Rightarrow> ONNXTensorElementDataType list \<times> ONNXTensorElementDataType list" where
  "ParseArgs [] ins outs = (ins, outs)"
| "ParseArgs (Ctx_ptr # ts) ins outs = ParseArgs ts ins outs"
| "ParseArgs (Ctx_ref # ts) ins outs = ParseArgs ts ins outs"
| "ParseArgs (In_array_ref # ts) ins outs = ParseArgs ts (ins @ [ONNX_TENSOR_ELEMENT_DATA_TYPE_UNDEFINED]) outs"
| "ParseArgs (In_array_ptr # ts) ins outs = ParseArgs ts (ins @ [ONNX_TENSOR_ELEMENT_DATA_TYPE_UNDEFINED]) outs"
| "ParseArgs (Out_array_ref # ts) ins outs = ParseArgs ts ins (outs @ [ONNX_TENSOR_ELEMENT_DATA_TYPE_UNDEFINED])"
| "ParseArgs (Out_array_ptr # ts) ins outs = ParseArgs ts ins (outs @ [ONNX_TENSOR_ELEMENT_DATA_TYPE_UNDEFINED])"
| "ParseArgs (In_tensor_ptr e # ts) ins outs = ParseArgs ts (ins @ [parse_elem e]) outs"
| "ParseArgs (In_tensor_ref e # ts) ins outs = ParseArgs ts (ins @ [parse_elem e]) outs"
| "ParseArgs (Opt_in_tensor e # ts) ins outs = ParseArgs ts (ins @ [parse_elem e]) outs"
| "ParseArgs (In_span_ptr e # ts) ins outs = ParseArgs ts (ins @ [parse_elem e]) outs"
| "ParseArgs (In_span_ref e # ts) ins outs = ParseArgs ts (ins @ [parse_elem e]) outs"
| "ParseArgs (Opt_in_span e # ts) ins outs = ParseArgs ts (ins @ [parse_elem e]) outs"
| "ParseArgs (Scalar e # ts) ins outs = ParseArgs ts (ins @ [parse_elem e]) outs"
| "ParseArgs (Opt_scalar e # ts) ins outs = ParseArgs ts (ins @ [parse_elem e]) outs"
| "ParseArgs (Out_tensor_ptr e # ts) ins outs = ParseArgs ts ins (outs @ [parse_elem (out_lite e)])"
| "ParseArgs (Out_tensor_ref e # ts) ins outs = ParseArgs ts ins (outs @ [parse_elem (out_lite e)])"
| "ParseArgs (Opt_out_tensor e # ts) ins outs = ParseArgs ts ins (outs @ [parse_elem (out_lite e)])"

section \<open>The callback table\<close>

text \<open>
  A pointer in \<open>OrtCustomOp\<close> may be left uninitialised, be null, or point to a function. Only the callbacks where
  this differs between operators are modelled so; the others are always set and their value is recorded. The
  result of a callback that indexes a vector is \<open>None\<close> out of range.
\<close>

datatype 'f callback = Indeterminate | Null_fn | Fn_ptr 'f

record ('s, 'k) OrtCustomOp =
  op_version :: nat
  op_CreateKernel :: "('s ort_lib \<Rightarrow> ref \<Rightarrow> ('s, 'k) cxx) callback"
  op_GetName :: string
  op_GetExecutionProviderType :: "string option"
  op_GetInputType :: "nat \<Rightarrow> ONNXTensorElementDataType option"
  op_GetInputTypeCount :: nat
  op_GetOutputType :: "nat \<Rightarrow> ONNXTensorElementDataType option"
  op_GetOutputTypeCount :: nat
  op_KernelCompute :: "('s ort_lib \<Rightarrow> 'k \<Rightarrow> ref \<Rightarrow> ('s, unit) cxx) callback"
  op_KernelDestroy :: "('s ort_lib \<Rightarrow> 'k \<Rightarrow> ('s ort, unit) state) callback"
  op_GetInputCharacteristic :: "nat \<Rightarrow> OrtCustomOpInputOutputCharacteristic option"
  op_GetOutputCharacteristic :: "nat \<Rightarrow> OrtCustomOpInputOutputCharacteristic option"
  op_GetInputMemoryType :: "nat \<Rightarrow> OrtMemType"
  op_GetVariadicInputMinArity :: int
  op_GetVariadicInputHomogeneity :: int
  op_GetVariadicOutputMinArity :: int
  op_GetVariadicOutputHomogeneity :: int
  op_CreateKernelV2 :: "('s ort_lib \<Rightarrow> ref \<Rightarrow> ('s, ref \<times> 'k) cxx) callback"
  op_KernelComputeV2 :: "('s ort_lib \<Rightarrow> 'k \<Rightarrow> ref \<Rightarrow> ('s, ref) cxx) callback"
  op_InferOutputShapeFn :: "('s ort_lib \<Rightarrow> ref \<Rightarrow> ('s, ref) cxx) callback"
  op_GetStartVersion :: int
  op_GetEndVersion :: int
  op_GetMayInplace :: "unit callback"
  op_ReleaseMayInplace :: "unit callback"
  op_GetAliasMap :: "unit callback"
  op_ReleaseAliasMap :: "unit callback"

definition ORT_API_VERSION :: nat where "ORT_API_VERSION = 20"

definition MAX_CUSTOM_OP_END_VER :: int where "MAX_CUSTOM_OP_END_VER = 2 ^ 31 - 1"

text \<open>Calls of the author's functions, and \<open>new\<close>.\<close>

definition custom_call :: "'s ort_lib \<Rightarrow> string \<Rightarrow> ref \<Rightarrow> ort_arg list \<Rightarrow> ('s, unit) cxx" where
  "custom_call A f self args = do {
     r \<leftarrow> perform A (Custom_op f self args);
     if o_int r \<noteq> 0 then throwx (Custom_op_exn (o_str r)) else okx () }"

definition custom_status :: "'s ort_lib \<Rightarrow> string \<Rightarrow> ref \<Rightarrow> ort_arg list \<Rightarrow> ('s, ref) cxx" where
  "custom_status A f self args = do {
     r \<leftarrow> perform A (Custom_op_status f self args);
     if o_int r \<noteq> 0 then throwx (Custom_op_exn (o_str r)) else okx (o_status r) }"

definition new_object :: "'s ort_lib \<Rightarrow> string \<Rightarrow> ('s, ref) cxx" where
  "new_object A cls = do {
     r \<leftarrow> perform A (Cxx_new cls);
     if o_ref r = NULL then throwx Std_bad_alloc else okx (o_ref r) }"

definition delete_object :: "'s ort_lib \<Rightarrow> ref \<Rightarrow> ('s ort, unit) state" where
  "delete_object A p = performs A (Cxx_delete p)"

text \<open>The shape inference callback: the \<open>Status\<close> the author's function returns is converted to its pointer, and the
  temporary is destroyed, which releases what the pointer points to.\<close>

definition infer_output_shape :: "'s ort_lib \<Rightarrow> ref \<Rightarrow> ref \<Rightarrow> ('s, ref) cxx" where
  "infer_output_shape A fn ort_ctx =
     bindx (ShapeInferContext_ctor A ort_ctx) (\<lambda>_.
     bindx (custom_status A ''shape_infer_fn'' fn [ARef ort_ctx]) (\<lambda>st.
     scopex (OrtRelease A KStatus st) (okx st)))"

section \<open>Lite operators\<close>

record OrtLiteCustomOp =
  lo_op_name :: string
  lo_execution_provider :: string
  lo_input_types :: "ONNXTensorElementDataType list"
  lo_output_types :: "ONNXTensorElementDataType list"
  lo_shape_infer_fn :: ref
  lo_start_ver :: int
  lo_end_ver :: int

definition type_at :: "'a list \<Rightarrow> nat \<Rightarrow> 'a option" where
  "type_at ts i = (if i < length ts then Some (ts ! i) else None)"

definition characteristic :: "ONNXTensorElementDataType \<Rightarrow> OrtCustomOpInputOutputCharacteristic" where
  "characteristic ty = (if ty = ONNX_TENSOR_ELEMENT_DATA_TYPE_UNDEFINED then INPUT_OUTPUT_VARIADIC else INPUT_OUTPUT_OPTIONAL)"

text \<open>The constructor of \<open>OrtLiteCustomOp\<close>. The variadic callbacks are assigned twice; the second values stay. The
  two callbacks it does not assign are left to the derived structs.\<close>

definition OrtLiteCustomOp_ctor :: "OrtLiteCustomOp \<Rightarrow> ('s, 'k) OrtCustomOp" where
  "OrtLiteCustomOp_ctor self = \<lparr>
     op_version = ORT_API_VERSION,
     op_CreateKernel = Indeterminate,
     op_GetName = lo_op_name self,
     op_GetExecutionProviderType = Some (lo_execution_provider self),
     op_GetInputType = type_at (lo_input_types self),
     op_GetInputTypeCount = length (lo_input_types self),
     op_GetOutputType = type_at (lo_output_types self),
     op_GetOutputTypeCount = length (lo_output_types self),
     op_KernelCompute = Null_fn,
     op_KernelDestroy = Indeterminate,
     op_GetInputCharacteristic = map_option characteristic \<circ> type_at (lo_input_types self),
     op_GetOutputCharacteristic = map_option characteristic \<circ> type_at (lo_output_types self),
     op_GetInputMemoryType = (\<lambda>_. OrtMemTypeDefault),
     op_GetVariadicInputMinArity = 0,
     op_GetVariadicInputHomogeneity = 0,
     op_GetVariadicOutputMinArity = 0,
     op_GetVariadicOutputHomogeneity = 0,
     op_CreateKernelV2 = Null_fn,
     op_KernelComputeV2 = Null_fn,
     op_InferOutputShapeFn = Null_fn,
     op_GetStartVersion = lo_start_ver self,
     op_GetEndVersion = lo_end_ver self,
     op_GetMayInplace = Null_fn, op_ReleaseMayInplace = Null_fn,
     op_GetAliasMap = Null_fn, op_ReleaseAliasMap = Null_fn\<rparr>"

text \<open>The kernel of a function operator and of a struct operator; the first holds the function, the second the
  object (\<open>k_target\<close>). A kernel is handled with its address.\<close>

record Kernel =
  k_num_input :: int
  k_num_output :: int
  k_target :: ref
  k_ep :: string

type_synonym kernel = "ref \<times> Kernel"

text \<open>An argument as the author's function receives it.\<close>

primrec pass_value :: "arg_value \<Rightarrow> ort_arg" where
  "pass_value (Val_ctx p) = ARef p"
| "pass_value (Val_arg n) = AInt (int n)"
| "pass_value (Val_span n sp) = AInts [int n, int (span_data sp), span_size sp]"
| "pass_value (Val_num p) = ARef p"
| "pass_value (Val_string s) = AStr s"
| "pass_value (Val_view n v) = AInts [int n, fst v, snd v]"
| "pass_value Val_none = ARefs []"

subsection \<open>Functions\<close>

definition OrtLiteCustomFunc_KernelCompute :: "int \<Rightarrow> arg_type list \<Rightarrow> 's ort_lib \<Rightarrow> kernel \<Rightarrow> ref \<Rightarrow> ('s, unit) cxx" where
  "OrtLiteCustomFunc_KernelCompute mx ts A k context =
     bindx (CreateTuple A mx context (k_num_input (snd k)) (k_num_output (snd k)) (k_ep (snd k)) ts 0 0 []) (\<lambda>(t, args).
     custom_call A ''compute_fn'' (k_target (snd k)) (map pass_value t))"

definition OrtLiteCustomFunc_KernelComputeV2 :: "int \<Rightarrow> arg_type list \<Rightarrow> 's ort_lib \<Rightarrow> kernel \<Rightarrow> ref \<Rightarrow> ('s, ref) cxx" where
  "OrtLiteCustomFunc_KernelComputeV2 mx ts A k context =
     bindx (CreateTuple A mx context (k_num_input (snd k)) (k_num_output (snd k)) (k_ep (snd k)) ts 0 0 []) (\<lambda>(t, args).
     custom_status A ''compute_fn_return_status'' (k_target (snd k)) (map pass_value t))"

definition OrtLiteCustomFunc_CreateKernel :: "string \<Rightarrow> ref \<Rightarrow> 's ort_lib \<Rightarrow> ref \<Rightarrow> ('s, kernel) cxx" where
  "OrtLiteCustomFunc_CreateKernel ep fn A info =
     bindx (new_object A ''OrtLiteCustomFunc::Kernel'') (\<lambda>kernel. on_throw (delete_object A kernel)
       (bindx (KernelInfo_GetInputCount A info) (\<lambda>ni.
        bindx (KernelInfo_GetOutputCount A info) (\<lambda>no.
        okx (kernel, \<lparr>k_num_input = ni, k_num_output = no, k_target = fn, k_ep = ep\<rparr>)))))"

definition OrtLiteCustomFunc_KernelDestroy :: "'s ort_lib \<Rightarrow> kernel \<Rightarrow> ('s ort, unit) state" where
  "OrtLiteCustomFunc_KernelDestroy A k = delete_object A (fst k)"

definition parsed_op :: "arg_type list \<Rightarrow> string \<Rightarrow> string \<Rightarrow> ref \<Rightarrow> int \<Rightarrow> int \<Rightarrow> OrtLiteCustomOp" where
  "parsed_op ts op_name ep shape_infer_fn start_ver end_ver = \<lparr>lo_op_name = op_name, lo_execution_provider = ep,
     lo_input_types = fst (ParseArgs ts [] []), lo_output_types = snd (ParseArgs ts [] []),
     lo_shape_infer_fn = shape_infer_fn, lo_start_ver = start_ver, lo_end_ver = end_ver\<rparr>"

definition OrtLiteCustomFunc_ctor :: "int \<Rightarrow> arg_type list \<Rightarrow> string \<Rightarrow> string \<Rightarrow> ref \<Rightarrow> ref \<Rightarrow> int \<Rightarrow> int \<Rightarrow> ('s, kernel) OrtCustomOp" where
  "OrtLiteCustomFunc_ctor mx ts op_name ep compute_fn shape_infer_fn start_ver end_ver =
     (OrtLiteCustomOp_ctor (parsed_op ts op_name ep shape_infer_fn start_ver end_ver))\<lparr>
       op_KernelCompute := Fn_ptr (OrtLiteCustomFunc_KernelCompute mx ts),
       op_CreateKernel := Fn_ptr (OrtLiteCustomFunc_CreateKernel ep compute_fn),
       op_KernelDestroy := Fn_ptr OrtLiteCustomFunc_KernelDestroy,
       op_InferOutputShapeFn := (if shape_infer_fn \<noteq> NULL then Fn_ptr (\<lambda>A. infer_output_shape A shape_infer_fn) else Null_fn)\<rparr>"

definition OrtLiteCustomFunc_ctor_status :: "int \<Rightarrow> arg_type list \<Rightarrow> string \<Rightarrow> string \<Rightarrow> ref \<Rightarrow> ref \<Rightarrow> int \<Rightarrow> int \<Rightarrow> ('s, kernel) OrtCustomOp" where
  "OrtLiteCustomFunc_ctor_status mx ts op_name ep compute_fn_return_status shape_infer_fn start_ver end_ver =
     (OrtLiteCustomOp_ctor (parsed_op ts op_name ep shape_infer_fn start_ver end_ver))\<lparr>
       op_KernelComputeV2 := Fn_ptr (OrtLiteCustomFunc_KernelComputeV2 mx ts),
       op_CreateKernel := Fn_ptr (OrtLiteCustomFunc_CreateKernel ep compute_fn_return_status),
       op_KernelDestroy := Fn_ptr OrtLiteCustomFunc_KernelDestroy,
       op_InferOutputShapeFn := (if shape_infer_fn \<noteq> NULL then Fn_ptr (\<lambda>A. infer_output_shape A shape_infer_fn) else Null_fn)\<rparr>"

subsection \<open>Structs\<close>

definition OrtLiteCustomStruct_CreateKernel :: "string \<Rightarrow> 's ort_lib \<Rightarrow> ref \<Rightarrow> ('s, kernel) cxx" where
  "OrtLiteCustomStruct_CreateKernel ep A info =
     bindx (new_object A ''OrtLiteCustomStruct::Kernel'') (\<lambda>kernel. on_throw (delete_object A kernel)
       (bindx (KernelInfo_GetInputCount A info) (\<lambda>ni.
        bindx (KernelInfo_GetOutputCount A info) (\<lambda>no.
        bindx (new_object A ''CustomOp'') (\<lambda>custom_op.
        bindx (on_throw (delete_object A custom_op) (custom_call A ''CustomOp::CustomOp'' custom_op [ARef info])) (\<lambda>_.
        okx (kernel, \<lparr>k_num_input = ni, k_num_output = no, k_target = custom_op, k_ep = ep\<rparr>)))))))"

definition OrtLiteCustomStruct_KernelDestroy :: "'s ort_lib \<Rightarrow> kernel \<Rightarrow> ('s ort, unit) state" where
  "OrtLiteCustomStruct_KernelDestroy A k = do {
     performs A (Custom_op ''CustomOp::~CustomOp'' (k_target (snd k)) []);
     delete_object A (k_target (snd k));
     delete_object A (fst k) }"

definition OrtLiteCustomStruct_KernelCompute :: "int \<Rightarrow> arg_type list \<Rightarrow> 's ort_lib \<Rightarrow> kernel \<Rightarrow> ref \<Rightarrow> ('s, unit) cxx" where
  "OrtLiteCustomStruct_KernelCompute mx ts A k context =
     bindx (CreateTuple A mx context (k_num_input (snd k)) (k_num_output (snd k)) (k_ep (snd k)) ts 0 0 []) (\<lambda>(t, args).
     custom_call A ''CustomOp::Compute'' (k_target (snd k)) (map pass_value t))"

definition OrtLiteCustomStruct_KernelComputeV2 :: "int \<Rightarrow> arg_type list \<Rightarrow> 's ort_lib \<Rightarrow> kernel \<Rightarrow> ref \<Rightarrow> ('s, ref) cxx" where
  "OrtLiteCustomStruct_KernelComputeV2 mx ts A k context =
     bindx (CreateTuple A mx context (k_num_input (snd k)) (k_num_output (snd k)) (k_ep (snd k)) ts 0 0 []) (\<lambda>(t, args).
     custom_status A ''CustomOp::Compute'' (k_target (snd k)) (map pass_value t))"

text \<open>\<open>SetCompute\<close>: the overload is selected by the result type of \<open>CustomOp::Compute\<close>.\<close>

definition OrtLiteCustomStruct_SetCompute :: "int \<Rightarrow> bool \<Rightarrow> arg_type list \<Rightarrow> ('s, kernel) OrtCustomOp \<Rightarrow> ('s, kernel) OrtCustomOp" where
  "OrtLiteCustomStruct_SetCompute mx returns_status ts op =
     (if returns_status then op\<lparr>op_KernelComputeV2 := Fn_ptr (OrtLiteCustomStruct_KernelComputeV2 mx ts)\<rparr>
      else op\<lparr>op_KernelCompute := Fn_ptr (OrtLiteCustomStruct_KernelCompute mx ts)\<rparr>)"

text \<open>\<open>SetShapeInfer\<close>: the overload is selected by whether the struct has \<open>InferOutputShape\<close> (its address, or null).\<close>

definition OrtLiteCustomStruct_SetShapeInfer :: "ref \<Rightarrow> ('s, kernel) OrtCustomOp \<Rightarrow> ('s, kernel) OrtCustomOp" where
  "OrtLiteCustomStruct_SetShapeInfer infer op =
     op\<lparr>op_InferOutputShapeFn := (if infer \<noteq> NULL then Fn_ptr (\<lambda>A. infer_output_shape A infer) else Null_fn)\<rparr>"

definition OrtLiteCustomStruct_ctor :: "int \<Rightarrow> bool \<Rightarrow> arg_type list \<Rightarrow> ref \<Rightarrow> string \<Rightarrow> string \<Rightarrow> int \<Rightarrow> int \<Rightarrow> ('s, kernel) OrtCustomOp" where
  "OrtLiteCustomStruct_ctor mx returns_status ts infer op_name ep start_ver end_ver =
     OrtLiteCustomStruct_SetShapeInfer infer
       ((OrtLiteCustomStruct_SetCompute mx returns_status ts
          (OrtLiteCustomOp_ctor (parsed_op ts op_name ep NULL start_ver end_ver)))\<lparr>
        op_CreateKernel := Fn_ptr (OrtLiteCustomStruct_CreateKernel ep),
        op_KernelDestroy := Fn_ptr OrtLiteCustomStruct_KernelDestroy\<rparr>)"

text \<open>The three overloads of \<open>CreateLiteCustomOp\<close> allocate the operator and hand it to the caller.\<close>

definition CreateLiteCustomOp :: "'s ort_lib \<Rightarrow> string \<Rightarrow> ('s, kernel) OrtCustomOp \<Rightarrow> ('s, ref \<times> ('s, kernel) OrtCustomOp) cxx" where
  "CreateLiteCustomOp A cls op = bindx (new_object A cls) (\<lambda>p. okx (p, op))"

definition CreateLiteCustomOp_func :: "'s ort_lib \<Rightarrow> int \<Rightarrow> arg_type list \<Rightarrow> string \<Rightarrow> string \<Rightarrow> ref \<Rightarrow> ref \<Rightarrow> int \<Rightarrow> int
    \<Rightarrow> ('s, ref \<times> ('s, kernel) OrtCustomOp) cxx" where
  "CreateLiteCustomOp_func A mx ts op_name ep fn infer start_ver end_ver =
     CreateLiteCustomOp A ''OrtLiteCustomFunc'' (OrtLiteCustomFunc_ctor mx ts op_name ep fn infer start_ver end_ver)"

definition CreateLiteCustomOp_func_status :: "'s ort_lib \<Rightarrow> int \<Rightarrow> arg_type list \<Rightarrow> string \<Rightarrow> string \<Rightarrow> ref \<Rightarrow> ref \<Rightarrow> int \<Rightarrow> int
    \<Rightarrow> ('s, ref \<times> ('s, kernel) OrtCustomOp) cxx" where
  "CreateLiteCustomOp_func_status A mx ts op_name ep fn infer start_ver end_ver =
     CreateLiteCustomOp A ''OrtLiteCustomFunc'' (OrtLiteCustomFunc_ctor_status mx ts op_name ep fn infer start_ver end_ver)"

definition CreateLiteCustomOp_struct :: "'s ort_lib \<Rightarrow> int \<Rightarrow> bool \<Rightarrow> arg_type list \<Rightarrow> ref \<Rightarrow> string \<Rightarrow> string \<Rightarrow> int \<Rightarrow> int
    \<Rightarrow> ('s, ref \<times> ('s, kernel) OrtCustomOp) cxx" where
  "CreateLiteCustomOp_struct A mx returns_status ts infer op_name ep start_ver end_ver =
     CreateLiteCustomOp A ''OrtLiteCustomStruct'' (OrtLiteCustomStruct_ctor mx returns_status ts infer op_name ep start_ver end_ver)"

section \<open>CustomOpBase\<close>

text \<open>
  The members of the derived class \<open>TOp\<close> (and of its kernel class) that the table's callbacks call. For the
  members with a default implementation in \<open>CustomOpBase\<close>, \<open>None\<close> means that \<open>TOp\<close> does not hide it.
\<close>

record ('s, 'k) TOp =
  tm_GetName :: string
  tm_GetExecutionProviderType :: "string option option"
  tm_GetInputTypeCount :: nat
  tm_GetInputType :: "nat \<Rightarrow> ONNXTensorElementDataType option"
  tm_GetInputMemoryType :: "(nat \<Rightarrow> OrtMemType) option"
  tm_GetOutputTypeCount :: nat
  tm_GetOutputType :: "nat \<Rightarrow> ONNXTensorElementDataType option"
  tm_GetInputCharacteristic :: "(nat \<Rightarrow> OrtCustomOpInputOutputCharacteristic) option"
  tm_GetOutputCharacteristic :: "(nat \<Rightarrow> OrtCustomOpInputOutputCharacteristic) option"
  tm_GetVariadicInputMinArity :: "int option"
  tm_GetVariadicInputHomogeneity :: "bool option"
  tm_GetVariadicOutputMinArity :: "int option"
  tm_GetVariadicOutputHomogeneity :: "bool option"
  tm_CreateKernel :: "'s ort_lib \<Rightarrow> ref \<Rightarrow> ('s, 'k) cxx"
  tm_CreateKernelV2 :: "'s ort_lib \<Rightarrow> ref \<Rightarrow> ('s, ref \<times> 'k) cxx"
  tm_Compute :: "'s ort_lib \<Rightarrow> 'k \<Rightarrow> ref \<Rightarrow> ('s, unit) cxx"
  tm_ComputeV2 :: "'s ort_lib \<Rightarrow> 'k \<Rightarrow> ref \<Rightarrow> ('s, ref) cxx"
  tm_delete :: "'s ort_lib \<Rightarrow> 'k \<Rightarrow> ('s ort, unit) state"
  tm_InferOutputShape :: ref
  tm_start_ver :: int
  tm_end_ver :: int

definition CustomOpBase_GetExecutionProviderType :: "string option" where
  "CustomOpBase_GetExecutionProviderType = None"

definition CustomOpBase_GetInputCharacteristic :: "nat \<Rightarrow> OrtCustomOpInputOutputCharacteristic" where
  "CustomOpBase_GetInputCharacteristic i = INPUT_OUTPUT_REQUIRED"

definition CustomOpBase_GetOutputCharacteristic :: "nat \<Rightarrow> OrtCustomOpInputOutputCharacteristic" where
  "CustomOpBase_GetOutputCharacteristic i = INPUT_OUTPUT_REQUIRED"

definition CustomOpBase_GetInputMemoryType :: "nat \<Rightarrow> OrtMemType" where
  "CustomOpBase_GetInputMemoryType i = OrtMemTypeDefault"

definition CustomOpBase_GetVariadicInputMinArity :: int where "CustomOpBase_GetVariadicInputMinArity = 1"
definition CustomOpBase_GetVariadicInputHomogeneity :: bool where "CustomOpBase_GetVariadicInputHomogeneity = True"
definition CustomOpBase_GetVariadicOutputMinArity :: int where "CustomOpBase_GetVariadicOutputMinArity = 1"
definition CustomOpBase_GetVariadicOutputHomogeneity :: bool where "CustomOpBase_GetVariadicOutputHomogeneity = True"
definition CustomOpBase_GetSessionConfigKeys :: "string list" where "CustomOpBase_GetSessionConfigKeys = []"

definition hidden_by :: "'a \<Rightarrow> 'a option \<Rightarrow> 'a" where
  "hidden_by base derived = (case derived of Some f \<Rightarrow> f | None \<Rightarrow> base)"

definition CustomOpBase_SetShapeInferFn :: "ref \<Rightarrow> ('s ort_lib \<Rightarrow> ref \<Rightarrow> ('s, ref) cxx) callback" where
  "CustomOpBase_SetShapeInferFn infer = (if infer \<noteq> NULL then Fn_ptr (\<lambda>A. infer_output_shape A infer) else Null_fn)"

definition CustomOpBase_ctor :: "bool \<Rightarrow> ('s, 'k) TOp \<Rightarrow> ('s, 'k) OrtCustomOp" where
  "CustomOpBase_ctor WithStatus m = \<lparr>
     op_version = ORT_API_VERSION,
     op_CreateKernel = (if WithStatus then Indeterminate else Fn_ptr (tm_CreateKernel m)),
     op_GetName = tm_GetName m,
     op_GetExecutionProviderType = hidden_by CustomOpBase_GetExecutionProviderType (tm_GetExecutionProviderType m),
     op_GetInputType = tm_GetInputType m,
     op_GetInputTypeCount = tm_GetInputTypeCount m,
     op_GetOutputType = tm_GetOutputType m,
     op_GetOutputTypeCount = tm_GetOutputTypeCount m,
     op_KernelCompute = (if WithStatus then Indeterminate else Fn_ptr (tm_Compute m)),
     op_KernelDestroy = Fn_ptr (tm_delete m),
     op_GetInputCharacteristic = Some \<circ> hidden_by CustomOpBase_GetInputCharacteristic (tm_GetInputCharacteristic m),
     op_GetOutputCharacteristic = Some \<circ> hidden_by CustomOpBase_GetOutputCharacteristic (tm_GetOutputCharacteristic m),
     op_GetInputMemoryType = hidden_by CustomOpBase_GetInputMemoryType (tm_GetInputMemoryType m),
     op_GetVariadicInputMinArity = hidden_by CustomOpBase_GetVariadicInputMinArity (tm_GetVariadicInputMinArity m),
     op_GetVariadicInputHomogeneity = of_bool (hidden_by CustomOpBase_GetVariadicInputHomogeneity (tm_GetVariadicInputHomogeneity m)),
     op_GetVariadicOutputMinArity = hidden_by CustomOpBase_GetVariadicOutputMinArity (tm_GetVariadicOutputMinArity m),
     op_GetVariadicOutputHomogeneity = of_bool (hidden_by CustomOpBase_GetVariadicOutputHomogeneity (tm_GetVariadicOutputHomogeneity m)),
     op_CreateKernelV2 = (if WithStatus then Fn_ptr (tm_CreateKernelV2 m) else Null_fn),
     op_KernelComputeV2 = (if WithStatus then Fn_ptr (tm_ComputeV2 m) else Null_fn),
     op_InferOutputShapeFn = CustomOpBase_SetShapeInferFn (tm_InferOutputShape m),
     op_GetStartVersion = tm_start_ver m,
     op_GetEndVersion = tm_end_ver m,
     op_GetMayInplace = Null_fn, op_ReleaseMayInplace = Null_fn,
     op_GetAliasMap = Null_fn, op_ReleaseAliasMap = Null_fn\<rparr>"

section \<open>The schema and the arguments agree\<close>

text \<open>What \<open>ParseArgs\<close> appends for one parameter, and a test for the optional ones.\<close>

definition input_type :: "arg_type \<Rightarrow> ONNXTensorElementDataType option" where
  "input_type t = (case t of In_array_ptr \<Rightarrow> Some ONNX_TENSOR_ELEMENT_DATA_TYPE_UNDEFINED
     | In_array_ref \<Rightarrow> Some ONNX_TENSOR_ELEMENT_DATA_TYPE_UNDEFINED
     | In_tensor_ptr e \<Rightarrow> Some (parse_elem e) | In_tensor_ref e \<Rightarrow> Some (parse_elem e) | Opt_in_tensor e \<Rightarrow> Some (parse_elem e)
     | In_span_ptr e \<Rightarrow> Some (parse_elem e) | In_span_ref e \<Rightarrow> Some (parse_elem e) | Opt_in_span e \<Rightarrow> Some (parse_elem e)
     | Scalar e \<Rightarrow> Some (parse_elem e) | Opt_scalar e \<Rightarrow> Some (parse_elem e) | _ \<Rightarrow> None)"

definition output_type :: "arg_type \<Rightarrow> ONNXTensorElementDataType option" where
  "output_type t = (case t of Out_array_ptr \<Rightarrow> Some ONNX_TENSOR_ELEMENT_DATA_TYPE_UNDEFINED
     | Out_array_ref \<Rightarrow> Some ONNX_TENSOR_ELEMENT_DATA_TYPE_UNDEFINED
     | Out_tensor_ptr e \<Rightarrow> Some (parse_elem (out_lite e)) | Out_tensor_ref e \<Rightarrow> Some (parse_elem (out_lite e))
     | Opt_out_tensor e \<Rightarrow> Some (parse_elem (out_lite e)) | _ \<Rightarrow> None)"

definition is_opt :: "arg_type \<Rightarrow> bool" where
  "is_opt t = (case t of Opt_in_tensor e \<Rightarrow> True | Opt_in_span e \<Rightarrow> True | Opt_scalar e \<Rightarrow> True | Opt_out_tensor e \<Rightarrow> True | _ \<Rightarrow> False)"

lemma ParseArgs_types:
  "ParseArgs ts ins outs = (ins @ List.map_filter input_type ts, outs @ List.map_filter output_type ts)"
  by (induction ts ins outs rule: ParseArgs.induct) (simp_all add: List.map_filter_simps input_type_def output_type_def)

text \<open>The position of an argument object and the type it has in the schema.\<close>

primrec tensor_slot :: "lite_tensor \<Rightarrow> bool \<times> int \<times> ONNXTensorElementDataType" where
  "tensor_slot (Num_tensor T t) = (is_input t, indice t, TypeToTensorType T)"
| "tensor_slot (String_tensor t) = (is_input t, indice t, ONNX_TENSOR_ELEMENT_DATA_TYPE_STRING)"
| "tensor_slot (View_tensor t) = (is_input t, indice t, ONNX_TENSOR_ELEMENT_DATA_TYPE_STRING)"

primrec arg_slot :: "lite_arg \<Rightarrow> bool \<times> int \<times> ONNXTensorElementDataType" where
  "arg_slot (Arg_array a) = (is_input a, indice a, ONNX_TENSOR_ELEMENT_DATA_TYPE_UNDEFINED)"
| "arg_slot (Arg_tensor t) = tensor_slot t"

lemma parse_num_TypeToTensorType: "parse_num T = TypeToTensorType T"
  by (cases T) simp_all

lemma with_input_result:
  assumes "result (with_input A ctx i body) w = Inr x" "\<And>v ds w x. result (body v ds) w = Inr x \<Longrightarrow> P x"
  shows "P x"
  using assms(1) by (auto simp: with_input_def bindx_run scopex_run throw_run split: sum.splits if_splits intro: assms(2))

lemma ctor_slots:
  "result (Tensor_ctor A ctx i inp) w = Inr t \<Longrightarrow> is_input t = inp \<and> indice t = i"
  "result (Tensor_string_ctor A mx ctx i inp) w = Inr ts \<Longrightarrow> is_input ts = inp \<and> indice ts = i"
  "result (Tensor_string_view_ctor A mx ctx i inp) w = Inr tv \<Longrightarrow> is_input tv = inp \<and> indice tv = i"
  "result (TensorArray_ctor A mx ctx i inp) w = Inr a \<Longrightarrow> is_input a = inp \<and> indice a = i"
proof -
  show "result (Tensor_ctor A ctx i inp) w = Inr t \<Longrightarrow> is_input t = inp \<and> indice t = i"
    by (auto simp: Tensor_ctor_def Let_def ok_run TensorBase.defs Tensor.defs TensorBase_ctor_def split: if_splits
        elim!: with_input_result)
  show "result (Tensor_string_ctor A mx ctx i inp) w = Inr ts \<Longrightarrow> is_input ts = inp \<and> indice ts = i"
    by (auto simp: Tensor_string_ctor_def Let_def ok_run bindx_run TensorBase.defs Tensor_string.defs TensorBase_ctor_def
        split: if_splits sum.splits elim!: with_input_result)
  show "result (Tensor_string_view_ctor A mx ctx i inp) w = Inr tv \<Longrightarrow> is_input tv = inp \<and> indice tv = i"
    by (auto simp: Tensor_string_view_ctor_def Let_def ok_run bindx_run TensorBase.defs Tensor_string_view.defs
        TensorBase_ctor_def split: if_splits sum.splits elim!: with_input_result)
  show "result (TensorArray_ctor A mx ctx i inp) w = Inr a \<Longrightarrow> is_input a = inp \<and> indice a = i"
    by (auto simp: TensorArray_ctor_def Let_def ok_run bindx_run split: if_splits sum.splits)
qed

lemma make_tensor_slot:
  "result (make_tensor A mx e ctx i inp) w = Inr t \<Longrightarrow> tensor_slot t = (inp, i, parse_elem e)"
  by (auto simp: make_tensor_def bindx_run ok_run parse_num_TypeToTensorType split: lite_elem.splits sum.splits
      dest!: ctor_slots)

lemma AsSpan_slot:
  "result (lite_AsSpan A t) w = Inr (sp, t') \<Longrightarrow> tensor_slot t' = tensor_slot t"
  by (auto simp: lite_AsSpan_def Tensor_AsSpan_def Tensor_string_AsSpan_def Tensor_string_view_AsSpan_def Let_def
      bindx_run ok_run throw_run split: lite_tensor.splits sum.splits option.splits list.splits)

text \<open>\<open>adds args sl m w\<close>: if \<open>m\<close> returns, it has appended objects with the slots \<open>sl\<close> to \<open>args\<close>.\<close>

definition adds :: "lite_arg list \<Rightarrow> (bool \<times> int \<times> ONNXTensorElementDataType) list \<Rightarrow> ('s, arg_value \<times> lite_arg list) cxx
    \<Rightarrow> 's ort \<Rightarrow> bool" where
  "adds args sl m w \<longleftrightarrow> (\<forall>v args'. result m w = Inr (v, args') \<longrightarrow> (\<exists>new. args' = args @ new \<and> map arg_slot new = sl))"

lemma tuple_adds:
  "adds args [] (okx (v, args)) w"
  "adds args [(inp, i, ONNX_TENSOR_ELEMENT_DATA_TYPE_UNDEFINED)] (tuple_array A mx ctx i inp args) w"
  "adds args [(inp, i, parse_elem e)] (tuple_tensor A mx e ctx i inp args) w"
  "adds args [(True, i, parse_elem e)] (tuple_span A mx ep e ctx i args) w"
  "adds args [(True, i, parse_elem e)] (tuple_scalar A mx ep e ctx i args) w"
  by (auto simp: adds_def tuple_array_def tuple_tensor_def tuple_span_def tuple_scalar_def cpu_only_def bindx_run ok_run
      throw_run split: sum.splits if_splits dest!: ctor_slots(4) make_tensor_slot AsSpan_slot)

lemma tuple_optional_adds:
  assumes "\<And>w. adds args sl (m args) w"
  shows "adds args (if given then sl else []) (tuple_optional given m args) w"
  using assms by (simp add: tuple_optional_def tuple_adds(1))

fun expected :: "int \<Rightarrow> int \<Rightarrow> arg_type list \<Rightarrow> int \<Rightarrow> int \<Rightarrow> (bool \<times> int \<times> ONNXTensorElementDataType) list" where
  "expected ni no [] i j = []"
| "expected ni no (t # ts) i j = (case input_type t of
     Some ty \<Rightarrow> (if is_opt t \<and> \<not> i < ni then [] else [(True, i, ty)]) @ expected ni no ts (i + 1) j
   | None \<Rightarrow> (case output_type t of
       Some ty \<Rightarrow> (if is_opt t \<and> \<not> j < no then [] else [(False, j, ty)]) @ expected ni no ts i (j + 1)
     | None \<Rightarrow> expected ni no ts i j))"

lemma then_tuple_adds:
  assumes "result (then_tuple m nxt) w = Inr (vs, args')" "adds args sl m w"
    "\<And>vs args1 w. result (nxt args1) w = Inr (vs, args') \<Longrightarrow>
      \<exists>new. args' = args1 @ new \<and> length vs = n \<and> map arg_slot new = sl'"
  shows "\<exists>new. args' = args @ new \<and> length vs = Suc n \<and> map arg_slot new = sl @ sl'"
  using assms by (fastforce simp: then_tuple_def adds_def bindx_run ok_run split: sum.splits prod.splits)

lemma CreateTuple_slots:
  "result (CreateTuple A mx ctx ni no ep ts i j args) w = Inr (vs, args') \<Longrightarrow>
   \<exists>new. args' = args @ new \<and> length vs = length ts \<and> map arg_slot new = expected ni no ts i j"
proof (induction A mx ctx ni no ep ts i j args arbitrary: vs args' w rule: CreateTuple.induct)
qed (auto simp: ok_run input_type_def output_type_def is_opt_def split: if_splits
    dest!: then_tuple_adds intro: tuple_adds tuple_optional_adds)

lemma expected_inputs:
  "filter (\<lambda>(b, k, ty). b \<and> k < ni) (expected ni no ts (int n) (int m)) =
     map (\<lambda>(k, ty). (True, int k, ty)) (take (nat ni - n) (enumerate n (List.map_filter input_type ts)))"
proof (induction ts arbitrary: n m)
  case (Cons t ts)
  have "nat ni - n = Suc (nat ni - Suc n)" if "int n < ni" using that by simp
  then show ?case using Cons.IH [of "Suc n" m] Cons.IH [of n "Suc m"] Cons.IH [of n m]
    by (cases "int n < ni") (auto simp: List.map_filter_simps ac_simps split: option.splits)
qed (simp add: List.map_filter_simps)

lemma one_direction: "input_type t = None \<or> output_type t = None"
  by (cases t) (simp_all add: input_type_def output_type_def)

lemma expected_outputs:
  "filter (\<lambda>(b, k, ty). \<not> b \<and> k < no) (expected ni no ts (int n) (int m)) =
     map (\<lambda>(k, ty). (False, int k, ty)) (take (nat no - m) (enumerate m (List.map_filter output_type ts)))"
proof (induction ts arbitrary: n m)
  case (Cons t ts)
  have "nat no - m = Suc (nat no - Suc m)" if "int m < no" using that by simp
  then show ?case using one_direction [of t] Cons.IH [of "Suc n" m] Cons.IH [of n "Suc m"] Cons.IH [of n m]
    by (cases "int m < no") (auto simp: List.map_filter_simps ac_simps split: option.splits)
qed (simp add: List.map_filter_simps)

lemma expected_in_schema:
  "(b, k, ty) \<in> set (expected ni no ts (int n) (int m)) \<Longrightarrow>
   (nat k, ty) \<in> set (if b then enumerate n (List.map_filter input_type ts) else enumerate m (List.map_filter output_type ts))"
proof (induction ts arbitrary: n m)
  case (Cons t ts)
  have e: "int k + 1 = int (Suc k)" for k by simp
  show ?case using Cons one_direction [of t]
    by (auto simp: List.map_filter_simps e simp del: of_nat_Suc split: option.splits if_splits)
qed simp


section \<open>The life of a kernel\<close>

text \<open>How the runtime uses a kernel: it creates it, runs it on any number of contexts, releasing the status of each
  run, and destroys it. If the creation throws there is no kernel.\<close>

fun run_computes :: "('s ort_lib \<Rightarrow> 'k \<Rightarrow> ref \<Rightarrow> ('s, ref) cxx) \<Rightarrow> 's ort_lib \<Rightarrow> 'k \<Rightarrow> ref list \<Rightarrow> ('s ort, unit) state" where
  "run_computes compute A k [] = State_Monad.return ()"
| "run_computes compute A k (c # cs) = do {
     r \<leftarrow> compute A k c;
     (case r of Inl e \<Rightarrow> State_Monad.return () | Inr st \<Rightarrow> OrtRelease A KStatus st);
     run_computes compute A k cs }"

definition use_kernel :: "('s ort_lib \<Rightarrow> ref \<Rightarrow> ('s, 'k) cxx) \<Rightarrow> ('s ort_lib \<Rightarrow> 'k \<Rightarrow> ref \<Rightarrow> ('s, ref) cxx) \<Rightarrow>
    ('s ort_lib \<Rightarrow> 'k \<Rightarrow> ('s ort, unit) state) \<Rightarrow> 's ort_lib \<Rightarrow> ref \<Rightarrow> ref list \<Rightarrow> ('s ort, unit) state" where
  "use_kernel create compute destroy A info cs = do {
     r \<leftarrow> create A info;
     (case r of Inl e \<Rightarrow> State_Monad.return () | Inr k \<Rightarrow> do { run_computes compute A k cs; destroy A k }) }"

text \<open>What a custom operator promises the runtime.\<close>

locale custom_kernel =
  fixes create :: "'s ort_lib \<Rightarrow> ref \<Rightarrow> ('s, 'k) cxx"
    and compute :: "'s ort_lib \<Rightarrow> 'k \<Rightarrow> ref \<Rightarrow> ('s, ref) cxx"
    and destroy :: "'s ort_lib \<Rightarrow> 'k \<Rightarrow> ('s ort, unit) state"
    and kernel_owns :: "'k \<Rightarrow> ort_res multiset"
  assumes create_raii: "raii kernel_owns (create A info) w"
    and compute_raii: "raii (own KStatus) (compute A k ctx) w"
    and destroy_held: "ort_held w = Some (M + kernel_owns k) \<Longrightarrow> ort_held (exec (destroy A k) w) = Some M"
begin

lemma computes_held: "ort_held w = Some M \<Longrightarrow> ort_held (exec (run_computes compute A k cs) w) = Some M"
proof (induction cs arbitrary: w)
  case (Cons c cs)
  have "ort_held (exec (compute A k c) w) = Some (M + (case result (compute A k c) w of Inl e \<Rightarrow> {#} | Inr st \<Rightarrow> own KStatus st))"
    using compute_raii Cons.prems by (auto simp: raii_def)
  then show ?case using Cons.IH
    by (auto simp: step_simps OrtRelease_def track_step_def split: sum.splits)
qed (simp add: exec_return)

lemma use_kernel_held:
  assumes "ort_held w = Some M"
  shows "ort_held (exec (use_kernel create compute destroy A info cs) w) = Some M"
  using create_raii [of A info w] assms computes_held destroy_held
  by (fastforce simp: raii_def use_kernel_def step_simps split: sum.splits)

end

subsection \<open>Lite operators keep the promise\<close>

lemma as_raii:
  "raii (\<lambda>_. {#}) (lite_AsSpan A t) w" "raii (\<lambda>_. {#}) (lite_AsScalar A n t) w"
proof -
  have sc: "raii (\<lambda>_. {#}) (string_scalar msg ss) w" for msg and ss :: "'b list" and w
    by (auto simp: string_scalar_def raii_ok raii_throw split: list.splits)
  show "raii (\<lambda>_. {#}) (lite_AsSpan A t) w"
    by (cases t) (auto simp: lite_AsSpan_def Tensor_AsSpan_def Tensor_Data_def Tensor_string_AsSpan_def
        Tensor_string_view_AsSpan_def Let_def split: option.splits list.splits
        intro!: raii_plain [of "bindx _ _"] raii_plain [of "throwx _"] lite_raii_rules)
  show "raii (\<lambda>_. {#}) (lite_AsScalar A n t) w"
    by (cases t) (auto simp: lite_AsScalar_def Tensor_AsScalar_def Tensor_Data_def Tensor_string_AsScalar_def
        Tensor_string_view_AsScalar_def intro!: sc [THEN raii_plain] raii_plain [of "throwx _"] lite_raii_rules)
qed

lemma tuple_raii:
  "raii (\<lambda>_. {#}) (tuple_array A mx ctx i inp args) w"
  "raii (\<lambda>_. {#}) (tuple_tensor A mx e ctx i inp args) w"
  "raii (\<lambda>_. {#}) (tuple_span A mx ep e ctx i args) w"
  "raii (\<lambda>_. {#}) (tuple_scalar A mx ep e ctx i args) w"
  by (auto simp: tuple_array_def tuple_tensor_def tuple_span_def tuple_scalar_def cpu_only_def
      intro!: TensorArray_ctor_raii [THEN raii_plain] tensor_ctors_raii(4) [THEN raii_plain] as_raii [THEN raii_plain]
        raii_ok raii_throw)

lemma then_tuple_raii:
  assumes "raii (\<lambda>_. {#}) m w" "\<And>args w. raii (\<lambda>_. {#}) (nxt args) w"
  shows "raii (\<lambda>_. {#}) (then_tuple m nxt) w"
  unfolding then_tuple_def by (auto intro!: assms(1) [THEN raii_plain] assms(2) [THEN raii_plain] raii_ok)

lemma tuple_optional_raii:
  "(\<And>w. raii (\<lambda>_. {#}) (m args) w) \<Longrightarrow> raii (\<lambda>_. {#}) (tuple_optional given m args) w"
  by (simp add: tuple_optional_def raii_ok)

lemma CreateTuple_raii: "raii (\<lambda>_. {#}) (CreateTuple A mx ctx ni no ep ts i j args) w"
  by (induction A mx ctx ni no ep ts i j args arbitrary: w rule: CreateTuple.induct)
    (simp_all add: then_tuple_raii tuple_raii tuple_optional_raii raii_ok)

lemma custom_raii:
  "raii (\<lambda>_. {#}) (custom_call A f p args) w" "raii (own KStatus) (custom_status A f p args) w"
  by (auto simp: raii_def custom_call_def custom_status_def cxx_run track_step_def)

lemma compute_raii_rules:
  "raii (own KStatus) (bindx (CreateTuple A mx ctx ni no ep ts i j args) (\<lambda>(t, args). custom_status A f p (g t))) w"
  "raii (\<lambda>_. {#}) (bindx (CreateTuple A mx ctx ni no ep ts i j args) (\<lambda>(t, args). custom_call A f p (g t))) w"
  by (auto intro!: CreateTuple_raii [THEN raii_plain] custom_raii)

text \<open>An object made with \<open>new\<close> and guarded by a \<open>unique_ptr\<close> while the rest is done.\<close>

lemma raii_new_object:
  assumes "\<And>p w. raii (rest p) (f p) w" "\<And>p w x. result (f p) w = Inr x \<Longrightarrow> owns x = own KHeap p + rest p x"
  shows "raii owns (bindx (new_object A cls) (\<lambda>p. on_throw (delete_object A p) (f p))) w"
proof -
  let ?r = "result (perform A (Cxx_new cls)) w" and ?w = "exec (perform A (Cxx_new cls)) w"
  have h: "ort_held ?w = Some (M + own KHeap (o_ref ?r))" if "ort_held w = Some M" for M
    using that by (simp add: held_perform track_step_def)
  have f: "ort_held (exec (f (o_ref ?r)) ?w) = Some (M + own KHeap (o_ref ?r) +
      (case result (f (o_ref ?r)) ?w of Inl e \<Rightarrow> {#} | Inr x \<Rightarrow> rest (o_ref ?r) x))" if "ort_held w = Some M" for M
    using assms(1) [of "o_ref ?r" ?w] h [OF that] by (simp add: raii_def)
  show ?thesis
    using f h assms(2) [of "o_ref ?r" ?w]
    by (auto simp: raii_def new_object_def delete_object_def cxx_run track_step_def ac_simps split: sum.splits)
qed

lemma CreateKernel_func_raii: "raii (\<lambda>k. own KHeap (fst k)) (OrtLiteCustomFunc_CreateKernel ep fn A info) w"
  unfolding OrtLiteCustomFunc_CreateKernel_def KernelInfo_GetInputCount_def KernelInfo_GetOutputCount_def
  by (rule raii_new_object [where rest = "\<lambda>_ _. {#}"])
    (auto intro!: wrap_plain [THEN raii_plain] raii_ok simp: cxx_run split: sum.splits)

lemma on_throw_then: "bindx (on_throw d m) (\<lambda>_. okx x) = on_throw d (bindx m (\<lambda>_. okx x))"
  by (rule state.expand) (auto simp: bindx_def on_throw_def okx_def fun_eq_iff split: prod.splits sum.splits)

lemma CreateKernel_struct_raii:
  "raii (\<lambda>k. own KHeap (fst k) + own KHeap (k_target (snd k))) (OrtLiteCustomStruct_CreateKernel ep A info) w"
  unfolding OrtLiteCustomStruct_CreateKernel_def KernelInfo_GetInputCount_def KernelInfo_GetOutputCount_def on_throw_then
  by (rule raii_new_object [where rest = "\<lambda>_ k. own KHeap (k_target (snd k))"])
    (auto intro!: wrap_plain [THEN raii_plain] raii_new_object [where rest = "\<lambda>_ _. {#}"]
      custom_raii(1) [THEN raii_plain] raii_ok simp: cxx_run split: sum.splits)

lemma KernelDestroy_held:
  "ort_held w = Some (M + own KHeap (fst k)) \<Longrightarrow> ort_held (exec (OrtLiteCustomFunc_KernelDestroy A k) w) = Some M"
  "ort_held w = Some (M + (own KHeap (fst k) + own KHeap (k_target (snd k)))) \<Longrightarrow>
     ort_held (exec (OrtLiteCustomStruct_KernelDestroy A k) w) = Some M"
  by (simp_all add: OrtLiteCustomFunc_KernelDestroy_def OrtLiteCustomStruct_KernelDestroy_def delete_object_def
      step_simps track_step_def)

abbreviation no_status :: "('s ort_lib \<Rightarrow> 'k \<Rightarrow> ref \<Rightarrow> ('s, unit) cxx) \<Rightarrow> 's ort_lib \<Rightarrow> 'k \<Rightarrow> ref \<Rightarrow> ('s, ref) cxx" where
  "no_status compute \<equiv> \<lambda>A k c. bindx (compute A k c) (\<lambda>_. okx NULL)"

lemma no_status_raii: "raii (\<lambda>_. {#}) m w \<Longrightarrow> raii (own KStatus) (bindx m (\<lambda>_. okx NULL)) w"
  by (erule raii_plain) (simp add: raii_ok)

interpretation func: custom_kernel "OrtLiteCustomFunc_CreateKernel ep fn" "no_status (OrtLiteCustomFunc_KernelCompute mx ts)"
    OrtLiteCustomFunc_KernelDestroy "\<lambda>k. own KHeap (fst k)" for ep fn mx ts
  by unfold_locales (auto simp: OrtLiteCustomFunc_KernelCompute_def
      intro: CreateKernel_func_raii KernelDestroy_held(1) no_status_raii compute_raii_rules)

interpretation func_status: custom_kernel "OrtLiteCustomFunc_CreateKernel ep fn" "OrtLiteCustomFunc_KernelComputeV2 mx ts"
    OrtLiteCustomFunc_KernelDestroy "\<lambda>k. own KHeap (fst k)" for ep fn mx ts
  by unfold_locales (auto simp: OrtLiteCustomFunc_KernelComputeV2_def
      intro: CreateKernel_func_raii KernelDestroy_held(1) compute_raii_rules)

interpretation struct: custom_kernel "OrtLiteCustomStruct_CreateKernel ep" "no_status (OrtLiteCustomStruct_KernelCompute mx ts)"
    OrtLiteCustomStruct_KernelDestroy "\<lambda>k. own KHeap (fst k) + own KHeap (k_target (snd k))" for ep mx ts
  by unfold_locales (auto simp: OrtLiteCustomStruct_KernelCompute_def
      intro: CreateKernel_struct_raii KernelDestroy_held(2) no_status_raii compute_raii_rules)

interpretation struct_status: custom_kernel "OrtLiteCustomStruct_CreateKernel ep" "OrtLiteCustomStruct_KernelComputeV2 mx ts"
    OrtLiteCustomStruct_KernelDestroy "\<lambda>k. own KHeap (fst k) + own KHeap (k_target (snd k))" for ep mx ts
  by unfold_locales (auto simp: OrtLiteCustomStruct_KernelComputeV2_def
      intro: CreateKernel_struct_raii KernelDestroy_held(2) compute_raii_rules)


section \<open>Shape inference\<close>

text \<open>The status of a failed shape inference is released before it is returned: the callback converts the
  temporary \<open>Status\<close> to a pointer and the temporary's destructor releases the object, so the runtime receives a
  dangling status. (When the inference succeeds the pointer is null and nothing is wrong.) The same callback
  serves function operators, struct operators and \<open>CustomOpBase\<close>.\<close>

theorem infer_status_dangles:
  assumes "result (infer_output_shape A fn ctx) w = Inr st" "ort_held (exec (ShapeInferContext_ctor A ctx) w) = Some M"
    "Own KStatus st \<notin># M"
  shows "ort_held (exec (infer_output_shape A fn ctx) w) = Some M \<and>
    (st \<noteq> NULL \<longrightarrow> ort_held (exec (ThrowOnError A st) (exec (infer_output_shape A fn ctx) w)) = None)"
proof -
  let ?w = "exec (ShapeInferContext_ctor A ctx) w" and ?f = "custom_status A ''shape_infer_fn'' fn [ARef ctx]"
  obtain shapes where s: "result (ShapeInferContext_ctor A ctx) w = Inr shapes"
    using assms(1) by (auto simp: infer_output_shape_def bindx_run split: sum.splits)
  then have f: "result ?f ?w = Inr st"
    using assms(1) by (auto simp: infer_output_shape_def cxx_run split: sum.splits)
  have "ort_held (exec ?f ?w) = Some (M + own KStatus st)"
    using custom_raii(2) [of A "''shape_infer_fn''" fn "[ARef ctx]" ?w] assms(2) f by (simp add: raii_def)
  then have h: "ort_held (exec (infer_output_shape A fn ctx) w) = Some M"
    using s f by (simp add: infer_output_shape_def cxx_run OrtRelease_def track_step_def)
  then show ?thesis using assms(3) by (simp add: ThrowOnError_run held_perform track_step_def)
qed

section \<open>The callback tables\<close>

text \<open>What the runtime reads from the table: the second version of a callback if it is not null, otherwise the first;
  and the destructor of kernels. None of them may be indeterminate.\<close>

definition has_callback :: "'f callback \<Rightarrow> 'g callback \<Rightarrow> bool" where
  "has_callback v2 v1 = (case v2 of Fn_ptr f \<Rightarrow> True | Indeterminate \<Rightarrow> False
     | Null_fn \<Rightarrow> (case v1 of Fn_ptr f \<Rightarrow> True | _ \<Rightarrow> False))"

definition complete_op :: "('s, 'k) OrtCustomOp \<Rightarrow> bool" where
  "complete_op op \<longleftrightarrow> op_version op = ORT_API_VERSION \<and>
     has_callback (op_CreateKernelV2 op) (op_CreateKernel op) \<and>
     has_callback (op_KernelComputeV2 op) (op_KernelCompute op) \<and>
     has_callback (op_KernelDestroy op) (op_KernelDestroy op) \<and>
     op_InferOutputShapeFn op \<noteq> Indeterminate \<and>
     (\<forall>i < op_GetInputTypeCount op. op_GetInputType op i \<noteq> None \<and> op_GetInputCharacteristic op i \<noteq> None) \<and>
     (\<forall>i < op_GetOutputTypeCount op. op_GetOutputType op i \<noteq> None \<and> op_GetOutputCharacteristic op i \<noteq> None)"

text \<open>Every way of making a custom operator leaves a complete table, although \<open>CustomOpBase\<close> with status results
  leaves two pointers indeterminate and the base constructor of lite operators another two.\<close>

theorem custom_ops_complete:
  "complete_op (OrtLiteCustomFunc_ctor mx ts op_name ep fn infer s e) \<and>
   complete_op (OrtLiteCustomFunc_ctor_status mx ts op_name ep fn infer s e) \<and>
   complete_op (OrtLiteCustomStruct_ctor mx st ts infer op_name ep s e) \<and>
   (complete_op (CustomOpBase_ctor WithStatus m) \<longleftrightarrow>
     (\<forall>i < tm_GetInputTypeCount m. tm_GetInputType m i \<noteq> None) \<and> (\<forall>i < tm_GetOutputTypeCount m. tm_GetOutputType m i \<noteq> None))"
  by (cases WithStatus)
    (auto simp: complete_op_def has_callback_def OrtLiteCustomFunc_ctor_def OrtLiteCustomFunc_ctor_status_def
      OrtLiteCustomStruct_ctor_def OrtLiteCustomStruct_SetCompute_def OrtLiteCustomStruct_SetShapeInfer_def
      OrtLiteCustomOp_ctor_def CustomOpBase_ctor_def CustomOpBase_SetShapeInferFn_def type_at_def)

section \<open>Witnesses\<close>

definition demo_params :: "arg_type list" where
  "demo_params = [In_tensor_ref (Elem Cxx_int64_t), Ctx_ref, Opt_in_tensor (Elem Cxx_float), Opt_in_tensor (Elem Cxx_bool),
     Out_tensor_ptr Out_string]"



text \<open>A library whose shape inference fails with the status 5.\<close>

definition demo_infer :: "unit ort_lib" where
  "demo_infer c s = (case c of Custom_op_status f p args \<Rightarrow> (demo_ok 0 [] [])\<lparr>o_status := 5\<rparr> | _ \<Rightarrow> demo_ok 0 [] [], s)"

theorem infer_status_dangles_witness:
  "ort_held (exec (ThrowOnError demo_infer 5) (exec (infer_output_shape demo_infer 9 1) demo_ort_world)) = None"
proof -
  have r: "result (infer_output_shape demo_infer 9 1) demo_ort_world = Inr 5"
    "ort_held (exec (ShapeInferContext_ctor demo_infer 1) demo_ort_world) = Some {#}"
    by (simp_all add: infer_output_shape_def ShapeInferContext_ctor_def custom_status_def checked_def cxx_run result_perform
        track_step_def demo_infer_def demo_ok_def demo_ort_doc)
  from infer_status_dangles [OF r] show ?thesis by simp
qed

end
