(* ===== verification/Evs_Ort.thy ===== *)
theory Evs_Ort
  imports Ort_Session Complex_Main
begin

text \<open>
  The iOS embedding session (\<^verbatim>\<open>src/ios/Shared/EdgeSearch/EvsOrt.m\<close>): opening a model with the Core ML
  provider, one embedding call with mean pooling and normalisation, and the destructor, over the calls of
  the ONNX Runtime C API. The pooling is written over abstract float operations, so that it can be
  compared with the pooling of the engine's encoder (\<^verbatim>\<open>OnnxTextEncoder.cs\<close>) operation by operation and
  also read in exact arithmetic. The theorems: the session holds exactly its three objects between init
  and dealloc, every call gives back what it took; what an embedding is; the two poolings agree.
\<close>

section \<open>Pooling\<close>

record 'f float_ops =
  f_zero :: 'f
  f_add :: "'f \<Rightarrow> 'f \<Rightarrow> 'f"
  f_mul :: "'f \<Rightarrow> 'f \<Rightarrow> 'f"
  f_div :: "'f \<Rightarrow> 'f \<Rightarrow> 'f"
  f_sqrt :: "'f \<Rightarrow> 'f"
  f_of_int :: "int \<Rightarrow> 'f"
  f_positive :: "'f \<Rightarrow> bool"
  f_of_bits :: "int \<Rightarrow> 'f"

definition evs_dim :: nat where "evs_dim = 384"

text \<open>One row of the tensor; \<open>None\<close> if the read runs past the end of the data.\<close>

definition hidden_row :: "nat \<Rightarrow> 'f list \<Rightarrow> nat \<Rightarrow> 'f list option" where
  "hidden_row n_dim hidden t =
     (if t * n_dim + n_dim \<le> length hidden then Some (take n_dim (drop (t * n_dim) hidden)) else None)"

fun pool_rows :: "'f float_ops \<Rightarrow> nat \<Rightarrow> int list \<Rightarrow> 'f list \<Rightarrow> nat list \<Rightarrow> int \<times> 'f list \<Rightarrow> (int \<times> 'f list) option" where
  "pool_rows F n_dim attn hidden [] (cnt, out) = Some (cnt, out)"
| "pool_rows F n_dim attn hidden (t # ts) (cnt, out) =
     (if t < length attn then
        (if attn ! t = 0 then pool_rows F n_dim attn hidden ts (cnt, out)
         else Option.bind (hidden_row n_dim hidden t) (\<lambda>row.
           pool_rows F n_dim attn hidden ts (cnt + 1, map2 (f_add F) out row)))
      else None)"

definition sum_squares :: "'f float_ops \<Rightarrow> 'f list \<Rightarrow> 'f" where
  "sum_squares F out = foldl (\<lambda>norm x. f_add F norm (f_mul F x x)) (f_zero F) out"

definition scale_by :: "'f float_ops \<Rightarrow> bool \<Rightarrow> 'f \<Rightarrow> 'f list \<Rightarrow> 'f list" where
  "scale_by F b c out = (if b then map (\<lambda>x. f_div F x c) out else out)"

definition evs_pool :: "'f float_ops \<Rightarrow> int list \<Rightarrow> nat \<Rightarrow> 'f list \<Rightarrow> 'f list option" where
  "evs_pool F attn len hidden =
     Option.bind (pool_rows F evs_dim attn hidden [0..<len] (0, replicate evs_dim (f_zero F))) (\<lambda>(cnt, out).
       let out = scale_by F (cnt > 0) (f_of_int F cnt) out;
           norm = f_sqrt F (sum_squares F out)
       in Some (scale_by F (f_positive F norm) norm out))"

text \<open>The engine's encoder: the dimension comes from the tensor and the dot product from
  \<open>TensorPrimitives.Dot\<close>, whose order of summation is the library's (\<open>dot\<close>).\<close>

definition encoder_pool :: "'f float_ops \<Rightarrow> ('f list \<Rightarrow> 'f list \<Rightarrow> 'f) \<Rightarrow> int list \<Rightarrow> nat \<Rightarrow> nat \<Rightarrow> 'f list \<Rightarrow> 'f list option" where
  "encoder_pool F dot attn len n_dim hidden =
     Option.bind (pool_rows F n_dim attn hidden [0..<len] (0, replicate n_dim (f_zero F))) (\<lambda>(cnt, pooled).
       let pooled = scale_by F (cnt > 0) (f_of_int F cnt) pooled;
           norm = f_sqrt F (dot pooled pooled)
       in Some (scale_by F (f_positive F norm) norm pooled))"

section \<open>The session\<close>

record EvsOrtSession =
  evs_env :: ref
  evs_session :: ref
  evs_mem :: ref
  evs_outputName :: string

definition evs_new :: EvsOrtSession where
  "evs_new = \<lparr>evs_env = NULL, evs_session = NULL, evs_mem = NULL, evs_outputName = []\<rparr>"

text \<open>The message goes to \<open>*error\<close> when the caller asked for it.\<close>

definition evs_fail :: "'s ort_lib \<Rightarrow> bool \<Rightarrow> ref \<Rightarrow> ('s ort, string option option) state" where
  "evs_fail A want_error status =
     (if status = NULL then State_Monad.return None else do {
        m \<leftarrow> (if want_error then do { r \<leftarrow> perform A (GetErrorMessage status); State_Monad.return (Some (o_str r)) }
             else State_Monad.return None);
        OrtRelease A KStatus status;
        State_Monad.return (Some m) })"

definition evs_dealloc :: "'s ort_lib \<Rightarrow> EvsOrtSession \<Rightarrow> ('s ort, unit) state" where
  "evs_dealloc A self = do {
     when_m (evs_mem self \<noteq> NULL) (OrtRelease A KMemoryInfo (evs_mem self));
     when_m (evs_session self \<noteq> NULL) (OrtRelease A KSession (evs_session self));
     when_m (evs_env self \<noteq> NULL) (OrtRelease A KEnv (evs_env self)) }"

text \<open>An init that returns nil drops the last reference to the object, which deallocates it.\<close>

definition evs_abandon :: "'s ort_lib \<Rightarrow> EvsOrtSession \<Rightarrow> string option \<Rightarrow> ('s ort, string option + EvsOrtSession) state" where
  "evs_abandon A self m = do { evs_dealloc A self; State_Monad.return (Inl m) }"

definition evs_open_output :: "'s ort_lib \<Rightarrow> bool \<Rightarrow> EvsOrtSession \<Rightarrow> ('s ort, string option + EvsOrtSession) state" where
  "evs_open_output A want_error self = do {
     r4 \<leftarrow> perform A (Api (New New_CreateCpuMemoryInfo) [AInt (OrtAllocatorType_value OrtArenaAllocator), AInt (OrtMemType_value OrtMemTypeDefault)]);
     let self = self\<lparr>evs_mem := o_ref r4\<rparr>;
     f4 \<leftarrow> evs_fail A want_error (o_status r4);
     case f4 of Some m \<Rightarrow> evs_abandon A self m | None \<Rightarrow> do {
     al \<leftarrow> perform A (Api (Fn ''GetAllocatorWithDefaultOptions'') []);
     r5 \<leftarrow> perform A (Api (New New_SessionGetOutputName) [ARef (evs_session self), AInt 0, ARef (o_ref al)]);
     f5 \<leftarrow> evs_fail A want_error (o_status r5);
     case f5 of Some m \<Rightarrow> evs_abandon A self m | None \<Rightarrow> do {
     let self = self\<lparr>evs_outputName := o_str r5\<rparr>;
     performs A (Alloc_Free (o_ref al) (o_ref r5));
     State_Monad.return (Inr self) } } }"

definition evs_open_session :: "'s ort_lib \<Rightarrow> bool \<Rightarrow> string \<Rightarrow> EvsOrtSession \<Rightarrow> ref \<Rightarrow> ('s ort, string option + EvsOrtSession) state" where
  "evs_open_session A want_error modelPath self opts = do {
     r2 \<leftarrow> perform A (Api (Fn ''OrtSessionOptionsAppendExecutionProvider_CoreML'') [ARef opts, AInt 0]);
     f2 \<leftarrow> evs_fail A want_error (o_status r2);
     case f2 of Some m \<Rightarrow> do { OrtRelease A KSessionOptions opts; evs_abandon A self m } | None \<Rightarrow> do {
     r3 \<leftarrow> perform A (Api (New New_CreateSession) [ARef (evs_env self), AStr modelPath, ARef opts]);
     let self = self\<lparr>evs_session := o_ref r3\<rparr>;
     OrtRelease A KSessionOptions opts;
     f3 \<leftarrow> evs_fail A want_error (o_status r3);
     case f3 of Some m \<Rightarrow> evs_abandon A self m | None \<Rightarrow> evs_open_output A want_error self } }"

definition evs_init :: "'s ort_lib \<Rightarrow> bool \<Rightarrow> string \<Rightarrow> ('s ort, string option + EvsOrtSession) state" where
  "evs_init A want_error modelPath = do {
     r0 \<leftarrow> perform A (Api (New New_CreateEnv) [AInt (OrtLoggingLevel_value ORT_LOGGING_LEVEL_WARNING), AStr ''evs'']);
     let self = evs_new\<lparr>evs_env := o_ref r0\<rparr>;
     f0 \<leftarrow> evs_fail A want_error (o_status r0);
     case f0 of Some m \<Rightarrow> evs_abandon A self m | None \<Rightarrow> do {
     r1 \<leftarrow> perform A (Api (New New_CreateSessionOptions) []);
     f1 \<leftarrow> evs_fail A want_error (o_status r1);
     case f1 of Some m \<Rightarrow> evs_abandon A self m | None \<Rightarrow> evs_open_session A want_error modelPath self (o_ref r1) } }"

section \<open>Embedding\<close>

text \<open>An embedding ends with NO and a message, with YES and the output vector, or in a read past the end of
  the mask or of the tensor.\<close>

datatype 'f evs_result = Evs_NO "string option" | Evs_YES "'f list" | Evs_out_of_bounds

definition evs_tensor :: "'s ort_lib \<Rightarrow> EvsOrtSession \<Rightarrow> ref \<Rightarrow> 64 word \<Rightarrow> ('s ort, ort_reply) state" where
  "evs_tensor A self p len = perform A (Api (New New_CreateTensorWithDataAsOrtValue) [ARef (evs_mem self), ARef p,
     AInt (uint (8 * len)), AInts [1, sint len], AInt 2,
     AInt (ONNXTensorElementDataType_value ONNX_TENSOR_ELEMENT_DATA_TYPE_INT64)])"

fun release_present :: "'s ort_lib \<Rightarrow> ref list \<Rightarrow> ('s ort, unit) state" where
  "release_present A [] = State_Monad.return ()"
| "release_present A (v # vs) = do { when_m (v \<noteq> NULL) (OrtRelease A KValue v); release_present A vs }"

text \<open>The clean-up when one of the tensors could not be made.\<close>

definition evs_bad :: "'s ort_lib \<Rightarrow> ref list \<Rightarrow> ref \<Rightarrow> string option \<Rightarrow> ('s ort, 'f evs_result) state" where
  "evs_bad A vals types m = do {
     release_present A vals;
     performs A (Libc_free types);
     State_Monad.return (Evs_NO m) }"

definition evs_finish :: "'s ort_lib \<Rightarrow> 'f float_ops \<Rightarrow> bool \<Rightarrow> int list \<Rightarrow> 64 word \<Rightarrow> ref \<Rightarrow> ('s ort, 'f evs_result) state" where
  "evs_finish A F want_error attn len outVal = do {
     g \<leftarrow> perform A (Api (Fn ''GetTensorMutableData'') [ARef outVal]);
     f \<leftarrow> evs_fail A want_error (o_status g);
     case f of Some m \<Rightarrow> do { OrtRelease A KValue outVal; State_Monad.return (Evs_NO m) } | None \<Rightarrow>
     (case evs_pool F attn (nat (sint len)) (map (f_of_bits F) (o_ints g)) of
        None \<Rightarrow> State_Monad.return Evs_out_of_bounds
      | Some out \<Rightarrow> do { OrtRelease A KValue outVal; State_Monad.return (Evs_YES out) }) }"

definition evs_run :: "'s ort_lib \<Rightarrow> 'f float_ops \<Rightarrow> bool \<Rightarrow> EvsOrtSession \<Rightarrow> int list \<Rightarrow> 64 word \<Rightarrow> ref \<Rightarrow> ref \<Rightarrow> ref \<Rightarrow> ref
    \<Rightarrow> ('s ort, 'f evs_result) state" where
  "evs_run A F want_error self attn len types idsVal maskVal typeVal = do {
     r \<leftarrow> perform A (Api (New New_Run) [ARef (evs_session self), ARef NULL,
       AStrs [''input_ids'', ''attention_mask'', ''token_type_ids''], ARefs [idsVal, maskVal, typeVal], AInt 3,
       AStrs [evs_outputName self], AInt 1, ARefs [NULL]]);
     OrtRelease A KValue idsVal;
     OrtRelease A KValue maskVal;
     OrtRelease A KValue typeVal;
     performs A (Libc_free types);
     f \<leftarrow> evs_fail A want_error (o_status r);
     case f of Some m \<Rightarrow> State_Monad.return (Evs_NO m) | None \<Rightarrow> evs_finish A F want_error attn len (hd (o_refs r @ [NULL])) }"

definition evs_embed :: "'s ort_lib \<Rightarrow> 'f float_ops \<Rightarrow> bool \<Rightarrow> EvsOrtSession \<Rightarrow> ref \<Rightarrow> ref \<Rightarrow> int list \<Rightarrow> 64 word
    \<Rightarrow> ('s ort, 'f evs_result) state" where
  "evs_embed A F want_error self ids maskp attn len = do {
     c \<leftarrow> perform A (Libc_calloc len 8);
     let types = o_ref c;
     r1 \<leftarrow> evs_tensor A self ids len;
     f1 \<leftarrow> evs_fail A want_error (o_status r1);
     case f1 of Some m \<Rightarrow> evs_bad A [o_ref r1, NULL, NULL] types m | None \<Rightarrow> do {
     r2 \<leftarrow> evs_tensor A self maskp len;
     f2 \<leftarrow> evs_fail A want_error (o_status r2);
     case f2 of Some m \<Rightarrow> evs_bad A [o_ref r1, o_ref r2, NULL] types m | None \<Rightarrow> do {
     r3 \<leftarrow> evs_tensor A self types len;
     f3 \<leftarrow> evs_fail A want_error (o_status r3);
     case f3 of Some m \<Rightarrow> evs_bad A [o_ref r1, o_ref r2, o_ref r3] types m | None \<Rightarrow>
     evs_run A F want_error self attn len types (o_ref r1) (o_ref r2) (o_ref r3) } } }"

section \<open>Ownership\<close>

definition evs_objs :: "EvsOrtSession \<Rightarrow> ort_res multiset" where
  "evs_objs self = own KMemoryInfo (evs_mem self) + own KSession (evs_session self) + own KEnv (evs_env self)"

definition evs_owned :: "string option + EvsOrtSession \<Rightarrow> ort_res multiset" where
  "evs_owned x = (case x of Inl m \<Rightarrow> {#} | Inr self \<Rightarrow> evs_objs self)"

text \<open>What the API documents of the default allocator: asking for it does not fail.\<close>

definition default_allocator_doc :: "'s ort_lib \<Rightarrow> bool" where
  "default_allocator_doc A \<longleftrightarrow> (\<forall>args s. o_status (fst (A (Api (Fn ''GetAllocatorWithDefaultOptions'') args) s)) = NULL)"

lemma evs_fail_result: "result (evs_fail A e st) w = None \<longleftrightarrow> st = NULL"
  by (simp add: evs_fail_def step_simps)

lemma evs_fail_null [simp]: "exec (evs_fail A e 0) w = w" "result (evs_fail A e 0) w = None"
  by (simp_all add: evs_fail_def step_simps)

lemma evs_fail_held: "ort_held w = Some (M + own KStatus st) \<Longrightarrow> ort_held (exec (evs_fail A e st) w) = Some M"
  by (cases "st = NULL"; cases e) (simp_all add: evs_fail_def OrtRelease_def step_simps track_step_def own_single)

lemma evs_dealloc_held:
  assumes "ort_held w = Some (M + evs_objs self)" shows "ort_held (exec (evs_dealloc A self) w) = Some M"
proof -
  have "ort_held w = Some (((M + own KEnv (evs_env self)) + own KSession (evs_session self)) + own KMemoryInfo (evs_mem self))"
    using assms by (simp add: evs_objs_def ac_simps)
  from release_guard [OF release_guard [OF release_guard [OF this]]] show ?thesis
    by (simp add: evs_dealloc_def step_simps)
qed

lemma evs_abandon_held:
  assumes "ort_held w = Some (M + evs_objs self)"
  shows "ort_held (exec (evs_abandon A self m) w) = Some M" "result (evs_abandon A self m) w = Inl m"
  using evs_dealloc_held [OF assms] by (simp_all add: evs_abandon_def step_simps)

lemma call_held:
  assumes "ort_held w = Some M" "freed_by_api fn args = {#}"
  shows "ort_held (exec (perform A (Api fn args)) w) = Some (let r = result (perform A (Api fn args)) w in
    M + (if o_status r = NULL then created fn r else own KStatus (o_status r)))"
  using assms by (simp add: held_perform track_step_def own_single Let_def)

lemma null_on_errorD:
  "null_on_error A \<Longrightarrow> o_status (result (perform A (Api fn args)) w) \<noteq> NULL \<Longrightarrow>
     o_ref (result (perform A (Api fn args)) w) = NULL \<and> o_refs (result (perform A (Api fn args)) w) = []"
  by (simp add: null_on_error_def result_perform)

lemma call_good:
  assumes "ort_held w = Some M" "o_status (result (perform A (Api fn args)) w) = NULL" "freed_by_api fn args = {#}"
  shows "ort_held (exec (perform A (Api fn args)) w) = Some (M + created fn (result (perform A (Api fn args)) w))"
  using call_held [OF assms(1,3), of A] assms(2) by (simp add: Let_def)

lemma call_bad:
  assumes "null_on_error A" "ort_held w = Some M" "o_status (result (perform A (Api fn args)) w) \<noteq> NULL"
    "freed_by_api fn args = {#}"
  shows "\<exists>m. result (evs_fail A e (o_status (result (perform A (Api fn args)) w))) (exec (perform A (Api fn args)) w) = Some m"
    "ort_held (exec (evs_fail A e (o_status (result (perform A (Api fn args)) w))) (exec (perform A (Api fn args)) w)) = Some M"
    "o_ref (result (perform A (Api fn args)) w) = NULL" "o_refs (result (perform A (Api fn args)) w) = []"
proof -
  have "ort_held (exec (perform A (Api fn args)) w) = Some (M + own KStatus (o_status (result (perform A (Api fn args)) w)))"
    using call_held [OF assms(2,4), of A] assms(3) by (simp add: Let_def)
  from evs_fail_held [OF this] null_on_errorD [OF assms(1,3)] assms(3) show
    "\<exists>m. result (evs_fail A e (o_status (result (perform A (Api fn args)) w))) (exec (perform A (Api fn args)) w) = Some m"
    "ort_held (exec (evs_fail A e (o_status (result (perform A (Api fn args)) w))) (exec (perform A (Api fn args)) w)) = Some M"
    "o_ref (result (perform A (Api fn args)) w) = NULL" "o_refs (result (perform A (Api fn args)) w) = []"
    using evs_fail_result [of A e "o_status (result (perform A (Api fn args)) w)" "exec (perform A (Api fn args)) w"] by auto
qed

lemma evs_open_output_held:
  assumes "null_on_error A" "default_allocator_doc A"
    "ort_held w = Some (M + (own KSession (evs_session self) + own KEnv (evs_env self)))"
  shows "ort_held (exec (evs_open_output A e self) w) = Some (M + evs_owned (result (evs_open_output A e self) w))"
proof -
  let ?c4 = "Api (New New_CreateCpuMemoryInfo) [AInt (OrtAllocatorType_value OrtArenaAllocator), AInt (OrtMemType_value OrtMemTypeDefault)]"
  let ?r4 = "result (perform A ?c4) w" and ?w4 = "exec (perform A ?c4) w"
  let ?self = "self\<lparr>evs_mem := o_ref ?r4\<rparr>"
  show ?thesis
  proof (cases "o_status ?r4 = NULL")
    case False
    note b = call_bad [OF assms(1,3) False]
    from b(1) [of e] obtain m where "result (evs_fail A e (o_status ?r4)) ?w4 = Some m" by auto
    with b evs_abandon_held [of "exec (evs_fail A e (o_status ?r4)) ?w4" M "self\<lparr>evs_mem := 0\<rparr>" A m] show ?thesis
      by (simp add: evs_open_output_def step_simps Let_def evs_objs_def evs_owned_def)
  next
    case True
    let ?al = "Api (Fn ''GetAllocatorWithDefaultOptions'') []"
    let ?w5 = "exec (perform A ?al) ?w4"
    let ?c5 = "Api (New New_SessionGetOutputName) [ARef (evs_session self), AInt 0, ARef (o_ref (result (perform A ?al) ?w4))]"
    let ?r5 = "result (perform A ?c5) ?w5" and ?w6 = "exec (perform A ?c5) ?w5"
    have w4: "ort_held ?w4 = Some (M + evs_objs ?self)"
      using call_good [OF assms(3) True] by (simp add: evs_objs_def creates_array_def ac_simps)
    have "o_status (result (perform A ?al) ?w4) = NULL"
      using assms(2) by (simp add: default_allocator_doc_def result_perform)
    from call_good [OF w4 this] have w5: "ort_held ?w5 = Some (M + evs_objs ?self)" by simp
    show ?thesis
    proof (cases "o_status ?r5 = NULL")
      case False
      note b = call_bad [OF assms(1) w5 False]
      from b(1) [of e] obtain m where "result (evs_fail A e (o_status ?r5)) ?w6 = Some m" by auto
      with b evs_abandon_held [of "exec (evs_fail A e (o_status ?r5)) ?w6" M ?self A m] True show ?thesis
        by (simp add: evs_open_output_def step_simps Let_def evs_owned_def)
    next
      case t: True
      from call_good [OF w5 t] have "ort_held ?w6 = Some ((M + evs_objs ?self) + own KBlock (o_ref ?r5))"
        by (simp add: creates_array_def)
      then have "ort_held (exec (perform A (Alloc_Free (o_ref (result (perform A ?al) ?w4)) (o_ref ?r5))) ?w6) = Some (M + evs_objs ?self)"
        by (simp add: held_perform track_step_def)
      with True t show ?thesis
        by (simp add: evs_open_output_def step_simps Let_def evs_owned_def evs_objs_def)
    qed
  qed
qed

lemma evs_open_session_held:
  assumes "null_on_error A" "default_allocator_doc A" "evs_mem self = NULL" "evs_session self = NULL"
    "ort_held w = Some (M + own KEnv (evs_env self) + own KSessionOptions opts)"
  shows "ort_held (exec (evs_open_session A e path self opts) w) = Some (M + evs_owned (result (evs_open_session A e path self opts) w))"
proof -
  let ?c2 = "Api (Fn ''OrtSessionOptionsAppendExecutionProvider_CoreML'') [ARef opts, AInt 0]"
  let ?r2 = "result (perform A ?c2) w" and ?w2 = "exec (perform A ?c2) w"
  show ?thesis
  proof (cases "o_status ?r2 = NULL")
    case False
    note b = call_bad [OF assms(1,5) False]
    from b(1) [of e] obtain m where m: "result (evs_fail A e (o_status ?r2)) ?w2 = Some m" by auto
    have "ort_held (exec (OrtRelease A KSessionOptions opts) (exec (evs_fail A e (o_status ?r2)) ?w2)) = Some (M + evs_objs self)"
      using own_release [OF b(2)] assms(3,4) by (simp add: evs_objs_def)
    from evs_abandon_held [OF this, of A m] m show ?thesis
      by (simp add: evs_open_session_def step_simps evs_owned_def)
  next
    case True
    let ?c3 = "Api (New New_CreateSession) [ARef (evs_env self), AStr path, ARef opts]"
    let ?r3 = "result (perform A ?c3) ?w2" and ?w3 = "exec (perform A ?c3) ?w2"
    let ?w4 = "exec (OrtRelease A KSessionOptions opts) ?w3" and ?self = "self\<lparr>evs_session := o_ref ?r3\<rparr>"
    from call_good [OF assms(5) True] have w2: "ort_held ?w2 = Some (M + own KEnv (evs_env self) + own KSessionOptions opts)" by simp
    show ?thesis
    proof (cases "o_status ?r3 = NULL")
      case t: True
      from call_good [OF w2 t] have "ort_held ?w3 = Some ((M + (own KSession (o_ref ?r3) + own KEnv (evs_env self))) + own KSessionOptions opts)"
        by (simp add: creates_array_def ac_simps)
      from evs_open_output_held [OF assms(1,2), of ?w4 M ?self e] own_release [OF this, of A] True t show ?thesis
        by (simp add: evs_open_session_def step_simps Let_def)
    next
      case False
      have "ort_held ?w3 = Some ((M + own KEnv (evs_env self) + own KStatus (o_status ?r3)) + own KSessionOptions opts)"
        using call_held [OF w2, of "New New_CreateSession" _ A] False by (simp add: Let_def ac_simps)
      from evs_fail_held [OF own_release [OF this]] have
        f: "ort_held (exec (evs_fail A e (o_status ?r3)) ?w4) = Some (M + own KEnv (evs_env self))" .
      have z: "o_ref ?r3 = NULL" using null_on_errorD [OF assms(1) False] by simp
      obtain m where m: "result (evs_fail A e (o_status ?r3)) ?w4 = Some m"
        using False evs_fail_result [of A e "o_status ?r3" ?w4] by auto
      have "ort_held (exec (evs_fail A e (o_status ?r3)) ?w4) = Some (M + evs_objs ?self)"
        using f z assms(3) by (simp add: evs_objs_def)
      from evs_abandon_held [OF this, of A m] m True show ?thesis
        by (simp add: evs_open_session_def step_simps Let_def evs_owned_def)
    qed
  qed
qed

lemma evs_init_held:
  assumes "null_on_error A" "default_allocator_doc A" "ort_held w = Some M"
  shows "ort_held (exec (evs_init A e path) w) = Some (M + evs_owned (result (evs_init A e path) w))"
proof -
  let ?c0 = "Api (New New_CreateEnv) [AInt (OrtLoggingLevel_value ORT_LOGGING_LEVEL_WARNING), AStr ''evs'']"
  let ?r0 = "result (perform A ?c0) w" and ?w0 = "exec (perform A ?c0) w"
  let ?self = "evs_new\<lparr>evs_env := o_ref ?r0\<rparr>"
  show ?thesis
  proof (cases "o_status ?r0 = NULL")
    case False
    note b = call_bad [OF assms(1,3) False]
    from b(1) [of e] obtain m where m: "result (evs_fail A e (o_status ?r0)) ?w0 = Some m" by auto
    with b evs_abandon_held [of "exec (evs_fail A e (o_status ?r0)) ?w0" M "evs_new\<lparr>evs_env := 0\<rparr>" A m] show ?thesis
      by (simp add: evs_init_def step_simps Let_def evs_objs_def evs_owned_def evs_new_def)
  next
    case True
    let ?c1 = "Api (New New_CreateSessionOptions) []"
    let ?r1 = "result (perform A ?c1) ?w0" and ?w1 = "exec (perform A ?c1) ?w0"
    from call_good [OF assms(3) True] have w0: "ort_held ?w0 = Some (M + evs_objs ?self)"
      by (simp add: creates_array_def evs_objs_def evs_new_def)
    show ?thesis
    proof (cases "o_status ?r1 = NULL")
      case False
      note b = call_bad [OF assms(1) w0 False]
      from b(1) [of e] obtain m where m: "result (evs_fail A e (o_status ?r1)) ?w1 = Some m" by auto
      with b(2) [of e] evs_abandon_held [of "exec (evs_fail A e (o_status ?r1)) ?w1" M ?self A m] True show ?thesis
        by (simp add: evs_init_def step_simps Let_def evs_owned_def)
    next
      case t: True
      from call_good [OF w0 t] have "ort_held ?w1 = Some (M + own KEnv (evs_env ?self) + own KSessionOptions (o_ref ?r1))"
        by (simp add: creates_array_def evs_objs_def evs_new_def)
      from evs_open_session_held [OF assms(1,2) _ _ this, of e path] True t show ?thesis
        by (simp add: evs_init_def step_simps Let_def evs_new_def)
    qed
  qed
qed

lemma release_present_held:
  "ort_held w = Some (M + own_all KValue vs) \<Longrightarrow> ort_held (exec (release_present A vs) w) = Some M"
proof (induction vs arbitrary: w)
  case (Cons v vs)
  then have "ort_held w = Some ((M + own_all KValue vs) + own KValue v)" by (simp add: own_all_def own_def)
  from Cons.IH [OF release_guard [OF this]] show ?case by (simp add: step_simps)
qed (simp add: own_all_def step_simps)

lemma evs_bad_held:
  assumes "ort_held w = Some (M + own KHeap types + own_all KValue vals)"
  shows "ort_held (exec (evs_bad A vals types m) w) = Some M"
  using release_present_held [OF assms, of A] by (simp add: evs_bad_def step_simps track_step_def)

lemma evs_finish_held:
  assumes "null_on_error A" "ort_held w = Some (M + own KValue v)" "result (evs_finish A F e attn len v) w \<noteq> Evs_out_of_bounds"
  shows "ort_held (exec (evs_finish A F e attn len v) w) = Some M"
proof -
  let ?c = "Api (Fn ''GetTensorMutableData'') [ARef v]"
  let ?r = "result (perform A ?c) w" and ?w = "exec (perform A ?c) w"
  show ?thesis
  proof (cases "o_status ?r = NULL")
    case False
    note b = call_bad [OF assms(1,2) False]
    from b(1) [of e] obtain m where "result (evs_fail A e (o_status ?r)) ?w = Some m" by auto
    with own_release [OF b(2), of A e] show ?thesis by (simp add: evs_finish_def step_simps)
  next
    case True
    from call_good [OF assms(2) True] have "ort_held ?w = Some (M + own KValue v)" by simp
    from own_release [OF this, of A] True assms(3) show ?thesis
      by (auto simp: evs_finish_def step_simps split: option.splits)
  qed
qed

lemma evs_run_held:
  assumes "null_on_error A" "run_doc A"
    "ort_held w = Some (M + own KHeap types + own KValue v3 + own KValue v2 + own KValue v1)"
    "result (evs_run A F e self attn len types v1 v2 v3) w \<noteq> Evs_out_of_bounds"
  shows "ort_held (exec (evs_run A F e self attn len types v1 v2 v3) w) = Some M"
proof -
  let ?a = "[ARef (evs_session self), ARef NULL, AStrs [''input_ids'', ''attention_mask'', ''token_type_ids''],
    ARefs [v1, v2, v3], AInt 3, AStrs [evs_outputName self], AInt 1, ARefs [NULL]]"
  let ?c = "Api (New New_Run) ?a"
  let ?r = "result (perform A ?c) w" and ?w = "exec (perform A ?c) w"
  let ?x = "if o_status ?r = NULL then own_all KValue (o_refs ?r) else own KStatus (o_status ?r)"
  let ?w1 = "exec (OrtRelease A KValue v3) (exec (OrtRelease A KValue v2) (exec (OrtRelease A KValue v1) ?w))"
  let ?w2 = "exec (perform A (Libc_free types)) ?w1"
  have "ort_held ?w = Some (((M + ?x + own KHeap types + own KValue v3) + own KValue v2) + own KValue v1)"
    using call_held [OF assms(3), of "New New_Run" ?a A] by (simp add: Let_def creates_array_def ac_simps)
  from own_release [OF own_release [OF own_release [OF this]]] have "ort_held ?w1 = Some (M + ?x + own KHeap types)" .
  then have w2: "ort_held ?w2 = Some (M + ?x)" by (simp add: held_perform track_step_def)
  show ?thesis
  proof (cases "o_status ?r = NULL")
    case False
    with evs_fail_held [of ?w2 M "o_status ?r" A e] w2 evs_fail_result [of A e "o_status ?r" ?w2] show ?thesis
      by (auto simp: evs_run_def step_simps)
  next
    case True
    then have "length (o_refs ?r) = 1" using assms(2) by (simp add: run_doc_def Let_def result_perform)
    then have "own_all KValue (o_refs ?r) = own KValue (hd (o_refs ?r @ [NULL]))" by (cases "o_refs ?r") (auto simp: own_all_def own_def)
    with w2 True have "ort_held ?w2 = Some (M + own KValue (hd (o_refs ?r @ [NULL])))" by simp
    from evs_finish_held [OF assms(1) this, of F e attn len] assms(4) True show ?thesis
      by (simp add: evs_run_def step_simps)
  qed
qed

lemma evs_tensor_held:
  assumes "ort_held w = Some M"
  shows "ort_held (exec (evs_tensor A self p len) w) = Some (let r = result (evs_tensor A self p len) w in
    M + (if o_status r = NULL then own KValue (o_ref r) else own KStatus (o_status r)))"
  using assms by (auto simp: evs_tensor_def held_perform track_step_def own_def Let_def creates_array_def)

lemma evs_tensor_null:
  "null_on_error A \<Longrightarrow> o_status (result (evs_tensor A self p len) w) \<noteq> NULL \<Longrightarrow> o_ref (result (evs_tensor A self p len) w) = NULL"
  unfolding evs_tensor_def by (blast dest: null_on_errorD)

lemma evs_embed_held:
  assumes "null_on_error A" "run_doc A" "ort_held w = Some M"
    "result (evs_embed A F e self ids maskp attn len) w \<noteq> Evs_out_of_bounds"
  shows "ort_held (exec (evs_embed A F e self ids maskp attn len) w) = Some M"
proof -
  let ?c = "perform A (Libc_calloc len 8)"
  let ?w0 = "exec ?c w" and ?types = "o_ref (result ?c w)"
  let ?t1 = "evs_tensor A self ids len" and ?t2 = "evs_tensor A self maskp len" and ?t3 = "evs_tensor A self ?types len"
  let ?r1 = "result ?t1 ?w0" and ?w1 = "exec ?t1 ?w0"
  let ?r2 = "result ?t2 ?w1" and ?w2 = "exec ?t2 ?w1"
  let ?r3 = "result ?t3 ?w2" and ?w3 = "exec ?t3 ?w2"
  have w0: "ort_held ?w0 = Some (M + own KHeap ?types)" using assms(3) by (simp add: held_perform track_step_def)
  show ?thesis
  proof (cases "o_status ?r1 = NULL")
    case False
    with evs_tensor_held [OF w0, of A self ids len] evs_tensor_null [OF assms(1) False]
      evs_fail_held [of ?w1 "M + own KHeap ?types" "o_status ?r1" A e] evs_fail_result [of A e "o_status ?r1" ?w1]
      evs_bad_held [of "exec (evs_fail A e (o_status ?r1)) ?w1" M ?types "[0, 0, 0]" A]
    show ?thesis by (auto simp: evs_embed_def step_simps Let_def own_all_def)
  next
    case t1: True
    then have w1: "ort_held ?w1 = Some (M + own KHeap ?types + own KValue (o_ref ?r1))"
      using evs_tensor_held [OF w0, of A self ids len] by (simp add: Let_def)
    show ?thesis
    proof (cases "o_status ?r2 = NULL")
      case False
      have "own_all KValue [o_ref ?r1, 0, 0] = own KValue (o_ref ?r1)" by (simp add: own_all_def own_def)
      with False evs_tensor_held [OF w1, of A self maskp len] evs_tensor_null [OF assms(1) False] t1
        evs_fail_held [of ?w2 "M + own KHeap ?types + own KValue (o_ref ?r1)" "o_status ?r2" A e]
        evs_fail_result [of A e "o_status ?r2" ?w2]
        evs_bad_held [of "exec (evs_fail A e (o_status ?r2)) ?w2" M ?types "[o_ref ?r1, 0, 0]" A]
      show ?thesis by (auto simp: evs_embed_def step_simps Let_def)
    next
      case t2: True
      then have w2: "ort_held ?w2 = Some (M + own KHeap ?types + own KValue (o_ref ?r1) + own KValue (o_ref ?r2))"
        using evs_tensor_held [OF w1, of A self maskp len] by (simp add: Let_def)
      show ?thesis
      proof (cases "o_status ?r3 = NULL")
        case False
        have "own_all KValue [o_ref ?r1, o_ref ?r2, 0] = own KValue (o_ref ?r1) + own KValue (o_ref ?r2)"
          by (simp add: own_all_def own_def)
        with False evs_tensor_held [OF w2, of A self ?types len] evs_tensor_null [OF assms(1) False] t1 t2
          evs_fail_held [of ?w3 "M + own KHeap ?types + own KValue (o_ref ?r1) + own KValue (o_ref ?r2)" "o_status ?r3" A e]
          evs_fail_result [of A e "o_status ?r3" ?w3]
          evs_bad_held [of "exec (evs_fail A e (o_status ?r3)) ?w3" M ?types "[o_ref ?r1, o_ref ?r2, 0]" A]
        show ?thesis by (auto simp: evs_embed_def step_simps Let_def add.assoc)
      next
        case t3: True
        have "ort_held ?w3 = Some (M + own KHeap ?types + own KValue (o_ref ?r3) + own KValue (o_ref ?r2) + own KValue (o_ref ?r1))"
          using evs_tensor_held [OF w2, of A self ?types len] t3 by (simp add: Let_def ac_simps)
        from evs_run_held [OF assms(1,2) this, of F e self attn len] t1 t2 t3 assms(4) show ?thesis
          by (simp add: evs_embed_def step_simps Let_def)
      qed
    qed
  qed
qed

text \<open>Some embeddings in a row; the session stays the same.\<close>

fun evs_embeds :: "'s ort_lib \<Rightarrow> 'f float_ops \<Rightarrow> EvsOrtSession \<Rightarrow> (ref \<times> ref \<times> int list \<times> 64 word) list
    \<Rightarrow> ('s ort, 'f evs_result list) state" where
  "evs_embeds A F self [] = State_Monad.return []"
| "evs_embeds A F self ((ids, maskp, attn, len) # qs) = do {
     x \<leftarrow> evs_embed A F True self ids maskp attn len;
     xs \<leftarrow> evs_embeds A F self qs;
     State_Monad.return (x # xs) }"

lemma evs_embeds_held:
  assumes "null_on_error A" "run_doc A" "ort_held w = Some M" "Evs_out_of_bounds \<notin> set (result (evs_embeds A F self qs) w)"
  shows "ort_held (exec (evs_embeds A F self qs) w) = Some M"
  using assms(3,4)
proof (induction qs arbitrary: w)
  case (Cons q qs)
  obtain ids maskp attn len where q: "q = (ids, maskp, attn, len)" by (cases q)
  let ?m = "evs_embed A F True self ids maskp attn len"
  have "ort_held (exec ?m w) = Some M"
    using Cons.prems by (intro evs_embed_held [OF assms(1,2)]) (auto simp: q step_simps)
  from Cons.IH [OF this] Cons.prems show ?case by (simp add: q step_simps)
qed (simp add: step_simps)

text \<open>What the model's output is documented to be: a tensor with at least \<open>n\<close> rows of 384 floats.\<close>

definition hidden_doc :: "'s ort_lib \<Rightarrow> nat \<Rightarrow> bool" where
  "hidden_doc A n \<longleftrightarrow> (\<forall>args s. let r = fst (A (Api (Fn ''GetTensorMutableData'') args) s) in
     o_status r = NULL \<longrightarrow> n * evs_dim \<le> length (o_ints r))"

lemma pool_rows_defined:
  "\<forall>t \<in> set ts. t < length attn \<and> t * n + n \<le> length hidden \<Longrightarrow> pool_rows F n attn hidden ts (c, out) \<noteq> None"
  by (induction ts arbitrary: c out) (auto simp: hidden_row_def)

lemma row_in_bounds: "t < len \<Longrightarrow> len * evs_dim \<le> (k :: nat) \<Longrightarrow> t * evs_dim + evs_dim \<le> k"
  using mult_le_mono1 [of "Suc t" len evs_dim] by simp

lemma evs_pool_defined:
  assumes "len \<le> length attn" "len * evs_dim \<le> length hidden"
  shows "evs_pool F attn len hidden \<noteq> None"
proof -
  have "pool_rows F evs_dim attn hidden [0..<len] (0, replicate evs_dim (f_zero F)) \<noteq> None"
    using assms row_in_bounds [OF _ assms(2)] by (intro pool_rows_defined) auto
  then show ?thesis by (auto simp: evs_pool_def Let_def)
qed

lemma evs_embed_in_bounds:
  assumes "hidden_doc A n" "nat (sint len) \<le> n" "nat (sint len) \<le> length attn"
  shows "result (evs_embed A F e self ids maskp attn len) w \<noteq> Evs_out_of_bounds"
proof -
  have "evs_pool F attn (nat (sint len)) (map (f_of_bits F) (o_ints (result (perform A (Api (Fn ''GetTensorMutableData'') args)) w'))) \<noteq> None"
    if "o_status (result (perform A (Api (Fn ''GetTensorMutableData'') args)) w') = NULL" for args w'
  proof (rule evs_pool_defined [OF assms(3)])
    have "n * evs_dim \<le> length (o_ints (result (perform A (Api (Fn ''GetTensorMutableData'') args)) w'))"
      using assms(1) that by (simp add: hidden_doc_def Let_def result_perform)
    then show "nat (sint len) * evs_dim \<le> length (map (f_of_bits F) (o_ints (result (perform A (Api (Fn ''GetTensorMutableData'') args)) w')))"
      using mult_le_mono1 [OF assms(2), of evs_dim] unfolding length_map by (rule order_trans [rotated])
  qed
  note pool = this
  have "result (evs_finish A F e attn len v) w' \<noteq> Evs_out_of_bounds" for v w'
  proof (cases "o_status (result (perform A (Api (Fn ''GetTensorMutableData'') [ARef v])) w') = NULL")
    case True
    from pool [OF True] obtain out where
      "evs_pool F attn (nat (sint len)) (map (f_of_bits F) (o_ints (result (perform A (Api (Fn ''GetTensorMutableData'') [ARef v])) w'))) = Some out"
      by blast
    with True show ?thesis by (simp add: evs_finish_def step_simps)
  next
    case False
    let ?c = "Api (Fn ''GetTensorMutableData'') [ARef v]"
    obtain m where "result (evs_fail A e (o_status (result (perform A ?c) w'))) (exec (perform A ?c) w') = Some m"
      using False evs_fail_result [of A e "o_status (result (perform A ?c) w')" "exec (perform A ?c) w'"] by auto
    then show ?thesis by (simp add: evs_finish_def step_simps)
  qed
  then show ?thesis
    by (simp add: evs_embed_def evs_run_def evs_bad_def step_simps Let_def split: option.splits)
qed

lemma evs_embeds_in_bounds:
  assumes "hidden_doc A n" "\<forall>(ids, maskp, attn, len) \<in> set qs. nat (sint len) \<le> n \<and> nat (sint len) \<le> length attn"
  shows "Evs_out_of_bounds \<notin> set (result (evs_embeds A F self qs) w)"
  using assms(2)
  by (induction qs arbitrary: w) (auto simp: step_simps evs_embed_in_bounds [OF assms(1), THEN not_sym])


section \<open>What an embedding is\<close>

definition real_ops :: "real float_ops" where
  "real_ops = \<lparr>f_zero = 0, f_add = (+), f_mul = (*), f_div = (/), f_sqrt = sqrt, f_of_int = real_of_int,
     f_positive = (\<lambda>x. x > 0), f_of_bits = real_of_int\<rparr>"

lemma real_ops_sel [simp]: "f_zero real_ops = 0" "f_add real_ops = (+)" "f_mul real_ops = (*)" "f_div real_ops = (/)"
  "f_sqrt real_ops = sqrt" "f_of_int real_ops = real_of_int" "f_positive real_ops = (\<lambda>x. x > 0)"
  by (simp_all add: real_ops_def)

definition real_dot :: "real list \<Rightarrow> real list \<Rightarrow> real" where
  "real_dot xs ys = sum_list (map2 (*) xs ys)"

text \<open>The sum of the unmasked rows, at one coordinate.\<close>

definition masked_sum :: "int list \<Rightarrow> nat \<Rightarrow> real list \<Rightarrow> nat \<Rightarrow> real" where
  "masked_sum attn len hidden d = sum_list (map (\<lambda>t. hidden ! (t * evs_dim + d)) (filter (\<lambda>t. attn ! t \<noteq> 0) [0..<len]))"

lemma pool_rows_real:
  assumes "\<forall>t \<in> set ts. t < length attn \<and> t * n + n \<le> length hidden" "length out = n"
  shows "pool_rows real_ops n attn hidden ts (c, out) =
    Some (c + int (length (filter (\<lambda>t. attn ! t \<noteq> 0) ts)),
      map (\<lambda>d. out ! d + sum_list (map (\<lambda>t. hidden ! (t * n + d)) (filter (\<lambda>t. attn ! t \<noteq> 0) ts))) [0..<n])"
  using assms
proof (induction ts arbitrary: c out)
  case Nil
  then show ?case by (auto intro: nth_equalityI)
next
  case (Cons t ts)
  let ?row = "take n (drop (t * n) hidden)"
  show ?case
  proof (cases "attn ! t = 0")
    case False
    have le: "n \<le> length hidden - t * n" using Cons.prems by (simp add: le_diff_conv2)
    then have "length (map2 (+) out ?row) = n" using Cons.prems by simp
    moreover have "map2 (+) out ?row ! d = out ! d + hidden ! (t * n + d)" if "d < n" for d
      using Cons.prems that le by simp
    moreover have "hidden_row n hidden t = Some ?row" using Cons.prems by (simp add: hidden_row_def)
    ultimately show ?thesis
      using Cons.IH [of "map2 (+) out ?row" "c + 1"] Cons.prems False
      by (simp add: real_ops_def add.assoc)
  qed (use Cons in simp)
qed

lemma sum_squares_real: "sum_squares real_ops out = sum_list (map (\<lambda>x. x * x) out)"
proof -
  have "foldl (\<lambda>n x. n + x * x) a out = a + sum_list (map (\<lambda>x. x * x) out)" for a :: real
    by (induction out arbitrary: a) simp_all
  then show ?thesis by (simp add: sum_squares_def real_ops_def)
qed

lemma real_dot_self: "real_dot xs xs = sum_squares real_ops xs"
  unfolding sum_squares_real real_dot_def by (induction xs) simp_all

lemma sum_list_squares_zero: "sum_list (map (\<lambda>x. x * x) xs) \<le> (0 :: real) \<Longrightarrow> x \<in> set xs \<Longrightarrow> x = 0"
proof (induction xs)
  case (Cons y ys)
  have "0 \<le> sum_list (map (\<lambda>x. x * x) ys)" by (induction ys) simp_all
  moreover have "0 \<le> y * y" by simp
  ultimately have "y * y \<le> 0 \<and> sum_list (map (\<lambda>x. x * x) ys) \<le> 0" using Cons.prems(1) by (auto simp del: zero_le_square)
  then have "y = 0 \<and> sum_list (map (\<lambda>x. x * x) ys) \<le> 0" by (auto simp: mult_le_0_iff)
  with Cons show ?case by auto
qed simp

lemma sum_list_scaled: "sum_list (map (\<lambda>x. x * x) (map (\<lambda>x. x / c) xs)) = sum_list (map (\<lambda>x. x * x) xs) / (c * c :: real)"
  by (induction xs) (simp_all add: add_divide_distrib)

lemma normalise_scaled:
  assumes "c > 0"
  shows "(let out = map (\<lambda>x. x / c) xs; norm = sqrt (sum_list (map (\<lambda>x. x * x) out)) in
    if norm > 0 then map (\<lambda>x. x / norm) out else out) = map (\<lambda>x. x / sqrt (sum_list (map (\<lambda>x. x * x) xs))) (xs :: real list)"
proof -
  let ?S = "sum_list (map (\<lambda>x. x * x) xs)"
  have n: "sqrt (sum_list (map (\<lambda>x. x * x) (map (\<lambda>x. x / c) xs))) = sqrt ?S / c"
    using assms unfolding sum_list_scaled by (simp add: real_sqrt_divide)
  show ?thesis
  proof (cases "?S \<le> 0")
    case True
    then have "\<forall>x \<in> set xs. x = 0" using sum_list_squares_zero by blast
    then show ?thesis unfolding Let_def n using True assms by (auto simp: divide_le_0_iff)
  next
    case False
    then show ?thesis unfolding Let_def n using assms by simp
  qed
qed

lemma evs_pool_real:
  assumes "pool_rows real_ops evs_dim attn hidden [0..<len] (0, replicate evs_dim 0) = Some (c, s)" "c > 0"
  shows "evs_pool real_ops attn len hidden = Some (map (\<lambda>x. x / sqrt (sum_list (map (\<lambda>x. x * x) s))) s)"
  using assms normalise_scaled [of "real_of_int c" s]
  by (auto simp: evs_pool_def scale_by_def sum_squares_real Let_def simp del: map_map map_eq_conv split: if_splits)

text \<open>C34. In exact arithmetic an embedding is the sum of the rows of the tokens the mask keeps, divided by its
  Euclidean length (the division by the number of tokens cancels): a unit vector, or zero when that sum is
  zero. The vector the engine's encoder computes from the same data is the same, which is what makes
  scores comparable across the two.\<close>

theorem embedding_exact:
  assumes "len \<le> length attn" "len * evs_dim \<le> length hidden"
  shows "\<exists>out. evs_pool real_ops attn len hidden = Some out \<and> length out = evs_dim \<and>
    (let norm = sqrt (\<Sum>d < evs_dim. (masked_sum attn len hidden d)\<^sup>2) in
      (\<forall>d < evs_dim. out ! d = masked_sum attn len hidden d / norm) \<and>
      (\<Sum>d < evs_dim. (out ! d)\<^sup>2) = (if norm = 0 then 0 else 1)) \<and>
    encoder_pool real_ops real_dot attn len evs_dim hidden = Some out"
proof -
  let ?s = "map (masked_sum attn len hidden) [0..<evs_dim]"
  let ?c = "int (length (filter (\<lambda>t. attn ! t \<noteq> 0) [0..<len]))"
  let ?N = "sqrt (sum_list (map (\<lambda>x. x * x) ?s))"
  let ?out = "map (\<lambda>x. x / ?N) ?s"
  have rows: "pool_rows real_ops evs_dim attn hidden [0..<len] (0, replicate evs_dim 0) = Some (?c, ?s)"
    using assms(1) row_in_bounds [OF _ assms(2)] by (subst pool_rows_real) (auto simp: masked_sum_def)
  have zero: "?s = replicate evs_dim 0" if "?c = 0"
    using that by (auto simp: masked_sum_def map_replicate_const intro!: nth_equalityI)
  have pool: "evs_pool real_ops attn len hidden = Some ?out"
  proof (cases "?c > 0")
    case True
    with rows show ?thesis by (rule evs_pool_real)
  next
    case False
    then have "?s = replicate evs_dim 0" by (intro zero) simp
    with False rows show ?thesis
      by (simp add: evs_pool_def Let_def scale_by_def sum_squares_real sum_list_replicate)
  qed
  have squares: "sum_list (map (\<lambda>x. x * x) (map f [0..<evs_dim])) = (\<Sum>d < evs_dim. (f d)\<^sup>2)" for f :: "nat \<Rightarrow> real"
    by (simp add: interv_sum_list_conv_sum_set_nat atLeast0LessThan power2_eq_square comp_def)
  have unit: "(\<Sum>d < evs_dim. (?out ! d)\<^sup>2) = (if ?N = 0 then 0 else 1)"
  proof -
    have "(\<Sum>d < evs_dim. (?out ! d)\<^sup>2) = (\<Sum>d < evs_dim. (masked_sum attn len hidden d)\<^sup>2 / ?N\<^sup>2)"
      by (intro sum.cong) (simp_all add: power_divide)
    also have "\<dots> = (\<Sum>d < evs_dim. (masked_sum attn len hidden d)\<^sup>2) / ?N\<^sup>2" by (simp add: sum_divide_distrib)
    also have "?N\<^sup>2 = (\<Sum>d < evs_dim. (masked_sum attn len hidden d)\<^sup>2)"
      unfolding squares by (intro real_sqrt_pow2 sum_nonneg) simp
    finally show ?thesis unfolding squares by simp
  qed
  have enc: "encoder_pool real_ops real_dot attn len evs_dim hidden = evs_pool real_ops attn len hidden"
    by (simp add: encoder_pool_def evs_pool_def real_dot_self)
  show ?thesis
    using pool unit enc unfolding Let_def squares [symmetric] by (intro exI [of _ ?out]) simp
qed

section \<open>Witnesses\<close>

text \<open>A library in which everything succeeds: objects are numbered 5, a run fills its outputs with value 6,
  and the output tensor has one row of ones.\<close>

definition demo_evs :: "unit ort_lib" where
  "demo_evs c s = (case c of
     Api fn args \<Rightarrow>
       (if fn = New New_Run then demo_ok 0 [] (map (\<lambda>_. 6) (filter (\<lambda>q. q = NULL) (arg_refs (args ! 7))))
        else if fn = Fn ''GetTensorMutableData'' then (demo_ok 0 [] [])\<lparr>o_ints := replicate evs_dim 1\<rparr>
        else (demo_ok 0 ''y'' [])\<lparr>o_ref := 5\<rparr>)
   | _ \<Rightarrow> (demo_ok 0 [] [])\<lparr>o_ref := 5\<rparr>, s)"

lemma demo_evs_doc: "null_on_error demo_evs" "default_allocator_doc demo_evs" "run_doc demo_evs" "hidden_doc demo_evs 1"
  by (simp_all add: null_on_error_def default_allocator_doc_def run_doc_def hidden_doc_def demo_evs_def demo_ok_def Let_def arg_refs_def)


theorem embedding_exact_witness:
  "\<exists>out. evs_pool real_ops [1, 0] 2 (replicate 768 1) = Some out \<and> length out = 384"
  using embedding_exact [of 2 "[1, 0]" "replicate 768 1"] by (auto simp: evs_dim_def)

end
